(* ===== verification/PyBase.thy ===== *)
theory PyBase
  imports Complex_Main "HOL-Library.AList" "HOL-Library.List_Lexorder" "HOL-Library.Char_ord"
begin

text \<open>
  The prelude: what the services use of Python itself. JSON-like values
  (\<open>pyval\<close>), exceptions as the left summand of a result, dictionaries as
  association lists in insertion order, and the string operations the code calls
  (\<open>startswith\<close>, \<open>strip\<close>, \<open>lower\<close>, \<open>upper\<close>,
  \<open>isdigit\<close>, \<open>int(text, base)\<close>). Characters are the code points below 256:
  text with other code points is outside the model. The parser \<open>py_int\<close> follows
  CPython's rules exactly: surrounding white space, a sign, a base prefix and single
  underscores are all accepted, and a decimal text of more than 4300 digits is refused.
\<close>

named_theorems res_simps "evaluation of the result monad"
named_theorems str_simps "evaluation of string operations"

section \<open>Exceptions and results\<close>

datatype py_exn = ValueError | TypeError | KeyError | OverflowError | UnicodeDecodeError
  | RuntimeError | AttributeError

type_synonym 'a py = "py_exn + 'a"

definition rbind :: "'e + 'a \<Rightarrow> ('a \<Rightarrow> 'e + 'b) \<Rightarrow> 'e + 'b" where
  "rbind m f = (case m of Inl e \<Rightarrow> Inl e | Inr x \<Rightarrow> f x)"

lemma rbind_simps [simp, res_simps]:
  "rbind (Inl e) f = Inl e"
  "rbind (Inr x) f = f x"
  by (simp_all add: rbind_def)

lemma rbind_eq_Inr [res_simps]: "rbind m f = Inr y \<longleftrightarrow> (\<exists>x. m = Inr x \<and> f x = Inr y)"
  by (cases m) auto

lemma rbind_eq_Inl [res_simps]:
  "rbind m f = Inl e \<longleftrightarrow> m = Inl e \<or> (\<exists>x. m = Inr x \<and> f x = Inl e)"
  by (cases m) auto

lemma rbindE:
  assumes "rbind m f = Inr y"
  obtains x where "m = Inr x" and "f x = Inr y"
  using assms by (auto simp: rbind_eq_Inr)

lemma rbind_cong [cong]:
  "m = m' \<Longrightarrow> (\<And>x. m' = Inr x \<Longrightarrow> f x = g x) \<Longrightarrow> rbind m f = rbind m' g"
  by (cases m') auto

fun map_res :: "('a \<Rightarrow> 'e + 'b) \<Rightarrow> 'a list \<Rightarrow> 'e + 'b list" where
  "map_res f [] = Inr []"
| "map_res f (x # xs) = rbind (f x) (\<lambda>y. rbind (map_res f xs) (\<lambda>ys. Inr (y # ys)))"

lemma map_sum_id_Inr [res_simps]: "map_sum id f m = Inr y \<longleftrightarrow> (\<exists>z. m = Inr z \<and> y = f z)"
  by (cases m) auto

lemma map_res_length: "map_res f xs = Inr ys \<Longrightarrow> length ys = length xs"
  by (induction xs arbitrary: ys) (auto simp: rbind_eq_Inr)

lemma map_res_Inr: "(\<And>x. x \<in> set xs \<Longrightarrow> f x = Inr (g x)) \<Longrightarrow> map_res f xs = Inr (map g xs)"
  by (induction xs) auto

section \<open>Values and dictionaries\<close>

text \<open>A binary floating-point number is its exact rational value, an infinity or NaN.\<close>

datatype pyfloat = Fin rat | PosInf | NegInf | NaN

datatype pyval = VNone | VBool bool | VInt int | VFloat pyfloat | VStr string
  | VList "pyval list" | VDict "(string \<times> pyval) list"

type_synonym pydict = "(string \<times> pyval) list"

definition dict_get :: "pydict \<Rightarrow> string \<Rightarrow> pyval" where
  "dict_get d k = (case map_of d k of None \<Rightarrow> VNone | Some v \<Rightarrow> v)"

definition dict_get_or :: "pydict \<Rightarrow> string \<Rightarrow> pyval \<Rightarrow> pyval" where
  "dict_get_or d k dflt = (case map_of d k of None \<Rightarrow> dflt | Some v \<Rightarrow> v)"

definition dict_has :: "pydict \<Rightarrow> string \<Rightarrow> bool" where
  "dict_has d k = (map_of d k \<noteq> None)"

definition dict_set :: "string \<Rightarrow> 'v \<Rightarrow> (string \<times> 'v) list \<Rightarrow> (string \<times> 'v) list" where
  "dict_set = AList.update"

definition wf_dict :: "(string \<times> 'v) list \<Rightarrow> bool" where
  "wf_dict d = distinct (map fst d)"

lemma dict_get_Nil [simp]: "dict_get [] k = VNone"
  by (simp add: dict_get_def)

lemma dict_get_Cons [simp]: "dict_get ((a, v) # d) k = (if a = k then v else dict_get d k)"
  by (simp add: dict_get_def)

lemma dict_has_Nil [simp]: "\<not> dict_has [] k"
  by (simp add: dict_has_def)

lemma dict_has_Cons [simp]: "dict_has ((a, v) # d) k = (a = k \<or> dict_has d k)"
  by (simp add: dict_has_def)

lemma dict_get_missing: "\<not> dict_has d k \<Longrightarrow> dict_get d k = VNone"
  by (simp add: dict_has_def dict_get_def)

lemma map_of_dict_set [simp]: "map_of (dict_set k v d) = (map_of d)(k \<mapsto> v)"
  by (simp add: dict_set_def update_conv')

lemma wf_dict_set [intro]: "wf_dict d \<Longrightarrow> wf_dict (dict_set k v d)"
  by (simp add: wf_dict_def dict_set_def distinct_update)

lemma dict_get_set [simp]: "dict_get (dict_set k v d) k' = (if k' = k then v else dict_get d k')"
  by (simp add: dict_get_def)

fun truthy :: "pyval \<Rightarrow> bool" where
  "truthy VNone = False"
| "truthy (VBool b) = b"
| "truthy (VInt n) = (n \<noteq> 0)"
| "truthy (VFloat x) = (x \<noteq> Fin 0)"
| "truthy (VStr s) = (s \<noteq> [])"
| "truthy (VList xs) = (xs \<noteq> [])"
| "truthy (VDict d) = (d \<noteq> [])"

fun is_dict :: "pyval \<Rightarrow> bool" where
  "is_dict (VDict d) = True"
| "is_dict _ = False"

fun is_str :: "pyval \<Rightarrow> bool" where
  "is_str (VStr s) = True"
| "is_str _ = False"

fun is_list :: "pyval \<Rightarrow> bool" where
  "is_list (VList xs) = True"
| "is_list _ = False"

text \<open>The entries of a dictionary value; the callers check \<open>isinstance(_, dict)\<close> first.\<close>

fun dict_items :: "pyval \<Rightarrow> pydict" where
  "dict_items (VDict d) = d"
| "dict_items _ = []"

text \<open>\<open>sorted(set(xs))\<close> on texts.\<close>

definition sorted_set :: "string list \<Rightarrow> string list" where
  "sorted_set xs = sort (remdups xs)"

lemma sorted_sorted_set [simp]: "sorted (sorted_set xs)"
  by (simp add: sorted_set_def)

lemma distinct_sorted_set [simp]: "distinct (sorted_set xs)"
  by (simp add: sorted_set_def)

lemma set_sorted_set [simp]: "set (sorted_set xs) = set xs"
  by (simp add: sorted_set_def)

end
