(* ===== verification/PyText.thy ===== *)
theory PyText
  imports PyBase
begin

text \<open>
  Text operations of Python on code points below 256, the integer parser
  \<open>int(text, base)\<close>, and the lemmas on canonical hexadecimal text that the
  decoders share: \<open>hexw w n\<close> is \<open>n\<close> written with exactly \<open>w\<close>
  lower-case digits, \<open>hex_value\<close> reads it back, and \<open>py_int 16\<close> agrees
  with it on every non-empty text of hexadecimal digits.
\<close>

section \<open>Characters and texts\<close>

definition code :: "char \<Rightarrow> nat" where
  "code c = of_char c"

definition starts_with :: "string \<Rightarrow> string \<Rightarrow> bool" where
  "starts_with p s = (take (length p) s = p)"

definition ends_with :: "string \<Rightarrow> string \<Rightarrow> bool" where
  "ends_with p s = (length p \<le> length s \<and> drop (length s - length p) s = p)"

text \<open>White space of the C parser, and of \<open>str.strip\<close>.\<close>

definition c_space :: "char \<Rightarrow> bool" where
  "c_space c = (9 \<le> code c \<and> code c \<le> 13 \<or> code c = 32)"

definition py_space :: "char \<Rightarrow> bool" where
  "py_space c = (9 \<le> code c \<and> code c \<le> 13 \<or> 28 \<le> code c \<and> code c \<le> 32
     \<or> code c = 133 \<or> code c = 160)"

definition py_strip :: "string \<Rightarrow> string" where
  "py_strip s = rev (dropWhile py_space (rev (dropWhile py_space s)))"

definition lower_char :: "char \<Rightarrow> char" where
  "lower_char c = (if 65 \<le> code c \<and> code c \<le> 90 \<or> 192 \<le> code c \<and> code c \<le> 222 \<and> code c \<noteq> 215
     then char_of (code c + 32) else c)"

definition py_lower :: "string \<Rightarrow> string" where
  "py_lower s = map lower_char s"

text \<open>
  \<open>str.upper\<close>: the sharp s becomes two letters. The micro sign and y with diaeresis have
  upper-case forms beyond code point 255; they stay as they are, which is equally different
  from every ASCII text the code compares the result with.
\<close>

definition upper_char :: "char \<Rightarrow> string" where
  "upper_char c = (if 97 \<le> code c \<and> code c \<le> 122 \<or> 224 \<le> code c \<and> code c \<le> 254 \<and> code c \<noteq> 247
     then [char_of (code c - 32)] else if code c = 223 then ''SS'' else [c])"

definition py_upper :: "string \<Rightarrow> string" where
  "py_upper s = concat (map upper_char s)"

text \<open>\<open>str.isdigit\<close>: the superscripts two, three and one count as digits.\<close>

definition is_digit_char :: "char \<Rightarrow> bool" where
  "is_digit_char c = (48 \<le> code c \<and> code c \<le> 57 \<or> code c \<in> {178, 179, 185})"

definition py_isdigit :: "string \<Rightarrow> bool" where
  "py_isdigit s = (s \<noteq> [] \<and> list_all is_digit_char s)"

section \<open>Integer parsing\<close>

definition digit_val :: "char \<Rightarrow> nat option" where
  "digit_val c =
     (if 48 \<le> code c \<and> code c \<le> 57 then Some (code c - 48)
      else if 97 \<le> code c \<and> code c \<le> 122 then Some (code c - 87)
      else if 65 \<le> code c \<and> code c \<le> 90 then Some (code c - 55)
      else None)"

definition is_digit :: "nat \<Rightarrow> char \<Rightarrow> bool" where
  "is_digit b c = (case digit_val c of None \<Rightarrow> False | Some d \<Rightarrow> d < b)"

definition digit_of :: "char \<Rightarrow> nat" where
  "digit_of c = (case digit_val c of None \<Rightarrow> 0 | Some d \<Rightarrow> d)"

text \<open>
  The digit loop: \<open>us\<close> says that the previous character was an underscore,
  \<open>k\<close> counts digits. The result is the value, the count and the rest of the text.
\<close>

fun scan_digits :: "nat \<Rightarrow> bool \<Rightarrow> nat \<Rightarrow> nat \<Rightarrow> string \<Rightarrow> (nat \<times> nat \<times> string) option" where
  "scan_digits b us acc k [] = (if us then None else Some (acc, k, []))"
| "scan_digits b us acc k (c # cs) =
     (if c = CHR ''_'' then (if us then None else scan_digits b True acc k cs)
      else if is_digit b c then scan_digits b False (acc * b + digit_of c) (Suc k) cs
      else if us then None else Some (acc, k, c # cs))"

definition norm_int_text :: "string \<Rightarrow> string" where
  "norm_int_text s =
     (if list_all (\<lambda>c. code c < 128) s then s
      else map (\<lambda>c. if py_space c then CHR '' '' else if code c < 128 then c else CHR ''?'') s)"

fun split_sign :: "string \<Rightarrow> bool \<times> string" where
  "split_sign [] = (False, [])"
| "split_sign (c # cs) =
     (if c = CHR ''-'' then (True, cs) else if c = CHR ''+'' then (False, cs) else (False, c # cs))"

definition skip_prefix :: "nat \<Rightarrow> string \<Rightarrow> string" where
  "skip_prefix b s =
     (if b = 16 \<and> (starts_with ''0x'' s \<or> starts_with ''0X'' s)
      then (if starts_with ''_'' (drop 2 s) then drop 3 s else drop 2 s) else s)"

definition int_max_str_digits :: nat where
  "int_max_str_digits = 4300"

text \<open>\<open>int(s, b)\<close> for the bases 10 and 16; \<open>None\<close> is \<open>ValueError\<close>.\<close>

definition py_int :: "nat \<Rightarrow> string \<Rightarrow> int option" where
  "py_int b s =
     (case split_sign (dropWhile c_space (norm_int_text s)) of (neg, t) \<Rightarrow>
        let u = skip_prefix b t in
        if starts_with ''_'' u then None
        else case scan_digits b False 0 0 u of
          None \<Rightarrow> None
        | Some (v, k, rest) \<Rightarrow>
            if k = 0 \<or> (b = 10 \<and> int_max_str_digits < k) \<or> dropWhile c_space rest \<noteq> []
            then None else Some (if neg then - int v else int v))"

text \<open>Evaluation rules for closed texts.\<close>

lemmas text_eval = starts_with_def ends_with_def py_lower_def lower_char_def py_int_def
  norm_int_text_def skip_prefix_def is_digit_def digit_of_def digit_val_def c_space_def
  py_space_def int_max_str_digits_def

section \<open>Hexadecimal text\<close>

definition hex_value :: "string \<Rightarrow> nat" where
  "hex_value s = foldl (\<lambda>a c. a * 16 + digit_of c) 0 s"

definition is_hex :: "string \<Rightarrow> bool" where
  "is_hex s = list_all (is_digit 16) s"

definition nibble :: "nat \<Rightarrow> char" where
  "nibble n = char_of (if n < 10 then n + 48 else n + 87)"

fun hexw :: "nat \<Rightarrow> nat \<Rightarrow> string" where
  "hexw 0 n = []"
| "hexw (Suc w) n = hexw w (n div 16) @ [nibble (n mod 16)]"

lemma code_char_of [simp]: "n < 256 \<Longrightarrow> code (char_of n) = n"
  by (simp add: code_def)

lemma char_of_code [simp]: "char_of (code c) = c"
  by (simp add: code_def)

lemma code_less [simp]: "code c < 256"
  by (metis code_def mod_less_divisor of_char_mod_256 zero_less_numeral)

lemma code_eq_iff: "code c = code d \<longleftrightarrow> c = d"
  by (metis char_of_code)

lemma code_nibble: "n < 16 \<Longrightarrow> code (nibble n) = (if n < 10 then n + 48 else n + 87)"
  by (simp add: nibble_def)

lemma digit_val_nibble [simp]: "n < 16 \<Longrightarrow> digit_val (nibble n) = Some n"
  by (simp add: digit_val_def code_nibble)

lemma digit_of_nibble [simp]: "n < 16 \<Longrightarrow> digit_of (nibble n) = n"
  by (simp add: digit_of_def)

lemma is_digit_nibble [simp]: "n < 16 \<Longrightarrow> is_digit 16 (nibble n)"
  by (simp add: is_digit_def)

lemma lower_nibble [simp]: "n < 16 \<Longrightarrow> lower_char (nibble n) = nibble n"
  by (simp add: lower_char_def code_nibble)

lemma length_hexw [simp]: "length (hexw w n) = w"
  by (induction w arbitrary: n) auto

lemma is_hex_hexw [simp]: "is_hex (hexw w n)"
  by (induction w arbitrary: n) (auto simp: is_hex_def)

lemma lower_hexw [simp]: "py_lower (hexw w n) = hexw w n"
  by (induction w arbitrary: n) (auto simp: py_lower_def)

lemma hexw_eq_Nil [simp]: "hexw w n = [] \<longleftrightarrow> w = 0"
  by (cases w) auto

lemma hexw_zero [simp]: "hexw w 0 = replicate w (CHR ''0'')"
proof (induction w)
  case (Suc w)
  have "code (nibble 0) = 48" and "code (CHR ''0'') = 48"
    by (simp add: code_nibble) (simp add: code_def)
  then have "nibble 0 = CHR ''0''" by (metis code_eq_iff)
  with Suc show ?case by (simp add: replicate_append_same)
qed simp

lemma hex_value_append: "hex_value (s @ [c]) = hex_value s * 16 + digit_of c"
  by (simp add: hex_value_def)

lemma hex_value_hexw [simp]: "hex_value (hexw w n) = n mod 16 ^ w"
proof (induction w arbitrary: n)
  case (Suc w)
  have "(n div 16) mod 16 ^ w * 16 + n mod 16 = n mod (16 * 16 ^ w)"
    by (simp add: mod_mult2_eq)
  with Suc show ?case by (simp add: hex_value_append)
qed (simp add: hex_value_def)

lemma hexw_add: "hexw (a + b) n = hexw a (n div 16 ^ b) @ hexw b n"
proof (induction b arbitrary: n)
  case (Suc b)
  have "n div 16 div 16 ^ b = n div (16 * 16 ^ b)"
    by (simp add: div_mult2_eq)
  with Suc show ?case by simp
qed simp

lemma digit_of_less: "is_digit b c \<Longrightarrow> digit_of c < b"
  by (auto simp: is_digit_def digit_of_def split: option.splits)

lemma is_digit_imp:
  "is_digit 16 c \<Longrightarrow> (48 \<le> code c \<and> code c \<le> 57) \<or> (97 \<le> code c \<and> code c \<le> 102)
     \<or> (65 \<le> code c \<and> code c \<le> 70)"
  by (auto simp: is_digit_def digit_val_def split: if_splits)

lemma not_digit_special [simp]:
  "\<not> is_digit 16 (CHR ''_'')" "\<not> is_digit 16 (CHR ''-'')" "\<not> is_digit 16 (CHR ''+'')"
  "\<not> is_digit 16 (CHR ''x'')" "\<not> is_digit 16 (CHR ''X'')"
  by (simp_all add: is_digit_def digit_val_def code_def)

lemma digit_not_space: "is_digit 16 c \<Longrightarrow> \<not> c_space c"
  by (drule is_digit_imp) (auto simp: c_space_def)

lemma hex_value_bound: "is_hex s \<Longrightarrow> hex_value s < 16 ^ length s"
proof (induction s rule: rev_induct)
  case (snoc c s)
  then have "hex_value s < 16 ^ length s" and "digit_of c < 16"
    by (auto simp: is_hex_def intro: digit_of_less)
  then show ?case by (simp add: hex_value_append)
qed (simp add: hex_value_def)

lemma scan_hex:
  "is_hex s \<Longrightarrow>
   scan_digits 16 us acc k s =
     (if s = [] \<and> us then None
      else Some (foldl (\<lambda>a c. a * 16 + digit_of c) acc s, k + length s, []))"
proof (induction s arbitrary: us acc k)
  case (Cons c cs)
  then have "is_digit 16 c" and "is_hex cs" by (auto simp: is_hex_def)
  moreover from this have "c \<noteq> CHR ''_''" by auto
  ultimately show ?case using Cons.IH by simp
qed simp

lemma norm_hex: "is_hex s \<Longrightarrow> norm_int_text s = s"
  by (auto simp: norm_int_text_def is_hex_def list_all_iff dest!: is_digit_imp)

lemma hex_not_prefixed:
  assumes "is_hex s"
  shows "\<not> starts_with ''0x'' s" and "\<not> starts_with ''0X'' s" and "\<not> starts_with ''_'' s"
  using assms by (auto simp: starts_with_def is_hex_def list_all_iff take_Cons' Cons_eq_append_conv
      dest!: arg_cong [of _ _ "\<lambda>t. CHR ''x'' \<in> set t \<or> CHR ''X'' \<in> set t \<or> CHR ''_'' \<in> set t"]
      in_set_takeD)

lemma split_sign_hex: "is_hex s \<Longrightarrow> split_sign s = (False, s)"
  by (cases s) (auto simp: is_hex_def)

lemma drop_space_hex: "is_hex s \<Longrightarrow> dropWhile c_space s = s"
  by (cases s) (auto simp: is_hex_def digit_not_space)

text \<open>On a non-empty text of hexadecimal digits the parser reads the plain value.\<close>

lemma py_int_hex:
  assumes "is_hex s" and "s \<noteq> []"
  shows "py_int 16 s = Some (int (hex_value s))"
  using assms
  by (simp add: py_int_def norm_hex drop_space_hex split_sign_hex skip_prefix_def hex_not_prefixed
      scan_hex hex_value_def)

lemma py_int_hexw [simp]: "0 < w \<Longrightarrow> n < 16 ^ w \<Longrightarrow> py_int 16 (hexw w n) = Some (int n)"
  by (subst py_int_hex) auto

lemma text_Nil [simp]: "is_hex []" "py_lower [] = []"
  by (simp_all add: is_hex_def py_lower_def)

lemma is_hex_append [simp]: "is_hex (s @ t) \<longleftrightarrow> is_hex s \<and> is_hex t"
  by (simp add: is_hex_def)

lemma py_int_zero [simp]: "py_int 16 ''0'' = Some 0"
  by (simp add: text_eval code_def)

lemma py_int_prefixed:
  assumes "is_hex s" and "s \<noteq> []"
  shows "py_int 16 (''0x'' @ s) = Some (int (hex_value s))"
proof -
  have codes: "code (CHR ''0'') = 48" "code (CHR ''x'') = 120" by (simp_all add: code_def)
  have "list_all (\<lambda>c. code c < 128) s"
    using assms(1) by (auto simp: is_hex_def list_all_iff dest!: is_digit_imp)
  then have norm: "norm_int_text (''0x'' @ s) = ''0x'' @ s"
    by (simp add: norm_int_text_def codes)
  have drop: "dropWhile c_space (''0x'' @ s) = ''0x'' @ s" by (simp add: c_space_def codes)
  have sign: "split_sign (''0x'' @ s) = (False, ''0x'' @ s)" by simp
  have skip: "skip_prefix 16 (''0x'' @ s) = s"
    using hex_not_prefixed(3) [OF assms(1)] by (simp add: skip_prefix_def starts_with_def)
  have "scan_digits 16 False 0 0 s = Some (hex_value s, length s, [])"
    using scan_hex [OF assms(1), of False 0 0] by (simp add: hex_value_def)
  then show ?thesis
    unfolding py_int_def norm drop sign prod.case skip Let_def
    using hex_not_prefixed(3) [OF assms(1)] assms(2) by simp
qed

lemma is_hex_take [intro]: "is_hex s \<Longrightarrow> is_hex (take n s)"
  by (auto simp: is_hex_def list_all_iff dest: in_set_takeD)

lemma is_hex_drop [intro]: "is_hex s \<Longrightarrow> is_hex (drop n s)"
  by (auto simp: is_hex_def list_all_iff dest: in_set_dropD)

lemma lower_digit:
  assumes "is_digit 16 c"
  shows "is_digit 16 (lower_char c)" and "digit_of (lower_char c) = digit_of c"
  using is_digit_imp [OF assms]
  by (auto simp: lower_char_def is_digit_def digit_of_def digit_val_def)

lemma is_hex_lower: "is_hex s \<Longrightarrow> is_hex (py_lower s)"
  by (auto simp: is_hex_def py_lower_def list_all_iff lower_digit)

lemma hex_value_lower: "is_hex s \<Longrightarrow> hex_value (py_lower s) = hex_value s"
proof (induction s rule: rev_induct)
  case (snoc c s)
  then show ?case
    using lower_digit(2) [of c] by (simp add: py_lower_def hex_value_append is_hex_def)
qed (simp add: py_lower_def hex_value_def)

lemma length_lower [simp]: "length (py_lower s) = length s"
  by (simp add: py_lower_def)

lemma lower_append [simp]: "py_lower (s @ t) = py_lower s @ py_lower t"
  by (simp add: py_lower_def)

lemma lower_take: "py_lower (take n s) = take n (py_lower s)"
  by (simp add: py_lower_def take_map)

lemma lower_drop: "py_lower (drop n s) = drop n (py_lower s)"
  by (simp add: py_lower_def drop_map)

lemma lower_char_idem [simp]: "lower_char (lower_char c) = lower_char c"
  by (auto simp: lower_char_def)

lemma lower_idem [simp]: "py_lower (py_lower s) = py_lower s"
  by (simp add: py_lower_def)

section \<open>Decimal text, slices and byte strings\<close>

definition dec_digit :: "nat \<Rightarrow> char" where
  "dec_digit n = char_of (n + 48)"

text \<open>\<open>str(n)\<close> of a non-negative integer, and \<open>str(n)\<close> of any integer.\<close>

fun dec_text :: "nat \<Rightarrow> string" where
  "dec_text n = (if n < 10 then [dec_digit n] else dec_text (n div 10) @ [dec_digit (n mod 10)])"

declare dec_text.simps [simp del]

definition int_text :: "int \<Rightarrow> string" where
  "int_text n = (if n < 0 then CHR ''-'' # dec_text (nat (- n)) else dec_text (nat n))"

text \<open>\<open>s[a:b]\<close> with Python's treatment of negative and out-of-range bounds.\<close>

definition clamp_index :: "nat \<Rightarrow> int \<Rightarrow> nat" where
  "clamp_index n i = (if i < 0 then nat (max 0 (int n + i)) else min n (nat i))"

definition py_slice :: "'a list \<Rightarrow> int \<Rightarrow> int \<Rightarrow> 'a list" where
  "py_slice xs a b =
     (let i = clamp_index (length xs) a; j = clamp_index (length xs) b
      in take (j - i) (drop i xs))"

lemma py_slice_nat: "py_slice xs (int i) (int j) = take (j - i) (drop i xs)"
proof (cases "i \<le> length xs")
  case True
  then show ?thesis
    by (cases "j \<le> length xs") (auto simp: py_slice_def clamp_index_def min_def Let_def)
qed (auto simp: py_slice_def clamp_index_def Let_def)

text \<open>\<open>bytes.fromhex\<close>: ASCII white space is skipped before each pair of digits.\<close>

fun from_hex_bytes :: "string \<Rightarrow> nat list option" where
  "from_hex_bytes [] = Some []"
| "from_hex_bytes [c] = (if c_space c then Some [] else None)"
| "from_hex_bytes (c # d # cs) =
     (if c_space c then from_hex_bytes (d # cs)
      else if is_digit 16 c \<and> is_digit 16 d then
        map_option (\<lambda>bs. (digit_of c * 16 + digit_of d) # bs) (from_hex_bytes cs)
      else None)"

text \<open>
  Strict UTF-8 decoding to code points: continuation bytes, no overlong forms, no surrogates,
  nothing beyond 10FFFF. \<open>None\<close> is \<open>UnicodeDecodeError\<close>.
\<close>

definition cont_byte :: "nat \<Rightarrow> bool" where
  "cont_byte b = (128 \<le> b \<and> b < 192)"

fun utf8_points :: "nat list \<Rightarrow> nat list option" where
  "utf8_points [] = Some []"
| "utf8_points (b # bs) =
     (if b < 128 then map_option ((#) b) (utf8_points bs)
      else if 194 \<le> b \<and> b < 224 then
        (case bs of
           c # cs \<Rightarrow> if cont_byte c
             then map_option ((#) ((b - 192) * 64 + (c - 128))) (utf8_points cs) else None
         | _ \<Rightarrow> None)
      else if 224 \<le> b \<and> b < 240 then
        (case bs of
           c # d # ds \<Rightarrow>
             (let p = (b - 224) * 4096 + (c - 128) * 64 + (d - 128) in
              if cont_byte c \<and> cont_byte d \<and> 2048 \<le> p \<and> \<not> (55296 \<le> p \<and> p < 57344)
              then map_option ((#) p) (utf8_points ds) else None)
         | _ \<Rightarrow> None)
      else if 240 \<le> b \<and> b < 245 then
        (case bs of
           c # d # e # es \<Rightarrow>
             (let p = (b - 240) * 262144 + (c - 128) * 4096 + (d - 128) * 64 + (e - 128) in
              if cont_byte c \<and> cont_byte d \<and> cont_byte e \<and> 65536 \<le> p \<and> p < 1114112
              then map_option ((#) p) (utf8_points es) else None)
         | _ \<Rightarrow> None)
      else None)"

text \<open>\<open>text.rpartition(sep)\<close> for a one-character separator that occurs in the text.\<close>

definition before_last :: "char \<Rightarrow> string \<Rightarrow> string" where
  "before_last sep s = rev (drop 1 (dropWhile (\<lambda>c. c \<noteq> sep) (rev s)))"

definition after_last :: "char \<Rightarrow> string \<Rightarrow> string" where
  "after_last sep s = rev (takeWhile (\<lambda>c. c \<noteq> sep) (rev s))"

lemma after_last_stop [simp]: "sep \<notin> set t \<Longrightarrow> after_last sep (s @ sep # t) = t"
proof -
  assume "sep \<notin> set t"
  then have "takeWhile (\<lambda>c. c \<noteq> sep) (rev t @ sep # rev s) = rev t"
    by (subst takeWhile_append2) auto
  then show ?thesis by (simp add: after_last_def)
qed

definition join :: "string \<Rightarrow> string list \<Rightarrow> string" where
  "join sep xs = (case xs of [] \<Rightarrow> [] | y # ys \<Rightarrow> y @ concat (map (\<lambda>t. sep @ t) ys))"

text \<open>
  \<open>str(value)\<close>. The texts of floats, lists and dictionaries are their \<open>repr\<close>, left as
  the parameter \<open>rep\<close>: no result below depends on it.
\<close>

fun py_str :: "(pyval \<Rightarrow> string) \<Rightarrow> pyval \<Rightarrow> string" where
  "py_str rep (VStr s) = s"
| "py_str rep (VInt n) = int_text n"
| "py_str rep (VBool b) = (if b then ''True'' else ''False'')"
| "py_str rep VNone = ''None''"
| "py_str rep v = rep v"

lemma code_dec_digit: "n < 10 \<Longrightarrow> code (dec_digit n) = n + 48"
  by (simp add: dec_digit_def)

lemma dec_digit_is_digit:
  assumes "n < 10"
  shows "digit_val (dec_digit n) = Some n" and "is_digit_char (dec_digit n)"
    and "\<not> c_space (dec_digit n)" and "dec_digit n \<notin> {CHR ''-'', CHR ''+'', CHR ''_''}"
proof -
  have "code (CHR ''-'') = 45" "code (CHR ''+'') = 43" "code (CHR ''_'') = 95"
    by (simp_all add: code_def)
  then show "dec_digit n \<notin> {CHR ''-'', CHR ''+'', CHR ''_''}"
    using code_dec_digit [OF assms] assms by auto
qed (use assms in \<open>simp_all add: digit_val_def is_digit_char_def c_space_def code_dec_digit\<close>)

lemma dec_text_chars: "c \<in> set (dec_text n) \<Longrightarrow> \<exists>d<10. c = dec_digit d"
proof (induction n rule: dec_text.induct)
  case (1 n)
  show ?case
  proof (cases "n < 10")
    case True
    with "1.prems" show ?thesis by (auto simp: dec_text.simps [of n])
  next
    case False
    with "1.prems" consider "c \<in> set (dec_text (n div 10))" | "c = dec_digit (n mod 10)"
      by (auto simp: dec_text.simps [of n])
    then show ?thesis
    proof cases
      case 1
      with False "1.IH" show ?thesis by blast
    next
      case 2
      then show ?thesis by (intro exI [of _ "n mod 10"]) auto
    qed
  qed
qed

lemma dec_text_nonempty [simp]: "dec_text n \<noteq> []"
  by (subst dec_text.simps) simp

lemma dec_text_isdigit: "py_isdigit (dec_text n)"
  by (auto simp: py_isdigit_def list_all_iff dest!: dec_text_chars dec_digit_is_digit(2))

lemma length_dec_text: "n < 10 ^ k \<Longrightarrow> 0 < k \<Longrightarrow> length (dec_text n) \<le> k"
proof (induction k arbitrary: n)
  case (Suc k)
  show ?case
  proof (cases "n < 10")
    case True
    then show ?thesis by (subst dec_text.simps) simp
  next
    case False
    with Suc.prems have "n div 10 < 10 ^ k" and "0 < k"
      by (auto simp: less_mult_imp_div_less) (cases k, auto)
    with False Suc.IH show ?thesis by (subst dec_text.simps) simp
  qed
qed simp

lemma scan_append:
  "scan_digits b us acc k s = Some (v, j, []) \<Longrightarrow>
   scan_digits b us acc k (s @ t) = scan_digits b False v j t \<or> s = []"
  by (induction b us acc k s rule: scan_digits.induct) (auto split: if_splits)

lemma scan_dec_text:
  "scan_digits 10 False 0 0 (dec_text n) = Some (n, length (dec_text n), [])"
proof (induction n rule: dec_text.induct)
  case (1 n)
  show ?case
  proof (cases "n < 10")
    case True
    with dec_digit_is_digit [of n] show ?thesis
      by (simp add: dec_text.simps [of n] is_digit_def digit_of_def)
  next
    case False
    let ?s = "dec_text (n div 10)"
    have "scan_digits 10 False 0 0 (?s @ [dec_digit (n mod 10)]) =
        scan_digits 10 False (n div 10) (length ?s) [dec_digit (n mod 10)]"
      using scan_append [OF "1.IH" [OF False]] by simp
    with False dec_digit_is_digit [of "n mod 10"] show ?thesis
      by (simp add: dec_text.simps [of n] is_digit_def digit_of_def)
  qed
qed

lemma py_int_dec_text:
  assumes "length (dec_text n) \<le> int_max_str_digits"
  shows "py_int 10 (dec_text n) = Some (int n)"
proof -
  have ascii: "list_all (\<lambda>c. code c < 128) (dec_text n)"
    by (auto simp: list_all_iff code_dec_digit dest!: dec_text_chars)
  obtain c cs where cs: "dec_text n = c # cs" by (cases "dec_text n") auto
  then obtain d where "d < 10" and c: "c = dec_digit d"
    using dec_text_chars [of c n] by auto
  then have head: "\<not> c_space c" "c \<noteq> CHR ''-''" "c \<noteq> CHR ''+''" "c \<noteq> CHR ''_''"
    using dec_digit_is_digit(3,4) [of d] by auto
  have "scan_digits 10 False 0 0 (c # cs) = Some (n, length (c # cs), [])"
    using scan_dec_text [of n] cs by simp
  with head assms cs ascii show ?thesis
    by (simp add: py_int_def norm_int_text_def skip_prefix_def starts_with_def
        del: scan_digits.simps)
qed

lemma py_int_small: "n < 1000 \<Longrightarrow> py_int 10 (dec_text n) = Some (int n)"
  using length_dec_text [of n 3] by (intro py_int_dec_text) (simp add: int_max_str_digits_def)

end
