(* ===== verification/EvmCalldata.thy ===== *)
theory EvmCalldata
  imports PyText
begin

text \<open>
  The ABI-free calldata decoder of \<open>services/evm_decode.py\<close>
  (\<open>_word\<close>, \<open>_address\<close>, \<open>_uint\<close>, \<open>_bool\<close>,
  \<open>decode_common_calldata\<close>). A decoded call is the dictionary the code returns. The
  locale \<open>word_codec\<close> is the interface between a 32-byte word decoder and its callers:
  what it returns on the words of a canonical encoding.
\<close>

section \<open>Words\<close>

definition UINT256_MAX :: int where
  "UINT256_MAX = 2 ^ 256 - 1"

definition word_at :: "string \<Rightarrow> nat \<Rightarrow> string option" where
  "word_at data index =
     (let start = 8 + index * 64; stop = start + 64
      in if length data < stop then None else Some (take (stop - start) (drop start data)))"

definition address_of :: "string option \<Rightarrow> string option" where
  "address_of w = (case w of None \<Rightarrow> None | Some word \<Rightarrow>
     if length word \<noteq> 64 then None
     else if py_int 16 word = None then None
     else if take 24 word \<noteq> replicate 24 (CHR ''0'') then None
     else Some (''0x'' @ py_lower (drop (length word - 40) word)))"

definition uint_of :: "string option \<Rightarrow> int option" where
  "uint_of w = (case w of None \<Rightarrow> None | Some word \<Rightarrow> if word = [] then None else py_int 16 word)"

definition bool_of :: "string option \<Rightarrow> bool option" where
  "bool_of w = (let value = uint_of w in
     if value = Some 0 then Some False else if value = Some 1 then Some True else None)"

section \<open>Standard selectors\<close>

definition malformed_standard :: "string \<Rightarrow> string \<Rightarrow> pyval" where
  "malformed_standard selector signature = VDict
     [(''status'', VStr ''MALFORMED_STANDARD_CALLDATA''),
      (''selector'', VStr selector),
      (''signature'', VStr signature),
      (''confidence'', VInt 0),
      (''note'', VStr (''One or more static ABI words were not canonically encoded; '' @
         ''Rivexis did not normalize them into plausible parameters.''))]"

definition decode_transfer_call :: "string \<Rightarrow> string \<Rightarrow> pyval" where
  "decode_transfer_call selector data =
     (let signature = ''transfer(address,uint256)'' in
      case (address_of (word_at data 0), uint_of (word_at data 1)) of
        (Some recipient, Some amount) \<Rightarrow> VDict
          [(''status'', VStr ''DECODED_STANDARD_SELECTOR''),
           (''selector'', VStr selector),
           (''signature'', VStr signature),
           (''standard'', VStr ''ERC20''),
           (''parameters'', VDict [(''to'', VStr recipient), (''amount_raw'', VInt amount)]),
           (''confidence'', VInt 95)]
      | _ \<Rightarrow> malformed_standard selector signature)"

definition decode_approve_call :: "string \<Rightarrow> string \<Rightarrow> pyval" where
  "decode_approve_call selector data =
     (let signature = ''approve(address,uint256)'' in
      case (address_of (word_at data 0), uint_of (word_at data 1)) of
        (Some spender, Some amount) \<Rightarrow> VDict
          [(''status'', VStr ''DECODED_STANDARD_SELECTOR''),
           (''selector'', VStr selector),
           (''signature'', VStr signature),
           (''standard'', VStr ''ERC20_OR_ERC721_AMBIGUOUS_WITHOUT_CONTRACT_INTERFACE''),
           (''parameters'', VDict [(''spender_or_approved'', VStr spender),
              (''amount_or_token_id'', VInt amount)]),
           (''unlimited_approval_candidate'', VBool (amount = UINT256_MAX)),
           (''confidence'', VInt 88)]
      | _ \<Rightarrow> malformed_standard selector signature)"

definition decode_transfer_from_call :: "string \<Rightarrow> string \<Rightarrow> pyval" where
  "decode_transfer_from_call selector data =
     (let signature = ''transferFrom(address,address,uint256)'' in
      case (address_of (word_at data 0), address_of (word_at data 1), uint_of (word_at data 2)) of
        (Some sender, Some recipient, Some amount) \<Rightarrow> VDict
          [(''status'', VStr ''DECODED_STANDARD_SELECTOR''),
           (''selector'', VStr selector),
           (''signature'', VStr signature),
           (''standard'', VStr ''ERC20_OR_ERC721_AMBIGUOUS_WITHOUT_CONTRACT_INTERFACE''),
           (''parameters'', VDict [(''from'', VStr sender), (''to'', VStr recipient),
              (''amount_or_token_id'', VInt amount)]),
           (''confidence'', VInt 88)]
      | _ \<Rightarrow> malformed_standard selector signature)"

definition decode_safe_transfer_call :: "string \<Rightarrow> string \<Rightarrow> pyval" where
  "decode_safe_transfer_call selector data =
     (let signature = ''safeTransferFrom(address,address,uint256)'' in
      case (address_of (word_at data 0), address_of (word_at data 1), uint_of (word_at data 2)) of
        (Some sender, Some recipient, Some token_id) \<Rightarrow> VDict
          [(''status'', VStr ''DECODED_STANDARD_SELECTOR''),
           (''selector'', VStr selector),
           (''signature'', VStr signature),
           (''standard'', VStr ''ERC721''),
           (''parameters'', VDict [(''from'', VStr sender), (''to'', VStr recipient),
              (''token_id'', VInt token_id)]),
           (''confidence'', VInt 94)]
      | _ \<Rightarrow> malformed_standard selector signature)"

definition decode_safe_transfer_bytes_call :: "string \<Rightarrow> string \<Rightarrow> pyval" where
  "decode_safe_transfer_bytes_call selector data =
     (let signature = ''safeTransferFrom(address,address,uint256,bytes)'' in
      case (address_of (word_at data 0), address_of (word_at data 1), uint_of (word_at data 2)) of
        (Some sender, Some recipient, Some token_id) \<Rightarrow> VDict
          [(''status'', VStr ''PARTIALLY_DECODED_STANDARD_SELECTOR''),
           (''selector'', VStr selector),
           (''signature'', VStr signature),
           (''standard'', VStr ''ERC721''),
           (''parameters'', VDict [(''from'', VStr sender), (''to'', VStr recipient),
              (''token_id'', VInt token_id)]),
           (''note'', VStr ''Dynamic bytes argument intentionally not decoded by the ABI-free fallback.''),
           (''confidence'', VInt 90)]
      | _ \<Rightarrow> malformed_standard selector signature)"

definition decode_approval_for_all_call :: "string \<Rightarrow> string \<Rightarrow> pyval" where
  "decode_approval_for_all_call selector data =
     (let signature = ''setApprovalForAll(address,bool)'' in
      case (address_of (word_at data 0), bool_of (word_at data 1)) of
        (Some operator, Some approved) \<Rightarrow> VDict
          [(''status'', VStr ''DECODED_STANDARD_SELECTOR''),
           (''selector'', VStr selector),
           (''signature'', VStr signature),
           (''standard'', VStr ''ERC721_OR_ERC1155''),
           (''parameters'', VDict [(''operator'', VStr operator), (''approved'', VBool approved)]),
           (''confidence'', VInt 94)]
      | _ \<Rightarrow> malformed_standard selector signature)"

definition decode_deposit_call :: "string \<Rightarrow> pyval" where
  "decode_deposit_call selector = VDict
     [(''status'', VStr ''DECODED_KNOWN_SELECTOR''),
      (''selector'', VStr selector),
      (''signature'', VStr ''deposit()''),
      (''standard'', VStr ''WRAPPED_NATIVE_COMMON_PATTERN''),
      (''parameters'', VDict []),
      (''confidence'', VInt 82)]"

definition decode_withdraw_call :: "string \<Rightarrow> string \<Rightarrow> pyval" where
  "decode_withdraw_call selector data =
     (let signature = ''withdraw(uint256)'' in
      case uint_of (word_at data 0) of
        Some amount \<Rightarrow> VDict
          [(''status'', VStr ''DECODED_KNOWN_SELECTOR''),
           (''selector'', VStr selector),
           (''signature'', VStr signature),
           (''standard'', VStr ''WRAPPED_NATIVE_COMMON_PATTERN''),
           (''parameters'', VDict [(''amount_raw'', VInt amount)]),
           (''confidence'', VInt 82)]
      | None \<Rightarrow> malformed_standard selector signature)"

definition decode_unknown_call :: "string \<Rightarrow> pyval" where
  "decode_unknown_call selector = VDict
     [(''status'', VStr ''UNKNOWN_SELECTOR''),
      (''selector'', VStr selector),
      (''confidence'', VInt 0),
      (''note'', VStr (''No ABI or verified signature evidence was used; '' @
         ''Rivexis will not guess the method.''))]"

definition dispatch_selector :: "string \<Rightarrow> string \<Rightarrow> pyval" where
  "dispatch_selector selector data =
     (if selector = ''0xa9059cbb'' then decode_transfer_call selector data
      else if selector = ''0x095ea7b3'' then decode_approve_call selector data
      else if selector = ''0x23b872dd'' then decode_transfer_from_call selector data
      else if selector = ''0x42842e0e'' then decode_safe_transfer_call selector data
      else if selector = ''0xb88d4fde'' then decode_safe_transfer_bytes_call selector data
      else if selector = ''0xa22cb465'' then decode_approval_for_all_call selector data
      else if selector = ''0xd0e30db0'' then decode_deposit_call selector
      else if selector = ''0x2e1a7d4d'' then decode_withdraw_call selector data
      else decode_unknown_call selector)"

definition decode_common_calldata :: "pyval \<Rightarrow> pyval" where
  "decode_common_calldata calldata =
     (case calldata of
        VStr s \<Rightarrow>
          if \<not> starts_with ''0x'' s then VDict [(''status'', VStr ''NO_CALLDATA'')]
          else
            let data = py_lower (drop 2 s) in
            if length data < 8 then VDict [(''status'', VStr ''NO_SELECTOR'')]
            else dispatch_selector (''0x'' @ take 8 data) data
      | _ \<Rightarrow> VDict [(''status'', VStr ''NO_CALLDATA'')])"

section \<open>Canonical encodings\<close>

definition abi_address :: "nat \<Rightarrow> string" where
  "abi_address a = hexw 64 a"

definition abi_uint :: "nat \<Rightarrow> string" where
  "abi_uint n = hexw 64 n"

definition abi_bool :: "bool \<Rightarrow> string" where
  "abi_bool b = hexw 64 (if b then 1 else 0)"

definition address_text :: "nat \<Rightarrow> string" where
  "address_text a = ''0x'' @ hexw 40 a"

locale word_codec =
  fixes enc :: "'a \<Rightarrow> string"
    and dec :: "string option \<Rightarrow> 'b option"
    and view :: "'a \<Rightarrow> 'b"
    and valid :: "'a \<Rightarrow> bool"
  assumes enc_length: "valid x \<Longrightarrow> length (enc x) = 64"
    and enc_lower: "valid x \<Longrightarrow> py_lower (enc x) = enc x"
    and dec_enc: "valid x \<Longrightarrow> dec (Some (enc x)) = Some (view x)"
    and dec_None: "dec None = None"
begin

lemma word_at_enc:
  assumes "valid x" and "length sel = 8" and "length pre = 64 * i"
  shows "word_at (sel @ pre @ enc x @ post) i = Some (enc x)"
  using assms enc_length [OF assms(1)] by (simp add: word_at_def)

lemma dec_word_at:
  assumes "valid x" and "length sel = 8" and "length pre = 64 * i"
  shows "dec (word_at (sel @ pre @ enc x @ post) i) = Some (view x)"
  by (simp add: word_at_enc [OF assms] dec_enc assms(1))

lemma dec_words:
  assumes "valid x" and "length sel = 8"
  shows "dec (word_at (sel @ enc x @ post) 0) = Some (view x)"
    and "length w = 64 \<Longrightarrow> dec (word_at (sel @ w @ enc x @ post) (Suc 0)) = Some (view x)"
    and "length w = 64 \<Longrightarrow> length w' = 64 \<Longrightarrow>
      dec (word_at (sel @ w @ w' @ enc x @ post) 2) = Some (view x)"
  using dec_word_at [of x sel "[]" 0 post] dec_word_at [of x sel w 1 post]
    dec_word_at [of x sel "w @ w'" 2 post] assms by simp_all

lemma dec_short: "length data < 72 + 64 * i \<Longrightarrow> dec (word_at data i) = None"
  by (simp add: word_at_def dec_None)

lemma enc_inj: "valid x \<Longrightarrow> valid y \<Longrightarrow> enc x = enc y \<Longrightarrow> view x = view y"
  by (metis dec_enc option.inject)

end

lemma address_of_abi:
  assumes "a < 2 ^ 160"
  shows "address_of (Some (abi_address a)) = Some (address_text a)"
proof -
  have split: "hexw 64 a = hexw 24 (a div 16 ^ 40) @ hexw 40 a"
    using hexw_add [of 24 40 a] by simp
  have "a div 16 ^ 40 = 0" using assms by simp
  then have "hexw 64 a = replicate 24 (CHR ''0'') @ hexw 40 a"
    by (simp add: split)
  moreover have "py_int 16 (hexw 64 a) = Some (int a)"
    using assms by (intro py_int_hexw) simp_all
  ultimately show ?thesis
    by (simp add: address_of_def abi_address_def address_text_def)
qed

lemma uint_of_abi: "n < 2 ^ 256 \<Longrightarrow> uint_of (Some (abi_uint n)) = Some (int n)"
  by (simp add: uint_of_def abi_uint_def)

lemma bool_of_abi: "bool_of (Some (abi_bool b)) = Some b"
  by (simp add: bool_of_def uint_of_def abi_bool_def del: hexw_zero)

interpretation addr: word_codec abi_address address_of address_text "\<lambda>a. a < 2 ^ 160"
  by unfold_locales (simp_all add: address_of_abi, simp_all add: abi_address_def address_of_def)

interpretation uint: word_codec abi_uint uint_of int "\<lambda>n. n < 2 ^ 256"
  by unfold_locales (simp_all add: uint_of_abi, simp_all add: abi_uint_def uint_of_def)

interpretation boolw: word_codec abi_bool bool_of id "\<lambda>_. True"
  by unfold_locales
    (simp_all add: bool_of_abi, simp_all add: abi_bool_def bool_of_def uint_of_def)

section \<open>The decoder on canonical calldata\<close>

lemma length_abi [simp]:
  "length (abi_address a) = 64" "length (abi_uint n) = 64" "length (abi_bool b) = 64"
  by (simp_all add: abi_address_def abi_uint_def abi_bool_def del: hexw_zero)

lemma lower_abi [simp]:
  "py_lower (abi_address a) = abi_address a" "py_lower (abi_uint n) = abi_uint n"
  "py_lower (abi_bool b) = abi_bool b"
  by (simp_all add: abi_address_def abi_uint_def abi_bool_def del: hexw_zero)

text \<open>One dispatch equation per selector; the arguments stay symbolic.\<close>

lemma standard_dispatch:
  "decode_common_calldata (VStr (''0xa9059cbb'' @ body)) =
     decode_transfer_call ''0xa9059cbb'' (''a9059cbb'' @ py_lower body)"
  "decode_common_calldata (VStr (''0x095ea7b3'' @ body)) =
     decode_approve_call ''0x095ea7b3'' (''095ea7b3'' @ py_lower body)"
  "decode_common_calldata (VStr (''0x23b872dd'' @ body)) =
     decode_transfer_from_call ''0x23b872dd'' (''23b872dd'' @ py_lower body)"
  "decode_common_calldata (VStr (''0x42842e0e'' @ body)) =
     decode_safe_transfer_call ''0x42842e0e'' (''42842e0e'' @ py_lower body)"
  "decode_common_calldata (VStr (''0xb88d4fde'' @ body)) =
     decode_safe_transfer_bytes_call ''0xb88d4fde'' (''b88d4fde'' @ py_lower body)"
  "decode_common_calldata (VStr (''0xa22cb465'' @ body)) =
     decode_approval_for_all_call ''0xa22cb465'' (''a22cb465'' @ py_lower body)"
  "decode_common_calldata (VStr (''0x2e1a7d4d'' @ body)) =
     decode_withdraw_call ''0x2e1a7d4d'' (''2e1a7d4d'' @ py_lower body)"
  by (simp_all add: decode_common_calldata_def starts_with_def dispatch_selector_def
      py_lower_def lower_char_def code_def)

text \<open>
  Calldata of an ERC-20 transfer or an ERC-721 transfer that is canonically encoded is
  decoded to exactly the addresses and the amount or token id it encodes, whatever follows.
\<close>

theorem transfer_calldata_roundtrip:
  assumes "a < 2 ^ 160" and "b < 2 ^ 160" and "n < 2 ^ 256"
  shows "decode_common_calldata (VStr (''0xa9059cbb'' @ abi_address a @ abi_uint n @ tail)) =
      VDict [(''status'', VStr ''DECODED_STANDARD_SELECTOR''),
        (''selector'', VStr ''0xa9059cbb''), (''signature'', VStr ''transfer(address,uint256)''),
        (''standard'', VStr ''ERC20''),
        (''parameters'', VDict [(''to'', VStr (address_text a)), (''amount_raw'', VInt (int n))]),
        (''confidence'', VInt 95)] \<and>
    decode_common_calldata
        (VStr (''0x42842e0e'' @ abi_address a @ abi_address b @ abi_uint n @ tail)) =
      VDict [(''status'', VStr ''DECODED_STANDARD_SELECTOR''),
        (''selector'', VStr ''0x42842e0e''),
        (''signature'', VStr ''safeTransferFrom(address,address,uint256)''),
        (''standard'', VStr ''ERC721''),
        (''parameters'', VDict [(''from'', VStr (address_text a)), (''to'', VStr (address_text b)),
           (''token_id'', VInt (int n))]),
        (''confidence'', VInt 94)]"
  using assms unfolding standard_dispatch decode_transfer_call_def decode_safe_transfer_call_def
  by (simp add: addr.dec_words uint.dec_words del: append_Cons)

theorem transfer_calldata_roundtrip_witness:
  "decode_common_calldata (VStr (''0xa9059cbb'' @ abi_address 1 @ abi_uint 5 @ [])) =
      VDict [(''status'', VStr ''DECODED_STANDARD_SELECTOR''),
        (''selector'', VStr ''0xa9059cbb''), (''signature'', VStr ''transfer(address,uint256)''),
        (''standard'', VStr ''ERC20''),
        (''parameters'', VDict [(''to'', VStr (address_text 1)), (''amount_raw'', VInt 5)]),
        (''confidence'', VInt 95)]"
  using transfer_calldata_roundtrip [of 1 1 5 "[]"] by simp

text \<open>
  A canonically encoded approval is decoded to its spender and amount, and it is flagged as
  an unlimited approval exactly when the amount is the largest 256-bit integer.
\<close>

theorem approval_unlimited_iff:
  assumes "a < 2 ^ 160" and "n < 2 ^ 256"
  shows "\<exists>d. decode_common_calldata (VStr (''0x095ea7b3'' @ abi_address a @ abi_uint n @ tail)) = VDict d \<and>
    dict_get d ''status'' = VStr ''DECODED_STANDARD_SELECTOR'' \<and>
    dict_get d ''parameters'' = VDict [(''spender_or_approved'', VStr (address_text a)),
      (''amount_or_token_id'', VInt (int n))] \<and>
    (dict_get d ''unlimited_approval_candidate'' = VBool True \<longleftrightarrow> n = 2 ^ 256 - 1)"
proof -
  have "int n = UINT256_MAX \<longleftrightarrow> n = 2 ^ 256 - 1"
    unfolding UINT256_MAX_def by (metis int_ops(1) nat_int of_nat_diff of_nat_numeral of_nat_power
        one_le_numeral one_le_power of_nat_1)
  with assms show ?thesis
    unfolding standard_dispatch decode_approve_call_def
    by (simp add: addr.dec_words uint.dec_words del: append_Cons)
qed

text \<open>
  Canonically encoded calldata of \<open>transferFrom\<close>, \<open>setApprovalForAll\<close> and
  \<open>withdraw\<close> is decoded to its arguments.
\<close>

theorem other_calldata_roundtrip:
  assumes "a < 2 ^ 160" and "b < 2 ^ 160" and "n < 2 ^ 256"
  shows "decode_common_calldata
        (VStr (''0x23b872dd'' @ abi_address a @ abi_address b @ abi_uint n @ tail)) =
      VDict [(''status'', VStr ''DECODED_STANDARD_SELECTOR''),
        (''selector'', VStr ''0x23b872dd''),
        (''signature'', VStr ''transferFrom(address,address,uint256)''),
        (''standard'', VStr ''ERC20_OR_ERC721_AMBIGUOUS_WITHOUT_CONTRACT_INTERFACE''),
        (''parameters'', VDict [(''from'', VStr (address_text a)), (''to'', VStr (address_text b)),
           (''amount_or_token_id'', VInt (int n))]),
        (''confidence'', VInt 88)] \<and>
    decode_common_calldata (VStr (''0xa22cb465'' @ abi_address a @ abi_bool flag @ tail)) =
      VDict [(''status'', VStr ''DECODED_STANDARD_SELECTOR''),
        (''selector'', VStr ''0xa22cb465''),
        (''signature'', VStr ''setApprovalForAll(address,bool)''),
        (''standard'', VStr ''ERC721_OR_ERC1155''),
        (''parameters'', VDict [(''operator'', VStr (address_text a)), (''approved'', VBool flag)]),
        (''confidence'', VInt 94)] \<and>
    decode_common_calldata (VStr (''0x2e1a7d4d'' @ abi_uint n @ tail)) =
      VDict [(''status'', VStr ''DECODED_KNOWN_SELECTOR''),
        (''selector'', VStr ''0x2e1a7d4d''), (''signature'', VStr ''withdraw(uint256)''),
        (''standard'', VStr ''WRAPPED_NATIVE_COMMON_PATTERN''),
        (''parameters'', VDict [(''amount_raw'', VInt (int n))]),
        (''confidence'', VInt 82)]"
  using assms unfolding standard_dispatch decode_transfer_from_call_def
    decode_approval_for_all_call_def decode_withdraw_call_def
  by (simp add: addr.dec_words uint.dec_words boolw.dec_words del: append_Cons)

theorem other_calldata_roundtrip_witness:
  "decode_common_calldata (VStr (''0xa22cb465'' @ abi_address 1 @ abi_bool True @ [])) =
      VDict [(''status'', VStr ''DECODED_STANDARD_SELECTOR''),
        (''selector'', VStr ''0xa22cb465''),
        (''signature'', VStr ''setApprovalForAll(address,bool)''),
        (''standard'', VStr ''ERC721_OR_ERC1155''),
        (''parameters'', VDict [(''operator'', VStr (address_text 1)), (''approved'', VBool True)]),
        (''confidence'', VInt 94)]"
  using other_calldata_roundtrip [of 1 1 5 "[]" True] by simp

theorem approval_unlimited_iff_witness:
  "\<exists>d. decode_common_calldata (VStr (''0x095ea7b3'' @ abi_address 1 @ abi_uint 7 @ [])) = VDict d \<and>
     dict_get d ''unlimited_approval_candidate'' \<noteq> VBool True"
proof -
  have "(7 :: nat) < 2 ^ 256" "(7 :: nat) \<noteq> 2 ^ 256 - 1" by simp_all
  with approval_unlimited_iff [of 1 7 "[]"] show ?thesis by auto
qed

text \<open>A word that is cut short, or an address word with a non-zero upper part, is malformed.\<close>

lemma dirty_address: "length w = 64 \<Longrightarrow> take 24 w \<noteq> replicate 24 (CHR ''0'') \<Longrightarrow> address_of (Some w) = None"
  by (simp add: address_of_def)

lemma lower_char_zero: "lower_char c = CHR ''0'' \<Longrightarrow> c = CHR ''0''"
proof -
  assume *: "lower_char c = CHR ''0''"
  have "code (CHR ''0'') = 48" by (simp add: code_def)
  with * have "code (lower_char c) = 48" by simp
  moreover have "code (lower_char c) = code c + 32"
    if "65 \<le> code c \<and> code c \<le> 90 \<or> 192 \<le> code c \<and> code c \<le> 222 \<and> code c \<noteq> 215"
    using that by (auto simp: lower_char_def)
  ultimately have "\<not> (65 \<le> code c \<and> code c \<le> 90 \<or> 192 \<le> code c \<and> code c \<le> 222 \<and> code c \<noteq> 215)"
    by linarith
  with * show "c = CHR ''0''" by (simp add: lower_char_def)
qed

text \<open>
  Calldata of an ERC-20 transfer whose argument words are incomplete, or whose recipient
  word has a non-zero upper part, is never reported as decoded: the result is the
  malformed-calldata record with confidence 0.
\<close>

theorem transfer_fails_closed:
  assumes "length body < 128 \<or> take 24 body \<noteq> replicate 24 (CHR ''0'')"
  shows "decode_common_calldata (VStr (''0xa9059cbb'' @ body)) =
    malformed_standard ''0xa9059cbb'' ''transfer(address,uint256)''"
proof -
  have 1: "uint_of (word_at (''a9059cbb'' @ py_lower body) 1) = None" if "length body < 128"
    using that by (intro uint.dec_short) simp
  have 2: "address_of (word_at (''a9059cbb'' @ py_lower body) 0) = None"
    if "take 24 body \<noteq> replicate 24 (CHR ''0'')"
  proof (cases "length body < 64")
    case True
    then show ?thesis by (intro addr.dec_short) simp
  next
    case False
    have "take 24 (py_lower body) \<noteq> replicate 24 (CHR ''0'')"
    proof
      assume *: "take 24 (py_lower body) = replicate 24 (CHR ''0'')"
      have "c = CHR ''0''" if "c \<in> set (take 24 body)" for c
      proof -
        from that have "lower_char c \<in> set (take 24 (py_lower body))"
          by (auto simp: py_lower_def take_map)
        then have l: "lower_char c = CHR ''0''" unfolding * by simp
        then show ?thesis by (rule lower_char_zero)
      qed
      then have "take 24 body = replicate 24 (CHR ''0'')"
        using False by (intro replicate_eqI) auto
      with that show False ..
    qed
    with False have "address_of (Some (take 64 (py_lower body))) = None"
      by (intro dirty_address) (simp_all add: min_def)
    moreover have "word_at (''a9059cbb'' @ py_lower body) 0 = Some (take 64 (py_lower body))"
      using False by (simp add: word_at_def)
    ultimately show ?thesis by (simp only:)
  qed
  from assms show ?thesis
    unfolding standard_dispatch decode_transfer_call_def Let_def
    using 1 2 by (auto split: option.splits)
qed


theorem transfer_fails_closed_witness:
  "length (abi_address 1) < 128 \<and>
   decode_common_calldata (VStr (''0xa9059cbb'' @ abi_address 1)) =
     malformed_standard ''0xa9059cbb'' ''transfer(address,uint256)''"
  using transfer_fails_closed [of "abi_address 1"] by simp

end
