(* ===== verification/Keccak.thy ===== *)
theory Keccak
  imports PyText "HOL-Library.Word"
begin

unbundle bit_operations_syntax

text \<open>
  The Keccak-256 of \<open>services/evm_decode.py\<close> (\<open>_rol64\<close>, \<open>_keccak_f\<close>,
  \<open>keccak256\<close>, \<open>function_selector\<close>). The state is a list of 25 unbounded Python
  integers updated in place by loops over \<open>x\<close> and \<open>y\<close>; the lemmas show that
  every lane stays a 64-bit value, that a round is the Keccak round on 64-bit words, and
  that the digest is always 32 bytes.
\<close>

section \<open>The permutation\<close>

definition KECCAK_RC :: "int list" where
  "KECCAK_RC =
    [0x0000000000000001, 0x0000000000008082, 0x800000000000808A,
     0x8000000080008000, 0x000000000000808B, 0x0000000080000001,
     0x8000000080008081, 0x8000000000008009, 0x000000000000008A,
     0x0000000000000088, 0x0000000080008009, 0x000000008000000A,
     0x000000008000808B, 0x800000000000008B, 0x8000000000008089,
     0x8000000000008003, 0x8000000000008002, 0x8000000000000080,
     0x000000000000800A, 0x800000008000000A, 0x8000000080008081,
     0x8000000000008080, 0x0000000080000001, 0x8000000080008008]"

definition KECCAK_ROT :: "nat list list" where
  "KECCAK_ROT =
    [[0, 36, 3, 41, 18],
     [1, 44, 10, 45, 2],
     [62, 6, 43, 15, 61],
     [28, 55, 25, 21, 56],
     [27, 20, 39, 8, 14]]"

definition MASK64 :: int where
  "MASK64 = push_bit 64 1 - 1"

definition rol64 :: "int \<Rightarrow> nat \<Rightarrow> int" where
  "rol64 value shift =
     (let s = shift mod 64
      in (push_bit s value OR drop_bit (if s \<noteq> 0 then 64 - s else 64) value) AND MASK64)"

text \<open>The pairs of the nested loops \<open>for x in range(5): for y in range(5)\<close>.\<close>

definition xy_pairs :: "(nat \<times> nat) list" where
  "xy_pairs = List.product [0..<5] [0..<5]"

definition column_parity :: "int list \<Rightarrow> int list" where
  "column_parity st = map (\<lambda>x. st ! x XOR st ! (x + 5) XOR st ! (x + 10) XOR st ! (x + 15)
     XOR st ! (x + 20)) [0..<5]"

definition theta_effect :: "int list \<Rightarrow> int list" where
  "theta_effect c = map (\<lambda>x. c ! ((x + 4) mod 5) XOR rol64 (c ! ((x + 1) mod 5)) 1) [0..<5]"

definition theta_loop :: "int list \<Rightarrow> int list \<Rightarrow> int list" where
  "theta_loop d st = foldl (\<lambda>s (x, y). s[x + 5 * y := s ! (x + 5 * y) XOR d ! x]) st xy_pairs"

definition rho_pi_loop :: "int list \<Rightarrow> int list" where
  "rho_pi_loop st = foldl (\<lambda>b (x, y).
     b[y + 5 * ((2 * x + 3 * y) mod 5) := rol64 (st ! (x + 5 * y)) (KECCAK_ROT ! x ! y)])
     (replicate 25 0) xy_pairs"

definition chi_loop :: "int list \<Rightarrow> int list \<Rightarrow> int list" where
  "chi_loop b st = foldl (\<lambda>s (x, y).
     s[x + 5 * y := b ! (x + 5 * y) XOR
        (NOT (b ! ((x + 1) mod 5 + 5 * y)) AND b ! ((x + 2) mod 5 + 5 * y))]) st xy_pairs"

definition keccak_round :: "int list \<Rightarrow> int \<Rightarrow> int list" where
  "keccak_round st rc =
     (let c = column_parity st; d = theta_effect c; st1 = theta_loop d st;
          b = rho_pi_loop st1; st2 = chi_loop b st1
      in st2[0 := st2 ! 0 XOR rc])"

definition keccak_f :: "int list \<Rightarrow> int list" where
  "keccak_f st = foldl keccak_round st KECCAK_RC"

section \<open>The sponge\<close>

definition rate :: nat where
  "rate = 136"

text \<open>\<open>while len(padded) % rate != rate - 1: padded.append(0)\<close>\<close>

function pad_zeros :: "int list \<Rightarrow> int list" where
  "pad_zeros padded =
     (if length padded mod rate \<noteq> rate - 1 then pad_zeros (padded @ [0]) else padded)"
  by pat_completeness auto
termination
proof (relation "measure (\<lambda>p. rate - 1 - length p mod rate)", simp_all add: rate_def)
  fix p :: "int list"
  assume "length p mod 136 \<noteq> 135"
  then show "135 - Suc (length p) mod 136 < 135 - length p mod 136"
    by (simp add: mod_Suc)
qed

declare pad_zeros.simps [simp del]

fun le_value :: "int list \<Rightarrow> int" where
  "le_value [] = 0"
| "le_value (b # bs) = b + 256 * le_value bs"

text \<open>\<open>value.to_bytes(8, "little")\<close> raises \<open>OverflowError\<close> outside 64 bits.\<close>

definition to_bytes_le8 :: "int \<Rightarrow> int list py" where
  "to_bytes_le8 v =
     (if 0 \<le> v \<and> v < 2 ^ 64 then Inr (map (\<lambda>i. v div 256 ^ i mod 256) [0..<8])
      else Inl OverflowError)"

definition absorb_block :: "int list \<Rightarrow> int list \<Rightarrow> int list" where
  "absorb_block st block =
     keccak_f (foldl (\<lambda>s i. s[i := s ! i XOR le_value (take 8 (drop (i * 8) block))]) st
       [0..<rate div 8])"

definition absorb :: "int list \<Rightarrow> int list" where
  "absorb padded =
     foldl (\<lambda>st k. absorb_block st (take rate (drop (k * rate) padded))) (replicate 25 0)
       [0..<(length padded + rate - 1) div rate]"

text \<open>
  The inner output loop returns the digest as soon as 32 bytes are out (\<open>Inl\<close>); otherwise
  it hands the longer buffer to the outer loop (\<open>Inr\<close>), which permutes and goes on.
\<close>

fun squeeze_lanes :: "int list \<Rightarrow> nat list \<Rightarrow> int list \<Rightarrow> (int list + int list) py" where
  "squeeze_lanes st [] out = Inr (Inr out)"
| "squeeze_lanes st (i # is) out =
     rbind (to_bytes_le8 (st ! i)) (\<lambda>bs.
       let out' = out @ bs
       in if 32 \<le> length out' then Inr (Inl (take 32 out')) else squeeze_lanes st is out')"

lemma to_bytes_length: "to_bytes_le8 v = Inr bs \<Longrightarrow> length bs = 8"
  by (auto simp: to_bytes_le8_def split: if_splits)

lemma squeeze_lanes_grows:
  "squeeze_lanes st is out = Inr (Inr out') \<Longrightarrow> length out' = length out + 8 * length is"
  by (induction st "is" out rule: squeeze_lanes.induct)
    (auto simp: rbind_eq_Inr Let_def dest: to_bytes_length split: if_splits)

function squeeze :: "int list \<Rightarrow> int list \<Rightarrow> int list py" where
  "squeeze st out =
     (if length out < 32 then
        (case squeeze_lanes st [0..<rate div 8] out of
           Inl e \<Rightarrow> Inl e
         | Inr (Inl digest) \<Rightarrow> Inr digest
         | Inr (Inr out') \<Rightarrow> squeeze (keccak_f st) out')
      else Inr (take 32 out))"
  by pat_completeness auto
termination
  by (relation "measure (\<lambda>(st, out). 32 - length out)")
    (auto simp: rate_def dest!: squeeze_lanes_grows)

declare squeeze.simps [simp del]

definition keccak256 :: "int list \<Rightarrow> int list py" where
  "keccak256 data = squeeze (absorb (pad_zeros (data @ [0x01]) @ [0x80])) []"

text \<open>\<open>signature.encode()\<close>: UTF-8 of code points below 256.\<close>

definition encode_char :: "char \<Rightarrow> int list" where
  "encode_char c =
     (if code c < 128 then [int (code c)]
      else [192 + int (code c) div 64, 128 + int (code c) mod 64])"

definition encode_utf8 :: "string \<Rightarrow> int list" where
  "encode_utf8 s = concat (map encode_char s)"

definition bytes_hex :: "int list \<Rightarrow> string" where
  "bytes_hex bs = concat (map (\<lambda>b. hexw 2 (nat b)) bs)"

definition function_selector :: "string \<Rightarrow> string py" where
  "function_selector signature =
     rbind (keccak256 (encode_utf8 signature)) (\<lambda>digest.
       Inr (''0x'' @ take 8 (bytes_hex digest)))"

section \<open>Lanes stay 64-bit values\<close>

definition wf_lane :: "int \<Rightarrow> bool" where
  "wf_lane v = (0 \<le> v \<and> v < 2 ^ 64)"

definition wf_state :: "int list \<Rightarrow> bool" where
  "wf_state st = (length st = 25 \<and> list_all wf_lane st)"

lemma MASK64_mask: "MASK64 = mask 64"
  by (simp add: MASK64_def mask_eq_exp_minus_1 push_bit_eq_mult)

lemma rol64_take_bit:
  "rol64 v s = take_bit 64 (push_bit (s mod 64) v OR
     drop_bit (if s mod 64 \<noteq> 0 then 64 - s mod 64 else 64) v)"
  by (simp add: rol64_def Let_def MASK64_mask take_bit_eq_mask)

lemma wf_rol64 [simp]: "wf_lane (rol64 v s)"
  unfolding rol64_take_bit wf_lane_def
  using take_bit_int_less_exp take_bit_nonnegative by blast

lemma wf_xor [simp]: "wf_lane a \<Longrightarrow> wf_lane b \<Longrightarrow> wf_lane (a XOR b)"
  using XOR_upper [of a 64 b] by (simp add: wf_lane_def)

lemma wf_not_and [simp]: "wf_lane b \<Longrightarrow> wf_lane (NOT a AND b)"
  by (auto simp: wf_lane_def intro: order.strict_trans1 [OF AND_upper2])

lemma wf_stateI: "length st = 25 \<Longrightarrow> (\<And>i. i < 25 \<Longrightarrow> wf_lane (st ! i)) \<Longrightarrow> wf_state st"
  by (auto simp: wf_state_def list_all_length)

lemma wf_state_nth: "wf_state st \<Longrightarrow> i < 25 \<Longrightarrow> wf_lane (st ! i)"
  by (auto simp: wf_state_def list_all_length)

section \<open>A loop over distinct indices\<close>

lemma fold_update_length [simp]: "length (foldl (\<lambda>s p. s[ix p := h p (s ! ix p)]) st ps) = length st"
  by (induction ps arbitrary: st) auto

lemma fold_update_other:
  "i \<notin> ix ` set ps \<Longrightarrow> foldl (\<lambda>s p. s[ix p := h p (s ! ix p)]) st ps ! i = st ! i"
  by (induction ps arbitrary: st) auto

lemma fold_update_nth:
  assumes "distinct (map ix ps)" and "p \<in> set ps" and "ix p < length st"
  shows "foldl (\<lambda>s p. s[ix p := h p (s ! ix p)]) st ps ! ix p = h p (st ! ix p)"
  using assms
proof (induction ps arbitrary: st)
  case (Cons q ps)
  show ?case
  proof (cases "p = q")
    case True
    with Cons.prems show ?thesis by (simp add: fold_update_other)
  next
    case False
    with Cons.prems have "p \<in> set ps" by simp
    then have "ix p \<in> ix ` set ps" by simp
    with Cons.prems(1) have "ix p \<noteq> ix q" by force
    with Cons \<open>p \<in> set ps\<close> show ?thesis by simp
  qed
qed simp

lemma set_xy_pairs: "set xy_pairs = {0..<5} \<times> {0..<5}"
  by (auto simp: xy_pairs_def)

lemma distinct_xy: "distinct (map (\<lambda>(x, y). x + 5 * y) xy_pairs)"
  and distinct_pi: "distinct (map (\<lambda>(x, y). y + 5 * ((2 * x + 3 * y) mod 5)) xy_pairs)"
  by code_simp+

lemma theta_loop_nth:
  assumes "length st = 25" and "x < 5" and "y < 5"
  shows "theta_loop d st ! (x + 5 * y) = st ! (x + 5 * y) XOR d ! x"
  using fold_update_nth [OF distinct_xy, of "(x, y)" st "\<lambda>p v. v XOR d ! fst p"] assms
  by (simp add: theta_loop_def set_xy_pairs case_prod_unfold)

lemma chi_loop_nth:
  assumes "length st = 25" and "x < 5" and "y < 5"
  shows "chi_loop b st ! (x + 5 * y) = b ! (x + 5 * y) XOR
    (NOT (b ! ((x + 1) mod 5 + 5 * y)) AND b ! ((x + 2) mod 5 + 5 * y))"
  using fold_update_nth [OF distinct_xy, of "(x, y)" st "\<lambda>(x, y) v. b ! (x + 5 * y) XOR
    (NOT (b ! ((x + 1) mod 5 + 5 * y)) AND b ! ((x + 2) mod 5 + 5 * y))"] assms
  by (simp add: chi_loop_def set_xy_pairs case_prod_unfold)

lemma rho_pi_loop_nth:
  assumes "x < 5" and "y < 5"
  shows "rho_pi_loop st ! (y + 5 * ((2 * x + 3 * y) mod 5)) =
    rol64 (st ! (x + 5 * y)) (KECCAK_ROT ! x ! y)"
proof -
  have "y + 5 * ((2 * x + 3 * y) mod 5) < 25" using assms(2) by simp
  then show ?thesis
    using fold_update_nth [OF distinct_pi, of "(x, y)" "replicate 25 0"
        "\<lambda>(x, y) v. rol64 (st ! (x + 5 * y)) (KECCAK_ROT ! x ! y)"] assms
    by (simp add: rho_pi_loop_def set_xy_pairs case_prod_unfold)
qed

lemma length_loops [simp]:
  "length (theta_loop d st) = length st" "length (chi_loop b st) = length st"
  "length (rho_pi_loop st) = 25"
  using fold_update_length [of "\<lambda>(x, y). x + 5 * y" "\<lambda>p v. v XOR d ! fst p" st xy_pairs]
    fold_update_length [of "\<lambda>(x, y). x + 5 * y" "\<lambda>(x, y) v. b ! (x + 5 * y) XOR
      (NOT (b ! ((x + 1) mod 5 + 5 * y)) AND b ! ((x + 2) mod 5 + 5 * y))" st xy_pairs]
    fold_update_length [of "\<lambda>(x, y). y + 5 * ((2 * x + 3 * y) mod 5)"
      "\<lambda>(x, y) v. rol64 (st ! (x + 5 * y)) (KECCAK_ROT ! x ! y)" "replicate 25 0" xy_pairs]
  by (simp_all add: theta_loop_def chi_loop_def rho_pi_loop_def case_prod_unfold)

text \<open>The position of a lane after the pi step, read backwards.\<close>

lemma less_5_cases: "(x :: nat) < 5 \<Longrightarrow> x = 0 \<or> x = 1 \<or> x = 2 \<or> x = 3 \<or> x = 4"
  by arith

lemma pi_index: "x < 5 \<Longrightarrow> y < 5 \<Longrightarrow> (2 * ((x + 3 * y) mod 5) + 3 * x) mod 5 = (y :: nat)"
  by (elim less_5_cases [THEN disjE] disjE less_5_cases [of y, elim_format]) simp_all

lemma rho_pi_at:
  assumes "x < 5" and "y < 5"
  shows "rho_pi_loop st ! (x + 5 * y) =
    rol64 (st ! ((x + 3 * y) mod 5 + 5 * x)) (KECCAK_ROT ! ((x + 3 * y) mod 5) ! x)"
  using rho_pi_loop_nth [of "(x + 3 * y) mod 5" x st] pi_index [OF assms] assms by simp

section \<open>The Keccak round on 64-bit words\<close>

type_synonym lanes = "nat \<Rightarrow> nat \<Rightarrow> 64 word"

definition spec_parity :: "lanes \<Rightarrow> nat \<Rightarrow> 64 word" where
  "spec_parity A x = A x 0 XOR A x 1 XOR A x 2 XOR A x 3 XOR A x 4"

definition spec_theta :: "lanes \<Rightarrow> lanes" where
  "spec_theta A = (\<lambda>x y. A x y XOR
     (spec_parity A ((x + 4) mod 5) XOR word_rotl 1 (spec_parity A ((x + 1) mod 5))))"

definition spec_rho_pi :: "lanes \<Rightarrow> lanes" where
  "spec_rho_pi A = (\<lambda>x y. word_rotl (KECCAK_ROT ! ((x + 3 * y) mod 5) ! x) (A ((x + 3 * y) mod 5) x))"

definition spec_chi :: "lanes \<Rightarrow> lanes" where
  "spec_chi A = (\<lambda>x y. A x y XOR (NOT (A ((x + 1) mod 5) y) AND A ((x + 2) mod 5) y))"

definition spec_iota :: "64 word \<Rightarrow> lanes \<Rightarrow> lanes" where
  "spec_iota rc A = (\<lambda>x y. if x = 0 \<and> y = 0 then A x y XOR rc else A x y)"

definition spec_round :: "64 word \<Rightarrow> lanes \<Rightarrow> lanes" where
  "spec_round rc A = spec_iota rc (spec_chi (spec_rho_pi (spec_theta A)))"

definition lane :: "int list \<Rightarrow> lanes" where
  "lane st = (\<lambda>x y. word_of_int (st ! (x + 5 * y)))"

lemma word_of_int_bitops:
  "(word_of_int (a XOR b) :: 64 word) = word_of_int a XOR word_of_int b"
  "(word_of_int (a AND b) :: 64 word) = word_of_int a AND word_of_int b"
  "(word_of_int (NOT a) :: 64 word) = NOT (word_of_int a)"
  by (rule of_int_xor_eq of_int_and_eq of_int_not_eq)+

lemma take_bit_lane: "wf_lane v \<Longrightarrow> take_bit 64 v = v"
  by (rule take_bit_int_eq_self) (simp_all add: wf_lane_def)

lemma bit_lane_high: "wf_lane v \<Longrightarrow> 64 \<le> n \<Longrightarrow> \<not> bit v n"
  using bit_take_bit_iff [of 64 v n] by (metis not_le take_bit_lane)

lemma word_rol64:
  assumes "wf_lane v"
  shows "(word_of_int (rol64 v s) :: 64 word) = word_rotl s (word_of_int v)"
proof (rule bit_word_eqI)
  fix n assume n: "n < LENGTH(64)"
  then have n64: "n < 64" by simp
  let ?s = "s mod 64"
  have "bit (rol64 v s) n \<longleftrightarrow>
      (?s \<le> n \<and> bit v (n - ?s)) \<or> bit v (n + (if ?s \<noteq> 0 then 64 - ?s else 64))"
    using n by (auto simp: rol64_take_bit bit_simps add.commute)
  also have "\<dots> \<longleftrightarrow> bit v ((n + (64 - ?s)) mod 64)"
  proof (cases "?s \<le> n")
    case True
    have "?s < 64" by simp
    then have "n + (64 - ?s) = (n - ?s) + 64" and "n - ?s < 64"
      using True n64 by linarith+
    then have "(n + (64 - ?s)) mod 64 = n - ?s"
      by (simp only: mod_add_self2 mod_less)
    moreover have "\<not> bit v (n + (if ?s \<noteq> 0 then 64 - ?s else 64))"
      using True n by (intro bit_lane_high [OF assms]) auto
    ultimately show ?thesis using True by simp
  next
    case False
    then have "?s \<noteq> 0" and "(n + (64 - ?s)) mod 64 = n + (64 - ?s)"
      using n by auto
    with False show ?thesis by simp
  qed
  finally show "bit (word_of_int (rol64 v s) :: 64 word) n =
      bit (word_rotl s (word_of_int v :: 64 word)) n"
    using n by (simp add: bit_word_rotl_iff bit_word_of_int_iff)
qed

lemma column_parity_nth:
  "x < 5 \<Longrightarrow> column_parity st ! x =
     st ! x XOR st ! (x + 5) XOR st ! (x + 10) XOR st ! (x + 15) XOR st ! (x + 20)"
  unfolding column_parity_def by (subst nth_map_upt) simp_all

lemma wf_column_parity: "wf_state st \<Longrightarrow> x < 5 \<Longrightarrow> wf_lane (column_parity st ! x)"
  by (simp add: column_parity_nth wf_state_nth)

lemma lane_parity: "x < 5 \<Longrightarrow> word_of_int (column_parity st ! x) = spec_parity (lane st) x"
  by (simp add: column_parity_nth spec_parity_def lane_def word_of_int_bitops)

lemma theta_effect_nth:
  "x < 5 \<Longrightarrow> theta_effect c ! x = c ! ((x + 4) mod 5) XOR rol64 (c ! ((x + 1) mod 5)) 1"
  unfolding theta_effect_def by (subst nth_map_upt) simp_all

lemma wf_theta:
  assumes "wf_state st" and "x < 5" and "y < 5"
  shows "wf_lane (theta_loop (theta_effect (column_parity st)) st ! (x + 5 * y))"
  using assms
  by (simp add: theta_loop_nth wf_state_def [of st] theta_effect_nth wf_column_parity wf_state_nth)

lemma lane_theta:
  assumes "wf_state st" and "x < 5" and "y < 5"
  shows "lane (theta_loop (theta_effect (column_parity st)) st) x y = spec_theta (lane st) x y"
  using assms wf_state_def [of st]
  by (simp add: lane_def [of "theta_loop _ _"] theta_loop_nth theta_effect_nth word_of_int_bitops
      word_rol64 wf_column_parity lane_parity spec_theta_def) (simp add: lane_def)

lemma xy_index: "i < 25 \<Longrightarrow> \<exists>x y. x < 5 \<and> y < 5 \<and> i = x + 5 * (y :: nat)"
  by (intro exI [of _ "i mod 5"] exI [of _ "i div 5"]) auto

lemma wf_state_xyI:
  assumes "length st = 25" and "\<And>x y. x < 5 \<Longrightarrow> y < 5 \<Longrightarrow> wf_lane (st ! (x + 5 * y))"
  shows "wf_state st"
  using assms xy_index by (metis wf_stateI)

lemma lane_rho_pi:
  assumes "wf_state st" and "x < 5" and "y < 5"
  shows "lane (rho_pi_loop st) x y = spec_rho_pi (lane st) x y"
proof -
  have "wf_lane (st ! ((x + 3 * y) mod 5 + 5 * x))"
    by (rule wf_state_nth [OF assms(1)]) (use assms(2) in simp)
  then show ?thesis
    using assms by (simp add: lane_def rho_pi_at word_rol64 spec_rho_pi_def)
qed

lemma wf_chi:
  assumes "wf_state b" and "length st = 25" and "x < 5" and "y < 5"
  shows "wf_lane (chi_loop b st ! (x + 5 * y))"
  using assms by (simp add: chi_loop_nth wf_state_nth)

lemma lane_chi:
  assumes "length st = 25" and "x < 5" and "y < 5"
  shows "lane (chi_loop b st) x y = spec_chi (lane b) x y"
  using assms by (simp add: lane_def chi_loop_nth word_of_int_bitops spec_chi_def)

lemma wf_keccak_round:
  assumes "wf_state st" and "wf_lane rc"
  shows "wf_state (keccak_round st rc)"
proof (rule wf_state_xyI)
  have len: "length st = 25" using assms(1) by (simp add: wf_state_def)
  then show "length (keccak_round st rc) = 25"
    by (simp add: keccak_round_def Let_def)
  fix x y :: nat
  assume xy: "x < 5" "y < 5"
  have b: "wf_state (rho_pi_loop (theta_loop (theta_effect (column_parity st)) st))"
    by (rule wf_state_xyI) (simp_all add: rho_pi_at)
  show "wf_lane (keccak_round st rc ! (x + 5 * y))"
    using wf_chi [OF b _ xy] wf_chi [OF b, of _ 0 0] xy len assms(2)
    by (simp add: keccak_round_def Let_def nth_list_update)
qed

lemma keccak_round_lane:
  assumes "wf_state st" and "x < 5" and "y < 5"
  shows "lane (keccak_round st rc) x y = spec_round (word_of_int rc) (lane st) x y"
proof -
  let ?st1 = "theta_loop (theta_effect (column_parity st)) st"
  let ?b = "rho_pi_loop ?st1"
  have len: "length st = 25" using assms(1) by (simp add: wf_state_def)
  have wf1: "wf_state ?st1"
    by (rule wf_state_xyI) (simp_all add: len wf_theta [OF assms(1)])
  have pi: "lane ?b u v = spec_rho_pi (spec_theta (lane st)) u v" if "u < 5" "v < 5" for u v
    using lane_rho_pi [OF wf1 that] lane_theta [OF assms(1), of "(u + 3 * v) mod 5" u] that
    by (simp add: spec_rho_pi_def)
  have chi: "lane (chi_loop ?b ?st1) u v = spec_chi (spec_rho_pi (spec_theta (lane st))) u v"
    if "u < 5" "v < 5" for u v
    using lane_chi [of ?st1 u v ?b] that pi len by (simp add: spec_chi_def)
  have "lane (keccak_round st rc) x y =
      (if x = 0 \<and> y = 0 then lane (chi_loop ?b ?st1) x y XOR word_of_int rc
       else lane (chi_loop ?b ?st1) x y)"
    using len assms(2,3)
    by (simp add: keccak_round_def Let_def lane_def nth_list_update word_of_int_bitops)
  then show ?thesis
    unfolding spec_round_def spec_iota_def chi [OF assms(2,3)] by simp
qed

lemma wf_KECCAK_RC: "list_all wf_lane KECCAK_RC"
  by (simp add: KECCAK_RC_def wf_lane_def)

lemma wf_fold_rounds: "wf_state st \<Longrightarrow> list_all wf_lane rcs \<Longrightarrow> wf_state (foldl keccak_round st rcs)"
  by (induction rcs arbitrary: st) (auto simp: wf_keccak_round)

lemma wf_keccak_f: "wf_state st \<Longrightarrow> wf_state (keccak_f st)"
  by (simp add: keccak_f_def wf_fold_rounds wf_KECCAK_RC)

definition spec_f :: "lanes \<Rightarrow> lanes" where
  "spec_f A = foldl (\<lambda>B rc. spec_round (word_of_int rc) B) A KECCAK_RC"

text \<open>The word-level round depends on the lanes with coordinates below 5 only.\<close>

lemma spec_round_cong:
  assumes "\<And>x y. x < 5 \<Longrightarrow> y < 5 \<Longrightarrow> A x y = B x y" and "x < 5" and "y < 5"
  shows "spec_round rc A x y = spec_round rc B x y"
  using assms
  by (simp add: spec_round_def spec_iota_def spec_chi_def spec_rho_pi_def spec_theta_def
      spec_parity_def)

lemma fold_rounds_lane:
  assumes "wf_state st" and "list_all wf_lane rcs"
    and "\<And>u v. u < 5 \<Longrightarrow> v < 5 \<Longrightarrow> lane st u v = A u v" and "x < 5" and "y < 5"
  shows "lane (foldl keccak_round st rcs) x y =
    foldl (\<lambda>B rc. spec_round (word_of_int rc) B) A rcs x y"
  using assms
proof (induction rcs arbitrary: st A)
  case (Cons rc rcs)
  have "lane (keccak_round st rc) u v = spec_round (word_of_int rc) A u v"
    if "u < 5" "v < 5" for u v
    using keccak_round_lane [OF Cons.prems(1) that] spec_round_cong [OF Cons.prems(3) that] by simp
  with Cons show ?case by (simp add: wf_keccak_round)
qed simp

section \<open>The sponge always yields a digest\<close>

definition is_byte :: "int \<Rightarrow> bool" where
  "is_byte b = (0 \<le> b \<and> b < 256)"

lemma le_value_bound:
  "list_all is_byte bs \<Longrightarrow> 0 \<le> le_value bs \<and> le_value bs < 256 ^ length bs"
  by (induction bs) (auto simp: is_byte_def)

lemma wf_le_value:
  assumes "list_all is_byte bs"
  shows "wf_lane (le_value (take 8 bs))"
proof -
  have "list_all is_byte (take 8 bs)"
    using assms by (auto simp: list_all_iff dest: in_set_takeD)
  from le_value_bound [OF this]
  have "0 \<le> le_value (take 8 bs)" and "le_value (take 8 bs) < 256 ^ length (take 8 bs)" by auto
  moreover have "(256 :: int) ^ length (take 8 bs) \<le> 256 ^ 8"
    by (rule power_increasing) auto
  ultimately show ?thesis by (simp add: wf_lane_def)
qed

lemma wf_state_update: "wf_state st \<Longrightarrow> wf_lane v \<Longrightarrow> wf_state (st[i := v])"
  by (cases "i < length st") (auto simp: wf_state_def list_all_length nth_list_update)

lemma wf_xor_block:
  assumes "list_all is_byte block" and "set is \<subseteq> {..<25}"
  shows "wf_state st \<Longrightarrow>
    wf_state (foldl (\<lambda>s i. s[i := s ! i XOR le_value (take 8 (drop (i * 8) block))]) st is)"
  using assms(2)
proof (induction "is" arbitrary: st)
  case (Cons i "is")
  have "list_all is_byte (drop (i * 8) block)"
    using assms(1) by (auto simp: list_all_iff dest: in_set_dropD)
  then have "wf_state (st[i := st ! i XOR le_value (take 8 (drop (i * 8) block))])"
    using Cons.prems by (intro wf_state_update wf_xor wf_le_value wf_state_nth) auto
  with Cons show ?case by simp
qed simp

lemma wf_absorb_block: "wf_state st \<Longrightarrow> list_all is_byte block \<Longrightarrow> wf_state (absorb_block st block)"
  unfolding absorb_block_def by (intro wf_keccak_f wf_xor_block) (auto simp: rate_def)

lemma wf_absorb:
  assumes "list_all is_byte padded"
  shows "wf_state (absorb padded)"
proof -
  have "wf_state (foldl (\<lambda>st k. absorb_block st (take rate (drop (k * rate) padded))) st ks)"
    if "wf_state st" for st ks
    using that
  proof (induction ks arbitrary: st)
    case (Cons k ks)
    have "list_all is_byte (take rate (drop (k * rate) padded))"
      using assms by (auto simp: list_all_iff dest!: in_set_takeD in_set_dropD)
    with Cons show ?case by (simp add: wf_absorb_block)
  qed simp
  moreover have "wf_state (replicate 25 0)"
    by (rule wf_stateI) (simp_all add: wf_lane_def)
  ultimately show ?thesis by (simp add: absorb_def)
qed

lemma pad_zeros_ends: "\<exists>k. pad_zeros p = p @ replicate k 0 \<and> length (pad_zeros p) mod rate = rate - 1"
proof (induction p rule: pad_zeros.induct)
  case (1 padded)
  show ?case
  proof (cases "length padded mod rate \<noteq> rate - 1")
    case True
    with 1 obtain k where "pad_zeros (padded @ [0]) = (padded @ [0]) @ replicate k 0"
      and "length (pad_zeros (padded @ [0])) mod rate = rate - 1" by blast
    with True show ?thesis
      by (intro exI [of _ "Suc k"]) (simp add: pad_zeros.simps [of padded])
  next
    case False
    then show ?thesis by (intro exI [of _ 0]) (simp add: pad_zeros.simps [of padded])
  qed
qed

lemma bytes_pad_zeros: "list_all is_byte p \<Longrightarrow> list_all is_byte (pad_zeros p)"
  using pad_zeros_ends [of p] by (auto simp: list_all_iff is_byte_def)

lemma to_bytes_wf:
  assumes "wf_lane v"
  shows "\<exists>bs. to_bytes_le8 v = Inr bs \<and> length bs = 8 \<and> list_all is_byte bs"
  using assms by (simp add: to_bytes_le8_def wf_lane_def list_all_iff is_byte_def)

lemma squeeze_lanes_digest:
  assumes "wf_state st" and "list_all is_byte out" and "length out < 32"
    and "set is \<subseteq> {..<25}" and "32 \<le> length out + 8 * length is"
  shows "\<exists>d. squeeze_lanes st is out = Inr (Inl d) \<and> length d = 32 \<and> list_all is_byte d"
  using assms(2-)
proof (induction "is" arbitrary: out)
  case (Cons i "is")
  from Cons.prems(3) assms(1) obtain bs
    where bs: "to_bytes_le8 (st ! i) = Inr bs" "length bs = 8" "list_all is_byte bs"
    using to_bytes_wf wf_state_nth by (metis insert_subset lessThan_iff list.simps(15))
  show ?case
  proof (cases "32 \<le> length (out @ bs)")
    case True
    with bs Cons.prems(1) show ?thesis
      by (auto simp: list_all_iff dest: in_set_takeD)
  next
    case False
    with bs Cons.prems Cons.IH [of "out @ bs"] show ?thesis by auto
  qed
qed simp

lemma keccak256_digest:
  assumes "list_all is_byte data"
  shows "\<exists>d. keccak256 data = Inr d \<and> length d = 32 \<and> list_all is_byte d"
proof -
  have "list_all is_byte (pad_zeros (data @ [1]) @ [128])"
    using bytes_pad_zeros [of "data @ [1]"] assms by (simp add: is_byte_def)
  then have "wf_state (absorb (pad_zeros (data @ [1]) @ [128]))" by (rule wf_absorb)
  then obtain d where "squeeze_lanes (absorb (pad_zeros (data @ [1]) @ [128])) [0..<rate div 8] [] =
      Inr (Inl d)" and "length d = 32" and "list_all is_byte d"
    using squeeze_lanes_digest [of _ "[]" "[0..<rate div 8]"]
    by (auto simp: rate_def atLeast_upt [symmetric] subset_iff)
  then show ?thesis by (simp add: keccak256_def squeeze.simps)
qed

lemma encode_utf8_bytes: "list_all is_byte (encode_utf8 s)"
proof -
  have "int (code c) div 64 < 64" for c
    using code_less [of c] by linarith
  then show ?thesis
    by (auto simp: encode_utf8_def encode_char_def list_all_iff is_byte_def)
qed

lemma length_bytes_hex [simp]: "length (bytes_hex bs) = 2 * length bs"
  by (induction bs) (auto simp: bytes_hex_def)

lemma is_hex_bytes_hex [simp]: "is_hex (bytes_hex bs)"
  using is_hex_hexw by (induction bs) (auto simp: bytes_hex_def is_hex_def simp del: hexw.simps)

lemma lower_bytes_hex [simp]: "py_lower (bytes_hex bs) = bytes_hex bs"
  using lower_hexw by (induction bs) (auto simp: bytes_hex_def py_lower_def)

section \<open>Properties\<close>

text \<open>
  C14: on a state of 25 lanes of 64 bits the permutation computes, lane for lane, 24 Keccak
  rounds on 64-bit words (theta, rho, pi, chi, iota), and the lanes stay 64-bit values.
\<close>

theorem keccak_f_refines_words:
  assumes "wf_state st" and "x < 5" and "y < 5"
  shows "lane (keccak_f st) x y = spec_f (lane st) x y \<and> wf_state (keccak_f st)"
  using fold_rounds_lane [OF assms(1) wf_KECCAK_RC refl assms(2,3)] wf_keccak_f [OF assms(1)]
  by (simp add: keccak_f_def spec_f_def)

theorem keccak_f_refines_words_witness:
  "wf_state (replicate 25 0) \<and>
   lane (keccak_f (replicate 25 0)) 1 2 = spec_f (lane (replicate 25 0)) 1 2"
proof -
  have "wf_state (replicate 25 0)"
    by (rule wf_stateI) (simp_all add: wf_lane_def)
  with keccak_f_refines_words [of "replicate 25 0" 1 2] show ?thesis by simp
qed

lemma function_selector_text:
  "\<exists>sel. function_selector signature = Inr (''0x'' @ sel) \<and> length sel = 8 \<and> is_hex sel
     \<and> py_lower sel = sel"
proof -
  obtain d where "keccak256 (encode_utf8 signature) = Inr d" "length d = 32"
    using keccak256_digest [OF encode_utf8_bytes] by blast
  then show ?thesis
    by (auto simp: function_selector_def is_hex_take lower_take)
qed

text \<open>
  A function selector is always computed: no input makes the hash raise, the padding is a
  whole number of blocks, and the selector is \<open>0x\<close> with eight lower-case digits.
\<close>

theorem function_selector_total:
  "\<exists>sel. function_selector signature = Inr (''0x'' @ sel) \<and> length sel = 8 \<and> is_hex sel
     \<and> py_lower sel = sel
     \<and> length (pad_zeros (encode_utf8 signature @ [1]) @ [128]) mod rate = 0"
proof -
  have "length (pad_zeros (encode_utf8 signature @ [1])) mod rate = rate - 1"
    using pad_zeros_ends by blast
  then have "length (pad_zeros (encode_utf8 signature @ [1]) @ [128]) mod rate = 0"
    by (simp add: rate_def mod_Suc)
  moreover obtain sel where "function_selector signature = Inr (''0x'' @ sel)" "length sel = 8"
    "is_hex sel" "py_lower sel = sel"
    using function_selector_text [of signature] by blast
  ultimately show ?thesis by (intro exI [of _ sel] conjI)
qed

end
