(* ===== verification/AbiTypes.thy ===== *)
theory AbiTypes
  imports EvmCalldata Keccak
begin

text \<open>
  The ABI type language of \<open>services/evm_decode.py\<close>: canonical type names, which
  types the decoder supports, the layout of static words, and the decoder of one static word.
  \<open>int(suffix)\<close> is not guarded in the code, so every function that reaches it returns
  a result that may be \<open>ValueError\<close>.
\<close>

definition MAX_DYNAMIC_ARRAY_ITEMS :: int where
  "MAX_DYNAMIC_ARRAY_ITEMS = 4096"

definition MAX_FIXED_ARRAY_ITEMS :: int where
  "MAX_FIXED_ARRAY_ITEMS = 4096"

definition MAX_STATIC_TUPLE_ITEMS :: nat where
  "MAX_STATIC_TUPLE_ITEMS = 4096"

text \<open>A decoded value: text, boolean, integer, code points of a decoded string, the
  dictionary of an undecodable string, a list, or the components of a tuple.\<close>

datatype abi_value = ANone | AStr string | ABool bool | AInt int | AText "nat list"
  | AHex string int | AList "abi_value list" | ATuple "(pyval \<times> string \<times> abi_value) list"

text \<open>\<open>int(text)\<close> in base 10, raising \<open>ValueError\<close>.\<close>

definition int_or_raise :: "string \<Rightarrow> int py" where
  "int_or_raise s = (case py_int 10 s of None \<Rightarrow> Inl ValueError | Some n \<Rightarrow> Inr n)"

section \<open>Type names\<close>

definition type_text :: "(pyval \<Rightarrow> string) \<Rightarrow> pydict \<Rightarrow> string" where
  "type_text rep d = (let t = dict_get d ''type'' in if truthy t then py_str rep t else [])"

fun canonical_abi_type :: "(pyval \<Rightarrow> string) \<Rightarrow> pyval \<Rightarrow> string"
  and canonical_abi_types :: "(pyval \<Rightarrow> string) \<Rightarrow> pyval list \<Rightarrow> string list"
  and canonical_in_dict :: "(pyval \<Rightarrow> string) \<Rightarrow> pydict \<Rightarrow> string option" where
  "canonical_abi_type rep (VDict d) =
     (let typ = type_text rep d in
      if starts_with ''tuple'' typ then
        (case canonical_in_dict rep d of
           None \<Rightarrow> typ
         | Some inner \<Rightarrow> ''('' @ inner @ '')'' @ drop 5 typ)
      else typ)"
| "canonical_abi_type rep VNone = []"
| "canonical_abi_type rep (VBool b) = []"
| "canonical_abi_type rep (VInt n) = []"
| "canonical_abi_type rep (VFloat x) = []"
| "canonical_abi_type rep (VStr s) = []"
| "canonical_abi_type rep (VList xs) = []"
| "canonical_abi_types rep [] = []"
| "canonical_abi_types rep (x # xs) = canonical_abi_type rep x # canonical_abi_types rep xs"
| "canonical_in_dict rep [] = None"
| "canonical_in_dict rep ((k, v) # d) =
     (if k = ''components'' then
        (case v of
           VList cs \<Rightarrow> if list_all is_dict cs then Some (join '','' (canonical_abi_types rep cs)) else None
         | _ \<Rightarrow> None)
      else canonical_in_dict rep d)"

lemma canonical_abi_types_map: "canonical_abi_types rep xs = map (canonical_abi_type rep) xs"
  by (induction xs) auto

text \<open>The equation in the code's terms: the components are looked up by key.\<close>

lemma canonical_in_dict_get:
  "canonical_in_dict rep d =
     (case dict_get d ''components'' of
        VList cs \<Rightarrow> if list_all is_dict cs
          then Some (join '','' (map (canonical_abi_type rep) cs)) else None
      | _ \<Rightarrow> None)"
proof (induction d)
  case (Cons p d)
  then show ?case
    by (cases p; cases "fst p = ''components''"; cases "snd p")
      (simp_all add: canonical_abi_types_map)
qed simp

definition abi_int_width :: "string \<Rightarrow> string \<Rightarrow> nat option py" where
  "abi_int_width typ pre =
     (let suffix = drop (length pre) typ in
      if suffix = [] then Inr (Some 256)
      else if \<not> py_isdigit suffix then Inr None
      else rbind (int_or_raise suffix) (\<lambda>bits.
        Inr (if 8 \<le> bits \<and> bits \<le> 256 \<and> bits mod 8 = 0 then Some (nat bits) else None)))"

section \<open>One static word\<close>

definition decode_uint_word :: "string \<Rightarrow> string \<Rightarrow> abi_value option py" where
  "decode_uint_word typ word =
     rbind (abi_int_width typ ''uint'') (\<lambda>width.
       Inr (case (uint_of (Some word), width) of
              (Some raw, Some bits) \<Rightarrow> if push_bit bits 1 \<le> raw then None else Some (AInt raw)
            | _ \<Rightarrow> None))"

definition decode_int_word :: "string \<Rightarrow> string \<Rightarrow> abi_value option py" where
  "decode_int_word typ word =
     rbind (abi_int_width typ ''int'') (\<lambda>width.
       Inr (case (uint_of (Some word), width) of
              (Some raw, Some bits) \<Rightarrow>
                (let low_mask = push_bit bits 1 - 1;
                     low = raw AND low_mask;
                     negative = low AND push_bit (bits - 1) 1 \<noteq> 0;
                     expected = (if negative \<and> bits < 256
                       then low OR push_bit bits (push_bit (256 - bits) 1 - 1) else low)
                 in if raw \<noteq> expected then None
                    else Some (AInt (if negative then low - push_bit bits 1 else low)))
            | _ \<Rightarrow> None))"

definition decode_fixed_bytes_word :: "string \<Rightarrow> string \<Rightarrow> abi_value option py" where
  "decode_fixed_bytes_word typ word =
     rbind (int_or_raise (drop 5 typ)) (\<lambda>size.
       if \<not> (1 \<le> size \<and> size \<le> 32) then Inr None
       else
         let used = nat size * 2 in
         if list_ex (\<lambda>c. c \<noteq> CHR ''0'') (drop used word) then Inr None
         else Inr (Some (AStr (''0x'' @ take used word))))"

definition decode_abi_static :: "string \<Rightarrow> string \<Rightarrow> abi_value option py" where
  "decode_abi_static typ word =
     (if length word \<noteq> 64 then Inr None
      else if typ = ''address'' then Inr (map_option AStr (address_of (Some word)))
      else if typ = ''bool'' then Inr (map_option ABool (bool_of (Some word)))
      else if starts_with ''uint'' typ then decode_uint_word typ word
      else if starts_with ''int'' typ then decode_int_word typ word
      else if starts_with ''bytes'' typ \<and> py_isdigit (drop 5 typ) then decode_fixed_bytes_word typ word
      else Inr None)"

section \<open>Supported types and their layout\<close>

definition supported_static_type :: "string \<Rightarrow> bool py" where
  "supported_static_type typ =
     (if typ = ''address'' \<or> typ = ''bool'' then Inr True
      else if starts_with ''uint'' typ then
        rbind (abi_int_width typ ''uint'') (\<lambda>w. Inr (w \<noteq> None))
      else if starts_with ''int'' typ then
        rbind (abi_int_width typ ''int'') (\<lambda>w. Inr (w \<noteq> None))
      else if starts_with ''bytes'' typ \<and> py_isdigit (drop 5 typ) then
        rbind (int_or_raise (drop 5 typ)) (\<lambda>size. Inr (1 \<le> size \<and> size \<le> 32))
      else Inr False)"

definition dynamic_array_element_type :: "string \<Rightarrow> string option py" where
  "dynamic_array_element_type typ =
     (if \<not> ends_with ''[]'' typ then Inr None
      else
        let element_type = take (length typ - 2) typ in
        rbind (supported_static_type element_type) (\<lambda>ok.
          Inr (if ok then Some element_type else None)))"

definition fixed_array_spec :: "string \<Rightarrow> (string \<times> nat) option py" where
  "fixed_array_spec typ =
     (if \<not> ends_with '']'' typ \<or> CHR ''['' \<notin> set typ then Inr None
      else
        let element_type = before_last (CHR ''['') typ; length_text = after_last (CHR ''['') typ in
        if CHR ''['' \<in> set element_type \<or> \<not> ends_with '']'' length_text then Inr None
        else
          let digits = butlast length_text in
          if \<not> py_isdigit digits then Inr None
          else rbind (supported_static_type element_type) (\<lambda>ok.
            if \<not> ok then Inr None
            else rbind (int_or_raise digits) (\<lambda>n.
              Inr (if 1 \<le> n \<and> n \<le> MAX_FIXED_ARRAY_ITEMS then Some (element_type, nat n) else None))))"

definition static_head_words :: "string \<Rightarrow> nat option py" where
  "static_head_words typ =
     rbind (supported_static_type typ) (\<lambda>ok.
       if ok then Inr (Some 1)
       else rbind (fixed_array_spec typ) (\<lambda>spec. Inr (map_option snd spec)))"

text \<open>The loop over the components of a static tuple; it stops at the first unsupported type.\<close>

fun tuple_loop :: "(pyval \<Rightarrow> string) \<Rightarrow> nat \<Rightarrow> pyval list \<Rightarrow> (pyval \<times> string) list option py" where
  "tuple_loop rep index [] = Inr (Some [])"
| "tuple_loop rep index (c # cs) =
     (let typ = canonical_abi_type rep c; name = dict_get (dict_items c) ''name'' in
      rbind (supported_static_type typ) (\<lambda>ok.
        if \<not> ok then Inr None
        else rbind (tuple_loop rep (Suc index) cs) (\<lambda>rest.
          Inr (map_option
            ((#) (if truthy name then name else VStr (''item'' @ dec_text index), typ)) rest))))"

definition static_tuple_components ::
  "(pyval \<Rightarrow> string) \<Rightarrow> pydict \<Rightarrow> (pyval \<times> string) list option py" where
  "static_tuple_components rep param =
     (if dict_get param ''type'' \<noteq> VStr ''tuple'' then Inr None
      else case dict_get param ''components'' of
        VList cs \<Rightarrow>
          if \<not> (1 \<le> length cs \<and> length cs \<le> MAX_STATIC_TUPLE_ITEMS) \<or> \<not> list_all is_dict cs
          then Inr None else tuple_loop rep 0 cs
      | _ \<Rightarrow> Inr None)"

definition static_param_words :: "(pyval \<Rightarrow> string) \<Rightarrow> pydict \<Rightarrow> string \<Rightarrow> nat option py" where
  "static_param_words rep param typ =
     rbind (static_head_words typ) (\<lambda>words.
       case words of
         Some w \<Rightarrow> Inr (Some w)
       | None \<Rightarrow> rbind (static_tuple_components rep param) (\<lambda>cs. Inr (map_option length cs)))"

definition is_supported_dynamic_type :: "string \<Rightarrow> bool py" where
  "is_supported_dynamic_type typ =
     (if typ = ''bytes'' \<or> typ = ''string'' then Inr True
      else rbind (dynamic_array_element_type typ) (\<lambda>e. Inr (e \<noteq> None)))"

definition is_composite_or_dynamic_type :: "string \<Rightarrow> bool" where
  "is_composite_or_dynamic_type typ =
     (typ = ''bytes'' \<or> typ = ''string'' \<or> CHR ''['' \<in> set typ \<or> CHR '']'' \<in> set typ
      \<or> starts_with ''('' typ)"

definition padded_bytes :: "int \<Rightarrow> int" where
  "padded_bytes n = (n + 31) div 32 * 32"

section \<open>Integer types\<close>

definition valid_bits :: "nat \<Rightarrow> bool" where
  "valid_bits b = (8 \<le> b \<and> b \<le> 256 \<and> b mod 8 = 0)"

definition uint_type :: "nat \<Rightarrow> string" where
  "uint_type b = ''uint'' @ dec_text b"

definition int_type :: "nat \<Rightarrow> string" where
  "int_type b = ''int'' @ dec_text b"

definition bytes_type :: "nat \<Rightarrow> string" where
  "bytes_type n = ''bytes'' @ dec_text n"

lemma int_or_raise_small: "n < 1000 \<Longrightarrow> int_or_raise (dec_text n) = Inr (int n)"
  by (simp add: int_or_raise_def py_int_small)

lemma width_eval:
  assumes "valid_bits b"
  shows "abi_int_width (uint_type b) ''uint'' = Inr (Some b)"
    and "abi_int_width (int_type b) ''int'' = Inr (Some b)"
  using assms
  by (auto simp: abi_int_width_def uint_type_def int_type_def dec_text_isdigit int_or_raise_small
      valid_bits_def nat_mod_distrib zmod_int)

lemma width_bits: "abi_int_width typ pre = Inr (Some b) \<Longrightarrow> valid_bits b"
  by (auto simp: abi_int_width_def valid_bits_def rbind_eq_Inr Let_def split: if_splits)
    (metis dvd_nat_abs_iff mod_eq_0_iff_dvd abs_of_nonneg dual_order.trans nat_dvd_iff
      nat_numeral zero_le_numeral of_nat_numeral)

lemma type_names:
  "uint_type b \<noteq> ''address''" "uint_type b \<noteq> ''bool''" "starts_with ''uint'' (uint_type b)"
  "int_type b \<noteq> ''address''" "int_type b \<noteq> ''bool''" "\<not> starts_with ''uint'' (int_type b)"
  "starts_with ''int'' (int_type b)"
  "bytes_type n \<noteq> ''address''" "bytes_type n \<noteq> ''bool''" "\<not> starts_with ''uint'' (bytes_type n)"
  "\<not> starts_with ''int'' (bytes_type n)" "starts_with ''bytes'' (bytes_type n)"
  "py_isdigit (drop 5 (bytes_type n))"
  by (simp_all add: uint_type_def int_type_def bytes_type_def starts_with_def dec_text_isdigit)

lemma decode_uint_type:
  assumes "length word = 64"
  shows "decode_abi_static (uint_type b) word = decode_uint_word (uint_type b) word"
    and "decode_abi_static (int_type b) word = decode_int_word (int_type b) word"
    and "decode_abi_static (bytes_type b) word = decode_fixed_bytes_word (bytes_type b) word"
  using assms by (simp_all add: decode_abi_static_def type_names)

lemma pow_bits: "valid_bits b \<Longrightarrow> (2 :: nat) ^ b \<le> 2 ^ 256"
  by (rule power_increasing) (auto simp: valid_bits_def)

lemma uint_of_hexw: "n < 2 ^ 256 \<Longrightarrow> uint_of (Some (hexw 64 n)) = Some (int n)"
  by (simp add: uint_of_def)

lemma decode_uint_hexw:
  assumes "valid_bits b" and "v < 2 ^ b"
  shows "decode_abi_static (uint_type b) (hexw 64 v) = Inr (Some (AInt (int v)))"
proof -
  have "v < 2 ^ 256" using assms pow_bits order.strict_trans2 by blast
  moreover have "\<not> push_bit b 1 \<le> int v"
    using assms(2) by (simp add: push_bit_eq_mult)
  ultimately show ?thesis
    by (simp add: decode_uint_type decode_uint_word_def width_eval assms(1) uint_of_hexw
        del: hexw_zero)
qed

text \<open>The sign test and the sign extension of the code, in arithmetic terms.\<close>

lemma low_bits: "raw AND (push_bit b 1 - 1) = raw mod (2 :: int) ^ b"
  by (simp add: push_bit_eq_mult flip: mask_eq_exp_minus_1 take_bit_eq_mask take_bit_eq_mod)

lemma sign_test:
  assumes "0 \<le> low" and "low < 2 ^ b" and "0 < b"
  shows "low AND push_bit (b - 1) 1 \<noteq> 0 \<longleftrightarrow> (2 :: int) ^ (b - 1) \<le> low"
proof -
  obtain c where c: "b = Suc c" using assms(3) by (cases b) auto
  have "odd (low div 2 ^ c) \<longleftrightarrow> 2 ^ c \<le> low"
  proof (cases "low < 2 ^ c")
    case True
    with assms(1) show ?thesis by simp
  next
    case False
    have "low div 2 ^ c = (low - 2 ^ c + 2 ^ c) div 2 ^ c" by simp
    also have "\<dots> = (low - 2 ^ c) div 2 ^ c + 1" by (subst div_add_self2) simp_all
    also have "\<dots> = 1" using False assms(2) c by simp
    finally show ?thesis using False by simp
  qed
  moreover have "low AND push_bit (b - 1) 1 = 0 \<longleftrightarrow> \<not> bit low c"
    by (simp add: c push_bit_eq_mult and_exp_eq_0_iff_not_bit)
  ultimately show ?thesis by (simp add: c bit_iff_odd)
qed

lemma sign_extension:
  assumes "0 \<le> low" and "low < 2 ^ b" and "b \<le> w"
  shows "low OR push_bit b (push_bit (w - b) 1 - 1) = low + 2 ^ w - (2 :: int) ^ b"
proof -
  have "low + push_bit b (mask (w - b)) = low OR push_bit b (mask (w - b))"
  proof (rule disjunctive_add)
    fix n
    show "\<not> bit low n \<or> \<not> bit (push_bit b (mask (w - b)) :: int) n"
      using assms(1,2) by (metis bit_push_bit_iff bit_take_bit_iff not_le take_bit_int_eq_self)
  qed
  moreover have "push_bit b (mask (w - b)) = (2 :: int) ^ w - 2 ^ b"
    using assms(3) by (simp add: push_bit_eq_mult mask_eq_exp_minus_1 algebra_simps flip: power_add)
  moreover have "push_bit (w - b) 1 - 1 = (mask (w - b) :: int)"
    by (simp add: push_bit_eq_mult mask_eq_exp_minus_1)
  ultimately show ?thesis by simp
qed

lemma half_power: "0 < b \<Longrightarrow> (2 :: int) ^ b = 2 * 2 ^ (b - 1)"
  by (cases b) auto

lemma power_le: "b \<le> w \<Longrightarrow> (2 :: int) ^ b \<le> 2 ^ w"
  by (rule power_increasing) auto

text \<open>Two's complement: a signed value of \<open>b\<close> bits written in \<open>w\<close> bits.\<close>

lemma signed_mod:
  fixes v :: int
  assumes "0 < b" and "b \<le> w" and "- (2 ^ (b - 1)) \<le> v" and "v < 2 ^ (b - 1)"
  shows "v mod 2 ^ w = (if v < 0 then v + 2 ^ w else v)"
    and "v mod 2 ^ w mod 2 ^ b = (if v < 0 then v + 2 ^ b else v)"
proof -
  have red: "v mod 2 ^ c = (if v < 0 then v + 2 ^ c else v)" if "b \<le> c" for c
  proof (cases "v < 0")
    case True
    have "v mod 2 ^ c = (v + 2 ^ c) mod 2 ^ c" by (simp only: mod_add_self2)
    also have "\<dots> = v + 2 ^ c"
      using True assms power_le [OF that] half_power [of b] by (intro mod_pos_pos_trivial) linarith+
    finally show ?thesis using True by simp
  next
    case False
    have "v mod 2 ^ c = v"
      using False assms power_le [OF that] half_power [of b] by (intro mod_pos_pos_trivial) linarith+
    with False show ?thesis by simp
  qed
  show "v mod 2 ^ w = (if v < 0 then v + 2 ^ w else v)" by (rule red [OF assms(2)])
  have "v mod 2 ^ w mod 2 ^ b = v mod 2 ^ b"
    by (rule mod_mod_cancel [OF le_imp_power_dvd [OF assms(2)]])
  then show "v mod 2 ^ w mod 2 ^ b = (if v < 0 then v + 2 ^ b else v)"
    by (simp only: red [OF order_refl])
qed

lemma signed_back:
  fixes raw :: int
  assumes "0 < b" and "b \<le> w"
    and "raw = (if 2 ^ (b - 1) \<le> raw mod 2 ^ b then raw mod 2 ^ b + 2 ^ w - 2 ^ b else raw mod 2 ^ b)"
    and v: "v = (if 2 ^ (b - 1) \<le> raw mod 2 ^ b then raw mod 2 ^ b - 2 ^ b else raw mod 2 ^ b)"
  shows "- (2 ^ (b - 1)) \<le> v \<and> v < 2 ^ (b - 1) \<and> raw = v mod 2 ^ w"
proof -
  let ?low = "raw mod 2 ^ b"
  have low: "0 \<le> ?low" "?low < 2 ^ b" by simp_all
  show ?thesis
  proof (cases "2 ^ (b - 1) \<le> ?low")
    case True
    then have "v + 2 ^ w = raw" and "v = ?low - 2 ^ b" using assms(3) v by simp_all
    moreover from this have "0 \<le> raw" and "raw < 2 ^ w"
      using low power_le [OF assms(2)] by linarith+
    moreover from this \<open>v + 2 ^ w = raw\<close> have "v mod 2 ^ w = raw"
      by (metis mod_add_self2 mod_pos_pos_trivial)
    ultimately show ?thesis using True low half_power [OF assms(1)] by linarith
  next
    case False
    then have "v = raw" and "v = ?low" using assms(3) v by simp_all
    moreover from this have "v mod 2 ^ w = v"
      using low power_le [OF assms(2)] by (intro mod_pos_pos_trivial) linarith+
    ultimately show ?thesis using False low by linarith
  qed
qed

lemma uint_word_bounds:
  assumes "decode_uint_word (uint_type b) word = Inr (Some (AInt v))" and "valid_bits b"
  shows "v < 2 ^ b"
  using assms
  by (auto simp: decode_uint_word_def width_eval rbind_eq_Inr push_bit_eq_mult
      split: option.splits if_splits)

lemma int_word_eval:
  assumes "valid_bits b" and "uint_of (Some word) = Some raw"
  shows "decode_int_word (int_type b) word =
     Inr (if raw \<noteq> (if 2 ^ (b - 1) \<le> raw mod 2 ^ b then raw mod 2 ^ b + 2 ^ 256 - 2 ^ b
            else raw mod 2 ^ b)
          then None
          else Some (AInt (if 2 ^ (b - 1) \<le> raw mod 2 ^ b then raw mod 2 ^ b - 2 ^ b
            else raw mod 2 ^ b)))"
proof -
  let ?low = "raw mod 2 ^ b"
  have b: "0 < b" "b \<le> 256" using assms(1) by (auto simp: valid_bits_def)
  have low: "0 \<le> ?low" "?low < 2 ^ b" by simp_all
  have expected: "(if ?low AND push_bit (b - 1) 1 \<noteq> 0 \<and> b < 256
      then ?low OR push_bit b (push_bit (256 - b) 1 - 1) else ?low) =
    (if 2 ^ (b - 1) \<le> ?low then ?low + 2 ^ 256 - 2 ^ b else ?low)"
    unfolding sign_extension [OF low b(2)] sign_test [OF low b(1)] using b by (cases "b = 256") auto
  have shift: "push_bit b (1 :: int) = 2 ^ b" by (simp add: push_bit_eq_mult)
  show ?thesis
    unfolding decode_int_word_def width_eval(2) [OF assms(1)] assms(2) rbind_simps prod.case
      option.case Let_def low_bits expected unfolding sign_test [OF low b(1)] shift
    by (rule refl)
qed

lemma int_word_sound:
  assumes "decode_int_word (int_type b) word = Inr (Some (AInt v))" and "valid_bits b"
  shows "- (2 ^ (b - 1)) \<le> v \<and> v < 2 ^ (b - 1) \<and> uint_of (Some word) = Some (v mod 2 ^ 256)"
proof -
  obtain raw where raw: "uint_of (Some word) = Some raw"
    using assms by (auto simp: decode_int_word_def width_eval rbind_eq_Inr split: option.splits)
  have b: "0 < b" "b \<le> 256" using assms(2) by (auto simp: valid_bits_def)
  from assms(1) int_word_eval [OF assms(2) raw]
  have "raw = (if 2 ^ (b - 1) \<le> raw mod 2 ^ b then raw mod 2 ^ b + 2 ^ 256 - 2 ^ b
      else raw mod 2 ^ b)"
    and "v = (if 2 ^ (b - 1) \<le> raw mod 2 ^ b then raw mod 2 ^ b - 2 ^ b else raw mod 2 ^ b)"
    by (simp_all only: sum.inject option.inject abi_value.inject split: if_splits) auto
  from signed_back [OF b this] raw show ?thesis by (simp only: simp_thms)
qed

lemma decode_int_hexw:
  assumes "valid_bits b" and "- (2 ^ (b - 1)) \<le> v" and "v < 2 ^ (b - 1)"
  shows "decode_abi_static (int_type b) (hexw 64 (nat (v mod 2 ^ 256))) = Inr (Some (AInt v))"
proof -
  have b: "0 < b" "b \<le> 256" using assms(1) by (auto simp: valid_bits_def)
  have bound: "0 \<le> v mod 2 ^ 256" "v mod 2 ^ 256 < (2 :: int) ^ 256"
    by (rule pos_mod_sign pos_mod_bound, simp)+
  then have "nat (v mod 2 ^ 256) < 2 ^ 256" by (subst nat_less_iff) simp_all
  then have raw: "uint_of (Some (hexw 64 (nat (v mod 2 ^ 256)))) = Some (v mod 2 ^ 256)"
    using uint_of_hexw bound(1) by (metis int_nat_eq)
  have "v < 0 \<longleftrightarrow> 2 ^ (b - 1) \<le> v mod 2 ^ 256 mod 2 ^ b"
    using signed_mod(2) [OF b assms(2,3)] half_power [OF b(1)] assms(2,3) by (cases "v < 0") auto
  moreover have cancel: "x + p + w - p = x + w" for x p w :: int by simp
  ultimately show ?thesis
    using int_word_eval [OF assms(1) raw] signed_mod [OF b assms(2,3)]
    by (cases "v < 0") (simp_all only: decode_uint_type length_hexw if_True if_False simp_thms
        add_diff_cancel_right' cancel)
qed

lemma list_ex_nonzero: "list_ex (\<lambda>c. c \<noteq> CHR ''0'') s \<longleftrightarrow> s \<noteq> replicate (length s) (CHR ''0'')"
  by (induction s) auto

lemma decode_bytes_hexw:
  assumes "1 \<le> n" and "n \<le> 32" and "length body = 2 * n"
  shows "decode_abi_static (bytes_type n) (body @ replicate (64 - 2 * n) (CHR ''0'')) =
    Inr (Some (AStr (''0x'' @ body)))"
proof -
  have "int_or_raise (drop 5 (bytes_type n)) = Inr (int n)"
    using assms(2) by (simp add: bytes_type_def int_or_raise_small)
  with assms show ?thesis
    by (simp add: decode_uint_type decode_fixed_bytes_word_def list_ex_nonzero mult.commute)
qed

lemma supported_types:
  "supported_static_type ''address'' = Inr True" "supported_static_type ''bool'' = Inr True"
  "valid_bits b \<Longrightarrow> supported_static_type (uint_type b) = Inr True"
  "valid_bits b \<Longrightarrow> supported_static_type (int_type b) = Inr True"
  "1 \<le> n \<Longrightarrow> n \<le> 32 \<Longrightarrow> supported_static_type (bytes_type n) = Inr True"
  by (auto simp: supported_static_type_def type_names width_eval)
    (simp add: bytes_type_def int_or_raise_small)

section \<open>Arguments of every static type\<close>

datatype static_arg = ArgAddress nat | ArgBool bool | ArgUint nat nat | ArgInt nat int
  | ArgBytes nat string

fun arg_valid :: "static_arg \<Rightarrow> bool" where
  "arg_valid (ArgAddress a) = (a < 2 ^ 160)"
| "arg_valid (ArgBool b) = True"
| "arg_valid (ArgUint b v) = (valid_bits b \<and> v < 2 ^ b)"
| "arg_valid (ArgInt b v) = (valid_bits b \<and> - (2 ^ (b - 1)) \<le> v \<and> v < 2 ^ (b - 1))"
| "arg_valid (ArgBytes n s) = (1 \<le> n \<and> n \<le> 32 \<and> length s = 2 * n \<and> is_hex s \<and> py_lower s = s)"

fun arg_type :: "static_arg \<Rightarrow> string" where
  "arg_type (ArgAddress a) = ''address''"
| "arg_type (ArgBool b) = ''bool''"
| "arg_type (ArgUint b v) = uint_type b"
| "arg_type (ArgInt b v) = int_type b"
| "arg_type (ArgBytes n s) = bytes_type n"

fun arg_word :: "static_arg \<Rightarrow> string" where
  "arg_word (ArgAddress a) = abi_address a"
| "arg_word (ArgBool b) = abi_bool b"
| "arg_word (ArgUint b v) = hexw 64 v"
| "arg_word (ArgInt b v) = hexw 64 (nat (v mod 2 ^ 256))"
| "arg_word (ArgBytes n s) = s @ replicate (64 - 2 * n) (CHR ''0'')"

fun arg_value :: "static_arg \<Rightarrow> abi_value" where
  "arg_value (ArgAddress a) = AStr (address_text a)"
| "arg_value (ArgBool b) = ABool b"
| "arg_value (ArgUint b v) = AInt (int v)"
| "arg_value (ArgInt b v) = AInt v"
| "arg_value (ArgBytes n s) = AStr (''0x'' @ s)"

lemma arg_supported: "arg_valid a \<Longrightarrow> supported_static_type (arg_type a) = Inr True"
  by (cases a) (simp_all add: supported_types)

lemma hex_zeros: "is_hex (replicate k (CHR ''0''))" "py_lower (replicate k (CHR ''0'')) = replicate k (CHR ''0'')"
  using is_hex_hexw [of k 0] lower_hexw [of k 0] by simp_all

lemma arg_word_shape:
  "arg_valid a \<Longrightarrow> length (arg_word a) = 64"
  "arg_valid a \<Longrightarrow> is_hex (arg_word a)"
  "arg_valid a \<Longrightarrow> py_lower (arg_word a) = arg_word a"
  by (cases a; simp add: abi_address_def abi_bool_def hex_zeros del: hexw_zero)+

lemma arg_decode: "arg_valid a \<Longrightarrow> decode_abi_static (arg_type a) (arg_word a) = Inr (Some (arg_value a))"
proof (cases a)
  case (ArgAddress x)
  then show "arg_valid a \<Longrightarrow> ?thesis"
    by (simp add: decode_abi_static_def address_of_abi)
next
  case (ArgBool b)
  then show ?thesis by (simp add: decode_abi_static_def bool_of_abi)
next
  case (ArgInt b v)
  then show "arg_valid a \<Longrightarrow> ?thesis"
    unfolding ArgInt arg_valid.simps arg_type.simps arg_word.simps arg_value.simps
    by (blast intro: decode_int_hexw)
qed (simp_all add: decode_uint_hexw decode_bytes_hexw)

section \<open>The interface of a static codec\<close>

text \<open>
  What the decoders of arrays, tuples and whole calls rely on: a supported type, and words of
  64 lower-case hexadecimal digits that the decoder of one word maps back to the value.
\<close>

locale static_codec =
  fixes ty :: string and enc :: "'a \<Rightarrow> string" and view :: "'a \<Rightarrow> abi_value"
    and valid :: "'a \<Rightarrow> bool"
  assumes supported: "supported_static_type ty = Inr True"
    and word_length: "valid x \<Longrightarrow> length (enc x) = 64"
    and decode: "valid x \<Longrightarrow> decode_abi_static ty (enc x) = Inr (Some (view x))"
begin

lemma concat_length: "list_all valid xs \<Longrightarrow> length (concat (map enc xs)) = 64 * length xs"
  by (induction xs) (auto simp: word_length)

lemma view_inj: "valid x \<Longrightarrow> valid y \<Longrightarrow> enc x = enc y \<Longrightarrow> view x = view y"
  by (metis decode option.inject sum.inject(2))

end

interpretation address_codec: static_codec "''address''" abi_address "\<lambda>a. AStr (address_text a)"
    "\<lambda>a. a < 2 ^ 160"
  by unfold_locales (simp_all add: supported_types decode_abi_static_def address_of_abi)

interpretation bool_codec: static_codec "''bool''" abi_bool ABool "\<lambda>_. True"
  by unfold_locales (simp_all add: supported_types decode_abi_static_def bool_of_abi)

lemma arg_codec:
  "static_codec (arg_type (ArgUint b v)) (\<lambda>n. hexw 64 n) (\<lambda>n. AInt (int n)) (\<lambda>n. n < 2 ^ b)"
  if "valid_bits b"
  using that by unfold_locales (simp_all add: supported_types decode_uint_hexw)

interpretation uint256_codec: static_codec "uint_type 256" "\<lambda>n. hexw 64 n" "\<lambda>n. AInt (int n)"
    "\<lambda>n. n < 2 ^ 256"
  using arg_codec [of 256] by (simp add: valid_bits_def)

section \<open>Properties\<close>

text \<open>
  Decoding one word inverts the canonical encoding of an address, a boolean, an unsigned or
  signed integer of any of the 32 widths, and a byte string of 1 to 32 bytes.
\<close>

theorem static_word_roundtrip:
  assumes "arg_valid a"
  shows "supported_static_type (arg_type a) = Inr True \<and> length (arg_word a) = 64 \<and>
    decode_abi_static (arg_type a) (arg_word a) = Inr (Some (arg_value a))"
  using arg_supported [OF assms] arg_word_shape(1) [OF assms] arg_decode [OF assms] by blast

theorem static_word_roundtrip_witness:
  "arg_valid (ArgInt 16 (- 3)) \<and>
   decode_abi_static (arg_type (ArgInt 16 (- 3))) (arg_word (ArgInt 16 (- 3))) = Inr (Some (AInt (- 3)))"
proof -
  have "arg_valid (ArgInt 16 (- 3))" by (simp add: valid_bits_def)
  with static_word_roundtrip [OF this] show ?thesis by simp
qed

text \<open>
  Whatever the word is, an accepted \<open>intN\<close> value lies in the signed range of N bits and
  the word is its two's complement, so no two words decode to the same value; an accepted
  \<open>uintN\<close> value is below \<open>2^N\<close>, and it is not negative when the word is hexadecimal.
\<close>

theorem integer_word_sound:
  assumes "valid_bits b" and "length word = 64"
  shows "(decode_abi_static (int_type b) word = Inr (Some (AInt v)) \<longrightarrow>
      - (2 ^ (b - 1)) \<le> v \<and> v < 2 ^ (b - 1) \<and> uint_of (Some word) = Some (v mod 2 ^ 256)) \<and>
    (decode_abi_static (uint_type b) word = Inr (Some (AInt v)) \<longrightarrow>
      v < 2 ^ b \<and> (is_hex word \<longrightarrow> 0 \<le> v))"
proof -
  have "0 \<le> v" if "decode_uint_word (uint_type b) word = Inr (Some (AInt v))" "is_hex word"
  proof -
    have "word \<noteq> []" using assms(2) by auto
    with that show ?thesis
      by (auto simp: decode_uint_word_def rbind_eq_Inr uint_of_def py_int_hex
          split: option.splits if_splits)
  qed
  then show ?thesis
    unfolding decode_uint_type [OF assms(2)]
    using int_word_sound [OF _ assms(1)] uint_word_bounds [OF _ assms(1)] by blast
qed

theorem integer_word_sound_witness:
  "valid_bits 8 \<and> length (hexw 64 200) = 64 \<and>
   decode_abi_static (uint_type 8) (hexw 64 200) = Inr (Some (AInt 200)) \<and> (200 :: int) < 2 ^ 8"
proof -
  have bits: "valid_bits 8" by (simp add: valid_bits_def)
  moreover have len: "length (hexw 64 200) = 64" by (rule length_hexw)
  moreover have "decode_abi_static (uint_type 8) (hexw 64 200) = Inr (Some (AInt 200))"
    using decode_uint_hexw [OF bits, of 200] by simp
  ultimately show ?thesis using integer_word_sound [OF bits len, of 200] by blast
qed

end
