(* ===== verification/AbiDecode.thy ===== *)
theory AbiDecode
  imports AbiTypes
begin

text \<open>
  Decoding calldata against a verified ABI (\<open>_decode_dynamic_value\<close> and
  \<open>decode_verified_abi_calldata\<close> of \<open>services/evm_decode.py\<close>). The loop over the
  inputs keeps the index of the next head word and the entries decoded so far; each kind of
  parameter is one step, which either goes on or stops with the reason the code reports.
\<close>

section \<open>Dynamic values\<close>

text \<open>\<open>bytes.fromhex(raw).decode("utf-8")\<close> with its two handlers.\<close>

definition decode_string_payload :: "string \<Rightarrow> int \<Rightarrow> abi_value \<times> string option" where
  "decode_string_payload raw len =
     (case from_hex_bytes raw of
        None \<Rightarrow> (ANone, Some ''dynamic string payload is not hexadecimal'')
      | Some bs \<Rightarrow>
          (case utf8_points bs of
             Some pts \<Rightarrow> (AText pts, None)
           | None \<Rightarrow> (AHex (''0x'' @ raw) len, None)))"

definition decode_bytes_or_string ::
  "string \<Rightarrow> string \<Rightarrow> int \<Rightarrow> int \<Rightarrow> int \<Rightarrow> abi_value \<times> string option" where
  "decode_bytes_or_string typ payload offset len payload_bytes =
     (let data_start_bytes = offset + 32; data_start = offset * 2 + 64;
          padded_end_bytes = data_start_bytes + padded_bytes len
      in if payload_bytes < padded_end_bytes
         then (ANone, Some ''dynamic bytes/string length exceeds calldata tail bounds'')
         else
           let raw = py_slice payload data_start (data_start + len * 2);
               padding = py_slice payload (data_start + len * 2) (padded_end_bytes * 2)
           in if int (length raw) \<noteq> len * 2
              then (ANone, Some ''dynamic bytes/string payload is truncated'')
              else if list_ex (\<lambda>c. c \<noteq> CHR ''0'') padding
              then (ANone, Some ''dynamic bytes/string padding is non-zero'')
              else if typ = ''bytes'' then (AStr (''0x'' @ raw), None)
              else decode_string_payload raw len)"

text \<open>The element loop of a dynamic array: \<open>Inl\<close> is the reported reason.\<close>

fun dynamic_array_loop ::
  "string \<Rightarrow> string \<Rightarrow> int \<Rightarrow> nat \<Rightarrow> nat \<Rightarrow> (string + abi_value list) py" where
  "dynamic_array_loop elt payload data_start index 0 = Inr (Inr [])"
| "dynamic_array_loop elt payload data_start index (Suc n) =
     (let word_start = data_start + int index * 64;
          word = py_slice payload word_start (word_start + 64)
      in rbind (decode_abi_static elt word) (\<lambda>value.
           case value of
             None \<Rightarrow> Inr (Inl (''dynamic array element '' @ dec_text index @
               '' is not canonically encoded as '' @ elt))
           | Some v \<Rightarrow> rbind (dynamic_array_loop elt payload data_start (Suc index) n) (\<lambda>rest.
               Inr (map_sum id ((#) v) rest))))"

definition decode_dynamic_array ::
  "string \<Rightarrow> string \<Rightarrow> int \<Rightarrow> int \<Rightarrow> int \<Rightarrow> (abi_value \<times> string option) py" where
  "decode_dynamic_array elt payload offset len payload_bytes =
     (if MAX_DYNAMIC_ARRAY_ITEMS < len
      then Inr (ANone, Some ''dynamic array exceeds the bounded decoder item limit'')
      else
        let data_start_bytes = offset + 32; data_start = offset * 2 + 64;
            array_end_bytes = data_start_bytes + len * 32
        in if payload_bytes < array_end_bytes
           then Inr (ANone, Some ''dynamic array length exceeds calldata tail bounds'')
           else rbind (dynamic_array_loop elt payload data_start 0 (nat len)) (\<lambda>r.
             case r of Inl reason \<Rightarrow> Inr (ANone, Some reason)
                     | Inr values \<Rightarrow> Inr (AList values, None)))"

definition decode_dynamic_value ::
  "string \<Rightarrow> string \<Rightarrow> int \<Rightarrow> int \<Rightarrow> (abi_value \<times> string option) py" where
  "decode_dynamic_value typ payload offset head_size_bytes =
     (let payload_bytes = int (length payload) div 2 in
      if offset mod 32 \<noteq> 0 then Inr (ANone, Some ''dynamic ABI offset is not 32-byte aligned'')
      else if offset < head_size_bytes
      then Inr (ANone, Some ''dynamic ABI offset points into the static head'')
      else if payload_bytes < offset + 32
      then Inr (ANone, Some ''dynamic ABI offset does not contain a complete length word'')
      else
        let start = offset * 2 in
        case uint_of (Some (py_slice payload start (start + 64))) of
          None \<Rightarrow> Inr (ANone, Some ''dynamic ABI length word is malformed'')
        | Some len \<Rightarrow>
            if typ = ''bytes'' \<or> typ = ''string''
            then Inr (decode_bytes_or_string typ payload offset len payload_bytes)
            else rbind (dynamic_array_element_type typ) (\<lambda>element_type.
              case element_type of
                Some elt \<Rightarrow> decode_dynamic_array elt payload offset len payload_bytes
              | None \<Rightarrow> Inr (ANone, Some (''verified ABI dynamic type '' @ typ @
                  '' is not supported by the bounded decoder''))))"

section \<open>Parameters\<close>

record abi_entry =
  entry_name :: pyval
  entry_type :: string
  entry_value :: abi_value

text \<open>What one iteration of the loop does: go on with a new head index, or return.\<close>

datatype abi_step = Next nat "abi_entry list" | Stop "abi_entry list" string

definition head_word :: "string \<Rightarrow> nat \<Rightarrow> string" where
  "head_word payload i = take 64 (drop (i * 64) payload)"

definition fresh_entry :: "pydict \<Rightarrow> string \<Rightarrow> nat \<Rightarrow> abi_entry" where
  "fresh_entry param typ index =
     (let name = dict_get param ''name'' in
      \<lparr>entry_name = (if truthy name then name else VStr (''arg'' @ dec_text index)),
       entry_type = typ, entry_value = ANone\<rparr>)"

definition static_param_step ::
  "string \<Rightarrow> nat \<Rightarrow> nat \<Rightarrow> abi_entry \<Rightarrow> abi_entry list \<Rightarrow> string \<Rightarrow> abi_step py" where
  "static_param_step typ index head entry decoded word =
     rbind (decode_abi_static typ word) (\<lambda>value.
       Inr (case value of
              None \<Rightarrow> Stop (decoded @ [entry]) (''static ABI parameter '' @ dec_text index @
                '' is not canonically encoded as '' @ typ)
            | Some v \<Rightarrow> Next (Suc head) (decoded @ [entry\<lparr>entry_value := v\<rparr>])))"

fun fixed_array_loop :: "string \<Rightarrow> string \<Rightarrow> nat \<Rightarrow> nat \<Rightarrow> nat \<Rightarrow> (string + abi_value list) py" where
  "fixed_array_loop elt payload head index 0 = Inr (Inr [])"
| "fixed_array_loop elt payload head index (Suc n) =
     (let word = head_word payload (head + index) in
      if length word \<noteq> 64
      then Inr (Inl (''fixed array element '' @ dec_text index @ '' is missing or truncated''))
      else rbind (decode_abi_static elt word) (\<lambda>value.
        case value of
          None \<Rightarrow> Inr (Inl (''fixed array element '' @ dec_text index @
            '' is not canonically encoded as '' @ elt))
        | Some v \<Rightarrow> rbind (fixed_array_loop elt payload head (Suc index) n) (\<lambda>rest.
            Inr (map_sum id ((#) v) rest))))"

definition fixed_array_step ::
  "string \<Rightarrow> nat \<Rightarrow> abi_entry \<Rightarrow> abi_entry list \<Rightarrow> string \<Rightarrow> nat \<Rightarrow> abi_step py" where
  "fixed_array_step payload head entry decoded elt len =
     rbind (fixed_array_loop elt payload head 0 len) (\<lambda>r.
       Inr (case r of
              Inl reason \<Rightarrow> Stop (decoded @ [entry]) reason
            | Inr values \<Rightarrow> Next (head + len) (decoded @ [entry\<lparr>entry_value := AList values\<rparr>])))"

fun tuple_words_loop ::
  "string \<Rightarrow> nat \<Rightarrow> nat \<Rightarrow> (pyval \<times> string) list \<Rightarrow>
   (string + (pyval \<times> string \<times> abi_value) list) py" where
  "tuple_words_loop payload head index [] = Inr (Inr [])"
| "tuple_words_loop payload head index ((name, typ) # cs) =
     (let word = head_word payload (head + index) in
      if length word \<noteq> 64
      then Inr (Inl (''static tuple component '' @ dec_text index @ '' is missing or truncated''))
      else rbind (decode_abi_static typ word) (\<lambda>value.
        case value of
          None \<Rightarrow> Inr (Inl (''static tuple component '' @ dec_text index @
            '' is not canonically encoded as '' @ typ))
        | Some v \<Rightarrow> rbind (tuple_words_loop payload head (Suc index) cs) (\<lambda>rest.
            Inr (map_sum id ((#) (name, typ, v)) rest))))"

definition tuple_step ::
  "string \<Rightarrow> nat \<Rightarrow> abi_entry \<Rightarrow> abi_entry list \<Rightarrow> (pyval \<times> string) list \<Rightarrow> abi_step py" where
  "tuple_step payload head entry decoded cs =
     rbind (tuple_words_loop payload head 0 cs) (\<lambda>r.
       Inr (case r of
              Inl reason \<Rightarrow> Stop (decoded @ [entry]) reason
            | Inr values \<Rightarrow>
                Next (head + length cs) (decoded @ [entry\<lparr>entry_value := ATuple values\<rparr>])))"

definition dynamic_param_step ::
  "string \<Rightarrow> string \<Rightarrow> int \<Rightarrow> nat \<Rightarrow> nat \<Rightarrow> abi_entry \<Rightarrow> abi_entry list \<Rightarrow> string \<Rightarrow> abi_step py" where
  "dynamic_param_step typ payload head_size index head entry decoded word =
     (case uint_of (Some word) of
        None \<Rightarrow> Inr (Stop (decoded @ [entry])
          (''dynamic ABI offset word '' @ dec_text index @ '' is malformed''))
      | Some offset \<Rightarrow>
          rbind (decode_dynamic_value typ payload offset head_size) (\<lambda>(value, problem).
            let decoded' = decoded @ [entry\<lparr>entry_value := value\<rparr>] in
            Inr (case problem of
                   Some reason \<Rightarrow> Stop decoded' reason
                 | None \<Rightarrow> Next (Suc head) decoded')))"

definition param_step ::
  "(pyval \<Rightarrow> string) \<Rightarrow> string \<Rightarrow> int \<Rightarrow> nat \<Rightarrow> nat \<Rightarrow> abi_entry list \<Rightarrow> pydict \<Rightarrow> string \<Rightarrow> abi_step py"
where
  "param_step rep payload head_size index head decoded param typ =
     (let entry = fresh_entry param typ index; word = head_word payload head in
      if length word \<noteq> 64
      then Inr (Stop (decoded @ [entry])
        (''ABI head word '' @ dec_text index @ '' is missing or truncated''))
      else rbind (supported_static_type typ) (\<lambda>static.
        if static then static_param_step typ index head entry decoded word
        else rbind (fixed_array_spec typ) (\<lambda>spec.
          case spec of
            Some (elt, len) \<Rightarrow> fixed_array_step payload head entry decoded elt len
          | None \<Rightarrow> rbind (static_tuple_components rep param) (\<lambda>components.
              case components of
                Some cs \<Rightarrow> tuple_step payload head entry decoded cs
              | None \<Rightarrow> rbind (is_supported_dynamic_type typ) (\<lambda>dynamic.
                  if dynamic
                  then dynamic_param_step typ payload head_size index head entry decoded word
                  else Inr (Next head decoded))))))"

fun decode_params ::
  "(pyval \<Rightarrow> string) \<Rightarrow> string \<Rightarrow> int \<Rightarrow> nat \<Rightarrow> nat \<Rightarrow> abi_entry list \<Rightarrow> (pydict \<times> string) list \<Rightarrow>
   (abi_entry list \<times> string option) py" where
  "decode_params rep payload head_size index head decoded [] = Inr (decoded, None)"
| "decode_params rep payload head_size index head decoded ((param, typ) # ps) =
     rbind (param_step rep payload head_size index head decoded param typ) (\<lambda>step.
       case step of
         Stop decoded' reason \<Rightarrow> Inr (decoded', Some reason)
       | Next head' decoded' \<Rightarrow>
           decode_params rep payload head_size (Suc index) head' decoded' ps)"

section \<open>A verified ABI\<close>

datatype abi_result =
    NoSelector
  | InvalidAbi
  | UnsupportedAbiType string string pyval "abi_entry list" string
  | MalformedAbi string string pyval "abi_entry list" string
  | DecodedAbi string string pyval "abi_entry list"
  | SelectorNotFound string

fun abi_status :: "abi_result \<Rightarrow> string" where
  "abi_status NoSelector = ''NO_SELECTOR''"
| "abi_status InvalidAbi = ''INVALID_ABI''"
| "abi_status (UnsupportedAbiType _ _ _ _ _) = ''UNSUPPORTED_VERIFIED_ABI_TYPE''"
| "abi_status (MalformedAbi _ _ _ _ _) = ''MALFORMED_VERIFIED_ABI_CALLDATA''"
| "abi_status (DecodedAbi _ _ _ _) = ''DECODED_VERIFIED_ABI''"
| "abi_status (SelectorNotFound _) = ''SELECTOR_NOT_FOUND_IN_VERIFIED_ABI''"

text \<open>The confidence of a result; the first two statuses carry none.\<close>

fun abi_confidence :: "abi_result \<Rightarrow> int option" where
  "abi_confidence (DecodedAbi _ _ _ _) = Some 99"
| "abi_confidence NoSelector = None"
| "abi_confidence InvalidAbi = None"
| "abi_confidence _ = Some 0"

text \<open>\<open>next((typ for ... if ...), None)\<close>: the first type that cannot be decoded.\<close>

fun first_unsupported ::
  "(pyval \<Rightarrow> string) \<Rightarrow> (pydict \<times> string) list \<Rightarrow> string option py" where
  "first_unsupported rep [] = Inr None"
| "first_unsupported rep ((param, typ) # ps) =
     rbind (static_param_words rep param typ) (\<lambda>words.
       if words \<noteq> None then first_unsupported rep ps
       else rbind (is_supported_dynamic_type typ) (\<lambda>ok.
         if ok then first_unsupported rep ps else Inr (Some typ)))"

definition unsupported_note :: "string \<Rightarrow> string" where
  "unsupported_note typ =
     (if is_composite_or_dynamic_type typ
      then ''Verified ABI type '' @ typ @ '' requires tuple/fixed-array/'' @
        ''nested-dynamic decoding that Rivexis does not currently claim.''
      else ''Verified ABI type '' @ typ @ '' is not supported by the bounded decoder.'')"

text \<open>\<open>sum(_static_param_words(param, typ) or 1 ...)\<close>.\<close>

fun head_words :: "(pyval \<Rightarrow> string) \<Rightarrow> (pydict \<times> string) list \<Rightarrow> nat py" where
  "head_words rep [] = Inr 0"
| "head_words rep ((param, typ) # ps) =
     rbind (static_param_words rep param typ) (\<lambda>words.
       rbind (head_words rep ps) (\<lambda>rest.
         Inr ((case words of None \<Rightarrow> 1 | Some w \<Rightarrow> if w = 0 then 1 else w) + rest)))"

definition decode_payload ::
  "(pyval \<Rightarrow> string) \<Rightarrow> string \<Rightarrow> string \<Rightarrow> pyval \<Rightarrow> (pydict \<times> string) list \<Rightarrow> string \<Rightarrow> abi_result py"
where
  "decode_payload rep selector signature name ps payload =
     (if length payload mod 64 \<noteq> 0
      then Inr (MalformedAbi selector signature name []
        ''ABI argument payload is not a whole number of 32-byte words'')
      else if py_int 16 (if payload = [] then ''0'' else payload) = None
      then Inr (MalformedAbi selector signature name []
        ''ABI argument payload contains non-hexadecimal characters'')
      else rbind (head_words rep ps) (\<lambda>words.
        rbind (decode_params rep payload (int (words * 32)) 0 0 [] ps) (\<lambda>(decoded, problem).
          Inr (case problem of
                 Some reason \<Rightarrow> MalformedAbi selector signature name decoded reason
               | None \<Rightarrow> DecodedAbi selector signature name decoded))))"

definition function_signature :: "(pyval \<Rightarrow> string) \<Rightarrow> pyval \<Rightarrow> pyval list \<Rightarrow> string" where
  "function_signature rep name inputs =
     py_str rep name @ ''('' @ join '','' (map (canonical_abi_type rep) inputs) @ '')''"

definition decode_with_function ::
  "(pyval \<Rightarrow> string) \<Rightarrow> string \<Rightarrow> string \<Rightarrow> pyval \<Rightarrow> pyval list \<Rightarrow> string \<Rightarrow> abi_result py"
where
  "decode_with_function rep selector signature name inputs payload =
     (let ps = map (\<lambda>p. (dict_items p, canonical_abi_type rep p)) inputs in
      rbind (first_unsupported rep ps) (\<lambda>unsupported.
        case unsupported of
          Some typ \<Rightarrow> Inr (UnsupportedAbiType selector signature name
            (map (\<lambda>(i, (param, t)). fresh_entry param t i) (enumerate 0 ps)) (unsupported_note typ))
        | None \<Rightarrow> decode_payload rep selector signature name ps payload))"

text \<open>The inputs of an ABI entry the loop looks at; \<open>None\<close> is \<open>continue\<close>.\<close>

definition function_inputs :: "pyval \<Rightarrow> (pyval \<times> pyval list) option" where
  "function_inputs item =
     (case item of
        VDict d \<Rightarrow>
          if dict_get d ''type'' \<noteq> VStr ''function'' \<or> \<not> truthy (dict_get d ''name'') then None
          else
            let raw = dict_get d ''inputs'';
                inputs = (if truthy raw then raw else VList [])
            in (case inputs of
                  VList xs \<Rightarrow> if list_all is_dict xs then Some (dict_get d ''name'', xs) else None
                | _ \<Rightarrow> None)
      | _ \<Rightarrow> None)"

fun scan_abi ::
  "(pyval \<Rightarrow> string) \<Rightarrow> string \<Rightarrow> string \<Rightarrow> pyval list \<Rightarrow> abi_result py" where
  "scan_abi rep selector payload [] = Inr (SelectorNotFound selector)"
| "scan_abi rep selector payload (item # items) =
     (case function_inputs item of
        None \<Rightarrow> scan_abi rep selector payload items
      | Some (name, inputs) \<Rightarrow>
          let signature = function_signature rep name inputs in
          rbind (function_selector signature) (\<lambda>sel.
            if sel \<noteq> selector then scan_abi rep selector payload items
            else decode_with_function rep selector signature name inputs payload))"

text \<open>\<open>json_loads\<close> is the parser of an ABI given as text; \<open>None\<close> when it raises.\<close>

definition decode_verified_abi_calldata ::
  "(pyval \<Rightarrow> string) \<Rightarrow> (string \<Rightarrow> pyval option) \<Rightarrow> pyval \<Rightarrow> pyval \<Rightarrow> abi_result py" where
  "decode_verified_abi_calldata rep json_loads calldata abi =
     (case calldata of
        VStr s \<Rightarrow>
          if \<not> starts_with ''0x'' s \<or> length s < 10 then Inr NoSelector
          else
            let parsed = (case abi of VStr t \<Rightarrow> json_loads t | v \<Rightarrow> Some v) in
            (case parsed of
               Some (VList items) \<Rightarrow>
                 scan_abi rep (py_lower (take 10 s)) (py_lower (drop 10 s)) items
             | _ \<Rightarrow> Inr InvalidAbi)
      | _ \<Rightarrow> Inr NoSelector)"

section \<open>Arrays and tuples of static values\<close>

lemma head_word_at:
  "length pre = 64 * i \<Longrightarrow> length w = 64 \<Longrightarrow> head_word (pre @ w @ post) i = w"
  by (simp add: head_word_def)

lemma slice_at:
  "int (length pre) = a \<Longrightarrow> length w = n \<Longrightarrow> py_slice (pre @ w @ post) a (a + int n) = w"
  using py_slice_nat [of "pre @ w @ post" "length pre" "length pre + n"] by simp

context static_codec
begin

lemma fixed_array_roundtrip:
  assumes "list_all valid xs" and "length pre = 64 * (head + index)"
  shows "fixed_array_loop ty (pre @ concat (map enc xs) @ post) head index (length xs) =
    Inr (Inr (map view xs))"
  using assms
proof (induction xs arbitrary: pre index)
  case (Cons x xs)
  let ?payload = "pre @ enc x @ concat (map enc xs) @ post"
  have w: "head_word ?payload (head + index) = enc x"
    using Cons.prems by (intro head_word_at) (simp_all add: word_length)
  have "fixed_array_loop ty ((pre @ enc x) @ concat (map enc xs) @ post) head (Suc index) (length xs) =
      Inr (Inr (map view xs))"
    using Cons.prems by (intro Cons.IH) (simp_all add: word_length)
  with w Cons.prems show ?case
    by (simp add: word_length decode Let_def)
qed simp

lemma dynamic_loop_roundtrip:
  assumes "list_all valid xs" and "int (length pre) = start + int index * 64"
  shows "dynamic_array_loop ty (pre @ concat (map enc xs) @ post) start index (length xs) =
    Inr (Inr (map view xs))"
  using assms
proof (induction xs arbitrary: pre index)
  case (Cons x xs)
  let ?payload = "pre @ enc x @ concat (map enc xs) @ post"
  have w: "py_slice ?payload (start + int index * 64) (start + int index * 64 + 64) = enc x"
    using slice_at [of pre _ "enc x" 64] Cons.prems by (simp add: word_length)
  have "dynamic_array_loop ty ((pre @ enc x) @ concat (map enc xs) @ post) start (Suc index) (length xs) =
      Inr (Inr (map view xs))"
    using Cons.prems by (intro Cons.IH) (simp_all add: word_length)
  with w Cons.prems show ?case
    by (simp add: decode Let_def)
qed simp

lemma element_type: "dynamic_array_element_type (ty @ ''[]'') = Inr (Some ty)"
  by (simp add: dynamic_array_element_type_def ends_with_def supported Let_def)

text \<open>A dynamic array laid out as length word and elements is decoded to its elements.\<close>

lemma dynamic_array_roundtrip:
  assumes "list_all valid xs" and "length xs \<le> 4096"
    and "length pre = 2 * off" and "off mod 32 = 0" and "hd_size \<le> int off"
  shows "decode_dynamic_value (ty @ ''[]'')
      (pre @ hexw 64 (length xs) @ concat (map enc xs) @ post) (int off) hd_size =
    Inr (AList (map view xs), None)"
proof -
  let ?payload = "pre @ hexw 64 (length xs) @ concat (map enc xs) @ post"
  have "length xs < 16 ^ 64" using assms(2) by simp
  then have len: "uint_of (Some (py_slice ?payload (int off * 2) (int off * 2 + 64))) = Some (int (length xs))"
    using slice_at [of pre "int off * 2" "hexw 64 (length xs)" 64 "concat (map enc xs) @ post"] assms(3)
    by (simp add: uint_of_def)
  have loop: "dynamic_array_loop ty ?payload (int off * 2 + 64) 0 (length xs) = Inr (Inr (map view xs))"
    using dynamic_loop_roundtrip [OF assms(1), of "pre @ hexw 64 (length xs)" "int off * 2 + 64" 0 post]
      assms(3) by simp
  have total: "length ?payload = 2 * off + 64 + 64 * length xs + length post"
    using assms(3) concat_length [OF assms(1)] by simp
  have "ty @ ''[]'' \<noteq> ''bytes''" "ty @ ''[]'' \<noteq> ''string''"
    by (auto simp: append_eq_Cons_conv)
  then have kinds: "(ty @ ''[]'' = ''bytes'' \<or> ty @ ''[]'' = ''string'') = False" by simp
  have aligned: "(int off mod 32 \<noteq> 0) = False"
    using assms(4) by presburger
  have room: "(int (length ?payload) div 2 < int off + 32 + int (length xs) * 32) = False"
    "(int (length ?payload) div 2 < int off + 32) = False"
  proof -
    define m where "m = length ?payload"
    have "m = 2 * off + 64 + 64 * length xs + length post" unfolding m_def by (rule total)
    then have fits: "int off + 32 + int (length xs) * 32 \<le> int m div 2" by linarith
    show "(int (length ?payload) div 2 < int off + 32 + int (length xs) * 32) = False"
      unfolding m_def [symmetric] using fits by simp
    show "(int (length ?payload) div 2 < int off + 32) = False"
      unfolding m_def [symmetric] using fits by simp
  qed
  have head: "(int off < hd_size) = False" and few: "(4096 < int (length xs)) = False"
    using assms(2,5) by simp_all
  show ?thesis
    unfolding decode_dynamic_value_def decode_dynamic_array_def MAX_DYNAMIC_ARRAY_ITEMS_def Let_def
      aligned head room kinds few if_False len option.case element_type rbind_simps nat_int loop sum.case
    by (rule refl)
qed

end

section \<open>What a successful decoding guarantees\<close>

lemma dynamic_loop_length:
  "dynamic_array_loop elt payload start index n = Inr (Inr vs) \<Longrightarrow> length vs = n"
  by (induction elt payload start index n arbitrary: vs rule: dynamic_array_loop.induct)
    (auto simp: Let_def res_simps split: option.splits)

lemma bytes_or_string_sound:
  assumes "decode_bytes_or_string typ payload offset len payload_bytes = (v, None)"
  shows "v \<noteq> ANone \<and> 0 \<le> len \<and> offset + 32 + padded_bytes len \<le> payload_bytes"
  using assms
  by (auto simp: decode_bytes_or_string_def decode_string_payload_def Let_def
      split: if_splits option.splits)

lemma dynamic_array_sound:
  assumes "decode_dynamic_array elt payload offset len payload_bytes = Inr (v, None)"
  shows "\<exists>vs. v = AList vs \<and> length vs = nat len \<and> len \<le> 4096 \<and> offset + 32 + len * 32 \<le> payload_bytes"
proof -
  from assms obtain r where bounds: "len \<le> 4096" "offset + 32 + len * 32 \<le> payload_bytes"
    and r: "dynamic_array_loop elt payload (offset * 2 + 64) 0 (nat len) = Inr r"
    and v: "(case r of Inl reason \<Rightarrow> Inr (ANone, Some reason) | Inr values \<Rightarrow> Inr (AList values, None)) =
      (Inr (v, None) :: (abi_value \<times> string option) py)"
    by (auto simp: decode_dynamic_array_def Let_def rbind_eq_Inr MAX_DYNAMIC_ARRAY_ITEMS_def
        split: if_splits)
  from v obtain vs where "r = Inr vs" and "v = AList vs" by (cases r) auto
  with r bounds dynamic_loop_length show ?thesis by blast
qed

lemma dynamic_value_sound:
  assumes "decode_dynamic_value typ payload offset head = Inr (v, None)"
  shows "v \<noteq> ANone \<and> offset mod 32 = 0 \<and> head \<le> offset \<and> offset + 32 \<le> int (length payload) div 2"
  using assms bytes_or_string_sound dynamic_array_sound
  by (fastforce simp: decode_dynamic_value_def Let_def rbind_eq_Inr split: if_splits option.splits)


section \<open>One entry per parameter\<close>

text \<open>A step that goes on, on a supported parameter, has appended exactly one decoded entry.\<close>

lemma supported_step_kinds:
  assumes "first_unsupported rep [(param, t)] = Inr None"
    and "supported_static_type t = Inr False" and "fixed_array_spec t = Inr None"
    and "static_tuple_components rep param = Inr None"
  shows "is_supported_dynamic_type t = Inr True"
  using assms
  by (auto simp: static_param_words_def static_head_words_def rbind_eq_Inr split: if_splits)

definition appends_one :: "abi_entry list \<Rightarrow> abi_step \<Rightarrow> string \<Rightarrow> bool" where
  "appends_one decoded step t = (\<forall>head' decoded'. step = Next head' decoded' \<longrightarrow>
     (\<exists>e. decoded' = decoded @ [e] \<and> entry_type e = t \<and> entry_value e \<noteq> ANone))"

lemma param_step_appends:
  assumes "param_step rep payload hs index head decoded param t = Inr step"
    and "first_unsupported rep [(param, t)] = Inr None"
  shows "appends_one decoded step t"
proof -
  have ty: "entry_type (fresh_entry param t index) = t" by (simp add: fresh_entry_def Let_def)
  have static: "appends_one decoded st t"
    if "static_param_step t index head (fresh_entry param t index) decoded w = Inr st"
      and "decode_abi_static t w \<noteq> Inr (Some ANone)" for st w
    using that ty by (auto simp: static_param_step_def appends_one_def rbind_eq_Inr split: option.splits)
  have fixed: "appends_one decoded st t"
    if "fixed_array_step payload head (fresh_entry param t index) decoded elt n = Inr st" for st elt n
  proof -
    from that obtain r where "st = (case r of Inl reason \<Rightarrow> Stop (decoded @ [fresh_entry param t index]) reason
        | Inr values \<Rightarrow> Next (head + n)
            (decoded @ [(fresh_entry param t index)\<lparr>entry_value := AList values\<rparr>]))"
      by (auto simp: fixed_array_step_def rbind_eq_Inr)
    then show ?thesis by (cases r) (auto simp: appends_one_def ty)
  qed
  have tuple: "appends_one decoded st t"
    if "tuple_step payload head (fresh_entry param t index) decoded cs = Inr st" for st cs
  proof -
    from that obtain r where "st = (case r of Inl reason \<Rightarrow> Stop (decoded @ [fresh_entry param t index]) reason
        | Inr values \<Rightarrow> Next (head + length cs)
            (decoded @ [(fresh_entry param t index)\<lparr>entry_value := ATuple values\<rparr>]))"
      by (auto simp: tuple_step_def rbind_eq_Inr)
    then show ?thesis by (cases r) (auto simp: appends_one_def ty)
  qed
  have dynamic: "appends_one decoded st t"
    if "dynamic_param_step t payload hs index head (fresh_entry param t index) decoded w = Inr st" for st w
    using that ty dynamic_value_sound
    by (fastforce simp: dynamic_param_step_def appends_one_def rbind_eq_Inr Let_def split: option.splits)
  have "decode_abi_static t w \<noteq> Inr (Some ANone)" for w
    by (auto simp: decode_abi_static_def decode_uint_word_def decode_int_word_def
        decode_fixed_bytes_word_def rbind_eq_Inr Let_def split: if_splits option.splits)
  with static fixed tuple dynamic show ?thesis
    using assms(1) supported_step_kinds [OF assms(2)]
    by (fastforce simp: param_step_def Let_def rbind_eq_Inr appends_one_def
        split: if_splits option.splits)
qed

lemma first_unsupported_Cons:
  "first_unsupported rep ((param, t) # ps) = Inr None \<longleftrightarrow>
    first_unsupported rep [(param, t)] = Inr None \<and> first_unsupported rep ps = Inr None"
  by (auto simp: rbind_eq_Inr split: if_splits)

lemma decode_params_entries:
  assumes "decode_params rep payload hs index head decoded ps = Inr (entries, None)"
    and "first_unsupported rep ps = Inr None"
  shows "\<exists>es. entries = decoded @ es \<and> map entry_type es = map snd ps \<and>
    (\<forall>e \<in> set es. entry_value e \<noteq> ANone)"
  using assms
proof (induction ps arbitrary: index head decoded)
  case (Cons p ps)
  obtain param t where p: "p = (param, t)" by (cases p)
  from Cons.prems(2) p have sup: "first_unsupported rep [(param, t)] = Inr None"
    and rest: "first_unsupported rep ps = Inr None"
    using first_unsupported_Cons [of rep param t ps] by blast+
  from Cons.prems(1) p obtain step where
    step: "param_step rep payload hs index head decoded param t = Inr step"
    and go: "(case step of Stop d reason \<Rightarrow> Inr (d, Some reason)
       | Next head3 d \<Rightarrow> decode_params rep payload hs (Suc index) head3 d ps) = Inr (entries, None)"
    by (auto simp: rbind_eq_Inr)
  from go obtain head2 d where nxt: "step = Next head2 d"
    and loop: "decode_params rep payload hs (Suc index) head2 d ps = Inr (entries, None)"
    by (cases step) auto
  from param_step_appends [OF step sup] nxt obtain e where
    d: "d = decoded @ [e]" "entry_type e = t" "entry_value e \<noteq> ANone"
    by (auto simp: appends_one_def)
  from Cons.IH [OF loop rest] obtain es where
    "entries = d @ es" "map entry_type es = map snd ps" "\<forall>e \<in> set es. entry_value e \<noteq> ANone"
    by blast
  with d p show ?case by (intro exI [of _ "e # es"]) simp
qed simp

lemma scan_abi_decoded:
  assumes "scan_abi rep selector payload items = Inr (DecodedAbi sel sig name entries)"
  shows "\<exists>inputs. sel = selector \<and> sig = function_signature rep name inputs \<and>
    function_selector sig = Inr selector \<and>
    (\<exists>item \<in> set items. function_inputs item = Some (name, inputs)) \<and>
    decode_with_function rep selector sig name inputs payload =
      Inr (DecodedAbi selector sig name entries)"
  using assms
proof (induction items)
  case (Cons item items)
  show ?case
  proof (cases "function_inputs item")
    case None
    with Cons show ?thesis by auto
  next
    case (Some a)
    obtain n inputs where a: "a = (n, inputs)" by (cases a)
    from Cons.prems Some a obtain s where
      s: "function_selector (function_signature rep n inputs) = Inr s"
      by (auto simp: Let_def rbind_eq_Inr)
    show ?thesis
    proof (cases "s = selector")
      case True
      with Cons.prems Some a s have dec: "decode_with_function rep selector (function_signature rep n inputs) n inputs
          payload = Inr (DecodedAbi sel sig name entries)"
        by simp
      then have "sel = selector \<and> sig = function_signature rep n inputs \<and> name = n"
        by (auto simp: decode_with_function_def decode_payload_def Let_def rbind_eq_Inr
            split: if_splits option.splits)
      with dec Some a s True show ?thesis by auto
    next
      case False
      with Cons Some a s show ?thesis by auto
    qed
  qed
qed simp

lemma decode_with_function_decoded:
  assumes "decode_with_function rep selector sig name inputs payload =
    Inr (DecodedAbi selector sig name entries)"
  shows "length payload mod 64 = 0 \<and> (payload \<noteq> [] \<longrightarrow> py_int 16 payload \<noteq> None) \<and>
    map entry_type entries = map (canonical_abi_type rep) inputs \<and>
    (\<forall>e \<in> set entries. entry_value e \<noteq> ANone)"
proof -
  let ?ps = "map (\<lambda>p. (dict_items p, canonical_abi_type rep p)) inputs"
  from assms obtain hs where sup: "first_unsupported rep ?ps = Inr None"
    and "length payload mod 64 = 0" "payload \<noteq> [] \<longrightarrow> py_int 16 payload \<noteq> None"
    and "decode_params rep payload hs 0 0 [] ?ps = Inr (entries, None)"
    by (auto simp: decode_with_function_def decode_payload_def Let_def rbind_eq_Inr
        split: if_splits option.splits)
  moreover from decode_params_entries [OF this(4) sup] have
    "map entry_type entries = map (canonical_abi_type rep) inputs \<and>
     (\<forall>e \<in> set entries. entry_value e \<noteq> ANone)"
    by (auto simp: comp_def)
  ultimately show ?thesis by blast
qed

section \<open>Declared functions and canonical calls\<close>

definition abi_param :: "string \<Rightarrow> string \<Rightarrow> pyval" where
  "abi_param name typ = VDict [(''name'', VStr name), (''type'', VStr typ)]"

definition abi_function :: "string \<Rightarrow> pyval list \<Rightarrow> pyval" where
  "abi_function name params =
     VDict [(''type'', VStr ''function''), (''name'', VStr name), (''inputs'', VList params)]"

lemma canonical_abi_param:
  "\<not> starts_with ''tuple'' typ \<Longrightarrow> canonical_abi_type rep (abi_param name typ) = typ"
  by (simp add: abi_param_def type_text_def Let_def)

lemma abi_param_dict [simp]: "is_dict (abi_param name typ)"
  by (simp add: abi_param_def)

lemma function_inputs_abi_function:
  "name \<noteq> [] \<Longrightarrow> list_all is_dict params \<Longrightarrow>
   function_inputs (abi_function name params) = Some (VStr name, params)"
  by (cases params) (simp_all add: function_inputs_def abi_function_def)

lemma arg_type_plain: "\<not> starts_with ''tuple'' (arg_type a)"
  by (cases a) (simp_all add: uint_type_def int_type_def bytes_type_def starts_with_def)

text \<open>The declared parameters and the entries of a list of named static arguments.\<close>

definition arg_params :: "(string \<times> static_arg) list \<Rightarrow> pyval list" where
  "arg_params args = map (\<lambda>(n, a). abi_param n (arg_type a)) args"

definition arg_entry :: "string \<times> static_arg \<Rightarrow> abi_entry" where
  "arg_entry p = \<lparr>entry_name = VStr (fst p), entry_type = arg_type (snd p),
     entry_value = arg_value (snd p)\<rparr>"

definition arg_payload :: "(string \<times> static_arg) list \<Rightarrow> string" where
  "arg_payload args = concat (map (arg_word \<circ> snd) args)"

definition valid_args :: "(string \<times> static_arg) list \<Rightarrow> bool" where
  "valid_args args = list_all (\<lambda>(n, a). n \<noteq> [] \<and> arg_valid a) args"

abbreviation arg_items :: "(string \<times> static_arg) list \<Rightarrow> (pydict \<times> string) list" where
  "arg_items args \<equiv> map (\<lambda>(n, a). (dict_items (abi_param n (arg_type a)), arg_type a)) args"

lemma arg_items_params:
  "map (\<lambda>p. (dict_items p, canonical_abi_type rep p)) (arg_params args) = arg_items args"
  by (auto simp: arg_params_def canonical_abi_param arg_type_plain)

lemma arg_words_one:
  "arg_valid a \<Longrightarrow> static_param_words rep d (arg_type a) = Inr (Some 1)"
  by (simp add: static_param_words_def static_head_words_def arg_supported)

lemma arg_items_supported: "valid_args args \<Longrightarrow> first_unsupported rep (arg_items args) = Inr None"
  by (induction args) (auto simp: valid_args_def arg_words_one)

lemma arg_items_head: "valid_args args \<Longrightarrow> head_words rep (arg_items args) = Inr (length args)"
  by (induction args) (auto simp: valid_args_def arg_words_one)

lemma arg_payload_shape:
  "valid_args args \<Longrightarrow> length (arg_payload args) = 64 * length args \<and> is_hex (arg_payload args) \<and>
    py_lower (arg_payload args) = arg_payload args"
  by (induction args) (auto simp: valid_args_def arg_payload_def arg_word_shape)

lemma arg_step:
  assumes "n \<noteq> []" and "arg_valid a" and "length pre = 64 * head"
  shows "param_step rep (pre @ arg_word a @ post) hs index head decoded
      (dict_items (abi_param n (arg_type a))) (arg_type a) =
    Inr (Next (Suc head) (decoded @ [arg_entry (n, a)]))"
proof -
  have "head_word (pre @ arg_word a @ post) head = arg_word a"
    using assms by (intro head_word_at) (simp_all add: arg_word_shape)
  with assms show ?thesis
    by (simp add: param_step_def arg_supported arg_word_shape static_param_step_def arg_decode
        fresh_entry_def arg_entry_def abi_param_def)
qed

lemma decode_params_args:
  assumes "valid_args args" and "length pre = 64 * head"
  shows "decode_params rep (pre @ arg_payload args) hs index head decoded (arg_items args) =
    Inr (decoded @ map arg_entry args, None)"
  using assms
proof (induction args arbitrary: pre index head decoded)
  case (Cons x args)
  obtain n a where x: "x = (n, a)" by (cases x)
  have valid: "n \<noteq> []" "arg_valid a" "valid_args args" using Cons.prems x by (auto simp: valid_args_def)
  have pay: "arg_payload ((n, a) # args) = arg_word a @ arg_payload args" by (simp add: arg_payload_def)
  have "decode_params rep ((pre @ arg_word a) @ arg_payload args) hs (Suc index) (Suc head)
      (decoded @ [arg_entry x]) (arg_items args) = Inr ((decoded @ [arg_entry x]) @ map arg_entry args, None)"
    using Cons.prems valid by (intro Cons.IH) (simp_all add: arg_word_shape)
  with arg_step [OF valid(1,2) Cons.prems(2)] x show ?case
    by (simp add: pay)
qed (simp add: arg_payload_def)


section \<open>Whole calls\<close>

lemma call_decoded:
  assumes "valid_args args" and "function_signature rep (VStr fname) (arg_params args) = sig"
    and "fname \<noteq> []" and "function_selector sig = Inr sel"
  shows "scan_abi rep sel (arg_payload args) (abi_function fname (arg_params args) # items) =
    Inr (DecodedAbi sel sig (VStr fname) (map arg_entry args))"
proof -
  have dicts: "list_all is_dict (arg_params args)"
    by (auto simp: arg_params_def list_all_iff)
  have payload: "length (arg_payload args) mod 64 = 0"
    "py_int 16 (if arg_payload args = [] then ''0'' else arg_payload args) \<noteq> None"
    using arg_payload_shape [OF assms(1)]
    by (simp_all add: py_int_hex)
  have "decode_params rep (arg_payload args) hs 0 0 [] (arg_items args) = Inr (map arg_entry args, None)" for hs
    using decode_params_args [OF assms(1), of "[]" 0] by simp
  with payload show ?thesis
    by (simp add: function_inputs_abi_function [OF assms(3) dicts] assms(2,4) decode_with_function_def
        arg_items_params arg_items_supported [OF assms(1)] Let_def decode_payload_def arg_items_head [OF assms(1)])
qed


lemma call_verified:
  assumes "valid_args args" and "fname \<noteq> []"
    and sel: "function_selector (function_signature rep (VStr fname) (arg_params args)) = Inr (''0x'' @ digits)"
      "length digits = 8" "py_lower digits = digits"
  shows "decode_verified_abi_calldata rep json_loads (VStr ((''0x'' @ digits) @ arg_payload args))
        (VList (abi_function fname (arg_params args) # items)) =
      Inr (DecodedAbi (''0x'' @ digits) (function_signature rep (VStr fname) (arg_params args))
        (VStr fname) (map arg_entry args))"
proof -
  let ?sel = "''0x'' @ digits"
  have facts: "starts_with ''0x'' (?sel @ t) = True" "take 10 (?sel @ t) = ?sel"
    "drop 10 (?sel @ t) = t" "py_lower ?sel = ?sel" "(length (?sel @ t) < 10) = False" for t
    using sel(2,3) by (simp_all add: starts_with_def) (simp add: py_lower_def lower_char_def code_def)
  have "py_lower (arg_payload args) = arg_payload args" using arg_payload_shape [OF assms(1)] by simp
  then show ?thesis
    unfolding decode_verified_abi_calldata_def pyval.case facts if_False Let_def not_True_eq_False
      simp_thms option.case call_decoded [OF assms(1) refl assms(2) sel(1)]
    by (simp only: call_decoded [OF assms(1) refl assms(2) sel(1)])
qed

text \<open>
  C29: a call of the function that is the first entry of the verified ABI is decoded to exactly its
  name, signature and argument values, in order, when the function and every argument have
  non-empty names and every argument is a value in the range of a static elementary type, written
  canonically: an address, a Boolean, an integer of a valid width or fixed bytes. Arrays, tuples
  and type aliases are outside this statement.
\<close>

theorem verified_call_roundtrip:
  assumes "valid_args args" and "fname \<noteq> []"
  shows "\<exists>sel. function_selector (function_signature rep (VStr fname) (arg_params args)) = Inr sel \<and>
    decode_verified_abi_calldata rep json_loads (VStr (sel @ arg_payload args))
        (VList (abi_function fname (arg_params args) # items)) =
      Inr (DecodedAbi sel (function_signature rep (VStr fname) (arg_params args)) (VStr fname)
        (map arg_entry args))"
proof -
  let ?sig = "function_signature rep (VStr fname) (arg_params args)"
  obtain digits where sel: "function_selector ?sig = Inr (''0x'' @ digits)" "length digits = 8"
    "py_lower digits = digits"
    using function_selector_text [of ?sig] by blast
  with call_verified [OF assms sel] show ?thesis by blast
qed

theorem verified_call_roundtrip_witness:
  "let args = [(''to'', ArgAddress 1), (''amount'', ArgUint 256 5)] in
   valid_args args \<and>
   (\<exists>sel. function_selector (function_signature (\<lambda>_. []) (VStr ''pay'') (arg_params args)) = Inr sel \<and>
    decode_verified_abi_calldata (\<lambda>_. []) (\<lambda>_. None) (VStr (sel @ arg_payload args))
        (VList [abi_function ''pay'' (arg_params args)]) =
      Inr (DecodedAbi sel (function_signature (\<lambda>_. []) (VStr ''pay'') (arg_params args)) (VStr ''pay'')
        (map arg_entry args)))"
proof -
  have "valid_args [(''to'', ArgAddress 1), (''amount'', ArgUint 256 5)]"
    by (simp add: valid_args_def valid_bits_def)
  from verified_call_roundtrip [OF this, of "''pay''"] this show ?thesis
    unfolding Let_def by blast
qed

text \<open>
  C1: the decoder fails closed. A result that claims a verified decoding only arises when the
  selector is the hash of the declared signature, the payload is a whole number of words that
  parse as one hexadecimal number, and there is exactly one entry per declared input, of its
  canonical type and with a decoded value.
\<close>

theorem verified_decoding_sound:
  assumes "decode_verified_abi_calldata rep json_loads calldata abi =
    Inr (DecodedAbi sel sig name entries)"
  shows "\<exists>s items inputs. calldata = VStr s \<and> starts_with ''0x'' s \<and> sel = py_lower (take 10 s) \<and>
    (abi = VList items \<or> (\<exists>t. abi = VStr t \<and> json_loads t = Some (VList items))) \<and>
    (\<exists>item \<in> set items. function_inputs item = Some (name, inputs)) \<and>
    sig = function_signature rep name inputs \<and> function_selector sig = Inr sel \<and>
    length (drop 10 s) mod 64 = 0 \<and>
    (length s \<noteq> 10 \<longrightarrow> py_int 16 (py_lower (drop 10 s)) \<noteq> None) \<and>
    map entry_type entries = map (canonical_abi_type rep) inputs \<and>
    (\<forall>e \<in> set entries. entry_value e \<noteq> ANone)"
proof -
  from assms obtain s items where s: "calldata = VStr s" "starts_with ''0x'' s" "10 \<le> length s"
    and items: "abi = VList items \<or> (\<exists>t. abi = VStr t \<and> json_loads t = Some (VList items))"
    and scan: "scan_abi rep (py_lower (take 10 s)) (py_lower (drop 10 s)) items =
      Inr (DecodedAbi sel sig name entries)"
    by (auto simp: decode_verified_abi_calldata_def split: pyval.splits if_splits option.splits)
  from scan_abi_decoded [OF scan] obtain inputs where
    sel: "sel = py_lower (take 10 s)" "sig = function_signature rep name inputs"
      "function_selector sig = Inr (py_lower (take 10 s))"
      "\<exists>item \<in> set items. function_inputs item = Some (name, inputs)"
    and dec: "decode_with_function rep (py_lower (take 10 s)) sig name inputs (py_lower (drop 10 s)) =
      Inr (DecodedAbi (py_lower (take 10 s)) sig name entries)" by blast
  have "py_lower (drop 10 s) = [] \<longleftrightarrow> length s = 10"
    using s(3) by (simp add: py_lower_def)
  with decode_with_function_decoded [OF dec] s items sel show ?thesis
    by (intro exI [of _ s] exI [of _ items] exI [of _ inputs]) simp
qed


theorem verified_decoding_sound_witness:
  "\<exists>sel. decode_verified_abi_calldata (\<lambda>_. []) (\<lambda>_. None) (VStr (sel @ arg_payload [(''to'', ArgAddress 1)]))
      (VList [abi_function ''pay'' (arg_params [(''to'', ArgAddress 1)])]) =
    Inr (DecodedAbi sel (function_signature (\<lambda>_. []) (VStr ''pay'') (arg_params [(''to'', ArgAddress 1)]))
      (VStr ''pay'') [arg_entry (''to'', ArgAddress 1)]) \<and>
    sel = py_lower (take 10 (sel @ arg_payload [(''to'', ArgAddress 1)]))"
proof -
  let ?args = "[(''to'', ArgAddress 1)]"
  let ?sig = "function_signature (\<lambda>_. []) (VStr ''pay'') (arg_params ?args)"
  have valid: "valid_args ?args" by (simp add: valid_args_def)
  obtain digits where sel: "function_selector ?sig = Inr (''0x'' @ digits)" "length digits = 8"
    "py_lower digits = digits"
    using function_selector_text [of ?sig] by blast
  let ?sel = "''0x'' @ digits"
  have "decode_verified_abi_calldata (\<lambda>_. []) (\<lambda>_. None) (VStr (?sel @ arg_payload ?args))
      (VList [abi_function ''pay'' (arg_params ?args)]) =
    Inr (DecodedAbi ?sel ?sig (VStr ''pay'') [arg_entry (''to'', ArgAddress 1)])"
    using call_verified [OF valid _ sel] by simp
  with verified_decoding_sound [OF this] show ?thesis by blast
qed

section \<open>Dynamic arrays and unguarded type names\<close>

text \<open>
  An array of 256-bit unsigned integers laid out at any 32-byte aligned offset behind the
  head, with at most 4096 elements, is decoded to its elements, whatever surrounds it.
\<close>

theorem dynamic_uint_array_roundtrip:
  assumes "list_all (\<lambda>n. n < 2 ^ 256) xs" and "length xs \<le> 4096"
    and "length pre = 2 * off" and "off mod 32 = 0" and "head \<le> int off"
  shows "decode_dynamic_value (uint_type 256 @ ''[]'')
      (pre @ hexw 64 (length xs) @ concat (map (hexw 64) xs) @ post) (int off) head =
    Inr (AList (map (\<lambda>n. AInt (int n)) xs), None)"
  by (rule uint256_codec.dynamic_array_roundtrip [OF assms])

theorem dynamic_uint_array_roundtrip_witness:
  "decode_dynamic_value (uint_type 256 @ ''[]'')
      (hexw 64 32 @ hexw 64 2 @ (hexw 64 7 @ hexw 64 9) @ []) 32 32 =
    Inr (AList [AInt 7, AInt 9], None)"
proof -
  have "list_all (\<lambda>n. n < 2 ^ 256) [7, 9 :: nat]" by simp
  moreover have "length [7, 9 :: nat] = 2" by simp
  ultimately show ?thesis
    using dynamic_uint_array_roundtrip [of "[7, 9]" "hexw 64 32" 32 32 "[]"]
    by (simp only: list.map concat.simps append_assoc append_Nil append_Nil2 length_hexw) simp
qed

text \<open>
  A dynamic value is only accepted when its offset is aligned, points behind the static
  head, and its length word and (for \<open>bytes\<close>, \<open>string\<close> and arrays of static types)
  all of its padded contents lie inside the payload.
\<close>

theorem dynamic_value_bounds:
  assumes "decode_dynamic_value typ payload offset head = Inr (v, None)"
  shows "v \<noteq> ANone \<and> offset mod 32 = 0 \<and> head \<le> offset \<and>
    (\<exists>len. uint_of (Some (py_slice payload (offset * 2) (offset * 2 + 64))) = Some len \<and>
      (if typ = ''bytes'' \<or> typ = ''string''
       then 0 \<le> len \<and> offset + 32 + padded_bytes len \<le> int (length payload) div 2
       else \<exists>vs. v = AList vs \<and> length vs = nat len \<and> len \<le> 4096 \<and>
         offset + 32 + len * 32 \<le> int (length payload) div 2))"
proof -
  from assms obtain len where
    len: "uint_of (Some (py_slice payload (offset * 2) (offset * 2 + 64))) = Some len"
    and dyn_text: "typ = ''bytes'' \<or> typ = ''string'' \<Longrightarrow>
      decode_bytes_or_string typ payload offset len (int (length payload) div 2) = (v, None)"
    and arr: "\<not> (typ = ''bytes'' \<or> typ = ''string'') \<Longrightarrow> \<exists>elt.
      decode_dynamic_array elt payload offset len (int (length payload) div 2) = Inr (v, None)"
    by (auto simp: decode_dynamic_value_def Let_def rbind_eq_Inr split: if_splits option.splits)
  have "if typ = ''bytes'' \<or> typ = ''string''
       then 0 \<le> len \<and> offset + 32 + padded_bytes len \<le> int (length payload) div 2
       else \<exists>vs. v = AList vs \<and> length vs = nat len \<and> len \<le> 4096 \<and>
         offset + 32 + len * 32 \<le> int (length payload) div 2"
  proof (cases "typ = ''bytes'' \<or> typ = ''string''")
    case True
    with bytes_or_string_sound [OF dyn_text [OF True]] show ?thesis by simp
  next
    case False
    with arr dynamic_array_sound show ?thesis by (metis (no_types))
  qed
  with len dynamic_value_sound [OF assms] show ?thesis by blast
qed

theorem dynamic_value_bounds_witness:
  "decode_dynamic_value (uint_type 256 @ ''[]'') (hexw 64 32 @ hexw 64 0) 32 32 =
      Inr (AList [], None) \<and>
   uint_of (Some (py_slice (hexw 64 32 @ hexw 64 0) (32 * 2) (32 * 2 + 64))) \<noteq> None"
proof -
  have "decode_dynamic_value (uint_type 256 @ ''[]'') (hexw 64 32 @ hexw 64 0) 32 32 =
      Inr (AList [], None)"
    using uint256_codec.dynamic_array_roundtrip [of "[]" "hexw 64 32" 32 32 "[]"] by simp
  from this dynamic_value_bounds [OF this] show ?thesis by auto
qed

text \<open>
  A declared parameter type whose width is a non-ASCII digit, such as \<open>uint\<close> followed
  by superscript two, makes the decoder raise \<open>ValueError\<close> instead of reporting an
  unsupported type: \<open>isdigit\<close> accepts the character and \<open>int\<close> does not.
\<close>

theorem superscript_width_raises:
  "decode_with_function rep selector sig name [abi_param n (''uint'' @ [CHR 0xB2])] payload =
     Inl ValueError"
proof -
  have "int_or_raise [CHR 0xB2] = Inl ValueError"
    by (simp add: int_or_raise_def text_eval code_def)
  moreover have "py_isdigit [CHR 0xB2]" by (simp add: py_isdigit_def is_digit_char_def code_def)
  ultimately have "supported_static_type (''uint'' @ [CHR 0xB2]) = Inl ValueError"
    by (simp add: supported_static_type_def abi_int_width_def starts_with_def)
  then show ?thesis
    by (simp add: decode_with_function_def abi_param_def type_text_def starts_with_def Let_def
        static_param_words_def static_head_words_def)
qed

end
