(* ===== verification/CallTrace.thy ===== *)
theory CallTrace
  imports EvmCalldata
begin

text \<open>
  The call-trace normaliser of \<open>services/evm_decode.py\<close>
  (\<open>normalize_call_trace\<close>, \<open>_trace_address\<close>,
  \<open>_is_trace_calldata\<close>, \<open>_trace_quantity\<close>). A trace is an object graph
  that may be shared or cyclic: nodes live in a heap from object identities to dictionaries,
  children are references into it or values that are not dictionaries. The recursion is bounded
  by the depth limit, so the walk is total on every graph, cyclic ones included.
\<close>

definition MAX_CALL_TRACE_NODES :: nat where
  "MAX_CALL_TRACE_NODES = 4096"

definition MAX_CALL_TRACE_DEPTH :: nat where
  "MAX_CALL_TRACE_DEPTH = 128"

definition TRACE_CALL_TYPES :: "string list" where
  "TRACE_CALL_TYPES = [''CALL'', ''CALLCODE'', ''CREATE'', ''CREATE2'', ''DELEGATECALL'',
     ''SELFDESTRUCT'', ''STATICCALL'']"

section \<open>Scalar fields\<close>

definition trace_address :: "pyval \<Rightarrow> string option" where
  "trace_address value =
     (case value of
        VStr s \<Rightarrow>
          if length s \<noteq> 42 \<or> \<not> starts_with ''0x'' s then None
          else if py_int 16 (drop 2 s) = None then None
          else Some (py_lower s)
      | _ \<Rightarrow> None)"

definition is_trace_calldata :: "pyval \<Rightarrow> bool" where
  "is_trace_calldata value =
     (case value of
        VStr s \<Rightarrow>
          if \<not> starts_with ''0x'' s then False
          else
            let digits = drop 2 s in
            if length digits mod 2 \<noteq> 0 then False
            else py_int 16 (if digits = [] then ''0'' else digits) \<noteq> None
      | _ \<Rightarrow> False)"

definition trace_quantity :: "pyval \<Rightarrow> int option" where
  "trace_quantity value =
     (case value of
        VInt n \<Rightarrow> if 0 \<le> n \<and> n \<le> UINT256_MAX then Some n else None
      | VStr s \<Rightarrow>
          if \<not> starts_with ''0x'' s then None
          else
            let digits = drop 2 s in
            if digits = [] \<or> (1 < length digits \<and> starts_with ''0'' digits) then None
            else (case py_int 16 digits of
                    None \<Rightarrow> None
                  | Some parsed \<Rightarrow> if parsed \<le> UINT256_MAX then Some parsed else None)
      | _ \<Rightarrow> None)"

section \<open>Nodes, results and state\<close>

datatype trace_ref = Ref nat | NotDict pyval

text \<open>The value of the key \<open>calls\<close>: absent or \<open>None\<close>, not a list, or a list.\<close>

datatype trace_children = NoCalls | BadCalls | Calls "trace_ref list"

record trace_node =
  node_fields :: pydict
  node_calls :: trace_children

type_synonym trace_heap = "nat \<Rightarrow> trace_node"

record call_item =
  trace_index :: nat
  parent_trace_index :: "nat option"
  depth :: nat
  call_type :: string
  call_from :: "string option"
  call_to :: "string option"
  value_wei :: "int option"
  gas :: "int option"
  gas_used :: "int option"
  call_error :: "string option"
  selector :: pyval
  calldata_decode :: pyval
  integrity_issues :: "string list"

definition integrity :: "call_item \<Rightarrow> string" where
  "integrity c = (if integrity_issues c \<noteq> [] then ''MALFORMED'' else ''VALID'')"

record native_transfer =
  transfer_index :: nat
  transfer_from :: string
  transfer_to :: string
  amount_wei :: int

record approval_candidate =
  approval_index :: nat
  approval_contract :: string
  approval_decode :: pyval

record trace_state =
  calls :: "call_item list"
  native_transfers :: "native_transfer list"
  approval_candidates :: "approval_candidate list"
  malformed_node_count :: nat
  discarded_node_count :: nat
  truncation_reasons :: "string list"
  active_nodes :: "nat set"

definition trace_start :: trace_state where
  "trace_start = \<lparr>calls = [], native_transfers = [], approval_candidates = [],
     malformed_node_count = 0, discarded_node_count = 0, truncation_reasons = [],
     active_nodes = {}\<rparr>"

section \<open>One node\<close>

definition issue :: "bool \<Rightarrow> string \<Rightarrow> string list" where
  "issue b name = (if b then [name] else [])"

text \<open>\<open>node.get(key)\<close> is present and was not accepted.\<close>

definition rejected :: "pyval \<Rightarrow> 'a option \<Rightarrow> bool" where
  "rejected raw parsed = (raw \<noteq> VNone \<and> parsed = None)"

definition known_call_type :: "pyval \<Rightarrow> string option" where
  "known_call_type raw =
     (case raw of
        VStr s \<Rightarrow> if py_upper s \<in> set TRACE_CALL_TYPES then Some (py_upper s) else None
      | _ \<Rightarrow> None)"

definition error_text :: "pyval \<Rightarrow> string option" where
  "error_text raw = (case raw of VStr s \<Rightarrow> if s \<noteq> [] then Some (take 512 s) else None | _ \<Rightarrow> None)"

definition make_item :: "nat \<Rightarrow> nat option \<Rightarrow> nat \<Rightarrow> trace_node \<Rightarrow> call_item" where
  "make_item idx parent d node =
     (let f = node_fields node;
          raw_data = dict_get_or f ''input'' (VStr ''0x'');
          data_ok = is_trace_calldata raw_data;
          decoded = decode_common_calldata (if data_ok then raw_data else VNone);
          value = trace_quantity (dict_get f ''value'');
          g = trace_quantity (dict_get f ''gas'');
          gu = trace_quantity (dict_get f ''gasUsed'');
          from_address = trace_address (dict_get f ''from'');
          to_address = trace_address (dict_get f ''to'');
          ctype = known_call_type (dict_get f ''type'');
          raw_error = dict_get f ''error'';
          issues = issue (\<not> data_ok) ''invalid_input''
            @ issue (rejected (dict_get f ''value'') value) ''invalid_value''
            @ issue (rejected (dict_get f ''gas'') g) ''invalid_gas''
            @ issue (rejected (dict_get f ''gasUsed'') gu) ''invalid_gas_used''
            @ issue (rejected (dict_get f ''from'') from_address) ''invalid_from''
            @ issue (rejected (dict_get f ''to'') to_address) ''invalid_to''
            @ issue (ctype = None) ''invalid_call_type''
            @ issue (raw_error \<noteq> VNone \<and> \<not> is_str raw_error) ''invalid_error''
            @ issue (node_calls node = BadCalls) ''invalid_calls''
      in \<lparr>trace_index = idx, parent_trace_index = parent, depth = d,
          call_type = (case ctype of None \<Rightarrow> ''UNKNOWN'' | Some t \<Rightarrow> t),
          call_from = from_address, call_to = to_address, value_wei = value, gas = g,
          gas_used = gu, call_error = error_text raw_error,
          selector = dict_get (dict_items decoded) ''selector'', calldata_decode = decoded,
          integrity_issues = issues\<rparr>)"

definition transfer_of :: "call_item \<Rightarrow> native_transfer list" where
  "transfer_of c =
     (case (value_wei c, call_from c, call_to c) of
        (Some v, Some a, Some b) \<Rightarrow>
          if 0 < v
          then [\<lparr>transfer_index = trace_index c, transfer_from = a, transfer_to = b, amount_wei = v\<rparr>]
          else []
      | _ \<Rightarrow> [])"

definition is_approval_decode :: "pyval \<Rightarrow> bool" where
  "is_approval_decode decoded =
     (let d = dict_items decoded in
      dict_get d ''status'' \<in>
        {VStr ''DECODED_STANDARD_SELECTOR'', VStr ''PARTIALLY_DECODED_STANDARD_SELECTOR''} \<and>
      dict_get d ''signature'' \<in>
        {VStr ''approve(address,uint256)'', VStr ''setApprovalForAll(address,bool)''})"

definition approval_of :: "call_item \<Rightarrow> approval_candidate list" where
  "approval_of c =
     (case call_to c of
        Some a \<Rightarrow>
          if is_approval_decode (calldata_decode c)
          then [\<lparr>approval_index = trace_index c, approval_contract = a,
                 approval_decode = calldata_decode c\<rparr>]
          else []
      | None \<Rightarrow> [])"

definition record_item :: "call_item \<Rightarrow> trace_state \<Rightarrow> trace_state" where
  "record_item c st =
     st\<lparr>calls := calls st @ [c],
        native_transfers := native_transfers st @ transfer_of c,
        approval_candidates := approval_candidates st @ approval_of c,
        malformed_node_count := malformed_node_count st + (if integrity_issues c \<noteq> [] then 1 else 0)\<rparr>"

definition discard :: "string list \<Rightarrow> trace_state \<Rightarrow> trace_state" where
  "discard reasons st =
     st\<lparr>discarded_node_count := Suc (discarded_node_count st),
        truncation_reasons := truncation_reasons st @ reasons\<rparr>"

fun children_of :: "trace_children \<Rightarrow> trace_ref list" where
  "children_of NoCalls = []"
| "children_of BadCalls = []"
| "children_of (Calls rs) = rs"

section \<open>The walk\<close>

function walk :: "trace_heap \<Rightarrow> trace_ref \<Rightarrow> nat option \<Rightarrow> nat \<Rightarrow> trace_state \<Rightarrow> trace_state"
  and walk_all :: "trace_heap \<Rightarrow> trace_ref list \<Rightarrow> nat option \<Rightarrow> nat \<Rightarrow> trace_state \<Rightarrow> trace_state"
where
  "walk h (NotDict v) parent d st = discard [] st"
| "walk h (Ref i) parent d st =
     (if MAX_CALL_TRACE_DEPTH < d then discard [''depth_limit''] st
      else if MAX_CALL_TRACE_NODES \<le> length (calls st) then discard [''node_limit''] st
      else if i \<in> active_nodes st then discard [''cycle_detected''] st
      else
        let idx = length (calls st);
            entered = st\<lparr>active_nodes := insert i (active_nodes st)\<rparr>;
            recorded = record_item (make_item idx parent d (h i)) entered;
            left = walk_all h (children_of (node_calls (h i))) (Some idx) (Suc d) recorded
        in left\<lparr>active_nodes := active_nodes left - {i}\<rparr>)"
| "walk_all h [] parent d st = st"
| "walk_all h (r # rs) parent d st = walk_all h rs parent d (walk h r parent d st)"
  by pat_completeness auto

termination
  by (relation "measures [\<lambda>p. case p of Inl (h, r, parent, d, st) \<Rightarrow> 130 - d
        | Inr (h, rs, parent, d, st) \<Rightarrow> 130 - d,
      \<lambda>p. case p of Inl _ \<Rightarrow> 0 | Inr (h, rs, parent, d, st) \<Rightarrow> Suc (length rs)]")
    (auto simp: MAX_CALL_TRACE_DEPTH_def)

section \<open>The report\<close>

record trace_report =
  report_status :: string
  report_calls :: "call_item list"
  native_value_transfers :: "native_transfer list"
  report_approvals :: "approval_candidate list"
  call_count :: nat
  valid_call_count :: nat
  error_count :: nat
  report_malformed :: nat
  report_discarded :: nat
  truncated :: bool
  report_reasons :: "string list"

definition report_of :: "trace_state \<Rightarrow> trace_report" where
  "report_of st =
     (let partial = malformed_node_count st \<noteq> 0 \<or> discarded_node_count st \<noteq> 0
            \<or> truncation_reasons st \<noteq> []
      in \<lparr>report_status = (if calls st = [] then ''UNAVAILABLE_CALL_TRACE''
            else if partial then ''PARTIAL_CALL_TRACE'' else ''NORMALIZED_CALL_TRACE''),
          report_calls = calls st,
          native_value_transfers = native_transfers st,
          report_approvals = approval_candidates st,
          call_count = length (calls st),
          valid_call_count = length (filter (\<lambda>c. integrity c = ''VALID'') (calls st)),
          error_count = length (filter (\<lambda>c. call_error c \<noteq> None) (calls st)),
          report_malformed = malformed_node_count st,
          report_discarded = discarded_node_count st,
          truncated = (truncation_reasons st \<noteq> []),
          report_reasons = sorted_set (truncation_reasons st)\<rparr>)"

definition normalize_call_trace :: "trace_heap \<Rightarrow> trace_ref \<Rightarrow> trace_report" where
  "normalize_call_trace h start = report_of (walk h start None 0 trace_start)"

section \<open>The invariant of the walk\<close>

text \<open>
  Every recorded call carries its own position, is at most 128 deep, and its parent is an
  earlier call exactly one level above; the derived lists are those of the recorded calls.
\<close>

definition call_ok :: "call_item list \<Rightarrow> nat \<Rightarrow> bool" where
  "call_ok cs i =
     (let c = cs ! i in
      trace_index c = i \<and> depth c \<le> MAX_CALL_TRACE_DEPTH \<and>
      (case parent_trace_index c of
         None \<Rightarrow> depth c = 0
       | Some p \<Rightarrow> p < i \<and> depth c = Suc (depth (cs ! p))))"

definition trace_inv :: "trace_state \<Rightarrow> bool" where
  "trace_inv st =
     (length (calls st) \<le> MAX_CALL_TRACE_NODES \<and>
      (\<forall>i < length (calls st). call_ok (calls st) i) \<and>
      native_transfers st = concat (map transfer_of (calls st)) \<and>
      approval_candidates st = concat (map approval_of (calls st)) \<and>
      malformed_node_count st = length (filter (\<lambda>c. integrity_issues c \<noteq> []) (calls st)) \<and>
      (truncation_reasons st \<noteq> [] \<longrightarrow> discarded_node_count st \<noteq> 0) \<and>
      set (truncation_reasons st) \<subseteq> {''cycle_detected'', ''depth_limit'', ''node_limit''})"

definition parent_ok :: "trace_state \<Rightarrow> nat option \<Rightarrow> nat \<Rightarrow> bool" where
  "parent_ok st parent d =
     (case parent of None \<Rightarrow> d = 0
      | Some p \<Rightarrow> p < length (calls st) \<and> d = Suc (depth (calls st ! p)))"

text \<open>What a walk keeps: the recorded prefix and the set of nodes being visited.\<close>

definition extends :: "trace_state \<Rightarrow> trace_state \<Rightarrow> bool" where
  "extends st st' = ((\<exists>new. calls st' = calls st @ new) \<and> active_nodes st' = active_nodes st)"

lemma extends_refl [simp, intro]: "extends st st"
  by (simp add: extends_def)

lemma extends_trans: "extends a b \<Longrightarrow> extends b c \<Longrightarrow> extends a c"
  by (auto simp: extends_def)

lemma extends_discard [simp, intro]: "extends st (discard reasons st)"
  by (simp add: extends_def discard_def)

lemma parent_ok_mono: "parent_ok st parent d \<Longrightarrow> extends st st' \<Longrightarrow> parent_ok st' parent d"
  by (auto simp: parent_ok_def extends_def nth_append split: option.splits)

lemma inv_discard:
  "trace_inv st \<Longrightarrow> set reasons \<subseteq> {''cycle_detected'', ''depth_limit'', ''node_limit''} \<Longrightarrow>
   trace_inv (discard reasons st)"
  by (auto simp: trace_inv_def discard_def)

lemma inv_active [simp]: "trace_inv (st\<lparr>active_nodes := S\<rparr>) = trace_inv st"
  by (simp add: trace_inv_def)

lemma parent_ok_active [simp]: "parent_ok (st\<lparr>active_nodes := S\<rparr>) parent d = parent_ok st parent d"
  by (simp add: parent_ok_def split: option.splits)

lemma item_fields [simp]:
  "trace_index (make_item idx parent d node) = idx"
  "parent_trace_index (make_item idx parent d node) = parent"
  "depth (make_item idx parent d node) = d"
  by (simp_all add: make_item_def Let_def)

lemma inv_record:
  assumes "trace_inv st" and "parent_ok st parent d" and "d \<le> MAX_CALL_TRACE_DEPTH"
    and "length (calls st) < MAX_CALL_TRACE_NODES"
  shows "trace_inv (record_item (make_item (length (calls st)) parent d node) st)"
proof -
  let ?c = "make_item (length (calls st)) parent d node"
  have "call_ok (calls st @ [?c]) i" if "i < Suc (length (calls st))" for i
  proof (cases "i < length (calls st)")
    case True
    then have "call_ok (calls st) i" using assms(1) by (simp add: trace_inv_def)
    with True show ?thesis
      by (auto simp: call_ok_def Let_def nth_append split: option.splits)
  next
    case False
    with that have "i = length (calls st)" by simp
    with assms(2,3) show ?thesis
      by (auto simp: call_ok_def Let_def nth_append parent_ok_def split: option.splits)
  qed
  with assms(1,4) show ?thesis
    by (auto simp: trace_inv_def record_item_def less_Suc_eq_le)
qed

lemma walk_inv:
  "trace_inv st \<Longrightarrow> parent_ok st parent d \<Longrightarrow>
     trace_inv (walk h r parent d st) \<and> extends st (walk h r parent d st)"
  "trace_inv st \<Longrightarrow> parent_ok st parent d \<Longrightarrow>
     trace_inv (walk_all h rs parent d st) \<and> extends st (walk_all h rs parent d st)"
proof (induction h r parent d st and h rs parent d st rule: walk_walk_all.induct)
  case (1 h v parent d st)
  then show ?case by (simp add: inv_discard)
next
  case (2 h i parent d st)
  show ?case
  proof (cases "d \<le> MAX_CALL_TRACE_DEPTH \<and> length (calls st) < MAX_CALL_TRACE_NODES \<and> i \<notin> active_nodes st")
    case False
    with "2.prems" show ?thesis by (auto simp: inv_discard)
  next
    case True
    let ?item = "make_item (length (calls st)) parent d (h i)"
    let ?rec = "record_item ?item (st\<lparr>active_nodes := insert i (active_nodes st)\<rparr>)"
    let ?left = "walk_all h (children_of (node_calls (h i))) (Some (length (calls st))) (Suc d) ?rec"
    have "trace_inv ?rec"
      using inv_record [of "st\<lparr>active_nodes := insert i (active_nodes st)\<rparr>" parent d "h i"]
        "2.prems" True by simp
    moreover have "parent_ok ?rec (Some (length (calls st))) (Suc d)"
      by (simp add: parent_ok_def record_item_def)
    ultimately have left: "trace_inv ?left" "extends ?rec ?left"
      using "2.IH" True by auto
    have eq: "walk h (Ref i) parent d st = ?left\<lparr>active_nodes := active_nodes ?left - {i}\<rparr>"
      using True by (simp add: Let_def)
    have "extends st (?left\<lparr>active_nodes := active_nodes ?left - {i}\<rparr>)"
      using left(2) True by (auto simp: extends_def record_item_def)
    with left(1) show ?thesis unfolding eq by simp
  qed
next
  case (4 h r rs parent d st)
  then show ?case using parent_ok_mono extends_trans by (metis walk_all.simps(2))
qed simp

lemma trace_start_inv: "trace_inv trace_start" "parent_ok trace_start None 0"
  by (simp_all add: trace_inv_def trace_start_def parent_ok_def)

lemma final_inv: "trace_inv (walk h start None 0 trace_start)"
  using walk_inv(1) [OF trace_start_inv] by blast

section \<open>Trees\<close>

text \<open>
  The reference: a trace that is a tree of nodes is reported as its nodes in pre-order.
\<close>

datatype call_tree = CallTree nat "call_tree list"

fun tree_root :: "call_tree \<Rightarrow> nat" where
  "tree_root (CallTree i ts) = i"

fun tree_items :: "trace_heap \<Rightarrow> nat option \<Rightarrow> nat \<Rightarrow> nat \<Rightarrow> call_tree \<Rightarrow> call_item list"
  and forest_items :: "trace_heap \<Rightarrow> nat option \<Rightarrow> nat \<Rightarrow> nat \<Rightarrow> call_tree list \<Rightarrow> call_item list" where
  "tree_items h parent d idx (CallTree i ts) =
     make_item idx parent d (h i) # forest_items h (Some idx) (Suc d) (Suc idx) ts"
| "forest_items h parent d idx [] = []"
| "forest_items h parent d idx (t # ts) =
     tree_items h parent d idx t @
     forest_items h parent d (idx + length (tree_items h parent d idx t)) ts"

fun stored :: "trace_heap \<Rightarrow> call_tree \<Rightarrow> bool"
  and stored_all :: "trace_heap \<Rightarrow> call_tree list \<Rightarrow> bool" where
  "stored h (CallTree i ts) \<longleftrightarrow>
     children_of (node_calls (h i)) = map (Ref \<circ> tree_root) ts \<and> stored_all h ts"
| "stored_all h [] \<longleftrightarrow> True"
| "stored_all h (t # ts) \<longleftrightarrow> stored h t \<and> stored_all h ts"

text \<open>No node is its own ancestor; \<open>S\<close> holds the ancestors.\<close>

fun acyclic_from :: "nat set \<Rightarrow> call_tree \<Rightarrow> bool"
  and acyclic_all :: "nat set \<Rightarrow> call_tree list \<Rightarrow> bool" where
  "acyclic_from S (CallTree i ts) \<longleftrightarrow> i \<notin> S \<and> acyclic_all (insert i S) ts"
| "acyclic_all S [] \<longleftrightarrow> True"
| "acyclic_all S (t # ts) \<longleftrightarrow> acyclic_from S t \<and> acyclic_all S ts"

text \<open>Every node of the tree is at a depth of at most the limit, counted from \<open>d\<close>.\<close>

fun shallow :: "nat \<Rightarrow> call_tree \<Rightarrow> bool"
  and shallow_all :: "nat \<Rightarrow> call_tree list \<Rightarrow> bool" where
  "shallow d (CallTree i ts) \<longleftrightarrow> d \<le> MAX_CALL_TRACE_DEPTH \<and> shallow_all (Suc d) ts"
| "shallow_all d [] \<longleftrightarrow> True"
| "shallow_all d (t # ts) \<longleftrightarrow> shallow d t \<and> shallow_all d ts"

lemma record_all [simp]:
  "calls (fold record_item cs st) = calls st @ cs"
  "active_nodes (fold record_item cs st) = active_nodes st"
  "discarded_node_count (fold record_item cs st) = discarded_node_count st"
  "truncation_reasons (fold record_item cs st) = truncation_reasons st"
  by (induction cs arbitrary: st) (simp_all add: record_item_def)

lemma record_item_active:
  "record_item c (st\<lparr>active_nodes := S\<rparr>) = (record_item c st)\<lparr>active_nodes := S\<rparr>"
  by (simp add: record_item_def)

lemma record_active:
  "fold record_item cs (st\<lparr>active_nodes := S\<rparr>) = (fold record_item cs st)\<lparr>active_nodes := S\<rparr>"
  by (induction cs arbitrary: st) (simp_all add: record_item_active)

lemma reset_active: "st\<lparr>active_nodes := active_nodes st\<rparr> = st"
  by simp

lemma walk_tree:
  "stored h t \<Longrightarrow> acyclic_from (active_nodes st) t \<Longrightarrow> shallow d t \<Longrightarrow> idx = length (calls st) \<Longrightarrow>
   length (calls st) + length (tree_items h parent d idx t) \<le> MAX_CALL_TRACE_NODES \<Longrightarrow>
   walk h (Ref (tree_root t)) parent d st = fold record_item (tree_items h parent d idx t) st"
  "stored_all h ts \<Longrightarrow> acyclic_all (active_nodes st) ts \<Longrightarrow> shallow_all d ts \<Longrightarrow>
   idx = length (calls st) \<Longrightarrow>
   length (calls st) + length (forest_items h parent d idx ts) \<le> MAX_CALL_TRACE_NODES \<Longrightarrow>
   walk_all h (map (Ref \<circ> tree_root) ts) parent d st =
     fold record_item (forest_items h parent d idx ts) st"
proof (induction h parent d idx t and h parent d idx ts arbitrary: st and st
    rule: tree_items_forest_items.induct)
  case (1 h parent d idx i ts)
  let ?item = "make_item idx parent d (h i)"
  let ?in = "st\<lparr>active_nodes := insert i (active_nodes st)\<rparr>"
  have IH: "walk_all h (map (Ref \<circ> tree_root) ts) (Some idx) (Suc d) (record_item ?item ?in) =
      fold record_item (forest_items h (Some idx) (Suc d) (Suc idx) ts) (record_item ?item ?in)"
    using "1.prems" by (intro "1.IH") (simp_all add: record_item_def)
  have out: "active_nodes st - {i} = active_nodes st" using "1.prems" by auto
  show ?case
    using "1.prems" IH
    by (simp add: Let_def record_item_active record_active out insert_Diff_if)
      (simp add: record_item_def)
next
  case (3 h parent d idx t ts)
  let ?items = "tree_items h parent d idx t"
  let ?mid = "fold record_item ?items st"
  have "walk h (Ref (tree_root t)) parent d st = ?mid"
    using "3.prems" by (intro "3.IH"(1)) simp_all
  moreover have "walk_all h (map (Ref \<circ> tree_root) ts) parent d ?mid =
      fold record_item (forest_items h parent d (idx + length ?items) ts) ?mid"
    using "3.prems" by (intro "3.IH"(3)) simp_all
  ultimately show ?case by (simp add: comp_def del: walk.simps)
qed simp

section \<open>Properties\<close>

text \<open>
  C5: on every object graph, cyclic or shared, the report is bounded and consistent: at most
  4096 calls at depth at most 128, each numbered by its position and hanging under an earlier
  call one level above, with the transfers and approvals of exactly these calls, counters that
  add up, and a truncation reason only when a node was discarded.
\<close>

theorem call_trace_invariant:
  "let r = normalize_call_trace h start in
     call_count r = length (report_calls r) \<and> call_count r \<le> 4096 \<and>
     list_all (call_ok (report_calls r)) [0..<call_count r] \<and>
     native_value_transfers r = concat (map transfer_of (report_calls r)) \<and>
     report_approvals r = concat (map approval_of (report_calls r)) \<and>
     valid_call_count r + report_malformed r = call_count r \<and>
     (if truncated r then report_discarded r \<noteq> 0 \<and> report_status r \<noteq> ''NORMALIZED_CALL_TRACE''
      else report_reasons r = [])"
proof -
  let ?st = "walk h start None 0 trace_start"
  have inv: "trace_inv ?st" by (rule final_inv)
  have count: "length (filter (\<lambda>c. integrity c = ''VALID'') cs) +
      length (filter (\<lambda>c. integrity_issues c \<noteq> []) cs) = length cs" for cs
    by (induction cs) (auto simp: integrity_def)
  show ?thesis
    using inv count [of "calls ?st"]
    by (auto simp: normalize_call_trace_def report_of_def Let_def trace_inv_def list_all_iff
        MAX_CALL_TRACE_NODES_def sorted_set_def)
qed

text \<open>
  A trace is reported as normalized exactly when it has a call, every call is valid and
  no node was discarded.
\<close>

theorem normalized_status_iff:
  "report_status (normalize_call_trace h start) = ''NORMALIZED_CALL_TRACE'' \<longleftrightarrow>
     report_calls (normalize_call_trace h start) \<noteq> [] \<and>
     list_all (\<lambda>c. integrity c = ''VALID'') (report_calls (normalize_call_trace h start)) \<and>
     report_discarded (normalize_call_trace h start) = 0"
proof -
  have "trace_inv (walk h start None 0 trace_start)" by (rule final_inv)
  then show ?thesis
    by (auto simp: normalize_call_trace_def report_of_def Let_def trace_inv_def list_all_iff
        integrity_def filter_empty_conv)
qed

text \<open>
  C22: a trace that is a tree within the limits is reported completely: its nodes in pre-order,
  with their parents and depths, nothing discarded and nothing truncated.
\<close>

theorem tree_trace_complete:
  assumes "stored h t" and "acyclic_from {} t" and "shallow 0 t"
    and "length (tree_items h None 0 0 t) \<le> 4096"
  shows "report_calls (normalize_call_trace h (Ref (tree_root t))) = tree_items h None 0 0 t \<and>
    report_discarded (normalize_call_trace h (Ref (tree_root t))) = 0 \<and>
    \<not> truncated (normalize_call_trace h (Ref (tree_root t)))"
proof -
  have "walk h (Ref (tree_root t)) None 0 trace_start = fold record_item (tree_items h None 0 0 t) trace_start"
    using assms by (intro walk_tree(1)) (simp_all add: trace_start_def MAX_CALL_TRACE_NODES_def)
  then show ?thesis
    by (simp add: normalize_call_trace_def report_of_def Let_def trace_start_def)
qed

definition sample_heap :: trace_heap where
  "sample_heap i = (if i = 0
     then \<lparr>node_fields = [(''type'', VStr ''call'')], node_calls = Calls [Ref 1]\<rparr>
     else \<lparr>node_fields = [(''type'', VStr ''STATICCALL'')], node_calls = NoCalls\<rparr>)"

theorem tree_trace_complete_witness:
  "stored sample_heap (CallTree 0 [CallTree 1 []]) \<and>
   report_calls (normalize_call_trace sample_heap (Ref 0)) =
     [make_item 0 None 0 (sample_heap 0), make_item 1 (Some 0) 1 (sample_heap 1)]"
proof -
  have "stored sample_heap (CallTree 0 [CallTree 1 []])" by (simp add: sample_heap_def)
  with tree_trace_complete [of sample_heap "CallTree 0 [CallTree 1 []]"] show ?thesis
    by (simp add: MAX_CALL_TRACE_DEPTH_def)
qed

text \<open>
  A node that is its own child is cut at the second visit: one call, one discarded
  reference, and the reason is reported.
\<close>

theorem cyclic_trace_cut:
  assumes "node_calls (h i) = Calls [Ref i]"
  shows "let r = normalize_call_trace h (Ref i) in
    report_calls r = [make_item 0 None 0 (h i)] \<and> report_discarded r = 1 \<and>
    report_reasons r = [''cycle_detected''] \<and> report_status r = ''PARTIAL_CALL_TRACE''"
proof -
  let ?in = "trace_start\<lparr>active_nodes := {i}\<rparr>"
  let ?rec = "record_item (make_item 0 None 0 (h i)) ?in"
  have "i \<in> active_nodes ?rec" "length (calls ?rec) = 1"
    by (simp_all add: record_item_def trace_start_def)
  then have inner: "walk h (Ref i) (Some 0) 1 ?rec = discard [''cycle_detected''] ?rec"
    by (simp add: MAX_CALL_TRACE_DEPTH_def MAX_CALL_TRACE_NODES_def)
  have kids: "children_of (node_calls (h i)) = [Ref i]" using assms by simp
  have "walk h (Ref i) None 0 trace_start =
      (discard [''cycle_detected''] ?rec)\<lparr>active_nodes := {}\<rparr>"
    using inner
    by (subst walk.simps) (simp add: kids MAX_CALL_TRACE_NODES_def trace_start_def record_item_def
        discard_def Let_def del: walk.simps)
  then show ?thesis
    by (simp add: normalize_call_trace_def report_of_def trace_start_def record_item_def
        discard_def sorted_set_def del: walk.simps)
qed

theorem cyclic_trace_cut_witness:
  "report_reasons (normalize_call_trace (\<lambda>_. \<lparr>node_fields = [], node_calls = Calls [Ref 7]\<rparr>) (Ref 7)) =
    [''cycle_detected'']"
  using cyclic_trace_cut [of "\<lambda>_. \<lparr>node_fields = [], node_calls = Calls [Ref 7]\<rparr>" 7]
  by (simp add: Let_def)

text \<open>
  An accepted quantity never exceeds the largest 256-bit integer, but it need not be a
  quantity at all: the text \<open>0x-1\<close> is accepted as minus one and its node is still valid.
\<close>

theorem trace_quantity_bound:
  "(case trace_quantity v of None \<Rightarrow> True | Some q \<Rightarrow> q \<le> UINT256_MAX) \<and>
   trace_quantity (VStr ''0x-1'') = Some (- 1) \<and>
   integrity (make_item 0 None 0 \<lparr>node_fields = [(''type'', VStr ''CALL''), (''value'', VStr ''0x-1'')],
     node_calls = NoCalls\<rparr>) = ''VALID''"
proof -
  have minus: "py_int 16 ''-1'' = Some (- 1)" by (simp add: text_eval code_def)
  then have q: "trace_quantity (VStr ''0x-1'') = Some (- 1)"
    by (simp add: trace_quantity_def starts_with_def UINT256_MAX_def)
  moreover have "is_trace_calldata (VStr ''0x'')"
    by (simp add: is_trace_calldata_def text_eval code_def)
  moreover have "known_call_type (VStr ''CALL'') = Some ''CALL''"
    by (simp add: known_call_type_def py_upper_def upper_char_def code_def TRACE_CALL_TYPES_def)
  ultimately have "integrity (make_item 0 None 0 \<lparr>node_fields = [(''type'', VStr ''CALL''),
      (''value'', VStr ''0x-1'')], node_calls = NoCalls\<rparr>) = ''VALID''"
    by (simp add: make_item_def integrity_def issue_def rejected_def dict_get_or_def Let_def)
  with q show ?thesis
    by (auto simp: trace_quantity_def Let_def split: option.splits pyval.splits if_splits)
qed

end
