(* ===== verification/PrestateDiff.thy ===== *)
theory PrestateDiff
  imports CallTrace
begin

text \<open>
  The state-difference summary of \<open>services/evm_decode.py\<close>
  (\<open>summarize_prestate_diff\<close> and its validators). The first loop normalises the
  accounts of the two sections and collects the candidate addresses; the second compares the
  accounts of each candidate. Both are folds over explicit state.
\<close>

definition MAX_PRESTATE_ADDRESSES :: nat where
  "MAX_PRESTATE_ADDRESSES = 4096"

definition MAX_STORAGE_SLOTS_PER_ADDRESS :: nat where
  "MAX_STORAGE_SLOTS_PER_ADDRESS = 8192"

definition MAX_STATE_CODE_BYTES :: nat where
  "MAX_STATE_CODE_BYTES = 131072"

definition MAX_STATE_DIFF_CHANGES :: nat where
  "MAX_STATE_DIFF_CHANGES = 200"

section \<open>Validators\<close>

definition state_code :: "pyval \<Rightarrow> pyval option" where
  "state_code value =
     (case value of
        VStr s \<Rightarrow>
          if \<not> starts_with ''0x'' s then None
          else
            let digits = drop 2 s in
            if length digits mod 2 \<noteq> 0 \<or> MAX_STATE_CODE_BYTES < length digits div 2 then None
            else if py_int 16 (if digits = [] then ''0'' else digits) = None then None
            else Some (VStr (py_lower s))
      | _ \<Rightarrow> None)"

definition state_quantity :: "pyval \<Rightarrow> pyval option" where
  "state_quantity value =
     (if \<not> is_str value then None else map_option VInt (trace_quantity value))"

definition state_nonce :: "pyval \<Rightarrow> pyval option" where
  "state_nonce value =
     (case value of VInt n \<Rightarrow> if 0 \<le> n \<and> n \<le> 2 ^ 64 - 1 then Some (VInt n) else None | _ \<Rightarrow> None)"

definition state_word :: "pyval \<Rightarrow> string option" where
  "state_word value =
     (case value of
        VStr s \<Rightarrow>
          if length s \<noteq> 66 \<or> \<not> starts_with ''0x'' s then None
          else if py_int 16 (drop 2 s) = None then None
          else Some (py_lower s)
      | _ \<Rightarrow> None)"

type_synonym storage = "(string \<times> string) list"

text \<open>The storage loop: the slots kept so far and the number of malformed entries.\<close>

fun storage_loop :: "storage \<Rightarrow> nat \<Rightarrow> pydict \<Rightarrow> storage \<times> nat" where
  "storage_loop acc bad [] = (acc, bad)"
| "storage_loop acc bad ((raw_slot, raw_value) # xs) =
     (case (state_word (VStr raw_slot), state_word raw_value) of
        (Some slot, Some v) \<Rightarrow> storage_loop (dict_set slot v acc) bad xs
      | _ \<Rightarrow> storage_loop acc (Suc bad) xs)"

definition normalize_state_storage :: "pydict \<Rightarrow> storage \<times> bool \<times> nat \<times> bool" where
  "normalize_state_storage account =
     (if \<not> dict_has account ''storage'' then ([], True, 0, False)
      else case dict_get account ''storage'' of
        VDict raw \<Rightarrow>
          let truncated = MAX_STORAGE_SLOTS_PER_ADDRESS < length raw;
              (normalized, bad) = storage_loop [] 0 (take MAX_STORAGE_SLOTS_PER_ADDRESS raw)
          in (normalized, bad = 0 \<and> \<not> truncated, bad, truncated)
      | _ \<Rightarrow> ([], False, 1, False))"

section \<open>Sections and candidate addresses\<close>

record scan_state =
  candidates :: "string list"
  bad_addresses :: nat
  discarded :: nat
  reasons :: "string list"

definition scan_start :: scan_state where
  "scan_start = \<lparr>candidates = [], bad_addresses = 0, discarded = 0, reasons = []\<rparr>"

definition bad_address :: "scan_state \<Rightarrow> scan_state" where
  "bad_address st = st\<lparr>bad_addresses := Suc (bad_addresses st), discarded := Suc (discarded st)\<rparr>"

fun scan_section :: "pydict \<Rightarrow> pydict \<Rightarrow> scan_state \<Rightarrow> pydict \<times> scan_state" where
  "scan_section sect [] st = (sect, st)"
| "scan_section sect ((raw_address, raw_account) # xs) st =
     (case trace_address (VStr raw_address) of
        None \<Rightarrow> scan_section sect xs (bad_address st)
      | Some address \<Rightarrow>
          if dict_has sect address
          then scan_section (dict_set address VNone sect) xs (bad_address st)
          else if address \<notin> set (candidates st) then
            if MAX_PRESTATE_ADDRESSES \<le> length (candidates st)
            then scan_section sect xs (st\<lparr>discarded := Suc (discarded st),
              reasons := reasons st @ [''address_limit'']\<rparr>)
            else scan_section (dict_set address raw_account sect) xs
              (st\<lparr>candidates := candidates st @ [address]\<rparr>)
          else scan_section (dict_set address raw_account sect) xs st)"

section \<open>One account\<close>

record account_change =
  change_address :: string
  change_type :: string
  changed_fields :: "string list"
  changed_storage_slots :: nat

record diff_state =
  changes :: "account_change list"
  valid_addresses :: nat
  bad_accounts :: nat
  bad_fields :: nat
  bad_storage :: nat
  diff_discarded :: nat
  diff_reasons :: "string list"

text \<open>
  One field of one account: \<open>None\<close> when a present value is malformed, otherwise whether
  the field is reported as changed.
\<close>

definition field_changed ::
  "(pyval \<Rightarrow> pyval option) \<Rightarrow> string \<Rightarrow> bool \<Rightarrow> bool \<Rightarrow> pydict \<Rightarrow> pydict \<Rightarrow> bool option" where
  "field_changed validator field before_account after_account before after =
     (let before_present = dict_has before field; after_present = dict_has after field;
          before_value = (if before_present then validator (dict_get before field) else None);
          after_value = (if after_present then validator (dict_get after field) else None)
      in if before_present \<and> before_value = None \<or> after_present \<and> after_value = None then None
         else Some (if \<not> before_account \<and> after_present then True
           else if before_account \<and> \<not> after_account \<and> before_present then True
           else after_present \<and> (\<not> before_present \<or> before_value \<noteq> after_value)))"

definition state_fields :: "(string \<times> (pyval \<Rightarrow> pyval option)) list" where
  "state_fields = [(''balance'', state_quantity), (''nonce'', state_nonce), (''code'', state_code)]"

fun account_fields ::
  "bool \<Rightarrow> bool \<Rightarrow> pydict \<Rightarrow> pydict \<Rightarrow> (string \<times> (pyval \<Rightarrow> pyval option)) list \<Rightarrow> string list \<times> nat"
where
  "account_fields ba aa before after [] = ([], 0)"
| "account_fields ba aa before after ((field, validator) # fs) =
     (let (names, bad) = account_fields ba aa before after fs in
      case field_changed validator field ba aa before after of
        None \<Rightarrow> (names, Suc bad)
      | Some changed \<Rightarrow> (if changed then field # names else names, bad))"

definition slot_changes :: "storage \<Rightarrow> storage \<Rightarrow> nat" where
  "slot_changes bstore astore =
     length (filter (\<lambda>slot. map_of bstore slot \<noteq> map_of astore slot)
       (take MAX_STORAGE_SLOTS_PER_ADDRESS (sorted_set (map fst bstore @ map fst astore))))"

definition compare_accounts :: "string \<Rightarrow> bool \<Rightarrow> bool \<Rightarrow> pydict \<Rightarrow> pydict \<Rightarrow> diff_state \<Rightarrow> diff_state" where
  "compare_accounts address before_account after_account before after st =
     (let (fields, bad) = account_fields before_account after_account before after state_fields;
          (bstore, bvalid, bbad, btrunc) = normalize_state_storage before;
          (astore, avalid, abad, atrunc) = normalize_state_storage after;
          comparable = bvalid \<and> avalid;
          slots = (if comparable then slot_changes bstore astore else 0);
          too_many = comparable \<and>
            MAX_STORAGE_SLOTS_PER_ADDRESS < length (sorted_set (map fst bstore @ map fst astore));
          ctype = (if \<not> before_account then ''ACCOUNT_CREATED''
            else if \<not> after_account then ''ACCOUNT_DELETED'' else ''MODIFIED'');
          change = \<lparr>change_address = address, change_type = ctype, changed_fields = fields,
            changed_storage_slots = slots\<rparr>
      in st\<lparr>valid_addresses := Suc (valid_addresses st),
           bad_fields := bad_fields st + bad,
           bad_storage := bad_storage st + bbad + abad,
           diff_reasons := diff_reasons st @
             (if btrunc \<or> atrunc \<or> too_many then [''storage_slot_limit''] else []),
           changes := changes st @
             (if fields \<noteq> [] \<or> slots \<noteq> 0 \<or> ctype \<noteq> ''MODIFIED'' then [change] else [])\<rparr>)"

text \<open>\<open>section.get(address, \<open>{}\<close>)\<close>.\<close>

definition account_of :: "pydict \<Rightarrow> string \<Rightarrow> pyval" where
  "account_of sect address = dict_get_or sect address (VDict [])"

definition compare_address :: "pydict \<Rightarrow> pydict \<Rightarrow> string \<Rightarrow> diff_state \<Rightarrow> diff_state" where
  "compare_address pre post address st =
     (case (account_of pre address, account_of post address) of
        (VDict before, VDict after) \<Rightarrow>
          compare_accounts address (dict_has pre address) (dict_has post address) before after st
      | _ \<Rightarrow> st\<lparr>bad_accounts := Suc (bad_accounts st), diff_discarded := Suc (diff_discarded st)\<rparr>)"

section \<open>The summary\<close>

record diff_report =
  diff_status :: string
  addresses_touched :: nat
  addresses_changed :: nat
  diff_changes :: "account_change list"
  malformed_section_count :: nat
  malformed_address_count :: nat
  malformed_account_count :: nat
  malformed_field_count :: nat
  malformed_storage_entry_count :: nat
  discarded_address_count :: nat
  diff_truncated :: bool
  diff_truncation_reasons :: "string list"

definition unavailable_prestate_diff :: diff_report where
  "unavailable_prestate_diff = \<lparr>diff_status = ''UNAVAILABLE_PRESTATE_DIFF'',
     addresses_touched = 0, addresses_changed = 0, diff_changes = [],
     malformed_section_count = 0, malformed_address_count = 0, malformed_account_count = 0,
     malformed_field_count = 0, malformed_storage_entry_count = 0, discarded_address_count = 0,
     diff_truncated = False, diff_truncation_reasons = []\<rparr>"

definition diff_report_of :: "scan_state \<Rightarrow> diff_state \<Rightarrow> diff_report" where
  "diff_report_of sc st =
     (let rs = diff_reasons st @
            (if MAX_STATE_DIFF_CHANGES < length (changes st) then [''change_output_limit''] else []);
          malformed = bad_addresses sc \<noteq> 0 \<or> bad_accounts st \<noteq> 0 \<or> bad_fields st \<noteq> 0
            \<or> bad_storage st \<noteq> 0
      in \<lparr>diff_status =
            (if valid_addresses st = 0 \<and>
                (candidates sc \<noteq> [] \<or> bad_addresses sc \<noteq> 0 \<or> bad_accounts st \<noteq> 0)
             then ''UNAVAILABLE_PRESTATE_DIFF''
             else if malformed \<or> diff_discarded st \<noteq> 0 \<or> rs \<noteq> [] then ''PARTIAL_PRESTATE_DIFF''
             else ''NORMALIZED_PRESTATE_DIFF''),
          addresses_touched = valid_addresses st,
          addresses_changed = length (changes st),
          diff_changes = take MAX_STATE_DIFF_CHANGES (changes st),
          malformed_section_count = 0,
          malformed_address_count = bad_addresses sc,
          malformed_account_count = bad_accounts st,
          malformed_field_count = bad_fields st,
          malformed_storage_entry_count = bad_storage st,
          discarded_address_count = diff_discarded st,
          diff_truncated = (rs \<noteq> []),
          diff_truncation_reasons = sorted_set rs\<rparr>)"

definition diff_start :: "scan_state \<Rightarrow> diff_state" where
  "diff_start sc = \<lparr>changes = [], valid_addresses = 0, bad_accounts = 0, bad_fields = 0,
     bad_storage = 0, diff_discarded = discarded sc, diff_reasons = reasons sc\<rparr>"

definition diff_sections :: "pydict \<Rightarrow> pydict \<Rightarrow> diff_report" where
  "diff_sections raw_pre raw_post =
     (let (pre, sc1) = scan_section [] raw_pre scan_start;
          (post, sc) = scan_section [] raw_post sc1
      in diff_report_of sc (fold (compare_address pre post) (candidates sc) (diff_start sc)))"

definition summarize_prestate_diff :: "pyval \<Rightarrow> diff_report" where
  "summarize_prestate_diff value =
     (case value of
        VDict d \<Rightarrow>
          if \<not> dict_has d ''pre'' \<and> \<not> dict_has d ''post'' then unavailable_prestate_diff
          else
            (let raw_pre = dict_get_or d ''pre'' (VDict []);
                 raw_post = dict_get_or d ''post'' (VDict []) in
             case (raw_pre, raw_post) of
               (VDict p, VDict q) \<Rightarrow> diff_sections p q
             | _ \<Rightarrow> unavailable_prestate_diff\<lparr>malformed_section_count :=
                 (if is_dict raw_pre then 0 else 1) + (if is_dict raw_post then 0 else 1)\<rparr>)
      | _ \<Rightarrow> unavailable_prestate_diff)"

section \<open>Invariants of the two loops\<close>

text \<open>A normalised address is its own normal form when its digits are hexadecimal.\<close>

definition lower_address :: "string \<Rightarrow> bool" where
  "lower_address a = (length a = 42 \<and> starts_with ''0x'' a \<and> py_lower a = a)"

lemma trace_address_lower: "trace_address v = Some a \<Longrightarrow> lower_address a"
proof -
  have "starts_with ''0x'' (py_lower s)" if "starts_with ''0x'' s" for s
  proof -
    have "take 2 (py_lower s) = py_lower (take 2 s)" by (simp add: lower_take)
    also have "take 2 s = ''0x''" using that by (simp add: starts_with_def numeral_2_eq_2)
    also have "py_lower ''0x'' = ''0x''" by (simp add: text_eval code_def)
    finally show ?thesis by (simp add: starts_with_def numeral_2_eq_2)
  qed
  then show "trace_address v = Some a \<Longrightarrow> lower_address a"
    by (auto simp: trace_address_def lower_address_def split: pyval.splits if_splits)
qed

definition addresses_ok :: "scan_state \<Rightarrow> bool" where
  "addresses_ok st = (distinct (candidates st) \<and> length (candidates st) \<le> MAX_PRESTATE_ADDRESSES \<and>
     list_all lower_address (candidates st) \<and> bad_addresses st \<le> discarded st \<and>
     (reasons st \<noteq> [] \<longrightarrow> discarded st \<noteq> 0))"

lemma addresses_ok_updates:
  "addresses_ok st \<Longrightarrow> addresses_ok (bad_address st)"
  "addresses_ok st \<Longrightarrow>
     addresses_ok (st\<lparr>discarded := Suc (discarded st), reasons := reasons st @ [''address_limit'']\<rparr>)"
  "addresses_ok st \<Longrightarrow> trace_address v = Some a \<Longrightarrow> a \<notin> set (candidates st) \<Longrightarrow>
     \<not> MAX_PRESTATE_ADDRESSES \<le> length (candidates st) \<Longrightarrow>
     addresses_ok (st\<lparr>candidates := candidates st @ [a]\<rparr>)"
  by (auto simp: addresses_ok_def bad_address_def dest: trace_address_lower)

lemma scan_ok: "addresses_ok st \<Longrightarrow> addresses_ok (snd (scan_section sect xs st))"
proof (induction sect xs st rule: scan_section.induct)
  case (2 sect raw_address raw_account xs st)
  then show ?case
    by (simp add: addresses_ok_updates(1,2) split: option.splits) (blast intro: addresses_ok_updates(3))
qed simp

lemma scan_start_ok: "addresses_ok scan_start"
  by (simp add: addresses_ok_def scan_start_def)

text \<open>A scan only appends candidates, and no more once the limit is reached.\<close>

lemma scan_grows:
  "set (candidates st) \<subseteq> set (candidates (snd (scan_section sect xs st))) \<and>
   (MAX_PRESTATE_ADDRESSES \<le> length (candidates st) \<longrightarrow>
      candidates (snd (scan_section sect xs st)) = candidates st)"
proof (induction sect xs st rule: scan_section.induct)
  case (2 sect raw_address raw_account xs st)
  then show ?case
    by (simp add: bad_address_def split: option.splits)
qed simp

text \<open>A second scan of the same entries, started from the candidates of the first, yields the
  same section.\<close>

lemma scan_again:
  "candidates st2 = candidates (snd (scan_section sect xs st)) \<Longrightarrow>
   fst (scan_section sect xs st2) = fst (scan_section sect xs st) \<and>
   candidates (snd (scan_section sect xs st2)) = candidates st2"
proof (induction sect xs st arbitrary: st2 rule: scan_section.induct)
  case (2 sect raw_address raw_account xs st)
  show ?case
  proof (cases "trace_address (VStr raw_address)")
    case None
    with "2.prems" "2.IH"(1) [of "bad_address st2"] show ?thesis by (simp add: bad_address_def)
  next
    case (Some a)
    consider "dict_has sect a" | "\<not> dict_has sect a" "a \<in> set (candidates st)"
      | "\<not> dict_has sect a" "a \<notin> set (candidates st)" "MAX_PRESTATE_ADDRESSES \<le> length (candidates st)"
      | "\<not> dict_has sect a" "a \<notin> set (candidates st)" "\<not> MAX_PRESTATE_ADDRESSES \<le> length (candidates st)"
      by blast
    then show ?thesis
    proof cases
      case 1
      with Some "2.prems" "2.IH"(2) [OF Some 1, of "bad_address st2"] show ?thesis
        by (simp add: bad_address_def)
    next
      case 2
      let ?sect = "dict_set a raw_account sect"
      have "a \<in> set (candidates st2)"
        using "2.prems" Some 2 scan_grows [of st ?sect xs] by auto
      with 2 Some "2.prems" "2.IH"(5) [OF Some, of st2] show ?thesis by simp
    next
      case 3
      let ?st = "st\<lparr>discarded := Suc (discarded st), reasons := reasons st @ [''address_limit'']\<rparr>"
      have "candidates st2 = candidates st"
        using "2.prems" Some 3 scan_grows [of ?st sect xs] by simp
      then have full: "a \<notin> set (candidates st2)" "MAX_PRESTATE_ADDRESSES \<le> length (candidates st2)"
        using 3 by simp_all
      let ?st2 = "st2\<lparr>discarded := Suc (discarded st2), reasons := reasons st2 @ [''address_limit'']\<rparr>"
      have "candidates ?st2 = candidates (snd (scan_section sect xs ?st))"
        using "2.prems" Some 3 by simp
      from "2.IH"(3) [OF Some 3(1,2,3) this] full 3 Some show ?thesis by simp
    next
      case 4
      let ?sect = "dict_set a raw_account sect"
      let ?st = "st\<lparr>candidates := candidates st @ [a]\<rparr>"
      have "a \<in> set (candidates st2)"
        using "2.prems" Some 4 scan_grows [of ?st ?sect xs] by auto
      moreover have "candidates st2 = candidates (snd (scan_section ?sect xs ?st))"
        using "2.prems" Some 4 by simp
      ultimately show ?thesis using "2.IH"(4) [OF Some 4(1,2,3)] 4 Some by simp
    qed
  qed
qed simp

definition diff_ok :: "scan_state \<Rightarrow> string list \<Rightarrow> diff_state \<Rightarrow> bool" where
  "diff_ok sc seen st =
     (valid_addresses st + bad_accounts st = length seen \<and>
      length (changes st) \<le> valid_addresses st \<and>
      distinct (map change_address (changes st)) \<and>
      set (map change_address (changes st)) \<subseteq> set seen \<and>
      diff_discarded st = discarded sc + bad_accounts st)"

lemma compare_address_cases:
  "compare_address pre post a st = st\<lparr>bad_accounts := Suc (bad_accounts st),
     diff_discarded := Suc (diff_discarded st)\<rparr> \<or>
   (\<exists>bad stor rs new. compare_address pre post a st =
      st\<lparr>valid_addresses := Suc (valid_addresses st), bad_fields := bad, bad_storage := stor,
         diff_reasons := rs, changes := changes st @ new\<rparr> \<and>
      (new = [] \<or> (\<exists>c. new = [c] \<and> change_address c = a)))"
proof -
  have "\<exists>bad stor rs new. compare_accounts a b c before after st =
      st\<lparr>valid_addresses := Suc (valid_addresses st), bad_fields := bad, bad_storage := stor,
         diff_reasons := rs, changes := changes st @ new\<rparr> \<and>
      (new = [] \<or> (\<exists>c. new = [c] \<and> change_address c = a))" for b c before after
    unfolding compare_accounts_def Let_def case_prod_beta
    by (intro exI conjI) (rule refl, simp)
  then show ?thesis
    by (simp add: compare_address_def split: pyval.split)
qed

lemma compare_address_ok:
  assumes "diff_ok sc seen st" and "a \<notin> set seen"
  shows "diff_ok sc (seen @ [a]) (compare_address pre post a st)"
  using compare_address_cases [of pre post a st]
proof (elim disjE exE conjE)
  fix bad stor rs new c
  assume "compare_address pre post a st =
    st\<lparr>valid_addresses := Suc (valid_addresses st), bad_fields := bad, bad_storage := stor,
       diff_reasons := rs, changes := changes st @ new\<rparr>" "new = [c]" "change_address c = a"
  with assms show ?thesis by (auto simp: diff_ok_def)
qed (use assms in \<open>auto simp: diff_ok_def\<close>)

lemma compare_all_ok:
  "diff_ok sc seen st \<Longrightarrow> distinct (seen @ xs) \<Longrightarrow>
   diff_ok sc (seen @ xs) (fold (compare_address pre post) xs st)"
proof (induction xs arbitrary: seen st)
  case (Cons a xs)
  then have "diff_ok sc (seen @ [a]) (compare_address pre post a st)"
    by (intro compare_address_ok) auto
  with Cons.IH [of "seen @ [a]"] Cons.prems(2) show ?case by simp
qed simp

section \<open>The whole summary\<close>

lemma diff_sections_ok:
  "\<exists>sc st. diff_sections p q = diff_report_of sc st \<and> addresses_ok sc \<and> diff_ok sc (candidates sc) st"
proof -
  obtain pre sc1 where 1: "scan_section [] p scan_start = (pre, sc1)" by fastforce
  obtain post sc where 2: "scan_section [] q sc1 = (post, sc)" by fastforce
  have sc: "addresses_ok sc"
    using scan_ok [OF scan_start_ok, of "[]" p] scan_ok [of sc1 "[]" q] 1 2 by simp
  moreover have "diff_ok sc [] (diff_start sc)"
    by (simp add: diff_ok_def diff_start_def)
  from compare_all_ok [OF this, of "candidates sc" pre post] sc
  have "diff_ok sc (candidates sc) (fold (compare_address pre post) (candidates sc) (diff_start sc))"
    by (simp add: addresses_ok_def)
  ultimately show ?thesis
    using 1 2 by (auto simp: diff_sections_def)
qed

definition report_ok :: "diff_report \<Rightarrow> bool" where
  "report_ok r =
     (addresses_touched r \<le> 4096 \<and> length (diff_changes r) \<le> 200 \<and>
      length (diff_changes r) \<le> addresses_changed r \<and> addresses_changed r \<le> addresses_touched r \<and>
      distinct (map change_address (diff_changes r)) \<and>
      list_all lower_address (map change_address (diff_changes r)) \<and>
      malformed_address_count r + malformed_account_count r \<le> discarded_address_count r \<and>
      (diff_status r = ''NORMALIZED_PRESTATE_DIFF'' \<longrightarrow>
         malformed_section_count r = 0 \<and> malformed_address_count r = 0 \<and>
         malformed_account_count r = 0 \<and> malformed_field_count r = 0 \<and>
         malformed_storage_entry_count r = 0 \<and> discarded_address_count r = 0 \<and>
         \<not> diff_truncated r \<and> diff_truncation_reasons r = [] \<and>
         length (diff_changes r) = addresses_changed r))"

lemma report_of_ok:
  assumes "addresses_ok sc" and "diff_ok sc (candidates sc) st"
  shows "report_ok (diff_report_of sc st)"
proof -
  have "list_all lower_address (map change_address (changes st))"
    using assms by (auto simp: addresses_ok_def diff_ok_def list_all_iff)
  then have low: "list_all lower_address (map change_address (take n (changes st)))" for n
    by (auto simp: list_all_iff dest: in_set_takeD)
  have dist: "distinct (map change_address (take n (changes st)))" for n
    using assms(2) by (simp add: diff_ok_def flip: take_map)
  have counts: "valid_addresses st \<le> 4096" "length (changes st) \<le> valid_addresses st"
    "bad_addresses sc + bad_accounts st \<le> diff_discarded st"
    using assms by (auto simp: addresses_ok_def diff_ok_def MAX_PRESTATE_ADDRESSES_def)
  show ?thesis
    using counts low dist
    by (auto simp: report_ok_def diff_report_of_def Let_def MAX_STATE_DIFF_CHANGES_def sorted_set_def)
qed

lemma unavailable_ok: "report_ok (unavailable_prestate_diff\<lparr>malformed_section_count := n\<rparr>)"
  "report_ok unavailable_prestate_diff"
  by (simp_all add: report_ok_def unavailable_prestate_diff_def)

lemma account_fields_same: "fst (account_fields True True d d fs) = []"
  by (induction fs) (auto simp: case_prod_beta field_changed_def Let_def split: option.splits)

lemma slot_changes_same: "slot_changes s s = 0"
  by (simp add: slot_changes_def)

lemma compare_same:
  assumes "dict_has pre a"
  shows "changes (compare_address pre pre a st) = changes st"
proof (cases "account_of pre a")
  case (VDict d)
  then show ?thesis
    using assms account_fields_same [of d state_fields]
    by (cases "normalize_state_storage d")
      (simp add: compare_address_def compare_accounts_def Let_def case_prod_beta slot_changes_same)
qed (simp_all add: compare_address_def)

lemma compare_all_same:
  "list_all (\<lambda>a. dict_has pre a) xs \<Longrightarrow>
   changes (fold (compare_address pre pre) xs st) = changes st"
  by (induction xs arbitrary: st) (auto simp: compare_same)

lemma dict_has_set [simp]: "dict_has (dict_set k v d) k' \<longleftrightarrow> k' = k \<or> dict_has d k'"
  by (simp add: dict_has_def)

lemma scan_has:
  "list_all (\<lambda>a. dict_has sect a) (candidates st) \<Longrightarrow>
   list_all (\<lambda>a. dict_has (fst (scan_section sect xs st)) a) (candidates (snd (scan_section sect xs st)))"
proof (induction sect xs st rule: scan_section.induct)
  case (2 sect raw_address raw_account xs st)
  then show ?case
    by (auto simp: bad_address_def list_all_iff split: option.splits)
qed simp

section \<open>Properties\<close>

text \<open>
  C23: on every input the summary is bounded and consistent: at most 4096 accounts and 200
  reported changes, each for a different lower-case address, counters that agree, and the
  normalized status only when nothing was malformed, discarded or truncated.
\<close>

theorem prestate_summary_sound: "report_ok (summarize_prestate_diff value)"
proof -
  have "report_ok (diff_sections p q)" for p q
    using diff_sections_ok [of p q] report_of_ok by auto
  then show ?thesis
    by (auto simp: summarize_prestate_diff_def Let_def unavailable_ok split: pyval.split)
qed

text \<open>
  When the two sections are the same dictionary, no change is reported, whatever the
  accounts hold and however much of them is malformed.
\<close>

theorem identical_sections_unchanged:
  "addresses_changed (summarize_prestate_diff (VDict [(''pre'', VDict p), (''post'', VDict p)])) = 0 \<and>
   diff_changes (summarize_prestate_diff (VDict [(''pre'', VDict p), (''post'', VDict p)])) = []"
proof -
  obtain pre sc1 where 1: "scan_section [] p scan_start = (pre, sc1)" by fastforce
  obtain post sc where 2: "scan_section [] p sc1 = (post, sc)" by fastforce
  have same: "post = pre" "candidates sc = candidates sc1"
    using scan_again [of sc1 "[]" p scan_start] 1 2 by simp_all
  have "list_all (\<lambda>a. dict_has pre a) (candidates sc)"
    using scan_has [of "[]" scan_start p] 1 same(2) by (simp add: scan_start_def)
  from compare_all_same [OF this, of "diff_start sc"]
  have "changes (fold (compare_address pre pre) (candidates sc) (diff_start sc)) = []"
    by (simp add: diff_start_def)
  then have "addresses_changed (diff_sections p p) = 0 \<and> diff_changes (diff_sections p p) = []"
    by (simp add: diff_sections_def 1 2 same(1) diff_report_of_def Let_def)
  then show ?thesis by (simp add: summarize_prestate_diff_def dict_get_or_def dict_has_def)
qed

text \<open>
  For one account present on both sides with a valid balance on each, the summary reports
  the balance as changed exactly when the two quantities differ.
\<close>

theorem balance_change_reported:
  assumes "trace_address (VStr a) = Some addr"
    and "state_quantity (VStr b1) = Some v1" and "state_quantity (VStr b2) = Some v2"
  shows "map changed_fields (diff_changes (summarize_prestate_diff (VDict
      [(''pre'', VDict [(a, VDict [(''balance'', VStr b1)])]),
       (''post'', VDict [(a, VDict [(''balance'', VStr b2)])])]))) =
    (if v1 \<noteq> v2 then [[''balance'']] else [])"
proof -
  have step: "compare_address [(addr, VDict [(''balance'', VStr b1)])]
      [(addr, VDict [(''balance'', VStr b2)])] addr st =
    st\<lparr>valid_addresses := Suc (valid_addresses st),
       changes := changes st @ (if v1 \<noteq> v2 then [\<lparr>change_address = addr, change_type = ''MODIFIED'',
         changed_fields = [''balance''], changed_storage_slots = 0\<rparr>] else [])\<rparr>" for st
    using assms
    by (simp add: compare_address_def account_of_def dict_get_or_def compare_accounts_def
        state_fields_def field_changed_def normalize_state_storage_def slot_changes_def
        sorted_set_def MAX_STORAGE_SLOTS_PER_ADDRESS_def)
  show ?thesis
    using assms(1)
    by (simp add: summarize_prestate_diff_def dict_get_or_def diff_sections_def scan_start_def
        MAX_PRESTATE_ADDRESSES_def dict_set_def step diff_report_of_def diff_start_def
        MAX_STATE_DIFF_CHANGES_def)
qed

theorem balance_change_reported_witness:
  "let a = ''0x'' @ hexw 40 0 in
   map changed_fields (diff_changes (summarize_prestate_diff (VDict
      [(''pre'', VDict [(a, VDict [(''balance'', VStr ''0x1'')])]),
       (''post'', VDict [(a, VDict [(''balance'', VStr ''0x2'')])])]))) = [[''balance'']]"
proof -
  have addr: "trace_address (VStr (''0x'' @ hexw 40 0)) = Some (py_lower (''0x'' @ hexw 40 0))"
    by (simp add: trace_address_def starts_with_def del: hexw_zero)
  have q: "state_quantity (VStr ''0x1'') = Some (VInt 1)" "state_quantity (VStr ''0x2'') = Some (VInt 2)"
    by (simp_all add: state_quantity_def trace_quantity_def UINT256_MAX_def text_eval code_def)
  show ?thesis
    using balance_change_reported [OF addr q] by (simp only: Let_def) simp
qed

end
