(* ===== verification/EvmEvents.thy ===== *)
theory EvmEvents
  imports EvmCalldata
begin

text \<open>
  The event-log normaliser of \<open>services/evm_events.py\<close>. An effect is the dictionary the
  code appends. Several conversions \<open>int(text, 16)\<close> are not guarded, so the decoders
  return results that may be \<open>ValueError\<close>, and \<open>_log_index\<close> may raise
  \<open>OverflowError\<close>. The locale \<open>capped_buffer\<close> is the interface of an output
  list with a row limit; it is interpreted on the two lists of the accumulator.
\<close>

definition TRANSFER_TOPIC :: string where
  "TRANSFER_TOPIC = ''0xddf252ad1be2c89b69c2b068fc378daa952ba7f163c4a11628f55a4df523b3ef''"

definition APPROVAL_TOPIC :: string where
  "APPROVAL_TOPIC = ''0x8c5be1e5ebec7d5bd14f71427d1e84f3dd0314c0f7b2291e5b200ac8c7c3b925''"

definition APPROVAL_FOR_ALL_TOPIC :: string where
  "APPROVAL_FOR_ALL_TOPIC = ''0x17307eab39ab6107e8899845ad3d59bd9653f200f220920489ca2b5937696c31''"

definition ERC1155_TRANSFER_SINGLE_TOPIC :: string where
  "ERC1155_TRANSFER_SINGLE_TOPIC =
     ''0xc3d58168c5ae7397731d063d5bbf3d657854427343f4c083240f7aacaa2d0f62''"

definition ERC1155_TRANSFER_BATCH_TOPIC :: string where
  "ERC1155_TRANSFER_BATCH_TOPIC =
     ''0x4a39dc06d4c0dbc64b70af90fd698a233a518aa5d07e595d983b8c0526c8f7fb''"

definition ZERO_ADDRESS :: string where
  "ZERO_ADDRESS = ''0x0000000000000000000000000000000000000000''"

definition MAX_INPUT_LOGS :: nat where
  "MAX_INPUT_LOGS = 1000"

definition MAX_EFFECT_ROWS :: nat where
  "MAX_EFFECT_ROWS = 200"

definition MAX_BATCH_ITEMS :: nat where
  "MAX_BATCH_ITEMS = 100"

section \<open>Hexadecimal fields\<close>

definition hex_field :: "nat option \<Rightarrow> pyval \<Rightarrow> string option" where
  "hex_field nibbles value =
     (case value of
        VStr s \<Rightarrow>
          if \<not> starts_with ''0x'' s then None
          else
            let raw = drop 2 s in
            if nibbles \<noteq> None \<and> nibbles \<noteq> Some (length raw) then None
            else if length raw mod 2 \<noteq> 0 then None
            else if py_int 16 (if raw = [] then ''0'' else raw) = None then None
            else Some (''0x'' @ py_lower raw)
      | _ \<Rightarrow> None)"

definition event_address :: "pyval \<Rightarrow> string option" where
  "event_address = hex_field (Some 40)"

definition event_topic :: "pyval \<Rightarrow> string option" where
  "event_topic = hex_field (Some 64)"

text \<open>\<open>int(text, 16)\<close> outside any handler.\<close>

definition hex_int :: "string \<Rightarrow> int py" where
  "hex_int s = (case py_int 16 s of None \<Rightarrow> Inl ValueError | Some n \<Rightarrow> Inr n)"

definition topic_address :: "string \<Rightarrow> string option" where
  "topic_address value =
     (case event_topic (VStr value) of
        None \<Rightarrow> None
      | Some normalized \<Rightarrow>
          let raw = drop 2 normalized in
          if take 24 raw \<noteq> replicate 24 (CHR ''0'') then None
          else Some (''0x'' @ drop (length raw - 40) raw))"

definition topic_uint :: "string \<Rightarrow> int option py" where
  "topic_uint value =
     (case event_topic (VStr value) of
        None \<Rightarrow> Inr None
      | Some normalized \<Rightarrow> rbind (hex_int normalized) (\<lambda>n. Inr (Some n)))"

text \<open>The chunks of 64 digits of a text whose length is a multiple of 64.\<close>

definition chunks64 :: "string \<Rightarrow> string list" where
  "chunks64 raw = map (\<lambda>i. take 64 (drop (i * 64) raw)) [0..<length raw div 64]"

definition data_words :: "string \<Rightarrow> int list option py" where
  "data_words value =
     (case hex_field None (VStr value) of
        None \<Rightarrow> Inr None
      | Some normalized \<Rightarrow>
          let raw = drop 2 normalized in
          if length raw mod 64 \<noteq> 0 then Inr None
          else rbind (map_res hex_int (chunks64 raw)) (\<lambda>ws. Inr (Some ws)))"

definition rat_trunc :: "rat \<Rightarrow> int" where
  "rat_trunc r = (if 0 \<le> r then \<lfloor>r\<rfloor> else \<lceil>r\<rceil>)"

definition log_index_of :: "pyval \<Rightarrow> int option py" where
  "log_index_of value =
     (let keep = (\<lambda>n. if 0 \<le> n then Some n else None) in
      case value of
        VNone \<Rightarrow> Inr None
      | VBool _ \<Rightarrow> Inr None
      | VInt n \<Rightarrow> Inr (keep n)
      | VFloat (Fin r) \<Rightarrow> Inr (keep (rat_trunc r))
      | VFloat NaN \<Rightarrow> Inr None
      | VFloat _ \<Rightarrow> Inl OverflowError
      | VStr s \<Rightarrow>
          if s = [] then Inr None
          else Inr (case py_int (if starts_with ''0x'' s then 16 else 10) s of
                      None \<Rightarrow> None | Some n \<Rightarrow> keep n)
      | _ \<Rightarrow> Inr None)"

section \<open>Raw logs\<close>

record raw_log =
  log_address :: string
  log_topics :: "string list"
  log_data :: string
  log_index :: "int option"

definition log_dict :: "pydict \<Rightarrow> pydict" where
  "log_dict row = (case dict_get row ''raw'' of VDict d \<Rightarrow> d | _ \<Rightarrow> row)"

fun first_present :: "pyval list \<Rightarrow> pyval" where
  "first_present [] = VNone"
| "first_present (v # vs) = (if v \<noteq> VNone then v else first_present vs)"

fun normalize_topics :: "pyval list \<Rightarrow> string list option" where
  "normalize_topics [] = Some []"
| "normalize_topics (v # vs) =
     (case event_topic v of
        None \<Rightarrow> None
      | Some t \<Rightarrow> map_option ((#) t) (normalize_topics vs))"

definition raw_log_of :: "pyval \<Rightarrow> raw_log option py" where
  "raw_log_of v =
     (case v of
        VDict row \<Rightarrow>
          (let raw = log_dict row;
               raw_address = (if truthy (dict_get raw ''address'') then dict_get raw ''address''
                 else dict_get row ''address'');
               topics_value = (if dict_has raw ''topics'' then dict_get raw ''topics''
                 else dict_get row ''topics'');
               data_value = (if dict_has raw ''data'' then dict_get raw ''data''
                 else dict_get row ''data'')
           in case (event_address raw_address, topics_value) of
                (Some address, VList (t # ts)) \<Rightarrow>
                  (case (normalize_topics (t # ts), hex_field None data_value) of
                     (Some topics, Some data) \<Rightarrow>
                       rbind (log_index_of (first_present [dict_get raw ''logIndex'',
                           dict_get raw ''log_index'', dict_get row ''logIndex'',
                           dict_get row ''log_index''])) (\<lambda>i.
                         Inr (Some \<lparr>log_address = address, log_topics = topics,
                           log_data = data, log_index = i\<rparr>))
                   | _ \<Rightarrow> Inr None)
              | _ \<Rightarrow> Inr None)
      | _ \<Rightarrow> Inr None)"

section \<open>Effects\<close>

definition movement_kind :: "string \<Rightarrow> string \<Rightarrow> string" where
  "movement_kind from_address to_address =
     (if from_address = ZERO_ADDRESS \<and> to_address = ZERO_ADDRESS then ''zero_address_supply_signal''
      else if from_address = ZERO_ADDRESS then ''mint''
      else if to_address = ZERO_ADDRESS then ''burn'' else ''transfer'')"

definition index_value :: "int option \<Rightarrow> pyval" where
  "index_value i = (case i of None \<Rightarrow> VNone | Some n \<Rightarrow> VInt n)"

definition base_effect :: "raw_log \<Rightarrow> string \<Rightarrow> string \<Rightarrow> pydict" where
  "base_effect raw standard event =
     [(''standard'', VStr standard), (''event'', VStr event), (''contract'', VStr (log_address raw)),
      (''log_index'', index_value (log_index raw))]"

definition decode_transfer :: "raw_log \<Rightarrow> pydict list option py" where
  "decode_transfer raw =
     (case log_topics raw of
        [t0, t1, t2] \<Rightarrow>
          rbind (data_words (log_data raw)) (\<lambda>words.
            Inr (case (words, topic_address t1, topic_address t2) of
                   (Some [w], Some a, Some b) \<Rightarrow>
                     Some [base_effect raw ''ERC20'' ''Transfer'' @
                       [(''kind'', VStr (movement_kind a b)), (''from'', VStr a), (''to'', VStr b),
                        (''amount_raw'', VStr (int_text w))]]
                 | _ \<Rightarrow> None))
      | [t0, t1, t2, t3] \<Rightarrow>
          rbind (topic_uint t3) (\<lambda>token.
            Inr (case (topic_address t1, topic_address t2, token) of
                   (Some a, Some b, Some token_id) \<Rightarrow>
                     if log_data raw \<noteq> ''0x'' then None
                     else Some [base_effect raw ''ERC721'' ''Transfer'' @
                       [(''kind'', VStr (movement_kind a b)), (''from'', VStr a), (''to'', VStr b),
                        (''token_id'', VStr (int_text token_id))]]
                 | _ \<Rightarrow> None))
      | _ \<Rightarrow> Inr None)"

definition decode_approval :: "raw_log \<Rightarrow> pydict option py" where
  "decode_approval raw =
     (case log_topics raw of
        [t0, t1, t2] \<Rightarrow>
          (case (topic_address t1, topic_address t2) of
             (Some owner, Some spender) \<Rightarrow>
               rbind (data_words (log_data raw)) (\<lambda>words.
                 Inr (case words of
                        Some [w] \<Rightarrow> Some (base_effect raw ''ERC20'' ''Approval'' @
                          [(''owner'', VStr owner), (''spender'', VStr spender),
                           (''amount_raw'', VStr (int_text w))])
                      | _ \<Rightarrow> None))
           | _ \<Rightarrow> Inr None)
      | [t0, t1, t2, t3] \<Rightarrow>
          (case (topic_address t1, topic_address t2) of
             (Some owner, Some spender) \<Rightarrow>
               if log_data raw \<noteq> ''0x'' then Inr None
               else rbind (topic_uint t3) (\<lambda>token.
                 Inr (map_option (\<lambda>token_id. base_effect raw ''ERC721'' ''Approval'' @
                   [(''owner'', VStr owner), (''approved'', VStr spender),
                    (''token_id'', VStr (int_text token_id))]) token))
           | _ \<Rightarrow> Inr None)
      | _ \<Rightarrow> Inr None)"

definition decode_approval_for_all :: "raw_log \<Rightarrow> pydict option py" where
  "decode_approval_for_all raw =
     (case log_topics raw of
        [t0, t1, t2] \<Rightarrow>
          rbind (data_words (log_data raw)) (\<lambda>words.
            Inr (case (topic_address t1, topic_address t2, words) of
                   (Some owner, Some operator, Some [w]) \<Rightarrow>
                     if w \<noteq> 0 \<and> w \<noteq> 1 then None
                     else Some (base_effect raw ''ERC721_OR_ERC1155'' ''ApprovalForAll'' @
                       [(''owner'', VStr owner), (''operator'', VStr operator),
                        (''approved'', VBool (w \<noteq> 0))])
                 | _ \<Rightarrow> None))
      | _ \<Rightarrow> Inr None)"

definition decode_erc1155_single :: "raw_log \<Rightarrow> pydict list option py" where
  "decode_erc1155_single raw =
     rbind (data_words (log_data raw)) (\<lambda>words.
       Inr (case (log_topics raw, words) of
              ([t0, t1, t2, t3], Some [w0, w1]) \<Rightarrow>
                (case (topic_address t1, topic_address t2, topic_address t3) of
                   (Some operator, Some a, Some b) \<Rightarrow>
                     Some [base_effect raw ''ERC1155'' ''TransferSingle'' @
                       [(''kind'', VStr (movement_kind a b)), (''operator'', VStr operator),
                        (''from'', VStr a), (''to'', VStr b), (''token_id'', VStr (int_text w0)),
                        (''amount_raw'', VStr (int_text w1))]]
                 | _ \<Rightarrow> None)
            | _ \<Rightarrow> None))"

text \<open>The values that are kept (at most \<open>MAX_BATCH_ITEMS\<close>) and the declared count.\<close>

definition decode_uint_array :: "string \<Rightarrow> int \<Rightarrow> (int list \<times> int) option py" where
  "decode_uint_array raw_hex offset_bytes =
     (let raw = drop 2 raw_hex; byte_length = int (length raw) div 2 in
      if offset_bytes < 0 \<or> offset_bytes mod 32 \<noteq> 0 \<or> byte_length < offset_bytes + 32 then Inr None
      else
        let start = offset_bytes * 2 in
        rbind (hex_int (py_slice raw start (start + 64))) (\<lambda>count.
          if byte_length < offset_bytes + 32 + count * 32 then Inr None
          else rbind (map_res (\<lambda>i.
              let word_start = start + 64 + int i * 64
              in hex_int (py_slice raw word_start (word_start + 64)))
              [0..<nat (min count (int MAX_BATCH_ITEMS))]) (\<lambda>values.
            Inr (Some (values, count)))))"

definition batch_effect ::
  "raw_log \<Rightarrow> string \<Rightarrow> string \<Rightarrow> string \<Rightarrow> int \<Rightarrow> nat \<times> int \<times> int \<Rightarrow> pydict" where
  "batch_effect raw operator a b n_items = (\<lambda>(i, token_id, amount).
     base_effect raw ''ERC1155'' ''TransferBatch'' @
       [(''kind'', VStr (movement_kind a b)), (''operator'', VStr operator), (''from'', VStr a),
        (''to'', VStr b), (''token_id'', VStr (int_text token_id)),
        (''amount_raw'', VStr (int_text amount)), (''batch_item_index'', VInt (int i)),
        (''batch_size'', VInt n_items)])"

text \<open>The two arrays, after every check of the canonical layout.\<close>

definition batch_arrays :: "string \<Rightarrow> int \<Rightarrow> int \<Rightarrow> (int list \<times> int list \<times> int) option py" where
  "batch_arrays data ids_offset amounts_offset =
     (if ids_offset \<noteq> 64 then Inr None
      else rbind (decode_uint_array data ids_offset) (\<lambda>ids_result.
        case ids_result of
          None \<Rightarrow> Inr None
        | Some (ids, count) \<Rightarrow>
            if amounts_offset \<noteq> ids_offset + 32 + count * 32 then Inr None
            else rbind (decode_uint_array data amounts_offset) (\<lambda>amounts_result.
              Inr (case amounts_result of
                     None \<Rightarrow> None
                   | Some (amounts, n) \<Rightarrow>
                       if count \<noteq> n then None
                       else if amounts_offset + 32 + n * 32 \<noteq> int (length (drop 2 data)) div 2
                       then None else Some (ids, amounts, count)))))"

definition decode_erc1155_batch :: "raw_log \<Rightarrow> (pydict list \<times> int \<times> bool) option py" where
  "decode_erc1155_batch raw =
     rbind (data_words (log_data raw)) (\<lambda>words.
       case (log_topics raw, words) of
         ([t0, t1, t2, t3], Some (w0 # w1 # ws)) \<Rightarrow>
           (case (topic_address t1, topic_address t2, topic_address t3) of
              (Some operator, Some a, Some b) \<Rightarrow>
                rbind (batch_arrays (log_data raw) w0 w1) (\<lambda>arrays.
                  Inr (map_option (\<lambda>(ids, amounts, count).
                    let output = map (batch_effect raw operator a b count)
                          (enumerate 0 (zip ids amounts))
                    in (output, count, int (length output) < count)) arrays))
            | _ \<Rightarrow> Inr None)
       | _ \<Rightarrow> Inr None)"

section \<open>The accumulator\<close>

record event_state =
  asset_changes :: "pydict list"
  approval_events :: "pydict list"
  decoded_log_count :: nat
  asset_change_count :: int
  approval_event_count :: nat
  unknown_log_count :: nat
  malformed_log_count :: nat
  event_truncated :: bool

definition push_asset :: "pydict \<Rightarrow> event_state \<Rightarrow> event_state" where
  "push_asset effect st =
     (if length (asset_changes st) < MAX_EFFECT_ROWS
      then st\<lparr>asset_changes := asset_changes st @ [effect]\<rparr>
      else st\<lparr>event_truncated := True\<rparr>)"

definition push_approval :: "pydict \<Rightarrow> event_state \<Rightarrow> event_state" where
  "push_approval effect st =
     (if length (approval_events st) < MAX_EFFECT_ROWS
      then st\<lparr>approval_events := approval_events st @ [effect]\<rparr>
      else st\<lparr>event_truncated := True\<rparr>)"

definition malformed_log :: "event_state \<Rightarrow> event_state" where
  "malformed_log st = st\<lparr>malformed_log_count := Suc (malformed_log_count st)\<rparr>"

definition add_assets :: "pydict list \<Rightarrow> int \<Rightarrow> bool \<Rightarrow> event_state \<Rightarrow> event_state" where
  "add_assets rows count lost st =
     fold push_asset rows (st\<lparr>decoded_log_count := Suc (decoded_log_count st),
       asset_change_count := asset_change_count st + count,
       event_truncated := event_truncated st \<or> lost\<rparr>)"

definition add_approval :: "pydict \<Rightarrow> event_state \<Rightarrow> event_state" where
  "add_approval row st =
     push_approval row (st\<lparr>decoded_log_count := Suc (decoded_log_count st),
       approval_event_count := Suc (approval_event_count st)\<rparr>)"

text \<open>One iteration of the loop over the processed logs.\<close>

definition decode_log :: "raw_log \<Rightarrow> event_state \<Rightarrow> event_state py" where
  "decode_log raw st =
     (let topic0 = hd (log_topics raw);
          assets = (\<lambda>decoded. case decoded of None \<Rightarrow> malformed_log st
            | Some rows \<Rightarrow> add_assets rows 1 False st);
          approvals = (\<lambda>decoded. case decoded of None \<Rightarrow> malformed_log st
            | Some row \<Rightarrow> add_approval row st)
      in if topic0 = TRANSFER_TOPIC then rbind (decode_transfer raw) (\<lambda>d. Inr (assets d))
         else if topic0 = APPROVAL_TOPIC then rbind (decode_approval raw) (\<lambda>d. Inr (approvals d))
         else if topic0 = APPROVAL_FOR_ALL_TOPIC
         then rbind (decode_approval_for_all raw) (\<lambda>d. Inr (approvals d))
         else if topic0 = ERC1155_TRANSFER_SINGLE_TOPIC
         then rbind (decode_erc1155_single raw) (\<lambda>d. Inr (assets d))
         else if topic0 = ERC1155_TRANSFER_BATCH_TOPIC
         then rbind (decode_erc1155_batch raw) (\<lambda>d. Inr (case d of
             None \<Rightarrow> malformed_log st
           | Some (rows, count, lost) \<Rightarrow> add_assets rows count lost st))
         else Inr (st\<lparr>unknown_log_count := Suc (unknown_log_count st)\<rparr>))"

definition event_step :: "pyval \<Rightarrow> event_state \<Rightarrow> event_state py" where
  "event_step row st =
     rbind (raw_log_of row) (\<lambda>raw.
       case raw of None \<Rightarrow> Inr (malformed_log st) | Some r \<Rightarrow> decode_log r st)"

fun event_loop :: "pyval list \<Rightarrow> event_state \<Rightarrow> event_state py" where
  "event_loop [] st = Inr st"
| "event_loop (row # rows) st = rbind (event_step row st) (event_loop rows)"

record event_report =
  event_status :: string
  input_log_count :: "nat option"
  processed_log_count :: nat
  omitted_log_count :: nat
  event_counts :: event_state

definition event_start :: "bool \<Rightarrow> event_state" where
  "event_start lost = \<lparr>asset_changes = [], approval_events = [], decoded_log_count = 0,
     asset_change_count = 0, approval_event_count = 0, unknown_log_count = 0,
     malformed_log_count = 0, event_truncated = lost\<rparr>"

text \<open>The keys \<open>source\<close> and \<open>outcome\<close> of the report are the arguments, copied.\<close>

definition normalize_standard_event_logs :: "pyval \<Rightarrow> event_report py" where
  "normalize_standard_event_logs logs =
     (case logs of
        VList rows \<Rightarrow>
          (let processed = take MAX_INPUT_LOGS rows;
               omitted = length rows - length processed
           in rbind (event_loop processed (event_start (0 < omitted))) (\<lambda>st.
                Inr \<lparr>event_status = ''NORMALIZED_STANDARD_EVENT_LOGS'',
                  input_log_count = Some (length rows), processed_log_count = length processed,
                  omitted_log_count = omitted, event_counts = st\<rparr>))
      | _ \<Rightarrow> Inr \<lparr>event_status = ''EVENT_LOGS_UNAVAILABLE'', input_log_count = None,
          processed_log_count = 0, omitted_log_count = 0, event_counts = event_start False\<rparr>)"

section \<open>The interface of a capped output list\<close>

locale capped_buffer =
  fixes rows :: "'s \<Rightarrow> 'a list" and lost :: "'s \<Rightarrow> bool" and push :: "'a \<Rightarrow> 's \<Rightarrow> 's"
    and cap :: nat
  assumes push_room: "length (rows st) < cap \<Longrightarrow>
      rows (push x st) = rows st @ [x] \<and> lost (push x st) = lost st"
    and push_full: "cap \<le> length (rows st) \<Longrightarrow> rows (push x st) = rows st \<and> lost (push x st)"
begin

lemma push_bound: "length (rows st) \<le> cap \<Longrightarrow> length (rows (push x st)) \<le> cap"
  using push_room push_full by (cases "length (rows st) < cap") auto

text \<open>Pushing a list keeps the rows that fit and marks the state exactly when one did not.\<close>

lemma fold_push:
  assumes "length (rows st) \<le> cap"
  shows "rows (fold push xs st) = take cap (rows st @ xs) \<and>
    (lost (fold push xs st) \<longleftrightarrow> lost st \<or> cap < length (rows st) + length xs)"
  using assms
proof (induction xs arbitrary: st)
  case (Cons x xs)
  show ?case
  proof (cases "length (rows st) < cap")
    case True
    with push_room [OF True, of x] Cons.IH [of "push x st"] show ?thesis by simp
  next
    case False
    with Cons.prems have full: "length (rows st) = cap" by simp
    with push_full [of st x] Cons.IH [of "push x st"] show ?thesis by simp
  qed
qed simp

lemma fold_bound: "length (rows st) \<le> cap \<Longrightarrow> length (rows (fold push xs st)) \<le> cap"
  by (simp add: fold_push)

end

interpretation assets: capped_buffer asset_changes event_truncated push_asset MAX_EFFECT_ROWS
  by unfold_locales (simp_all add: push_asset_def)

interpretation approvals: capped_buffer approval_events event_truncated push_approval MAX_EFFECT_ROWS
  by unfold_locales (simp_all add: push_approval_def)

section \<open>The invariant of the loop\<close>

lemma push_asset_frame [simp]:
  "approval_events (fold push_asset xs st) = approval_events st"
  "decoded_log_count (fold push_asset xs st) = decoded_log_count st"
  "asset_change_count (fold push_asset xs st) = asset_change_count st"
  "approval_event_count (fold push_asset xs st) = approval_event_count st"
  "unknown_log_count (fold push_asset xs st) = unknown_log_count st"
  "malformed_log_count (fold push_asset xs st) = malformed_log_count st"
  by (induction xs arbitrary: st) (simp_all add: push_asset_def)

lemma push_approval_frame [simp]:
  "asset_changes (push_approval x st) = asset_changes st"
  "decoded_log_count (push_approval x st) = decoded_log_count st"
  "asset_change_count (push_approval x st) = asset_change_count st"
  "approval_event_count (push_approval x st) = approval_event_count st"
  "unknown_log_count (push_approval x st) = unknown_log_count st"
  "malformed_log_count (push_approval x st) = malformed_log_count st"
  by (simp_all add: push_approval_def)

text \<open>
  After \<open>n\<close> logs: every log is counted once, the lists respect the row limit and the
  counts, and an untruncated state has lost nothing.
\<close>

definition event_inv :: "nat \<Rightarrow> event_state \<Rightarrow> bool" where
  "event_inv n st =
     (decoded_log_count st + unknown_log_count st + malformed_log_count st = n \<and>
      length (asset_changes st) \<le> MAX_EFFECT_ROWS \<and>
      length (approval_events st) \<le> MAX_EFFECT_ROWS \<and>
      int (length (asset_changes st)) \<le> asset_change_count st \<and>
      length (approval_events st) \<le> approval_event_count st \<and>
      (\<not> event_truncated st \<longrightarrow> int (length (asset_changes st)) = asset_change_count st \<and>
         length (approval_events st) = approval_event_count st))"

lemma malformed_inv: "event_inv n st \<Longrightarrow> event_inv (Suc n) (malformed_log st)"
  by (auto simp: event_inv_def malformed_log_def)

lemma unknown_inv:
  "event_inv n st \<Longrightarrow> event_inv (Suc n) (st\<lparr>unknown_log_count := Suc (unknown_log_count st)\<rparr>)"
  by (auto simp: event_inv_def)

lemma add_assets_inv:
  assumes "event_inv n st" and "int (length rs) \<le> count" and "\<not> b \<Longrightarrow> int (length rs) = count"
  shows "event_inv (Suc n) (add_assets rs count b st)"
proof -
  let ?st = "st\<lparr>decoded_log_count := Suc (decoded_log_count st),
       asset_change_count := asset_change_count st + count, event_truncated := event_truncated st \<or> b\<rparr>"
  have "length (asset_changes ?st) \<le> MAX_EFFECT_ROWS" using assms(1) by (simp add: event_inv_def)
  from assets.fold_push [OF this, of rs] assms show ?thesis
    by (auto simp: event_inv_def add_assets_def)
qed

lemma add_approval_inv:
  assumes "event_inv n st"
  shows "event_inv (Suc n) (add_approval r st)"
proof -
  let ?st = "st\<lparr>decoded_log_count := Suc (decoded_log_count st),
       approval_event_count := Suc (approval_event_count st)\<rparr>"
  show ?thesis
    using assms approvals.push_room [of ?st r] approvals.push_full [of ?st r]
    by (cases "length (approval_events st) < MAX_EFFECT_ROWS") (auto simp: event_inv_def add_approval_def)
qed

lemma single_rows:
  "decode_transfer raw = Inr (Some rs) \<Longrightarrow> length rs = 1"
  "decode_erc1155_single raw = Inr (Some rs) \<Longrightarrow> length rs = 1"
  by (auto simp: decode_transfer_def decode_erc1155_single_def elim!: rbindE
      split: list.split_asm option.split_asm if_split_asm)

lemma uint_array_length:
  "decode_uint_array d off = Inr (Some (vs, n)) \<Longrightarrow>
   length vs = nat (min n 100) \<and> off + 32 \<le> int (length (drop 2 d)) div 2"
  by (auto simp: decode_uint_array_def Let_def rbind_eq_Inr MAX_BATCH_ITEMS_def
      dest!: map_res_length split: if_splits)

lemma batch_arrays_layout:
  "batch_arrays d a b = Inr (Some (ids, amounts, n)) \<Longrightarrow>
   decode_uint_array d a = Inr (Some (ids, n)) \<and> decode_uint_array d b = Inr (Some (amounts, n)) \<and>
   a = 64 \<and> b = a + 32 + n * 32 \<and> b + 32 + n * 32 = int (length (drop 2 d)) div 2"
  by (auto simp: batch_arrays_def elim!: rbindE split: if_split_asm option.split_asm)

lemma batch_arrays_length:
  assumes "batch_arrays d a b = Inr (Some (ids, amounts, n))"
  shows "length ids = nat (min n 100) \<and> length amounts = nat (min n 100) \<and>
   a = 64 \<and> b = 96 + 32 * n \<and> int (length (drop 2 d)) div 2 = 128 + 64 * n \<and> 0 \<le> n"
proof -
  note layout = batch_arrays_layout [OF assms]
  then have 1: "decode_uint_array d a = Inr (Some (ids, n))"
    and 2: "decode_uint_array d b = Inr (Some (amounts, n))" by blast+
  define m where "m = int (length (drop 2 d)) div 2"
  have "a = 64" "b = a + 32 + n * 32" "b + 32 + n * 32 = m" "a + 32 \<le> m"
    using layout uint_array_length [OF 1] unfolding m_def by blast+
  with uint_array_length [OF 1] uint_array_length [OF 2] show ?thesis
    unfolding m_def [symmetric] by (intro conjI) (simp_all only:, linarith+)
qed

lemma batch_rows:
  assumes "decode_erc1155_batch raw = Inr (Some (rs, n, b))"
  shows "length rs = nat (min n 100) \<and> b = (int (length rs) < n) \<and> 0 \<le> n"
proof -
  from assms obtain w0 w1 ids amounts where
    arrays: "batch_arrays (log_data raw) w0 w1 = Inr (Some (ids, amounts, n))"
    and "length rs = length (zip ids amounts)" "b = (int (length rs) < n)"
    by (auto simp: decode_erc1155_batch_def Let_def elim!: rbindE
        split: list.split_asm option.split_asm)
  with batch_arrays_length [OF arrays] show ?thesis by auto
qed

lemma decode_log_inv:
  assumes "decode_log raw st = Inr st'" and "event_inv n st"
  shows "event_inv (Suc n) st'"
proof -
  have "event_inv (Suc n) (add_assets rs 1 False st)" if "length rs = 1" for rs
    using that by (intro add_assets_inv [OF assms(2)]) simp_all
  moreover have "event_inv (Suc n) (add_assets rs m b st)"
    if "decode_erc1155_batch raw = Inr (Some (rs, m, b))" for rs m b
    using batch_rows [OF that] by (intro add_assets_inv [OF assms(2)]) auto
  moreover note malformed_inv [OF assms(2)] unknown_inv [OF assms(2)] add_approval_inv [OF assms(2)]
  ultimately show ?thesis
    using assms(1) single_rows
    by (auto simp: decode_log_def Let_def elim!: rbindE split: if_split_asm option.split_asm)
qed

lemma event_step_inv: "event_step row st = Inr st' \<Longrightarrow> event_inv n st \<Longrightarrow> event_inv (Suc n) st'"
  by (auto simp: event_step_def rbind_eq_Inr split: option.splits dest: malformed_inv decode_log_inv)

lemma event_loop_inv:
  "event_loop rows st = Inr st' \<Longrightarrow> event_inv n st \<Longrightarrow> event_inv (n + length rows) st'"
proof (induction rows arbitrary: st n)
  case (Cons row rows)
  then show ?case
    using event_step_inv [of row st _ n] by (auto simp: rbind_eq_Inr) (metis add_Suc)
qed simp

lemma event_truncated_mono:
  "event_loop rows st = Inr st' \<Longrightarrow> event_truncated st \<Longrightarrow> event_truncated st'"
proof (induction rows arbitrary: st)
  case (Cons row rows)
  have push: "event_truncated s \<Longrightarrow> event_truncated (fold push_asset xs s)" for xs s
    by (induction xs arbitrary: s) (simp_all add: push_asset_def)
  have "event_truncated st'" if "event_step row st = Inr st'" for st'
    using that Cons.prems(2)
    by (auto simp: event_step_def decode_log_def Let_def malformed_log_def push
        add_assets_def add_approval_def push_approval_def elim!: rbindE
        split: option.split_asm if_split_asm)
  with Cons show ?case by (auto simp: rbind_eq_Inr)
qed simp

section \<open>Canonical logs\<close>

definition event_word :: "nat \<Rightarrow> string" where
  "event_word n = ''0x'' @ hexw 64 n"

lemma hex_field_canonical:
  assumes "is_hex s" and "py_lower s = s" and "even (length s)"
    and "k = None \<or> k = Some (length s)"
  shows "hex_field k (VStr (''0x'' @ s)) = Some (''0x'' @ s)"
proof -
  have "py_int 16 (if s = [] then ''0'' else s) \<noteq> None"
    using py_int_hex [OF assms(1)] by simp
  then show ?thesis using assms by (auto simp: hex_field_def starts_with_def even_iff_mod_2_eq_zero)
qed

lemma event_topic_word [simp]: "event_topic (VStr (event_word n)) = Some (event_word n)"
  unfolding event_topic_def event_word_def
  by (rule hex_field_canonical) (simp_all del: hexw_zero)

lemma topic_address_word:
  assumes "a < 2 ^ 160"
  shows "topic_address (event_word a) = Some (address_text a)"
proof -
  have split: "hexw 64 a = hexw 24 (a div 16 ^ 40) @ hexw 40 a"
    using hexw_add [of 24 40 a] by simp
  have "a div 16 ^ 40 = 0" using assms by simp
  then have "hexw 64 a = replicate 24 (CHR ''0'') @ hexw 40 a"
    by (simp add: split)
  then have "drop 2 (event_word a) = replicate 24 (CHR ''0'') @ hexw 40 a"
    by (simp add: event_word_def)
  then show ?thesis
    unfolding topic_address_def event_topic_word by (simp add: address_text_def)
qed

lemma topic_uint_word:
  assumes "n < 2 ^ 256"
  shows "topic_uint (event_word n) = Inr (Some (int n))"
proof -
  have "py_int 16 (event_word n) = Some (int n)"
    unfolding event_word_def using py_int_prefixed [of "hexw 64 n"] assms by (simp del: hexw_zero)
  then show ?thesis by (simp add: topic_uint_def hex_int_def)
qed

lemma words_shape:
  "list_all (\<lambda>n. n < 2 ^ 256) ns \<Longrightarrow> length (concat (map (hexw 64) ns)) = 64 * length ns"
  "is_hex (concat (map (hexw 64) ns))" "py_lower (concat (map (hexw 64) ns)) = concat (map (hexw 64) ns)"
  by (induction ns) (auto simp del: hexw_zero)

lemma chunks_words: "chunks64 (concat (map (hexw 64) ns)) = map (hexw 64) ns"
proof -
  have len: "length (concat (map (hexw 64) ns)) = 64 * length ns" for ns
    by (induction ns) auto
  have "take 64 (drop (i * 64) (concat (map (hexw 64) ns))) = hexw 64 (ns ! i)" if "i < length ns" for i
    using that
  proof (induction ns arbitrary: i)
    case (Cons n ns)
    then show ?case by (cases i) (simp_all del: hexw_zero add: add.commute)
  qed simp
  then show ?thesis by (intro nth_equalityI) (simp_all add: chunks64_def len)
qed

lemma data_words_canonical:
  assumes "list_all (\<lambda>n. n < 2 ^ 256) ns"
  shows "data_words (''0x'' @ concat (map (hexw 64) ns)) = Inr (Some (map int ns))"
proof -
  let ?s = "concat (map (hexw 64) ns)"
  have field: "hex_field None (VStr (''0x'' @ ?s)) = Some (''0x'' @ ?s)"
    using words_shape [of ns] assms by (intro hex_field_canonical) simp_all
  have ints: "map_res hex_int (map (hexw 64) ns) = Inr (map int ns)"
    using assms by (induction ns) (simp_all add: hex_int_def del: hexw_zero)
  have "data_words (''0x'' @ ?s) =
      (if length ?s mod 64 \<noteq> 0 then Inr None
       else rbind (map_res hex_int (chunks64 ?s)) (\<lambda>ws. Inr (Some ws)))"
    unfolding data_words_def field by (simp add: Let_def)
  then show ?thesis using words_shape(1) [OF assms] by (simp add: chunks_words ints)
qed

lemma uint_array_canonical:
  assumes "list_all (\<lambda>n. n < 2 ^ 256) ns" and "length ns \<le> 4096"
    and "length pre = 2 * off" and "off mod 32 = 0"
  shows "decode_uint_array (''0x'' @ pre @ hexw 64 (length ns) @ concat (map (hexw 64) ns) @ post) (int off) =
    Inr (Some (map int (take 100 ns), int (length ns)))"
proof -
  let ?raw = "pre @ hexw 64 (length ns) @ concat (map (hexw 64) ns) @ post"
  have total: "length ?raw = 2 * off + 64 + 64 * length ns + length post"
    using assms(3) words_shape(1) [OF assms(1)] by simp
  have count: "hex_int (py_slice ?raw (int off * 2) (int off * 2 + 64)) = Inr (int (length ns))"
  proof -
    have "py_slice ?raw (int off * 2) (int off * 2 + 64) = hexw 64 (length ns)"
      using py_slice_nat [of ?raw "2 * off" "2 * off + 64"] assms(3) by (simp add: mult.commute)
    moreover have "length ns < 16 ^ 64" using assms(2) by simp
    ultimately show ?thesis by (simp add: hex_int_def del: hexw_zero)
  qed
  have item: "hex_int (py_slice ?raw (int off * 2 + 64 + int i * 64) (int off * 2 + 64 + int i * 64 + 64)) =
      Inr (int (ns ! i))" if "i < length ns" for i
  proof -
    have ns: "ns = take i ns @ ns ! i # drop (Suc i) ns" using that by (simp add: id_take_nth_drop)
    have raw: "?raw = (pre @ hexw 64 (length ns) @ concat (map (hexw 64) (take i ns))) @ hexw 64 (ns ! i) @
        (concat (map (hexw 64) (drop (Suc i) ns)) @ post)"
      by (subst (2) ns) simp
    have len: "length (pre @ hexw 64 (length ns) @ concat (map (hexw 64) (take i ns))) = 2 * off + 64 + i * 64"
    proof -
      have "length (concat (map (hexw 64) (take i ns))) = 64 * i"
        using words_shape(1) [of "take i ns"] assms(1) that by (auto simp: list_all_iff dest: in_set_takeD)
      with assms(3) show ?thesis by simp
    qed
    have "py_slice ?raw (int (2 * off + 64 + i * 64)) (int (2 * off + 64 + i * 64 + 64)) = hexw 64 (ns ! i)"
      unfolding py_slice_nat raw using len by simp
    moreover have "ns ! i < 16 ^ 64" using assms(1) that by (simp add: list_all_length)
    ultimately show ?thesis by (simp add: hex_int_def mult.commute del: hexw_zero)
  qed
  have n: "nat (min (int (length ns)) (int MAX_BATCH_ITEMS)) = min (length ns) 100"
    by (simp add: MAX_BATCH_ITEMS_def)
  have loop: "map_res (\<lambda>i. let word_start = int off * 2 + 64 + int i * 64
        in hex_int (py_slice ?raw word_start (word_start + 64))) [0..<min (length ns) 100] =
      Inr (map int (take 100 ns))"
    (is "map_res ?f _ = _")
  proof -
    have "map_res ?f [0..<min (length ns) 100] = Inr (map (\<lambda>i. int (ns ! i)) [0..<min (length ns) 100])"
      unfolding Let_def by (intro map_res_Inr item) simp
    moreover have "map (\<lambda>i. int (ns ! i)) [0..<min (length ns) 100] = map int (take 100 ns)"
      by (intro nth_equalityI) simp_all
    ultimately show ?thesis by simp
  qed
  have fits: "int off + 32 + int (length ns) * 32 \<le> int (length ?raw) div 2"
    unfolding total by simp
  have "(int off < 0 \<or> int off mod 32 \<noteq> 0 \<or> int (length ?raw) div 2 < int off + 32) = False"
    using fits assms(4) by (simp del: length_append, presburger)
  moreover have "(int (length ?raw) div 2 < int off + 32 + int (length ns) * 32) = False"
    using fits by simp
  moreover have "drop 2 (''0x'' @ ?raw) = ?raw" by simp
  ultimately show ?thesis
    unfolding decode_uint_array_def Let_def by (simp only: if_False count rbind_simps n loop [unfolded Let_def])
qed


section \<open>Properties\<close>

text \<open>
  C24: whatever the logs are, a normalised report counts every processed log exactly once as
  decoded, unknown or malformed, keeps at most 1000 logs and 200 rows per list, and when it is
  not marked as truncated it has omitted no log and no effect.
\<close>

theorem event_report_consistent:
  assumes "normalize_standard_event_logs (VList rows) = Inr r"
  shows "let st = event_counts r in
    decoded_log_count st + unknown_log_count st + malformed_log_count st = processed_log_count r \<and>
    processed_log_count r + omitted_log_count r = length rows \<and> processed_log_count r \<le> 1000 \<and>
    length (asset_changes st) \<le> 200 \<and> length (approval_events st) \<le> 200 \<and>
    (event_truncated st \<or> omitted_log_count r = 0 \<and>
       int (length (asset_changes st)) = asset_change_count st \<and>
       length (approval_events st) = approval_event_count st)"
proof -
  let ?lost = "0 < length rows - length (take MAX_INPUT_LOGS rows)"
  from assms have loop: "event_loop (take MAX_INPUT_LOGS rows) (event_start ?lost) = Inr (event_counts r)"
    and r: "processed_log_count r = length (take MAX_INPUT_LOGS rows)"
      "omitted_log_count r = length rows - length (take MAX_INPUT_LOGS rows)"
    by (auto simp: normalize_standard_event_logs_def Let_def elim!: rbindE)
  have "event_inv 0 (event_start ?lost)" by (simp add: event_inv_def event_start_def)
  from event_loop_inv [OF loop this] have inv: "event_inv (processed_log_count r) (event_counts r)"
    by (simp add: r)
  have "event_truncated (event_counts r)" if "omitted_log_count r \<noteq> 0"
    using event_truncated_mono [OF loop] that by (simp add: event_start_def r)
  with inv r show ?thesis
    by (auto simp: event_inv_def MAX_EFFECT_ROWS_def MAX_INPUT_LOGS_def Let_def)
qed

theorem event_report_consistent_witness:
  "\<exists>r. normalize_standard_event_logs (VList [VNone]) = Inr r \<and>
     malformed_log_count (event_counts r) = processed_log_count r \<and> processed_log_count r = 1"
proof -
  obtain r where r: "normalize_standard_event_logs (VList [VNone]) = Inr r"
    "malformed_log_count (event_counts r) = 1"
    by (auto simp: normalize_standard_event_logs_def event_step_def raw_log_of_def malformed_log_def
        event_start_def MAX_INPUT_LOGS_def)
  moreover have "processed_log_count r = 1"
    using r(1) by (auto simp: normalize_standard_event_logs_def event_step_def raw_log_of_def
        MAX_INPUT_LOGS_def)
  ultimately show ?thesis using event_report_consistent [OF r(1)] by auto
qed

definition transfer_log :: "nat \<Rightarrow> nat \<Rightarrow> nat \<Rightarrow> nat \<Rightarrow> pyval" where
  "transfer_log contract a b n = VDict [(''address'', VStr (address_text contract)),
     (''topics'', VList [VStr TRANSFER_TOPIC, VStr (event_word a), VStr (event_word b)]),
     (''data'', VStr (event_word n))]"

lemma event_address_text: "event_address (VStr (address_text a)) = Some (address_text a)"
  unfolding event_address_def address_text_def
  by (rule hex_field_canonical) (simp_all del: hexw_zero)

lemma transfer_topic: "event_topic (VStr TRANSFER_TOPIC) = Some TRANSFER_TOPIC"
  by (simp add: event_topic_def hex_field_def TRANSFER_TOPIC_def text_eval code_def)

lemma raw_transfer_log:
  "raw_log_of (transfer_log c a b n) =
     Inr (Some \<lparr>log_address = address_text c,
       log_topics = [TRANSFER_TOPIC, event_word a, event_word b],
       log_data = event_word n, log_index = None\<rparr>)"
proof -
  have data: "hex_field None (VStr (event_word n)) = Some (event_word n)"
    unfolding event_word_def by (rule hex_field_canonical) (simp_all del: hexw_zero)
  have "address_text c \<noteq> []" by (simp add: address_text_def)
  then show ?thesis
    by (simp add: transfer_log_def raw_log_of_def log_dict_def event_address_text transfer_topic data
        log_index_of_def)
qed

text \<open>
  A log of a standard token transfer is decoded to exactly its contract, the two addresses
  and the amount, and it is a mint or a burn exactly when one address is the zero address.
\<close>

theorem transfer_event_roundtrip:
  assumes "a < 2 ^ 160" and "b < 2 ^ 160" and "n < 2 ^ 256"
  shows "map_sum id (\<lambda>r. (asset_changes (event_counts r), asset_change_count (event_counts r)))
      (normalize_standard_event_logs (VList [transfer_log c a b n])) =
    Inr ([[(''standard'', VStr ''ERC20''), (''event'', VStr ''Transfer''),
       (''contract'', VStr (address_text c)), (''log_index'', VNone),
       (''kind'', VStr (movement_kind (address_text a) (address_text b))),
       (''from'', VStr (address_text a)), (''to'', VStr (address_text b)),
       (''amount_raw'', VStr (int_text (int n)))]], 1)"
proof -
  have words: "data_words (event_word n) = Inr (Some [int n])"
    using data_words_canonical [of "[n]"] assms(3) by (simp add: event_word_def)
  note ends = topic_address_word [OF assms(1)] topic_address_word [OF assms(2)]
  show ?thesis
    by (simp add: normalize_standard_event_logs_def event_step_def raw_transfer_log decode_log_def
        decode_transfer_def words ends base_effect_def index_value_def
        add_assets_def push_asset_def event_start_def MAX_EFFECT_ROWS_def MAX_INPUT_LOGS_def)
qed

theorem transfer_event_roundtrip_witness:
  "map_sum id (\<lambda>r. (asset_changes (event_counts r), asset_change_count (event_counts r)))
      (normalize_standard_event_logs (VList [transfer_log 7 1 2 5])) =
    Inr ([[(''standard'', VStr ''ERC20''), (''event'', VStr ''Transfer''),
       (''contract'', VStr (address_text 7)), (''log_index'', VNone),
       (''kind'', VStr (movement_kind (address_text 1) (address_text 2))),
       (''from'', VStr (address_text 1)), (''to'', VStr (address_text 2)),
       (''amount_raw'', VStr (int_text 5))]], 1)"
  using transfer_event_roundtrip [of 1 2 5 7] by simp

definition batch_data :: "nat list \<Rightarrow> nat list \<Rightarrow> string" where
  "batch_data ids amounts = ''0x'' @ hexw 64 64 @ hexw 64 (96 + 32 * length ids) @
     hexw 64 (length ids) @ concat (map (hexw 64) ids) @
     hexw 64 (length amounts) @ concat (map (hexw 64) amounts)"

lemma batch_arrays_canonical:
  assumes "list_all (\<lambda>n. n < 2 ^ 256) ids" and "list_all (\<lambda>n. n < 2 ^ 256) amounts"
    and "length ids \<le> 4096" and "length amounts = length ids"
  shows "batch_arrays (batch_data ids amounts) 64 (96 + 32 * int (length ids)) =
    Inr (Some (map int (take 100 ids), map int (take 100 amounts), int (length ids)))"
proof -
  let ?head = "hexw 64 64 @ hexw 64 (96 + 32 * length ids)"
  let ?mid = "hexw 64 (length ids) @ concat (map (hexw 64) ids)"
  let ?last = "hexw 64 (length amounts) @ concat (map (hexw 64) amounts)"
  note len = words_shape(1) [OF assms(1)] words_shape(1) [OF assms(2)]
  have 1: "decode_uint_array (batch_data ids amounts) 64 =
      Inr (Some (map int (take 100 ids), int (length ids)))"
    using uint_array_canonical [OF assms(1,3), of ?head 64 ?last] by (simp add: batch_data_def)
  have "decode_uint_array (''0x'' @ (?head @ ?mid) @ hexw 64 (length amounts) @
      concat (map (hexw 64) amounts) @ []) (int (96 + 32 * length ids)) =
      Inr (Some (map int (take 100 amounts), int (length amounts)))"
    using assms(3,4) len by (intro uint_array_canonical [OF assms(2)]) simp_all
  then have 2: "decode_uint_array (batch_data ids amounts) (96 + 32 * int (length ids)) =
      Inr (Some (map int (take 100 amounts), int (length ids)))"
    by (simp add: batch_data_def assms(4))
  have "length (drop 2 (batch_data ids amounts)) = 256 + 128 * length ids"
    using len assms(4) by (simp add: batch_data_def)
  then have total: "int (length (drop 2 (batch_data ids amounts))) div 2 = 128 + 64 * int (length ids)"
    by simp
  show ?thesis
    unfolding batch_arrays_def 1 rbind_simps option.case prod.case total
    by (simp add: 2 flip: mult.commute [of 32])
qed

text \<open>
  C30: a canonical multi-token batch transfer of up to 4096 items is decoded to its items in
  order, pairing each id with its amount; the first 100 are reported, the declared size is the
  true one, and the batch is marked as cut exactly when it has more.
\<close>

theorem batch_transfer_roundtrip:
  assumes "list_all (\<lambda>n. n < 2 ^ 256) ids" and "list_all (\<lambda>n. n < 2 ^ 256) amounts"
    and "length ids \<le> 4096" and "length amounts = length ids"
    and "op < 2 ^ 160" and "a < 2 ^ 160" and "b < 2 ^ 160"
    and "log_topics raw = [t0, event_word op, event_word a, event_word b]"
    and "log_data raw = batch_data ids amounts"
  shows "decode_erc1155_batch raw = Inr (Some
      (map (batch_effect raw (address_text op) (address_text a) (address_text b) (int (length ids)))
        (enumerate 0 (zip (map int (take 100 ids)) (map int (take 100 amounts)))),
       int (length ids), 100 < length ids))"
proof -
  let ?words = "64 # (96 + 32 * length ids) # length ids # ids @ length amounts # amounts"
  have "96 + 32 * length ids < 2 ^ 256 \<and> length amounts < 2 ^ 256" using assms(3,4) by simp
  then have "list_all (\<lambda>n. n < 2 ^ 256) ?words" using assms(1,2,3) by simp
  from data_words_canonical [OF this] have words:
    "data_words (batch_data ids amounts) = Inr (Some (map int ?words))"
    by (simp add: batch_data_def del: append_Cons)
  have out: "int (length (zip (map int (take 100 ids)) (map int (take 100 amounts)))) < int (length ids)
      \<longleftrightarrow> 100 < length ids"
    using assms(4) by auto
  note ends = topic_address_word [OF assms(5)] topic_address_word [OF assms(6)]
    topic_address_word [OF assms(7)]
  have first: "map int ?words = 64 # (96 + 32 * int (length ids)) #
      map int (length ids # ids @ length amounts # amounts)" by simp
  show ?thesis
    unfolding decode_erc1155_batch_def assms(8,9) words first rbind_simps list.case option.case
      prod.case ends batch_arrays_canonical [OF assms(1-4)]
    using out by (simp add: Let_def)
qed

theorem batch_transfer_roundtrip_witness:
  "let raw = \<lparr>log_address = address_text 9, log_topics = [ERC1155_TRANSFER_BATCH_TOPIC, event_word 1,
       event_word 2, event_word 3], log_data = batch_data [11] [22], log_index = None\<rparr>
   in decode_erc1155_batch raw = Inr (Some
      ([batch_effect raw (address_text 1) (address_text 2) (address_text 3) 1 (0, 11, 22)], 1, False))"
  using batch_transfer_roundtrip [of "[11]" "[22]" 1 2 3 "\<lparr>log_address = address_text 9,
      log_topics = [ERC1155_TRANSFER_BATCH_TOPIC, event_word 1, event_word 2, event_word 3],
      log_data = batch_data [11] [22], log_index = None\<rparr>" ERC1155_TRANSFER_BATCH_TOPIC]
  by (simp add: Let_def)

text \<open>
  A batch is only accepted in the canonical layout. The two offsets, the two counts and the
  size of the data are those of two adjacent arrays of the same length, so overlapping or aliased
  arrays are never reported as token movements.
\<close>

theorem batch_layout_canonical:
  assumes "decode_erc1155_batch raw = Inr (Some (rows, n, lost))"
  shows "0 \<le> n \<and> length rows = nat (min n 100) \<and> lost = (int (length rows) < n) \<and>
    length (log_topics raw) = 4 \<and>
    (\<exists>ws. data_words (log_data raw) = Inr (Some (64 # (96 + 32 * n) # ws))) \<and>
    int (length (drop 2 (log_data raw))) div 2 = 128 + 64 * n"
proof -
  from assms obtain w0 w1 ws ids amounts where
    "batch_arrays (log_data raw) w0 w1 = Inr (Some (ids, amounts, n))"
    "data_words (log_data raw) = Inr (Some (w0 # w1 # ws))" "length (log_topics raw) = 4"
    by (auto simp: decode_erc1155_batch_def Let_def elim!: rbindE
        split: list.split_asm option.split_asm)
  with batch_rows [OF assms] batch_arrays_length show ?thesis by blast
qed

theorem batch_layout_canonical_witness:
  "let raw = \<lparr>log_address = address_text 9, log_topics = [ERC1155_TRANSFER_BATCH_TOPIC, event_word 1,
       event_word 2, event_word 3], log_data = batch_data [] [], log_index = None\<rparr>
   in decode_erc1155_batch raw = Inr (Some ([], 0, False)) \<and>
      int (length (drop 2 (log_data raw))) div 2 = 128"
proof -
  let ?raw = "\<lparr>log_address = address_text 9, log_topics = [ERC1155_TRANSFER_BATCH_TOPIC, event_word 1,
       event_word 2, event_word 3], log_data = batch_data [] [], log_index = None\<rparr>"
  have "data_words (batch_data [] []) = Inr (Some [64, 96, 0, 0])"
    using data_words_canonical [of "[64, 96, 0, 0]"] by (simp add: batch_data_def del: hexw_zero)
  then have "decode_erc1155_batch ?raw = Inr (Some ([], 0, False))"
    using batch_arrays_canonical [of "[]" "[]"]
    by (simp add: decode_erc1155_batch_def topic_address_word)
  from this batch_layout_canonical [OF this] show ?thesis unfolding Let_def by simp
qed

definition underscore_data :: string where
  "underscore_data =
     ''0x0000000000000000000000000000000000000000000000000000000000000000_000000000000000000000000000000000000000000000000000000000000000''"

lemma underscore_words:
  "hex_field None (VStr underscore_data) = Some underscore_data"
  "data_words underscore_data = Inl ValueError"
proof -
  have parse: "py_int 16 (drop 2 underscore_data) = Some 0"
    by (simp add: underscore_data_def text_eval code_def)
  have lower: "py_lower (drop 2 underscore_data) = drop 2 underscore_data"
    by (simp add: underscore_data_def text_eval code_def)
  show field: "hex_field None (VStr underscore_data) = Some underscore_data"
    using parse lower by (simp add: hex_field_def) (simp add: underscore_data_def starts_with_def)
  have chunks: "chunks64 (drop 2 underscore_data) =
      [replicate 64 (CHR ''0''), CHR ''_'' # replicate 63 (CHR ''0'')]"
  proof -
    have "drop 2 underscore_data = replicate 64 (CHR ''0'') @ CHR ''_'' # replicate 63 (CHR ''0'')"
      by (simp add: underscore_data_def numeral_eq_Suc)
    then show ?thesis by (simp add: chunks64_def upt_conv_Cons)
  qed
  have "py_int 16 (CHR ''_'' # t) = None" for t
    by (simp add: py_int_def norm_int_text_def c_space_def py_space_def code_def skip_prefix_def
        starts_with_def)
  then have "map_res hex_int (chunks64 (drop 2 underscore_data)) = Inl ValueError"
    unfolding chunks by (cases "hex_int (replicate 64 (CHR ''0''))")
      (auto simp: hex_int_def split: option.splits)
  moreover have "length (drop 2 underscore_data) mod 64 = 0"
    by (simp add: underscore_data_def)
  ultimately show "data_words underscore_data = Inl ValueError"
    by (simp add: data_words_def field Let_def)
qed

definition underscore_log :: pyval where
  "underscore_log = VDict [(''address'', VStr (address_text 1)),
     (''topics'', VList [VStr TRANSFER_TOPIC, VStr (event_word 2), VStr (event_word 3)]),
     (''data'', VStr underscore_data)]"

lemma underscore_step: "event_step underscore_log st = Inl ValueError"
proof -
  have "address_text 1 \<noteq> []" by (simp add: address_text_def)
  then have "raw_log_of underscore_log = Inr (Some \<lparr>log_address = address_text 1,
      log_topics = [TRANSFER_TOPIC, event_word 2, event_word 3],
      log_data = underscore_data, log_index = None\<rparr>)"
    by (simp add: underscore_log_def raw_log_of_def log_dict_def event_address_text transfer_topic
        underscore_words(1) log_index_of_def)
  then show ?thesis
    by (simp add: event_step_def decode_log_def decode_transfer_def underscore_words(2))
qed

lemma event_loop_append: "event_loop (xs @ ys) st = rbind (event_loop xs st) (event_loop ys)"
  by (induction xs arbitrary: st) (auto simp: rbind_def split: sum.splits)

text \<open>
  One log with an underscore at a word boundary of its data aborts the normalisation of the
  whole list: the data as a whole parses as a number, the word does not, and the error is not
  caught. Every log before it, decodable or not, is lost.
\<close>

theorem underscore_log_aborts:
  assumes "length before < 1000" and "event_loop before (event_start False) = Inr st"
  shows "normalize_standard_event_logs (VList (before @ [underscore_log])) = Inl ValueError"
proof -
  have "take MAX_INPUT_LOGS (before @ [underscore_log]) = before @ [underscore_log]"
    using assms(1) by (simp add: MAX_INPUT_LOGS_def)
  then show ?thesis
    using assms(2)
    by (simp add: normalize_standard_event_logs_def event_loop_append underscore_step)
qed

theorem underscore_log_aborts_witness:
  "normalize_standard_event_logs (VList [VNone, underscore_log]) = Inl ValueError"
  using underscore_log_aborts [of "[VNone]"] by (simp add: event_step_def raw_log_of_def)

end
