(* ===== verification/PyFloat.thy ===== *)
theory PyFloat
  imports PyText "HOL-Library.Log_Nat"
begin

text \<open>
  Binary floating point as Python uses it, on the exact rational values of finite numbers:
  \<open>rnd\<close> is rounding to the nearest double with ties to even (gradual underflow included,
  overflow outside the range of every use below), \<open>fmean\<close> the mean of the statistics
  module, \<open>round2\<close> the two-digit rounding of \<open>round(x, 2)\<close>, and
  \<open>fixed1\<close> the text of \<open>x:.1f\<close>. What the scoring code needs of rounding is
  that it does not cross an integer.
\<close>

text \<open>Rounding to an integer, ties to even.\<close>

definition round_even :: "rat \<Rightarrow> int" where
  "round_even r =
     (let f = \<lfloor>r\<rfloor>; d = r - of_int f in
      if d < 1 / 2 then f else if 1 / 2 < d then f + 1 else if even f then f else f + 1)"

text \<open>\<open>\<lfloor>log2 r\<rfloor>\<close> of a positive fraction, by the lengths of its two numbers.\<close>

definition pow2 :: "int \<Rightarrow> rat" where
  "pow2 e = (if 0 \<le> e then 2 ^ nat e else 1 / 2 ^ nat (- e))"

definition log2_floor :: "rat \<Rightarrow> int" where
  "log2_floor r =
     (let (p, q) = quotient_of r; k = bitlen p - bitlen q
      in if pow2 k \<le> r then k else k - 1)"

definition ulp_exp :: "rat \<Rightarrow> int" where
  "ulp_exp r = max (- 1074) (log2_floor \<bar>r\<bar> - 52)"

definition rnd :: "rat \<Rightarrow> rat" where
  "rnd r = (if r = 0 then 0 else
     let e = ulp_exp r in of_int (round_even (r / pow2 e)) * pow2 e)"

definition fadd :: "rat \<Rightarrow> rat \<Rightarrow> rat" where
  "fadd a b = rnd (a + b)"

definition fsub :: "rat \<Rightarrow> rat \<Rightarrow> rat" where
  "fsub a b = rnd (a - b)"

definition fdiv :: "rat \<Rightarrow> rat \<Rightarrow> rat" where
  "fdiv a b = rnd (a / b)"

text \<open>\<open>statistics.fmean\<close>: the correctly rounded sum, divided by the count.\<close>

definition fmean :: "rat list \<Rightarrow> rat" where
  "fmean xs = fdiv (rnd (sum_list xs)) (of_nat (length xs))"

definition round2 :: "rat \<Rightarrow> rat" where
  "round2 r = rnd (of_int (round_even (r * 100)) / 100)"

definition fixed1 :: "rat \<Rightarrow> string" where
  "fixed1 r = (let n = round_even (\<bar>r\<bar> * 10); m = nat n in
     (if r < 0 then ''-'' else []) @ dec_text (m div 10) @ ''.'' @ dec_text (m mod 10))"

definition fixed0 :: "rat \<Rightarrow> string" where
  "fixed0 r = (if r < 0 then ''-'' else []) @ dec_text (nat (round_even \<bar>r\<bar>))"

section \<open>Rounding does not cross an integer\<close>

lemma round_even_bounds: "\<lfloor>r\<rfloor> \<le> round_even r" "round_even r \<le> \<lceil>r\<rceil>"
proof -
  show "\<lfloor>r\<rfloor> \<le> round_even r" by (simp add: round_even_def Let_def)
  have "r \<noteq> of_int \<lfloor>r\<rfloor> \<Longrightarrow> \<lceil>r\<rceil> = \<lfloor>r\<rfloor> + 1"
    by (simp add: ceiling_altdef)
  then show "round_even r \<le> \<lceil>r\<rceil>"
    by (cases "r = of_int \<lfloor>r\<rfloor>") (auto simp: round_even_def Let_def floor_le_ceiling)
qed

lemma round_even_of_int [simp]: "round_even (of_int n) = n"
  using round_even_bounds [of "of_int n"] by simp

lemma round_even_ge: "of_int n \<le> r \<Longrightarrow> n \<le> round_even r"
  using round_even_bounds(1) [of r] by (meson le_floor_iff order.trans)

lemma round_even_le: "r \<le> of_int n \<Longrightarrow> round_even r \<le> n"
  using round_even_bounds(2) [of r] by (meson ceiling_le_iff order.trans)

lemma pow2_pos [simp]: "0 < pow2 e"
  by (simp add: pow2_def)

lemma pow2_nonpos_divides: "e \<le> 0 \<Longrightarrow> of_int n / pow2 e = of_int (n * 2 ^ nat (- e))"
  by (cases "e = 0") (simp_all add: pow2_def)

lemma bitlen_upper: "0 \<le> p \<Longrightarrow> p < 2 ^ nat (bitlen p)"
proof (cases "p = 0")
  case False
  assume "0 \<le> p"
  with False have "0 < p" by simp
  then show ?thesis using bitlen_bounds [of p] by blast
qed simp

text \<open>Below \<open>2 ^ 53\<close> the unit in the last place is at most one.\<close>

lemma ulp_exp_nonpos:
  assumes "\<bar>r\<bar> < 2 ^ 53" and "r \<noteq> 0"
  shows "ulp_exp r \<le> 0"
proof -
  obtain p q where pq: "quotient_of \<bar>r\<bar> = (p, q)" by (cases "quotient_of \<bar>r\<bar>")
  have q: "0 < q" using pq by (rule quotient_of_denom_pos)
  have r: "\<bar>r\<bar> = of_int p / of_int q" using pq by (rule quotient_of_div)
  let ?k = "bitlen p - bitlen q"
  have "log2_floor \<bar>r\<bar> \<le> 52"
  proof (cases "pow2 ?k \<le> \<bar>r\<bar>")
    case True
    have "?k \<le> 52"
    proof (rule ccontr)
      assume "\<not> ?k \<le> 52"
      then have "(2 :: rat) ^ 53 \<le> 2 ^ nat ?k" by (intro power_increasing) auto
      with True assms(1) \<open>\<not> ?k \<le> 52\<close> show False by (simp add: pow2_def)
    qed
    with True pq show ?thesis by (simp add: log2_floor_def)
  next
    case False
    have "?k \<le> 53"
    proof (rule ccontr)
      assume "\<not> ?k \<le> 53"
      have "0 < p" using r assms(2) q by (metis of_int_0_less_iff zero_less_abs_iff zero_less_divide_iff
            less_asym' of_int_pos)
      then have "2 ^ (nat (bitlen p) - 1) \<le> p"
      proof -
        have "nat (bitlen p) - 1 = nat (bitlen p - 1)" by simp
        with \<open>0 < p\<close> bitlen_bounds [of p] show ?thesis by presburger
      qed
      moreover have "q < 2 ^ nat (bitlen q)" using bitlen_upper [of q] q by simp
      moreover have "nat (bitlen q) + 53 \<le> nat (bitlen p) - 1"
        using \<open>\<not> ?k \<le> 53\<close> bitlen_nonneg [of q] by linarith
      then have "(2 :: int) ^ nat (bitlen q) * 2 ^ 53 \<le> 2 ^ (nat (bitlen p) - 1)"
        unfolding power_add [symmetric] by (rule power_increasing) simp
      ultimately have "q * 2 ^ 53 \<le> p"
        by (smt (verit) mult_right_mono zero_le_power)
      then have "of_int (q * 2 ^ 53) \<le> (of_int p :: rat)" by (rule of_int_le_iff [THEN iffD2])
      then have "(2 :: rat) ^ 53 \<le> \<bar>r\<bar>" unfolding r using q by (simp add: field_simps)
      with assms(1) show False by simp
    qed
    with False pq show ?thesis by (simp add: log2_floor_def)
  qed
  then show ?thesis by (simp add: ulp_exp_def)
qed

lemma rnd_ge_int:
  assumes "\<bar>r\<bar> < 2 ^ 53" and "of_int n \<le> r"
  shows "of_int n \<le> rnd r"
proof (cases "r = 0")
  case False
  let ?e = "ulp_exp r"
  have "?e \<le> 0" using assms(1) False by (rule ulp_exp_nonpos)
  then have div: "of_int n / pow2 ?e = of_int (n * 2 ^ nat (- ?e))" by (rule pow2_nonpos_divides)
  have "of_int n / pow2 ?e \<le> r / pow2 ?e"
    using assms(2) by (intro divide_right_mono) (simp_all add: less_imp_le)
  then have "n * 2 ^ nat (- ?e) \<le> round_even (r / pow2 ?e)"
    unfolding div by (rule round_even_ge)
  then have "of_int n / pow2 ?e \<le> (of_int (round_even (r / pow2 ?e)) :: rat)"
    unfolding div of_int_le_iff .
  then show ?thesis using False by (simp add: rnd_def Let_def pos_divide_le_eq)
qed (use assms in \<open>simp add: rnd_def\<close>)

lemma rnd_le_int:
  assumes "\<bar>r\<bar> < 2 ^ 53" and "r \<le> of_int n"
  shows "rnd r \<le> of_int n"
proof (cases "r = 0")
  case False
  let ?e = "ulp_exp r"
  have "?e \<le> 0" using assms(1) False by (rule ulp_exp_nonpos)
  then have div: "of_int n / pow2 ?e = of_int (n * 2 ^ nat (- ?e))" by (rule pow2_nonpos_divides)
  have "r / pow2 ?e \<le> of_int n / pow2 ?e"
    using assms(2) by (intro divide_right_mono) (simp_all add: less_imp_le)
  then have "round_even (r / pow2 ?e) \<le> n * 2 ^ nat (- ?e)"
    unfolding div by (rule round_even_le)
  then have "(of_int (round_even (r / pow2 ?e)) :: rat) \<le> of_int n / pow2 ?e"
    unfolding div of_int_le_iff .
  then show ?thesis using False by (simp add: rnd_def Let_def pos_le_divide_eq)
qed (use assms in \<open>simp add: rnd_def\<close>)

lemma rnd_of_int: "\<bar>n\<bar> < 2 ^ 53 \<Longrightarrow> rnd (of_int n) = of_int n"
proof -
  assume "\<bar>n\<bar> < 2 ^ 53"
  then have "of_int \<bar>n\<bar> < (of_int (2 ^ 53) :: rat)" by (simp only: of_int_less_iff)
  then have "\<bar>of_int n :: rat\<bar> < 2 ^ 53" by simp
  then show ?thesis using rnd_ge_int [of "of_int n" n] rnd_le_int [of "of_int n" n] by simp
qed

section \<open>Means and two-digit rounding\<close>

lemma sum_list_bounds:
  fixes xs :: "rat list"
  assumes "list_all (\<lambda>x. a \<le> x \<and> x \<le> b) xs"
  shows "of_nat (length xs) * a \<le> sum_list xs" and "sum_list xs \<le> of_nat (length xs) * b"
  using assms by (induction xs) (auto simp: algebra_simps)

lemma fmean_bounds:
  assumes "list_all (\<lambda>x. of_int a \<le> x \<and> x \<le> of_int b) xs" and "xs \<noteq> []"
    and "0 \<le> a" and "int (length xs) * b < 2 ^ 53"
  shows "of_int a \<le> fmean xs" and "fmean xs \<le> of_int b"
proof -
  let ?n = "int (length xs)" and ?s = "sum_list xs"
  have n: "0 < ?n" using assms(2) by simp
  obtain x where "of_int a \<le> x" "x \<le> (of_int b :: rat)" using assms(1,2) by (cases xs) auto
  then have ab: "a \<le> b" by (metis of_int_le_iff order.trans)
  have low: "of_int (?n * a) \<le> ?s" and high: "?s \<le> of_int (?n * b)"
    using sum_list_bounds [OF assms(1)] by simp_all
  have nb: "0 \<le> ?n * a" using assms(3) by simp
  have "of_int (?n * b) < (of_int (2 ^ 53) :: rat)" using assms(4) unfolding of_int_less_iff .
  moreover have "(0 :: rat) \<le> of_int (?n * a)" using nb by (simp only: of_int_0_le_iff)
  ultimately have s: "\<bar>?s\<bar> < 2 ^ 53" using low high by simp
  let ?r = "rnd ?s"
  have r: "of_int (?n * a) \<le> ?r" "?r \<le> of_int (?n * b)"
    using rnd_ge_int [OF s low] rnd_le_int [OF s high] .
  have q: "of_int a \<le> ?r / of_nat (length xs)" "?r / of_nat (length xs) \<le> of_int b"
    using r n by (simp_all add: pos_le_divide_eq pos_divide_le_eq mult.commute)
  have "b \<le> ?n * b" using mult_right_mono [of 1 ?n b] n ab assms(3) by simp
  then have "b < 2 ^ 53" using assms(4) by linarith
  then have "of_int b < (of_int (2 ^ 53) :: rat)" unfolding of_int_less_iff .
  moreover have "(0 :: rat) \<le> of_int a" using assms(3) by simp
  ultimately have "\<bar>?r / of_nat (length xs)\<bar> < 2 ^ 53" using q by simp
  from rnd_ge_int [OF this q(1)] rnd_le_int [OF this q(2)]
  show "of_int a \<le> fmean xs" "fmean xs \<le> of_int b" by (simp_all add: fmean_def fdiv_def)
qed

definition percent :: "rat \<Rightarrow> bool" where
  "percent r = (0 \<le> r \<and> r \<le> 100)"

lemma round2_percent:
  assumes "percent r"
  shows "percent (round2 r)"
proof -
  have "of_int 0 \<le> r * 100" "r * 100 \<le> of_int 10000" using assms by (simp_all add: percent_def)
  then have m: "0 \<le> round_even (r * 100)" "round_even (r * 100) \<le> 10000"
    using round_even_ge round_even_le by blast+
  let ?q = "of_int (round_even (r * 100)) / 100 :: rat"
  have "of_int (round_even (r * 100)) \<le> (of_int 10000 :: rat)" using m(2) unfolding of_int_le_iff .
  then have q: "of_int 0 \<le> ?q" "?q \<le> of_int 100" using m(1) by simp_all
  then have "\<bar>?q\<bar> < 2 ^ 53" by simp
  from rnd_ge_int [OF this q(1)] rnd_le_int [OF this q(2)] show ?thesis
    by (simp add: percent_def round2_def)
qed

lemma percent_simps [simp]: "percent 0" "percent 100"
  by (simp_all add: percent_def)

section \<open>Rounding is monotone\<close>

lemma pow2_powi: "pow2 e = 2 powi e"
  unfolding pow2_def power_int_def power_inverse by (simp only: inverse_eq_divide)

lemma pow2_add: "pow2 (a + b) = pow2 a * pow2 b"
  by (simp add: pow2_powi power_int_add)

lemma pow2_le: "a \<le> b \<Longrightarrow> pow2 a \<le> pow2 b"
  by (simp add: pow2_powi power_int_increasing)

lemma pow2_divides: "e \<le> l \<Longrightarrow> pow2 l / pow2 e = of_int (2 ^ nat (l - e))"
  using pow2_add [of "l - e" e] by (simp add: pow2_def)

lemma log2_floor_bounds:
  assumes "0 < r"
  shows "pow2 (log2_floor r) \<le> r" and "r < pow2 (log2_floor r + 1)"
proof -
  obtain p q where pq: "quotient_of r = (p, q)" by (cases "quotient_of r")
  have q: "0 < q" using pq by (rule quotient_of_denom_pos)
  have r: "r = of_int p / of_int q" using pq by (rule quotient_of_div)
  have p: "0 < p" using assms q unfolding r by (simp add: zero_less_divide_iff)
  have bounds: "pow2 (bitlen n - 1) \<le> of_int n \<and> of_int n < pow2 (bitlen n)" if "0 < n" for n
  proof -
    have n: "2 ^ nat (bitlen n - 1) \<le> n" "n < 2 ^ nat (bitlen n)"
      using bitlen_bounds [OF that] by simp_all
    have "bitlen n \<noteq> 0"
    proof
      assume "bitlen n = 0"
      with n(2) that show False by simp
    qed
    then have k: "0 < bitlen n" using bitlen_nonneg [of n] by simp
    from n(1) have "(of_int (2 ^ nat (bitlen n - 1)) :: rat) \<le> of_int n" by (simp only: of_int_le_iff)
    moreover from n(2) have "(of_int n :: rat) < of_int (2 ^ nat (bitlen n))" by (simp only: of_int_less_iff)
    ultimately show ?thesis using k by (simp add: pow2_def)
  qed
  let ?k = "bitlen p - bitlen q"
  have "pow2 (?k - 1) * of_int q \<le> pow2 (bitlen p - 1)"
  proof -
    have "pow2 (?k - 1) * of_int q \<le> pow2 (?k - 1) * pow2 (bitlen q)"
      using bounds [OF q] by (intro mult_left_mono) (simp_all add: less_imp_le)
    then show ?thesis using pow2_add [of "?k - 1" "bitlen q"] by (simp add: algebra_simps)
  qed
  then have low: "pow2 (?k - 1) \<le> r"
    using bounds [OF p] q unfolding r by (simp add: pos_le_divide_eq)
  have "pow2 (bitlen p) \<le> pow2 (?k + 1) * of_int q"
  proof -
    have "pow2 (?k + 1) * pow2 (bitlen q - 1) \<le> pow2 (?k + 1) * of_int q"
      using bounds [OF q] by (intro mult_left_mono) (simp_all add: less_imp_le)
    then show ?thesis using pow2_add [of "?k + 1" "bitlen q - 1"] by simp
  qed
  then have high: "r < pow2 (?k + 1)"
    using bounds [OF p] q unfolding r by (simp add: pos_divide_less_eq)
  show "pow2 (log2_floor r) \<le> r" "r < pow2 (log2_floor r + 1)"
    using low high pq by (auto simp: log2_floor_def Let_def)
qed

lemma log2_floor_mono:
  assumes "0 < a" and "a \<le> b"
  shows "log2_floor a \<le> log2_floor b"
proof (rule ccontr)
  assume "\<not> log2_floor a \<le> log2_floor b"
  then have "pow2 (log2_floor b + 1) \<le> pow2 (log2_floor a)" by (intro pow2_le) simp
  then show False
    using log2_floor_bounds [OF assms(1)] log2_floor_bounds [of b] assms by simp
qed

lemma round_even_mono: "a \<le> b \<Longrightarrow> round_even a \<le> round_even b"
proof -
  assume ab: "a \<le> b"
  show ?thesis
  proof (cases "\<lfloor>a\<rfloor> = \<lfloor>b\<rfloor>")
    case True
    with ab show ?thesis by (auto simp: round_even_def Let_def)
  next
    case False
    with ab have "\<lfloor>a\<rfloor> + 1 \<le> \<lfloor>b\<rfloor>" using floor_mono [OF ab] by linarith
    moreover have "round_even a \<le> \<lfloor>a\<rfloor> + 1" by (simp add: round_even_def Let_def)
    ultimately show ?thesis using round_even_bounds(1) [of b] by linarith
  qed
qed

lemma round_even_minus: "round_even (- r) = - round_even r"
proof (cases "r = of_int \<lfloor>r\<rfloor>")
  case True
  then have "round_even r = \<lfloor>r\<rfloor>" "- r = of_int (- \<lfloor>r\<rfloor>)"
    by (metis round_even_of_int) (use True in simp)
  then show ?thesis by (metis round_even_of_int)
next
  case False
  then have f: "\<lfloor>- r\<rfloor> = - \<lfloor>r\<rfloor> - 1" using ceiling_altdef [of r] by (simp add: ceiling_def)
  show ?thesis by (auto simp: round_even_def Let_def f)
qed

lemma rnd_minus: "rnd (- r) = - rnd r"
  by (simp add: rnd_def ulp_exp_def Let_def round_even_minus)

lemma rnd_mono_pos:
  assumes "0 < a" and "a \<le> b"
  shows "rnd a \<le> rnd b"
proof (cases "ulp_exp a = ulp_exp b")
  case True
  have "a / pow2 (ulp_exp b) \<le> b / pow2 (ulp_exp b)"
    using assms(2) by (intro divide_right_mono) (simp_all add: less_imp_le)
  then have "round_even (a / pow2 (ulp_exp b)) \<le> round_even (b / pow2 (ulp_exp b))"
    by (rule round_even_mono)
  then show ?thesis
    using assms True by (simp add: rnd_def Let_def mult_right_mono less_imp_le)
next
  case False
  let ?l = "log2_floor b"
  from False have l: "ulp_exp b = ?l - 52" "log2_floor a < ?l" "ulp_exp a \<le> ?l"
    using log2_floor_mono [OF assms] assms by (auto simp: ulp_exp_def)
  have "a \<le> pow2 ?l"
    using log2_floor_bounds(2) [OF assms(1)] pow2_le [of "log2_floor a + 1" ?l] l(2) by simp
  then have "a / pow2 (ulp_exp a) \<le> pow2 ?l / pow2 (ulp_exp a)"
    by (intro divide_right_mono) (simp_all add: less_imp_le)
  then have "of_int (round_even (a / pow2 (ulp_exp a))) \<le> pow2 ?l / pow2 (ulp_exp a)"
    unfolding pow2_divides [OF l(3)] of_int_le_iff by (rule round_even_le)
  then have low: "rnd a \<le> pow2 ?l" using assms(1) by (simp add: rnd_def Let_def pos_le_divide_eq)
  have "pow2 ?l / pow2 (ulp_exp b) \<le> b / pow2 (ulp_exp b)"
    using log2_floor_bounds(1) [of b] assms by (intro divide_right_mono) (simp_all add: less_imp_le)
  moreover have e: "ulp_exp b \<le> ?l" using l(1) by simp
  ultimately have "pow2 ?l / pow2 (ulp_exp b) \<le> of_int (round_even (b / pow2 (ulp_exp b)))"
    unfolding pow2_divides [OF e] of_int_le_iff by (intro round_even_ge)
  then have "pow2 ?l \<le> rnd b" using assms by (simp add: rnd_def Let_def pos_divide_le_eq)
  with low show ?thesis by (rule order.trans)
qed

lemma rnd_nonneg: "0 \<le> r \<Longrightarrow> 0 \<le> rnd r"
proof -
  assume "0 \<le> r"
  then have "0 \<le> round_even (r / pow2 (ulp_exp r))"
    by (intro round_even_ge) (simp add: less_imp_le)
  then show ?thesis by (simp add: rnd_def Let_def less_imp_le)
qed

lemma rnd_mono: "a \<le> b \<Longrightarrow> rnd a \<le> rnd b"
proof -
  assume ab: "a \<le> b"
  consider "0 < a" | "a \<le> 0" "0 \<le> b" | "b < 0" by linarith
  then show ?thesis
  proof cases
    case 1
    then show ?thesis using ab by (rule rnd_mono_pos)
  next
    case 2
    then show ?thesis using rnd_nonneg [of b] rnd_nonneg [of "- a"] by (simp add: rnd_minus)
  next
    case 3
    then have "rnd (- b) \<le> rnd (- a)" using ab by (intro rnd_mono_pos) auto
    then show ?thesis by (simp add: rnd_minus)
  qed
qed

end
