(* ===== verification/EngineModel.thy ===== *)
theory EngineModel
  imports PyFloat "HOL-Library.Multiset"
begin

text \<open>
  The shared data model (\<open>models/enums.py\<close>, \<open>models/evidence.py\<close>,
  \<open>models/engine.py\<close>, \<open>models/decision.py\<close>): enumerations with their text
  values, and the pydantic models as records. Pydantic checks the declared bounds of a score
  when an object is built and on nothing else, so the bounds are a predicate on the records.
  Times are microseconds since the epoch. Scores are finite numbers: a NaN, which pydantic's
  bounds do not exclude, is outside the model.
\<close>

section \<open>Enumerations\<close>

datatype engine_id = B1 | B2 | B3 | B4 | B5 | F1 | F2 | F3 | F4 | F5

datatype decision_state = PROCEED | MODIFY | WAIT | AVOID | UNKNOWN

datatype severity = LowSeverity | ModerateSeverity | HighSeverity | CriticalSeverity | UnknownSeverity

datatype analysis_status = QUEUED | RUNNING | PARTIAL | COMPLETED | FAILED | PROVIDER_UNAVAILABLE
  | UNSUPPORTED | INSUFFICIENT_DATA | STALE_DATA | CONFLICTING_DATA

datatype freshness_status = LIVE | CURRENT | RECENT | STALE | EXPIRED | UNKNOWN_FRESHNESS

fun engine_value :: "engine_id \<Rightarrow> string" where
  "engine_value B1 = ''B1''" | "engine_value B2 = ''B2''" | "engine_value B3 = ''B3''"
| "engine_value B4 = ''B4''" | "engine_value B5 = ''B5''" | "engine_value F1 = ''F1''"
| "engine_value F2 = ''F2''" | "engine_value F3 = ''F3''" | "engine_value F4 = ''F4''"
| "engine_value F5 = ''F5''"

fun decision_value :: "decision_state \<Rightarrow> string" where
  "decision_value PROCEED = ''PROCEED''" | "decision_value MODIFY = ''MODIFY''"
| "decision_value WAIT = ''WAIT''" | "decision_value AVOID = ''AVOID''"
| "decision_value UNKNOWN = ''UNKNOWN''"

fun status_value :: "analysis_status \<Rightarrow> string" where
  "status_value QUEUED = ''QUEUED''" | "status_value RUNNING = ''RUNNING''"
| "status_value PARTIAL = ''PARTIAL''" | "status_value COMPLETED = ''COMPLETED''"
| "status_value FAILED = ''FAILED''" | "status_value PROVIDER_UNAVAILABLE = ''PROVIDER_UNAVAILABLE''"
| "status_value UNSUPPORTED = ''UNSUPPORTED''"
| "status_value INSUFFICIENT_DATA = ''INSUFFICIENT_DATA''"
| "status_value STALE_DATA = ''STALE_DATA''" | "status_value CONFLICTING_DATA = ''CONFLICTING_DATA''"

fun freshness_value :: "freshness_status \<Rightarrow> string" where
  "freshness_value LIVE = ''LIVE''" | "freshness_value CURRENT = ''CURRENT''"
| "freshness_value RECENT = ''RECENT''" | "freshness_value STALE = ''STALE''"
| "freshness_value EXPIRED = ''EXPIRED''" | "freshness_value UNKNOWN_FRESHNESS = ''UNKNOWN''"

lemma engine_value_inject [simp]: "engine_value a = engine_value b \<longleftrightarrow> a = b"
  by (cases a; cases b) simp_all

lemma status_value_inject [simp]: "status_value a = status_value b \<longleftrightarrow> a = b"
  by (cases a; cases b) simp_all

lemma freshness_value_inject [simp]: "freshness_value a = freshness_value b \<longleftrightarrow> a = b"
  by (cases a; cases b) simp_all

text \<open>Freshness values are sorted by their text, the order of \<open>sorted\<close> on them.\<close>

instantiation freshness_status :: linorder
begin

definition less_eq_freshness_status :: "freshness_status \<Rightarrow> freshness_status \<Rightarrow> bool" where
  "less_eq_freshness_status a b = (freshness_value a \<le> freshness_value b)"

definition less_freshness_status :: "freshness_status \<Rightarrow> freshness_status \<Rightarrow> bool" where
  "less_freshness_status a b = (freshness_value a < freshness_value b)"

instance
  by standard (auto simp: less_eq_freshness_status_def less_freshness_status_def less_le)

end

lemma map_freshness_sort: "map freshness_value (sort xs) = sort (map freshness_value xs)"
proof -
  have "sorted (map freshness_value (sort xs))"
    by (simp add: sorted_map flip: less_eq_freshness_status_def)
  moreover have "mset (map freshness_value (sort xs)) = mset (map freshness_value xs)" by simp
  ultimately show ?thesis by (metis properties_for_sort)
qed

section \<open>Evidence and conflicts\<close>

record evidence_record =
  evidence_id :: string
  provider :: string
  source_type :: string
  provider_endpoint :: "string option"
  provider_request_id :: "string option"
  retrieved_at :: int
  observed_at :: "int option"
  block_number :: "int option"
  evidence_chain_id :: "int option"
  asset_id :: "string option"
  protocol_id :: "string option"
  raw_reference :: "string option"
  normalized_value :: pyval
  calculation_version :: string
  evidence_engine_version :: string
  evidence_confidence :: rat
  freshness :: freshness_status
  license_classification :: string

record source_conflict =
  metric :: string
  source_a :: string
  value_a :: pyval
  source_b :: string
  value_b :: pyval
  difference :: "pyfloat option"
  difference_percentage :: "pyfloat option"
  expected_tolerance :: "pyfloat option"
  conflict_severity :: string
  resolution_method :: string
  resolved_value :: pyval
  resolution_confidence :: rat

section \<open>Engine results\<close>

record engine_result =
  result_engine :: engine_id
  engine_version :: string
  framework_version :: string
  analysis_id :: string
  engine_run_id :: string
  result_time :: int
  block_reference :: "int option"
  status :: analysis_status
  risk_score :: rat
  data_confidence :: rat
  engine_confidence :: rat
  result_severity :: severity
  summary :: string
  metrics :: pydict
  signals :: "pydict list"
  warnings :: "string list"
  hard_blockers :: "string list"
  mitigations :: "string list"
  safer_alternatives :: "string list"
  evidence :: "evidence_record list"
  provider_consensus :: string
  provider_conflicts :: "source_conflict list"
  data_freshness :: pydict
  missing_data :: "string list"
  provider_status :: "pydict list"
  assumptions :: "string list"
  result_demo :: bool

definition ANALYSIS_FRAMEWORK_VERSION :: string where
  "ANALYSIS_FRAMEWORK_VERSION = ''1.0.0''"

definition DECISION_METHODOLOGY_VERSION :: string where
  "DECISION_METHODOLOGY_VERSION = ''1.1.0''"

text \<open>The values the default factories draw: two fresh identifiers and the time.\<close>

record run_ids =
  fresh_analysis :: string
  fresh_run :: string
  fresh_time :: int

text \<open>A result with the declared defaults of every optional field.\<close>

definition default_result :: "run_ids \<Rightarrow> engine_id \<Rightarrow> string \<Rightarrow> engine_result" where
  "default_result ids e text = \<lparr>result_engine = e, engine_version = ''1.0.0'',
     framework_version = ANALYSIS_FRAMEWORK_VERSION, analysis_id = fresh_analysis ids,
     engine_run_id = fresh_run ids, result_time = fresh_time ids, block_reference = None,
     status = COMPLETED, risk_score = 0, data_confidence = 0, engine_confidence = 0,
     result_severity = UnknownSeverity, summary = text, metrics = [], signals = [],
     warnings = [], hard_blockers = [], mitigations = [], safer_alternatives = [],
     evidence = [], provider_consensus = ''UNAVAILABLE'', provider_conflicts = [],
     data_freshness = [], missing_data = [], provider_status = [], assumptions = [],
     result_demo = False\<rparr>"

text \<open>The bounds pydantic enforces on a result, its evidence and its conflicts.\<close>

definition valid_result :: "engine_result \<Rightarrow> bool" where
  "valid_result r =
     (percent (risk_score r) \<and> percent (data_confidence r) \<and> percent (engine_confidence r) \<and>
      list_all (\<lambda>e. percent (evidence_confidence e)) (evidence r) \<and>
      list_all (\<lambda>c. percent (resolution_confidence c)) (provider_conflicts r))"

section \<open>Decisions\<close>

record decision_request =
  engine_results :: "engine_result list"
  user_role :: string
  risk_tolerance :: string
  transaction_size :: "rat option"
  position_size :: "rat option"
  policy :: pydict

record provenance =
  p_analysis_ids :: "string list"
  p_engine_versions :: "(string \<times> string) list"
  p_engine_statuses :: "(string \<times> string) list"
  p_framework_versions :: "(string \<times> string) list"
  p_evidence_sources :: "string list"
  p_conflict_count :: nat
  p_evidence_count :: nat
  p_canonical :: bool
  p_demo :: bool

text \<open>The identifier, the time and the methodology version have their default values.\<close>

record rivexis_decision =
  decision :: decision_state
  overall_risk_score :: rat
  decision_confidence :: rat
  decision_data_confidence :: rat
  executive_summary :: string
  critical_findings :: "string list"
  positive_findings :: "string list"
  risk_breakdown :: "(string \<times> rat) list"
  why :: "string list"
  what_could_go_wrong :: "string list"
  recommended_action :: string
  safer_option :: "string option"
  decision_assumptions :: "string list"
  decision_missing_data :: "string list"
  decision_provenance :: provenance

definition valid_decision :: "rivexis_decision \<Rightarrow> bool" where
  "valid_decision d = (percent (overall_risk_score d) \<and> percent (decision_confidence d) \<and>
     percent (decision_data_confidence d))"

end
