(* ===== verification/PyNumber.thy ===== *)
theory PyNumber
  imports PyFloat
begin

text \<open>
  Numbers of any kind: \<open>float(value)\<close> with its text parser, addition with overflow to
  an infinity, comparisons, and the two-argument \<open>min\<close> and \<open>max\<close>, which keep their
  first argument when the comparison with a NaN fails.
\<close>

definition fl :: "rat \<Rightarrow> pyfloat" where
  "fl r = (let x = rnd r in
     if 2 ^ 1024 \<le> x then PosInf else if x \<le> - (2 ^ 1024) then NegInf else Fin x)"

text \<open>Comparison of numbers; every comparison with NaN is false.\<close>

fun num_less :: "pyfloat \<Rightarrow> pyfloat \<Rightarrow> bool" where
  "num_less NaN _ = False"
| "num_less _ NaN = False"
| "num_less PosInf _ = False"
| "num_less _ NegInf = False"
| "num_less (Fin a) (Fin b) = (a < b)"
| "num_less (Fin a) PosInf = True"
| "num_less NegInf _ = True"

fun num_add :: "pyfloat \<Rightarrow> pyfloat \<Rightarrow> pyfloat" where
  "num_add (Fin a) (Fin b) = fl (a + b)"
| "num_add NaN _ = NaN"
| "num_add _ NaN = NaN"
| "num_add PosInf NegInf = NaN"
| "num_add NegInf PosInf = NaN"
| "num_add PosInf _ = PosInf"
| "num_add NegInf _ = NegInf"
| "num_add (Fin a) PosInf = PosInf"
| "num_add (Fin a) NegInf = NegInf"

definition num_min :: "pyfloat \<Rightarrow> pyfloat \<Rightarrow> pyfloat" where
  "num_min a b = (if num_less b a then b else a)"

definition num_max :: "pyfloat \<Rightarrow> pyfloat \<Rightarrow> pyfloat" where
  "num_max a b = (if num_less a b then b else a)"

definition num_le :: "pyfloat \<Rightarrow> pyfloat \<Rightarrow> bool" where
  "num_le a b = (num_less a b \<or> a = b \<and> a \<noteq> NaN)"

section \<open>Texts\<close>

definition c_strip :: "string \<Rightarrow> string" where
  "c_strip s = rev (dropWhile c_space (rev (dropWhile c_space s)))"

text \<open>An underscore is accepted only between two digits.\<close>

fun underscores_ok :: "bool \<Rightarrow> string \<Rightarrow> bool" where
  "underscores_ok after_digit [] = True"
| "underscores_ok after_digit [c] = (c \<noteq> CHR ''_'')"
| "underscores_ok after_digit (c # d # cs) =
     (if c = CHR ''_'' then after_digit \<and> is_digit 10 d \<and> underscores_ok False (d # cs)
      else underscores_ok (is_digit 10 c) (d # cs))"

definition dec_value :: "string \<Rightarrow> nat" where
  "dec_value s = foldl (\<lambda>a c. a * 10 + digit_of c) 0 s"

definition scale10 :: "nat \<Rightarrow> int \<Rightarrow> rat" where
  "scale10 m e = (if 0 \<le> e then of_nat m * 10 ^ nat e else of_nat m / 10 ^ nat (- e))"

definition exponent_of :: "string \<Rightarrow> int option" where
  "exponent_of s =
     (case s of
        [] \<Rightarrow> Some 0
      | c # cs \<Rightarrow>
          if c \<noteq> CHR ''e'' \<and> c \<noteq> CHR ''E'' then None
          else (case split_sign cs of (neg, ds) \<Rightarrow>
            if ds = [] \<or> \<not> list_all (is_digit 10) ds then None
            else Some (if neg then - int (dec_value ds) else int (dec_value ds))))"

text \<open>A decimal literal without its sign.\<close>

definition decimal_of :: "string \<Rightarrow> rat option" where
  "decimal_of s =
     (let ints = takeWhile (is_digit 10) s; rest = dropWhile (is_digit 10) s;
          has_point = starts_with ''.'' rest;
          frac = (if has_point then takeWhile (is_digit 10) (drop 1 rest) else []);
          tail = (if has_point then dropWhile (is_digit 10) (drop 1 rest) else rest)
      in if ints @ frac = [] then None
         else map_option (\<lambda>e. scale10 (dec_value (ints @ frac)) (e - int (length frac)))
           (exponent_of tail))"

definition float_of_text :: "string \<Rightarrow> pyfloat option" where
  "float_of_text s =
     (let t = c_strip (norm_int_text s) in
      if \<not> underscores_ok False t then None
      else case split_sign (filter (\<lambda>c. c \<noteq> CHR ''_'') t) of (neg, body) \<Rightarrow>
        if py_lower body = ''inf'' \<or> py_lower body = ''infinity''
        then Some (if neg then NegInf else PosInf)
        else if py_lower body = ''nan'' then Some NaN
        else map_option (\<lambda>r. fl (if neg then - r else r)) (decimal_of body))"

definition py_float :: "pyval \<Rightarrow> pyfloat py" where
  "py_float v =
     (case v of
        VFloat x \<Rightarrow> Inr x
      | VInt n \<Rightarrow> (case fl (of_int n) of Fin r \<Rightarrow> Inr (Fin r) | _ \<Rightarrow> Inl OverflowError)
      | VBool b \<Rightarrow> Inr (Fin (if b then 1 else 0))
      | VStr s \<Rightarrow> (case float_of_text s of None \<Rightarrow> Inl ValueError | Some x \<Rightarrow> Inr x)
      | _ \<Rightarrow> Inl TypeError)"

text \<open>\<open>value > bound\<close> for a number bound: integers compare exactly.\<close>

definition py_greater :: "pyval \<Rightarrow> rat \<Rightarrow> bool py" where
  "py_greater v bound =
     (case v of
        VInt n \<Rightarrow> Inr (bound < of_int n)
      | VBool b \<Rightarrow> Inr (bound < (if b then 1 else 0))
      | VFloat x \<Rightarrow> Inr (num_less (Fin bound) x)
      | _ \<Rightarrow> Inl TypeError)"

text \<open>\<open>value in \<open>{...}\<close>\<close> for a set of texts: a list or a dictionary is unhashable.\<close>

definition in_texts :: "pyval \<Rightarrow> string list \<Rightarrow> bool py" where
  "in_texts v ts =
     (case v of
        VList _ \<Rightarrow> Inl TypeError
      | VDict _ \<Rightarrow> Inl TypeError
      | VStr s \<Rightarrow> Inr (s \<in> set ts)
      | _ \<Rightarrow> Inr False)"

text \<open>\<open>list(value)\<close>.\<close>

definition py_list :: "pyval \<Rightarrow> pyval list py" where
  "py_list v =
     (case v of
        VList xs \<Rightarrow> Inr xs
      | VStr s \<Rightarrow> Inr (map (\<lambda>c. VStr [c]) s)
      | VDict d \<Rightarrow> Inr (map (\<lambda>p. VStr (fst p)) d)
      | _ \<Rightarrow> Inl TypeError)"

text \<open>\<open>a or b\<close>.\<close>

definition py_or :: "pyval \<Rightarrow> pyval \<Rightarrow> pyval" where
  "py_or a b = (if truthy a then a else b)"

lemma fl_small:
  assumes "\<bar>r\<bar> \<le> 1000"
  shows "fl r = Fin (rnd r)"
proof -
  have "\<bar>r\<bar> < 2 ^ 53" using assms by simp
  moreover have "of_int (- 1000) \<le> r" "r \<le> of_int 1000" using assms by auto
  ultimately have x: "of_int (- 1000) \<le> rnd r" "rnd r \<le> of_int 1000"
    using rnd_ge_int rnd_le_int by blast+
  have "(2 :: rat) ^ 10 \<le> 2 ^ 1024" by (rule power_increasing) simp_all
  then have "(1000 :: rat) < 2 ^ 1024" by simp
  with x have "\<not> 2 ^ 1024 \<le> rnd r" "\<not> rnd r \<le> - (2 ^ 1024)" by linarith+
  then show ?thesis unfolding fl_def Let_def by (simp only: if_False)
qed

end
