(* ===== verification/Chains.thy ===== *)
theory Chains
  imports PyNumber
begin

text \<open>The supported EVM chains and their names (\<open>chains.py\<close>).\<close>

record chain_config =
  chain_key :: string
  chain_id :: int
  chain_name :: string
  native_symbol :: string
  alchemy_network :: string
  direct_rpc_env :: string

definition mk_chain :: "string \<Rightarrow> int \<Rightarrow> string \<Rightarrow> string \<Rightarrow> string \<Rightarrow> string \<Rightarrow> chain_config" where
  "mk_chain k i n s a d = \<lparr>chain_key = k, chain_id = i, chain_name = n, native_symbol = s,
     alchemy_network = a, direct_rpc_env = d\<rparr>"

definition CHAINS :: "(string \<times> chain_config) list" where
  "CHAINS =
     [(''ethereum'', mk_chain ''ethereum'' 1 ''Ethereum'' ''ETH'' ''eth-mainnet'' ''ETHEREUM_RPC_URL''),
      (''base'', mk_chain ''base'' 8453 ''Base'' ''ETH'' ''base-mainnet'' ''BASE_RPC_URL''),
      (''arbitrum'', mk_chain ''arbitrum'' 42161 ''Arbitrum One'' ''ETH'' ''arb-mainnet''
         ''ARBITRUM_RPC_URL''),
      (''optimism'', mk_chain ''optimism'' 10 ''OP Mainnet'' ''ETH'' ''opt-mainnet''
         ''OPTIMISM_RPC_URL''),
      (''polygon'', mk_chain ''polygon'' 137 ''Polygon PoS'' ''POL'' ''polygon-mainnet''
         ''POLYGON_RPC_URL'')]"

definition ALIASES :: "(string \<times> string) list" where
  "ALIASES =
     [(''eth'', ''ethereum''), (''mainnet'', ''ethereum''), (''ethereum-mainnet'', ''ethereum''),
      (''arb'', ''arbitrum''), (''arbitrum-one'', ''arbitrum''), (''op'', ''optimism''),
      (''op-mainnet'', ''optimism''), (''matic'', ''polygon'')]"

definition chain_by_id :: "int \<Rightarrow> chain_config py" where
  "chain_by_id n =
     (case find (\<lambda>c. chain_id c = n) (map snd CHAINS) of
        None \<Rightarrow> Inl ValueError | Some c \<Rightarrow> Inr c)"

definition chain_by_name :: "string \<Rightarrow> chain_config py" where
  "chain_by_name raw =
     (let key = (case map_of ALIASES raw of None \<Rightarrow> raw | Some k \<Rightarrow> k) in
      case map_of CHAINS key of None \<Rightarrow> Inl ValueError | Some c \<Rightarrow> Inr c)"

text \<open>A boolean is an integer in Python.\<close>

definition normalize_chain :: "(pyval \<Rightarrow> string) \<Rightarrow> pyval \<Rightarrow> chain_config py" where
  "normalize_chain rep value =
     (case value of
        VNone \<Rightarrow> chain_by_name ''ethereum''
      | VInt n \<Rightarrow> chain_by_id n
      | VBool b \<Rightarrow> chain_by_id (if b then 1 else 0)
      | v \<Rightarrow>
          let raw = py_lower (py_strip (py_str rep v)) in
          if py_isdigit raw then
            (case py_int 10 raw of None \<Rightarrow> Inl ValueError | Some n \<Rightarrow> chain_by_id n)
          else chain_by_name raw)"

lemma chains_distinct: "distinct (map fst CHAINS)" "distinct (map (chain_id \<circ> snd) CHAINS)"
  by (simp_all add: CHAINS_def mk_chain_def)

text \<open>Every chain is found under its key, its aliases and its identifier.\<close>

lemma chain_table:
  "list_all (\<lambda>(k, c). chain_by_name k = Inr c \<and> chain_by_id (chain_id c) = Inr c) CHAINS"
  by (simp add: CHAINS_def chain_by_name_def chain_by_id_def mk_chain_def ALIASES_def)

lemma chain_lookup:
  "(k, c) \<in> set CHAINS \<Longrightarrow> chain_by_name k = Inr c \<and> chain_by_id (chain_id c) = Inr c"
  using chain_table by (auto simp: list_all_iff)

lemma find_SomeD: "find P xs = Some x \<Longrightarrow> P x \<and> x \<in> set xs"
  by (induction xs) (auto split: if_split_asm)

lemma chain_by_id_sound: "chain_by_id n = Inr c \<Longrightarrow> chain_id c = n \<and> c \<in> set (map snd CHAINS)"
  using find_SomeD [of "\<lambda>c. chain_id c = n" "map snd CHAINS" c]
  by (simp add: chain_by_id_def split: option.split_asm)

lemma chain_by_name_known: "chain_by_name s = Inr c \<Longrightarrow> c \<in> set (map snd CHAINS)"
  by (auto simp: chain_by_name_def Let_def split: option.split_asm dest: map_of_SomeD intro: rev_image_eqI)

lemma lookup_error:
  "chain_by_id n = Inl e \<Longrightarrow> e = ValueError" "chain_by_name s = Inl e \<Longrightarrow> e = ValueError"
  by (auto simp: chain_by_id_def chain_by_name_def Let_def split: option.split_asm)

lemma chain_error: "normalize_chain rep v = Inl e \<Longrightarrow> e = ValueError"
  by (cases v; simp add: normalize_chain_def Let_def split: if_split_asm option.split_asm)
    (blast dest: lookup_error)+

end
