(* ===== verification/B1Effects.thy ===== *)
theory B1Effects
  imports PyNumber
begin

text \<open>
  The transaction-effects summary of engine B1 (\<open>_b1_canonical_address\<close>,
  \<open>_b1_approval_scope\<close>, \<open>_b1_security_observations\<close>,
  \<open>_b1_transaction_effects_summary\<close> of \<open>engines.py\<close>). The inputs are
  dictionaries as the metrics of a result hold them: nothing is assumed of their shape, and a
  membership test on an unhashable value or \<open>list(x)\<close> on a number is a
  \<open>TypeError\<close>. A trace or a difference that is absent and one that is empty behave alike.
\<close>

section \<open>Approvals\<close>

definition b1_canonical_address :: "pyval \<Rightarrow> pyval" where
  "b1_canonical_address value =
     (case value of
        VStr s \<Rightarrow>
          if length s \<noteq> 42 \<or> \<not> starts_with ''0x'' s then VNone
          else if py_int 16 (drop 2 s) = None then VNone
          else VStr (py_lower s)
      | _ \<Rightarrow> VNone)"

definition scope_as :: "string \<Rightarrow> pydict \<Rightarrow> pydict" where
  "scope_as scope d = dict_set ''scope'' (VStr scope) d"

definition approve_scope :: "pydict \<Rightarrow> pydict \<Rightarrow> pydict \<Rightarrow> pydict" where
  "approve_scope scoped decoded parameters =
     (case dict_get parameters ''amount_or_token_id'' of
        VInt amount \<Rightarrow>
          if amount < 0 then scope_as ''UNKNOWN'' scoped
          else dict_set ''enabled'' (VBool (0 < amount))
            (scope_as (if dict_get decoded ''unlimited_approval_candidate'' = VBool True
               then ''UINT256_MAX_CANDIDATE'' else ''BOUNDED_AMOUNT_OR_TOKEN_ID'') scoped)
      | _ \<Rightarrow> scope_as ''UNKNOWN'' scoped)"

definition operator_scope :: "pydict \<Rightarrow> pydict \<Rightarrow> pydict" where
  "operator_scope scoped parameters =
     (case dict_get parameters ''approved'' of
        VBool enabled \<Rightarrow> dict_set ''enabled'' (VBool enabled)
          (scope_as (if enabled then ''ALL_ASSETS_OPERATOR'' else ''OPERATOR_REVOCATION'') scoped)
      | _ \<Rightarrow> scope_as ''UNKNOWN'' scoped)"

definition b1_approval_scope :: "pydict \<Rightarrow> pydict" where
  "b1_approval_scope candidate =
     (let scoped = (if dict_has candidate ''contract''
            then dict_set ''contract'' (b1_canonical_address (dict_get candidate ''contract'')) candidate
            else candidate)
      in case dict_get candidate ''decode'' of
           VDict decoded \<Rightarrow>
             (case dict_get decoded ''parameters'' of
                VDict parameters \<Rightarrow>
                  let signature = dict_get decoded ''signature'' in
                  if signature = VStr ''approve(address,uint256)''
                  then approve_scope scoped decoded parameters
                  else if signature = VStr ''setApprovalForAll(address,bool)''
                  then operator_scope scoped parameters
                  else scope_as ''UNKNOWN'' scoped
              | _ \<Rightarrow> scope_as ''UNKNOWN'' scoped)
         | _ \<Rightarrow> scope_as ''UNKNOWN'' scoped)"

section \<open>Structural observations\<close>

definition dicts_of :: "pyval list \<Rightarrow> pydict list" where
  "dicts_of vs = map dict_items (filter is_dict vs)"

definition list_or_empty :: "pyval \<Rightarrow> pyval list" where
  "list_or_empty v = (case v of VList xs \<Rightarrow> xs | _ \<Rightarrow> [])"

definition call_signal :: "string \<Rightarrow> string \<Rightarrow> pydict list \<Rightarrow> pyval list" where
  "call_signal type category matching =
     (if matching = [] then []
      else [VDict [(''type'', VStr type), (''category'', VStr category),
        (''count'', VInt (int (length matching))),
        (''trace_indices'', VList (map (\<lambda>c. dict_get c ''trace_index'') (take 64 matching)))]])"

definition call_patterns :: "(string \<times> string \<times> string) list" where
  "call_patterns =
     [(''DELEGATECALL'', ''DELEGATECALL_OBSERVED'', ''execution_context''),
      (''CALLCODE'', ''CALLCODE_OBSERVED'', ''execution_context''),
      (''CREATE'', ''CONTRACT_CREATION_OBSERVED'', ''contract_lifecycle''),
      (''CREATE2'', ''DETERMINISTIC_CONTRACT_CREATION_OBSERVED'', ''contract_lifecycle''),
      (''SELFDESTRUCT'', ''SELFDESTRUCT_OPCODE_PATH_OBSERVED'', ''contract_lifecycle'')]"

definition call_signals :: "pydict list \<Rightarrow> pyval list" where
  "call_signals valid_calls =
     concat (map (\<lambda>(call_type, type, category). call_signal type category
       (filter (\<lambda>c. dict_get c ''call_type'' = VStr call_type) valid_calls)) call_patterns) @
     call_signal ''INTERNAL_CALL_FAILURE_OBSERVED'' ''execution_failure''
       (filter (\<lambda>c. truthy (dict_get c ''error'')) valid_calls)"

definition approval_signal :: "bool \<Rightarrow> pydict list \<Rightarrow> string \<Rightarrow> string \<Rightarrow> pyval list" where
  "approval_signal trace_ok approvals scope type =
     (let matching = filter (\<lambda>c. dict_get c ''scope'' = VStr scope \<and>
            (dict_get c ''source'' = VStr ''entry_calldata'' \<or> trace_ok) \<and>
            dict_get c ''contract'' \<noteq> VNone) approvals
      in if matching = [] then []
         else [VDict [(''type'', VStr type), (''category'', VStr ''permission_scope''),
           (''count'', VInt (int (length matching))),
           (''candidates'', VList (map (\<lambda>c. VDict [(''trace_index'', dict_get c ''trace_index''),
              (''contract'', dict_get c ''contract'')]) (take 64 matching)))]])"

definition approval_signals :: "bool \<Rightarrow> pydict list \<Rightarrow> pyval list" where
  "approval_signals trace_ok approvals =
     approval_signal trace_ok approvals ''UINT256_MAX_CANDIDATE'' ''UNLIMITED_APPROVAL_CANDIDATE'' @
     approval_signal trace_ok approvals ''ALL_ASSETS_OPERATOR''
       ''ALL_ASSETS_OPERATOR_APPROVAL_CANDIDATE''"

definition state_signal :: "string \<Rightarrow> pydict list \<Rightarrow> pyval list" where
  "state_signal type matching =
     (if matching = [] then []
      else [VDict [(''type'', VStr type), (''category'', VStr ''state_lifecycle''),
        (''count'', VInt (int (length matching))),
        (''addresses'', VList (map (\<lambda>c. dict_get c ''address'') (take 64 matching)))]])"

definition code_changed :: "pydict \<Rightarrow> bool" where
  "code_changed change =
     (dict_get change ''change_type'' = VStr ''MODIFIED'' \<and>
      VStr ''code'' \<in> set (list_or_empty (dict_get change ''changed_fields'')))"

definition state_signals :: "pydict list \<Rightarrow> pyval list" where
  "state_signals changes =
     (let of_type = (\<lambda>t. filter (\<lambda>c. dict_get c ''change_type'' = VStr t) changes) in
      state_signal ''ACCOUNT_CREATION_OBSERVED'' (of_type ''ACCOUNT_CREATED'') @
      state_signal ''ACCOUNT_DELETION_OBSERVED'' (of_type ''ACCOUNT_DELETED'') @
      state_signal ''RUNTIME_CODE_CHANGE_OBSERVED'' (filter code_changed changes))"

text \<open>\<open>bool(trace_available and status in \<open>{...}\<close> and valid_call_count)\<close>.\<close>

definition canonical_trace :: "bool \<Rightarrow> pydict \<Rightarrow> bool py" where
  "canonical_trace trace_available trace =
     (if \<not> trace_available then Inr False
      else rbind (in_texts (dict_get trace ''status'') [''NORMALIZED_CALL_TRACE'', ''PARTIAL_CALL_TRACE''])
        (\<lambda>ok. Inr (ok \<and> truthy (dict_get trace ''valid_call_count''))))"

definition entry_available :: "string list \<Rightarrow> pydict \<Rightarrow> bool py" where
  "entry_available excluded calldata =
     (let status = dict_get calldata ''status'' in
      if \<not> truthy status then Inr False
      else rbind (in_texts status excluded) (\<lambda>bad. Inr (\<not> bad)))"

definition b1_security_observations ::
  "pydict \<Rightarrow> pydict \<Rightarrow> bool \<Rightarrow> pydict \<Rightarrow> bool \<Rightarrow> pydict list \<Rightarrow> pydict py" where
  "b1_security_observations calldata trace trace_available state_diff state_diff_available approvals =
     rbind (canonical_trace trace_available trace) (\<lambda>trace_ok.
       let valid_calls = (if trace_ok
             then filter (\<lambda>c. dict_get c ''integrity'' = VStr ''VALID'')
               (dicts_of (list_or_empty (dict_get trace ''calls''))) else []);
           changes = (if state_diff_available
             then dicts_of (list_or_empty (dict_get state_diff ''changes'')) else []);
           signals = call_signals valid_calls @ approval_signals trace_ok approvals @
             state_signals changes
       in rbind (entry_available [''NO_CALLDATA'', ''NO_SELECTOR'', ''UNKNOWN_SELECTOR'',
             ''MALFORMED_STANDARD_CALLDATA''] calldata) (\<lambda>entry_ok.
         Inr [(''status'', VStr (if signals \<noteq> [] then ''OBSERVATIONS_PRESENT''
                else if entry_ok \<or> trace_ok \<or> state_diff_available then ''NO_STRUCTURAL_OBSERVATION''
                else ''INSUFFICIENT_COVERAGE'')),
              (''is_security_verdict'', VBool False),
              (''signals'', VList signals),
              (''signal_count'', VInt (int (length signals))),
              (''coverage'', VDict [(''entry_calldata'', VBool entry_ok),
                 (''canonical_internal_call_trace'', VBool trace_ok),
                 (''canonical_state_diff'', VBool state_diff_available)]),
              (''note'', VStr (''Structural execution observations are review cues, not proof '' @
                 ''of maliciousness or safety.''))]))"

section \<open>The summary\<close>

definition dict_or_empty :: "pyval \<Rightarrow> pydict" where
  "dict_or_empty v = (case v of VDict d \<Rightarrow> d | _ \<Rightarrow> [])"

text \<open>Copies of keys: \<open>name: source.get(key)\<close>.\<close>

definition copy_keys :: "pydict \<Rightarrow> string list \<Rightarrow> pydict" where
  "copy_keys d ks = map (\<lambda>k. (k, dict_get d k)) ks"

definition trace_limits :: "bool \<Rightarrow> pydict \<Rightarrow> string list" where
  "trace_limits available trace =
     (if \<not> available then [''Internal call trace was not available or not requested.'']
      else if dict_get trace ''status'' = VStr ''PARTIAL_CALL_TRACE''
      then [''Internal call trace was only partially normalized; malformed or bounded '' @
            ''nodes were excluded from promoted effects.''] else [])"

definition diff_limits :: "bool \<Rightarrow> pydict \<Rightarrow> string list" where
  "diff_limits available diff =
     (if \<not> available then [''Before/after contract-state diff was not available or not requested.'']
      else if dict_get diff ''status'' = VStr ''PARTIAL_PRESTATE_DIFF''
      then [''Before/after contract-state diff was only partially normalized; malformed or '' @
            ''bounded state was excluded from the change summary.''] else [])"

definition event_limits :: "bool \<Rightarrow> pydict \<Rightarrow> string list" where
  "event_limits available events =
     (if \<not> available
      then [''Canonical standard token/NFT event-log effects were not available from this run; '' @
            ''call traces alone are not treated as proof of asset changes.'']
      else [''Event amounts and token IDs are raw on-chain integers; token decimals, symbols, '' @
            ''prices and ownership semantics are not inferred beyond the emitted standard event.''] @
        (if truthy (dict_get events ''unknown_log_count'')
         then [''Unrecognized/non-standard event logs remain semantically unclassified.''] else []) @
        (if truthy (dict_get events ''malformed_log_count'')
         then [''Malformed standard-signature logs were excluded from canonical effects.''] else []) @
        (if truthy (dict_get events ''truncated'')
         then [''Large event batches were output-capped; total effect counts remain '' @
               ''authoritative for the normalized log set.''] else []))"

definition entry_approval :: "pydict \<Rightarrow> pydict \<Rightarrow> pyval list py" where
  "entry_approval metrics calldata =
     rbind (in_texts (dict_get calldata ''signature'')
         [''approve(address,uint256)'', ''setApprovalForAll(address,bool)'']) (\<lambda>known.
       Inr (if known then [VDict [(''trace_index'', VNone), (''contract'', dict_get metrics ''to''),
         (''decode'', VDict calldata), (''source'', VStr ''entry_calldata'')]] else []))"

text \<open>\<open>list(source.get(key) or []) if available else []\<close>.\<close>

definition listed :: "bool \<Rightarrow> pydict \<Rightarrow> string \<Rightarrow> pyval list py" where
  "listed available d k =
     (if \<not> available then Inr [] else py_list (py_or (dict_get d k) (VList [])))"

definition diff_available :: "pydict \<Rightarrow> bool py" where
  "diff_available diff =
     (if diff = [] then Inr False
      else in_texts (dict_get diff ''status'') [''NORMALIZED_PRESTATE_DIFF'', ''PARTIAL_PRESTATE_DIFF''])"

record effect_parts =
  part_approvals :: "pydict list"
  part_transfers :: "pyval list"
  part_changes :: "pyval list"
  part_assets :: "pyval list"
  part_events :: "pyval list"

definition effect_parts_of ::
  "pydict \<Rightarrow> pydict \<Rightarrow> bool \<Rightarrow> pydict \<Rightarrow> bool \<Rightarrow> pydict \<Rightarrow> pydict \<Rightarrow> effect_parts py" where
  "effect_parts_of metrics trace trace_ok diff diff_ok events calldata =
     rbind (entry_approval metrics calldata) (\<lambda>entry.
     rbind (listed trace_ok trace ''approval_candidates'') (\<lambda>internal.
     rbind (listed trace_ok trace ''native_value_transfers'') (\<lambda>transfers.
     rbind (listed diff_ok diff ''changes'') (\<lambda>changes.
     rbind (listed (events \<noteq> []) events ''asset_changes'') (\<lambda>assets.
     rbind (listed (events \<noteq> []) events ''approval_events'') (\<lambda>approval_events.
       Inr \<lparr>part_approvals = map b1_approval_scope (dicts_of (entry @ internal)),
         part_transfers = transfers, part_changes = changes, part_assets = assets,
         part_events = approval_events\<rparr>))))))"

definition b1_transaction_effects_summary :: "pydict \<Rightarrow> pydict py" where
  "b1_transaction_effects_summary metrics =
     (let calldata = dict_or_empty (dict_get metrics ''calldata_decode'');
          trace = dict_or_empty (dict_get metrics ''call_trace'');
          trace_ok = (trace \<noteq> [] \<and> truthy (dict_get trace ''call_count'') \<and>
            dict_get trace ''status'' \<noteq> VStr ''UNAVAILABLE_CALL_TRACE'');
          diff = dict_or_empty (dict_get metrics ''state_diff'');
          events = dict_or_empty (dict_get metrics ''event_effects'');
          events_ok = (events \<noteq> [] \<and> truthy (dict_get events ''logs_available'') \<and>
            dict_get events ''status'' = VStr ''NORMALIZED_STANDARD_EVENT_LOGS'')
      in rbind (diff_available diff) (\<lambda>diff_ok.
         rbind (effect_parts_of metrics trace trace_ok diff diff_ok events calldata) (\<lambda>parts.
         rbind (b1_security_observations calldata trace trace_ok diff diff_ok (part_approvals parts))
           (\<lambda>observations.
         rbind (entry_available [''NO_CALLDATA'', ''NO_SELECTOR'', ''UNKNOWN_SELECTOR''] calldata)
           (\<lambda>entry_decoded.
         Inr [(''entry_method'', VDict (copy_keys calldata
                [''status'', ''selector'', ''signature'', ''standard'', ''confidence''])),
              (''execution'', VDict
                [(''success'', dict_get metrics ''execution_success''),
                 (''revert_reason'', dict_get metrics ''revert_reason''),
                 (''gas_estimate'', py_or (dict_get metrics ''gas_estimate'') (dict_get metrics ''gas_used'')),
                 (''simulation_mode'', dict_get metrics ''simulation_mode'')]),
              (''internal_calls'', VDict ((''available'', VBool trace_ok) # copy_keys trace
                [''status'', ''call_count'', ''valid_call_count'', ''error_count'',
                 ''malformed_node_count'', ''discarded_node_count'', ''truncated''])),
              (''native_value_transfers'', VList (part_transfers parts)),
              (''approval_candidates'', VList (map VDict (part_approvals parts))),
              (''asset_changes'', VList (part_assets parts)),
              (''approval_events'', VList (part_events parts)),
              (''security_observations'', VDict observations),
              (''event_logs'', VDict ((''available'', VBool events_ok) # copy_keys events
                [''source'', ''outcome'', ''input_log_count'', ''decoded_log_count'',
                 ''asset_change_count'', ''approval_event_count'', ''unknown_log_count'',
                 ''malformed_log_count'', ''truncated''])),
              (''state_changes'', VDict ((''available'', VBool diff_ok) #
                 copy_keys diff [''status'', ''addresses_touched'', ''addresses_changed''] @
                 [(''changes'', VList (part_changes parts))] @
                 copy_keys diff [''malformed_address_count'', ''malformed_account_count'',
                   ''malformed_field_count'', ''malformed_storage_entry_count'',
                   ''discarded_address_count'', ''truncated''])),
              (''coverage'', VDict
                [(''entry_calldata_decoded'', VBool entry_decoded),
                 (''internal_call_trace'', VBool trace_ok), (''state_diff'', VBool diff_ok),
                 (''canonical_token_nft_event_changes'', VBool events_ok),
                 (''canonical_approval_events'', VBool events_ok)]),
              (''limitations'', VList (map VStr (trace_limits trace_ok trace @
                 diff_limits diff_ok diff @ event_limits events_ok events)))])))))"

section \<open>Properties\<close>

lemma no_call_signals: "call_signals [] = []"
  by (simp add: call_signals_def call_patterns_def call_signal_def)

lemma entry_approvals_only:
  "approval_signals False approvals =
     approval_signals False (filter (\<lambda>c. dict_get c ''source'' = VStr ''entry_calldata'') approvals)"
  by (simp add: approval_signals_def approval_signal_def conj_commute conj_left_commute)

text \<open>
  A trace that is not canonical (unavailable, not normalised, or without a valid call)
  contributes nothing to the observations: they are those of the entry calldata, the
  entry-sourced approvals and the state difference alone.
\<close>

theorem untrusted_trace_ignored:
  assumes "canonical_trace ok trace = Inr False"
  shows "b1_security_observations calldata trace ok diff diff_ok approvals =
    b1_security_observations calldata [] False diff diff_ok
      (filter (\<lambda>c. dict_get c ''source'' = VStr ''entry_calldata'') approvals)"
proof -
  have "canonical_trace False [] = Inr False" by (simp add: canonical_trace_def)
  then show ?thesis
    unfolding b1_security_observations_def assms rbind_simps if_False Let_def no_call_signals
    by (simp add: no_call_signals flip: entry_approvals_only)
qed

theorem untrusted_trace_ignored_witness:
  "b1_security_observations [] [(''status'', VStr ''UNAVAILABLE_CALL_TRACE'')] True [] False
     [[(''scope'', VStr ''ALL_ASSETS_OPERATOR''), (''contract'', VStr ''c'')]] =
   b1_security_observations [] [] False [] False []"
  using untrusted_trace_ignored [of True "[(''status'', VStr ''UNAVAILABLE_CALL_TRACE'')]" "[]" "[]"
      False "[[(''scope'', VStr ''ALL_ASSETS_OPERATOR''), (''contract'', VStr ''c'')]]"]
  by (simp add: canonical_trace_def in_texts_def)

text \<open>
  The observations are never a verdict, their count is the number of signals, and the
  absence of signals is only called an observation when the calldata, the trace or the state
  difference was really covered.
\<close>

theorem observations_not_verdict:
  assumes "b1_security_observations calldata trace ok diff diff_ok approvals = Inr d"
  shows "dict_get d ''is_security_verdict'' = VBool False \<and>
    (\<exists>signals entry_ok trace_ok. dict_get d ''signals'' = VList signals \<and>
      dict_get d ''signal_count'' = VInt (int (length signals)) \<and>
      canonical_trace ok trace = Inr trace_ok \<and>
      (dict_get d ''status'' = VStr ''INSUFFICIENT_COVERAGE'' \<longleftrightarrow>
         signals = [] \<and> \<not> entry_ok \<and> \<not> trace_ok \<and> \<not> diff_ok) \<and>
      dict_get d ''coverage'' = VDict [(''entry_calldata'', VBool entry_ok),
         (''canonical_internal_call_trace'', VBool trace_ok), (''canonical_state_diff'', VBool diff_ok)])"
proof -
  from assms obtain trace_ok where t: "canonical_trace ok trace = Inr trace_ok"
    by (auto simp: b1_security_observations_def elim!: rbindE)
  from assms show ?thesis
    unfolding b1_security_observations_def t rbind_simps Let_def by (auto elim!: rbindE)
qed

theorem observations_not_verdict_witness:
  "\<exists>d. b1_security_observations [] [] False [] False [] = Inr d \<and>
     dict_get d ''is_security_verdict'' = VBool False"
proof -
  obtain d where d: "b1_security_observations [] [] False [] False [] = Inr d"
    by (simp add: b1_security_observations_def canonical_trace_def entry_available_def)
  with observations_not_verdict [OF d] show ?thesis by blast
qed

text \<open>
  An approval candidate is called unlimited or an operator over all assets only on the
  decoded parameters that say so; every other shape, a negative amount included, is UNKNOWN,
  bounded or a revocation.
\<close>

theorem approval_scope_sound:
  "(dict_get (b1_approval_scope c) ''scope'' = VStr ''UINT256_MAX_CANDIDATE'' \<longleftrightarrow>
     (\<exists>decoded ps n. dict_get c ''decode'' = VDict decoded \<and> dict_get decoded ''parameters'' = VDict ps \<and>
       dict_get decoded ''signature'' = VStr ''approve(address,uint256)'' \<and>
       dict_get ps ''amount_or_token_id'' = VInt n \<and> 0 \<le> n \<and>
       dict_get decoded ''unlimited_approval_candidate'' = VBool True)) \<and>
   (dict_get (b1_approval_scope c) ''scope'' = VStr ''ALL_ASSETS_OPERATOR'' \<longleftrightarrow>
     (\<exists>decoded ps. dict_get c ''decode'' = VDict decoded \<and> dict_get decoded ''parameters'' = VDict ps \<and>
       dict_get decoded ''signature'' = VStr ''setApprovalForAll(address,bool)'' \<and>
       dict_get ps ''approved'' = VBool True))"
  by (auto simp: b1_approval_scope_def approve_scope_def operator_scope_def scope_as_def Let_def
      split: pyval.splits)

end
