(* ===== verification/Engines.thy ===== *)
theory Engines
  imports EngineModel Chains B1Effects
begin

text \<open>
  Engine dispatch (\<open>engines.py\<close>): the snapshot contract of B3, the adapter contract of
  F3, the normalisation of fresh live results, the demonstration heuristics, and
  \<open>run_engine\<close>. The ten live engines \<open>run_live_*\<close> are the parameter
  \<open>live\<close>; identifiers and times drawn by default factories are the parameter
  \<open>ids\<close>. Building a result validates its scores, so a score outside 0..100 is a
  \<open>ValueError\<close> (pydantic's validation error is one).
\<close>

section \<open>Constants\<close>

fun engine_name :: "engine_id \<Rightarrow> string" where
  "engine_name B1 = ''Transaction Simulation Engine''"
| "engine_name B2 = ''Transaction & Contract Security Engine''"
| "engine_name B3 = ''Real-Time Threat & Monitoring Engine''"
| "engine_name B4 = ''On-Chain Entity & Fund-Flow Intelligence Engine''"
| "engine_name B5 = ''Cross-Chain Route & Bridge Intelligence Engine''"
| "engine_name F1 = ''Portfolio & Exposure Engine''"
| "engine_name F2 = ''Protocol Risk Engine''"
| "engine_name F3 = ''Position & Liquidation Risk Engine''"
| "engine_name F4 = ''Yield & Strategy Risk Engine''"
| "engine_name F5 = ''Treasury Allocation & Scenario Engine''"

fun live_version :: "engine_id \<Rightarrow> string" where
  "live_version B1 = ''1.3.0''" | "live_version B2 = ''1.1.0''" | "live_version B3 = ''1.1.0''"
| "live_version B4 = ''1.0.0''" | "live_version B5 = ''1.2.0''" | "live_version F1 = ''1.2.0''"
| "live_version F2 = ''1.2.0''" | "live_version F3 = ''1.3.0''" | "live_version F4 = ''1.2.0''"
| "live_version F5 = ''1.2.0''"

definition live_calculation_version :: "engine_id \<Rightarrow> string" where
  "live_calculation_version e =
     (if e = F5 then ''f5-live-1.3.0''
      else py_lower (engine_value e) @ ''-live-'' @ live_version e)"

section \<open>The snapshot contract of B3\<close>

definition b3_snapshot_failure :: "run_ids \<Rightarrow> string \<Rightarrow> engine_result" where
  "b3_snapshot_failure ids message =
     (default_result ids B3 message)\<lparr>engine_version := live_version B3,
       status := INSUFFICIENT_DATA,
       warnings := [''B3 change detection was not run because prior-state identity could not be proven.''],
       missing_data := [''same-entity same-chain prior B3 snapshot''],
       provider_consensus := ''UNAVAILABLE'',
       data_freshness := [(''status'', VStr ''UNKNOWN'')],
       assumptions := [''Rivexis does not compare monitoring snapshots across different or '' @
         ''unverified entities/networks.'']\<rparr>"

text \<open>\<open>str(value or "").strip().lower()\<close>.\<close>

definition identity_text :: "(pyval \<Rightarrow> string) \<Rightarrow> pyval \<Rightarrow> string" where
  "identity_text rep v = py_lower (py_strip (py_str rep (py_or v (VStr []))))"

definition current_entity :: "(pyval \<Rightarrow> string) \<Rightarrow> pydict \<Rightarrow> string" where
  "current_entity rep d = identity_text rep (py_or (dict_get d ''entity'') (py_or (dict_get d ''address'')
     (py_or (dict_get d ''wallet'') (dict_get d ''contract''))))"

text \<open>Why the two texts are not the same identity, if they are not.\<close>

definition identity_mismatch :: "string \<Rightarrow> string \<Rightarrow> string \<Rightarrow> string \<Rightarrow> string option" where
  "identity_mismatch current previous missing different =
     (if current \<noteq> [] \<and> previous = [] then Some missing
      else if current \<noteq> [] \<and> current \<noteq> previous then Some different
      else None)"

definition previous_chain :: "pyval \<Rightarrow> int option py" where
  "previous_chain v =
     (case v of
        VInt n \<Rightarrow> Inr (Some n)
      | VStr s \<Rightarrow>
          if py_isdigit s
          then (case py_int 10 s of None \<Rightarrow> Inl ValueError | Some n \<Rightarrow> Inr (Some n))
          else Inr None
      | _ \<Rightarrow> Inr None)"

definition previous_oracle :: "(pyval \<Rightarrow> string) \<Rightarrow> pydict \<Rightarrow> string" where
  "previous_oracle rep previous =
     (case dict_get previous ''oracle'' of
        VDict d \<Rightarrow> identity_text rep (dict_get d ''feed'') | _ \<Rightarrow> [])"

text \<open>The token and the oracle of the two snapshots.\<close>

definition b3_source_error :: "(pyval \<Rightarrow> string) \<Rightarrow> pydict \<Rightarrow> pydict \<Rightarrow> string option" where
  "b3_source_error rep d previous =
     (case identity_mismatch (identity_text rep (dict_get d ''token_contract''))
          (identity_text rep (dict_get previous ''token_contract''))
          ''previous_snapshot is missing the monitored token_contract identity''
          ''previous_snapshot token_contract does not match the current monitor'' of
        Some m \<Rightarrow> Some m
      | None \<Rightarrow> identity_mismatch (identity_text rep (dict_get d ''oracle_feed''))
          (previous_oracle rep previous)
          ''previous_snapshot is missing the monitored oracle feed identity''
          ''previous_snapshot oracle feed does not match the current monitor'')"

text \<open>An unsupported chain is left to the engine: the contract reports nothing.\<close>

definition b3_chain_error :: "(pyval \<Rightarrow> string) \<Rightarrow> pydict \<Rightarrow> pydict \<Rightarrow> string option py" where
  "b3_chain_error rep d previous =
     (case normalize_chain rep (py_or (dict_get d ''chain'') (dict_get d ''network'')) of
        Inl _ \<Rightarrow> Inr None
      | Inr chain \<Rightarrow>
          rbind (previous_chain (dict_get previous ''chain_id'')) (\<lambda>pc.
            Inr (case pc of
                   None \<Rightarrow> Some ''previous_snapshot is missing a valid chain_id identity''
                 | Some n \<Rightarrow>
                     if n \<noteq> chain_id chain
                     then Some ''previous_snapshot belongs to a different blockchain network''
                     else b3_source_error rep d previous)))"

definition b3_snapshot_message :: "(pyval \<Rightarrow> string) \<Rightarrow> pydict \<Rightarrow> string option py" where
  "b3_snapshot_message rep d =
     (case dict_get d ''previous_snapshot'' of
        VNone \<Rightarrow> Inr None
      | VDict previous \<Rightarrow>
          let current = current_entity rep d;
              prior = identity_text rep (dict_get previous ''entity'') in
          if prior = [] then Inr (Some ''previous_snapshot is missing the monitored entity identity'')
          else if current \<noteq> [] \<and> prior \<noteq> current
          then Inr (Some ''previous_snapshot belongs to a different monitored entity'')
          else b3_chain_error rep d previous
      | _ \<Rightarrow> Inr (Some ''previous_snapshot must be an object produced by B3''))"

definition b3_snapshot_contract_error :: "(pyval \<Rightarrow> string) \<Rightarrow> run_ids \<Rightarrow> pydict \<Rightarrow> engine_result option py"
where
  "b3_snapshot_contract_error rep ids d =
     rbind (b3_snapshot_message rep d) (\<lambda>m. Inr (map_option (b3_snapshot_failure ids) m))"

section \<open>Normalisation of fresh live results\<close>

definition normalize_evidence :: "engine_id \<Rightarrow> evidence_record \<Rightarrow> evidence_record" where
  "normalize_evidence e ev =
     (let ev' = ev\<lparr>evidence_engine_version := live_version e\<rparr> in
      if calculation_version ev = ''1.0.0''
      then ev'\<lparr>calculation_version := live_calculation_version e\<rparr> else ev')"

definition consensus_of :: "string list \<Rightarrow> engine_result \<Rightarrow> string" where
  "consensus_of providers r =
     (if provider_conflicts r \<noteq> [] then ''CONFLICTING''
      else if providers = []
      then (if provider_consensus r \<noteq> ''USER_INPUT_ONLY'' then ''UNAVAILABLE'' else provider_consensus r)
      else if length providers = 1 then ''SINGLE_SOURCE'' else ''MULTI_SOURCE'')"

definition conflict_status :: "engine_result \<Rightarrow> analysis_status" where
  "conflict_status r =
     (if provider_conflicts r \<noteq> [] \<and> (status r = COMPLETED \<or> status r = PARTIAL)
      then CONFLICTING_DATA else status r)"

definition live_metrics :: "engine_result \<Rightarrow> pydict py" where
  "live_metrics r =
     (if result_engine r = B1
      then rbind (b1_transaction_effects_summary (metrics r)) (\<lambda>s.
        Inr (dict_set ''transaction_effects'' (VDict s) (metrics r)))
      else Inr (metrics r))"

definition normalize_current_live_contract :: "engine_result \<Rightarrow> engine_result py" where
  "normalize_current_live_contract r =
     rbind (live_metrics r) (\<lambda>m.
       let evs = map (normalize_evidence (result_engine r)) (evidence r);
           providers = sorted_set (filter (\<lambda>p. p \<noteq> []) (map provider evs))
       in Inr (r\<lparr>engine_version := live_version (result_engine r),
            evidence := evs,
            metrics := m,
            status := conflict_status r,
            provider_consensus := consensus_of providers r,
            data_freshness :=
              dict_set ''evidence_freshness''
                (VList (map (VStr \<circ> freshness_value) (sort (remdups (map freshness evs)))))
              (dict_set ''evidence_providers'' (VList (map VStr providers)) (data_freshness r))\<rparr>))"

section \<open>The adapter contract of F3\<close>

definition explicit_f3_adapter_requested :: "pydict \<Rightarrow> bool" where
  "explicit_f3_adapter_requested d =
     (truthy (dict_get d ''protocol_adapter'') \<and>
      (truthy (dict_get d ''user_address'') \<or> truthy (dict_get d ''wallet'')))"

definition f3_adapter_failure :: "(pyval \<Rightarrow> string) \<Rightarrow> run_ids \<Rightarrow> engine_result \<Rightarrow> pydict \<Rightarrow> engine_result"
where
  "f3_adapter_failure rep ids r d =
     (default_result ids F3 (''F3 was asked to use an authoritative protocol adapter, but that '' @
        ''adapter did not yield an authoritative position. The generic '' @
        ''caller-modeled fallback was discarded.''))
     \<lparr>engine_version := live_version F3,
      status := (if status r = PROVIDER_UNAVAILABLE then PROVIDER_UNAVAILABLE else INSUFFICIENT_DATA),
      metrics := [(''requested_protocol_adapter'', VStr (py_str rep (dict_get d ''protocol_adapter''))),
        (''discarded_fallback_status'', VStr (status_value (status r)))],
      warnings := [''Explicit protocol_adapter requests fail closed when authoritative '' @
        ''position evidence is unavailable; remove protocol_adapter only if '' @
        ''you intentionally want the separately disclosed generic modeled path.''],
      missing_data := [''authoritative protocol-native position evidence''],
      provider_consensus := ''UNAVAILABLE'',
      data_freshness := [(''status'', VStr ''UNKNOWN'')],
      assumptions := [''No generic position-risk conclusion is substituted for an explicitly '' @
        ''requested protocol-adapter result.'']\<rparr>"

definition enforce_explicit_f3_adapter_contract ::
  "(pyval \<Rightarrow> string) \<Rightarrow> run_ids \<Rightarrow> engine_result \<Rightarrow> pydict \<Rightarrow> engine_result" where
  "enforce_explicit_f3_adapter_contract rep ids r d =
     (if \<not> explicit_f3_adapter_requested d then r
      else if truthy (dict_get (metrics r) ''authoritative_adapter'') \<and>
        is_dict (dict_get (metrics r) ''position'') then r
      else f3_adapter_failure rep ids r d)"

section \<open>Demonstration heuristics\<close>

definition sev :: "pyfloat \<Rightarrow> severity" where
  "sev score =
     (if num_le (Fin 80) score then CriticalSeverity
      else if num_le (Fin 60) score then HighSeverity
      else if num_le (Fin 35) score then ModerateSeverity
      else LowSeverity)"

definition points :: "pydict \<Rightarrow> string \<Rightarrow> rat \<Rightarrow> rat" where
  "points d k n = (if truthy (dict_get d k) then n else 0)"

definition cap :: "pyfloat \<Rightarrow> pyfloat" where
  "cap x = num_min (Fin 100) x"

text \<open>A sum of small integers is exact.\<close>

definition flag_score :: "pydict \<Rightarrow> rat \<Rightarrow> (string \<times> rat) list \<Rightarrow> pyfloat" where
  "flag_score d base flags = cap (Fin (base + sum_list (map (\<lambda>(k, n). points d k n) flags)))"

definition default_zero :: "pydict \<Rightarrow> string \<Rightarrow> pyval" where
  "default_zero d k = dict_get_or d k (VInt 0)"

definition score_b4 :: "pydict \<Rightarrow> pyfloat py" where
  "score_b4 d = rbind (py_greater (default_zero d ''holder_concentration'') (rnd (7 / 10)))
     (\<lambda>c. Inr (cap (Fin (points d ''label_conflict'' 35 + points d ''suspicious_flow'' 30 +
       (if c then 20 else 0)))))"

definition score_b5 :: "pydict \<Rightarrow> pyfloat py" where
  "score_b5 d = rbind (py_float (dict_get_or d ''route_risk'' (VInt 25))) (\<lambda>x.
     Inr (cap (num_add (num_add x (Fin (points d ''bridge_incident'' 20)))
       (Fin (points d ''low_liquidity'' 15)))))"

definition score_exposure :: "pydict \<Rightarrow> string \<Rightarrow> rat \<Rightarrow> bool py \<Rightarrow> rat \<Rightarrow> pyfloat py" where
  "score_exposure d k least extra amount =
     rbind (py_float (dict_get_or d k (VInt 25))) (\<lambda>x. rbind extra (\<lambda>c.
       Inr (cap (num_add (num_max (Fin least) x) (Fin (if c then amount else 0))))))"

definition score_f3 :: "pydict \<Rightarrow> pyfloat py" where
  "score_f3 d = rbind (py_float (dict_get_or d ''health_factor'' (VFloat (Fin 2)))) (\<lambda>hf.
     Inr (Fin (if num_less hf (Fin (rnd (105 / 100))) then 90
       else if num_less hf (Fin (rnd (12 / 10))) then 75
       else if num_less hf (Fin (15 / 10)) then 45 else 20)))"

definition score_f4 :: "pydict \<Rightarrow> pyfloat py" where
  "score_f4 d = rbind (py_float (default_zero d ''apy'')) (\<lambda>apy.
     Inr (cap (Fin (20 + (if num_less (Fin 30) apy then 25 else 0) +
       points d ''incentive_dependent'' 30 + points d ''lockup'' 25))))"

fun score :: "engine_id \<Rightarrow> pydict \<Rightarrow> pyfloat py" where
  "score B1 d = Inr (flag_score d (if truthy (dict_get d ''will_revert'') then 45 else 10)
     [(''unlimited_approval'', 35), (''suspicious_value_flow'', 20)])"
| "score B2 d = Inr (flag_score d 0
     [(''known_malicious'', 85), (''unlimited_approval'', 35), (''unverified_contract'', 20)])"
| "score B3 d = Inr (flag_score d 0
     [(''active_exploit'', 80), (''oracle_anomaly'', 40), (''liquidity_deterioration'', 30)])"
| "score B4 d = score_b4 d"
| "score B5 d = score_b5 d"
| "score F1 d = score_exposure d ''largest_exposure_pct'' 10
     (py_greater (default_zero d ''stablecoin_concentration'') (rnd (7 / 10))) 25"
| "score F2 d = Inr (flag_score d 0
     [(''exploit_history'', 60), (''admin_privilege'', 25), (''oracle_risk'', 25),
      (''low_liquidity'', 20)])"
| "score F3 d = score_f3 d"
| "score F4 d = score_f4 d"
| "score F5 d = score_exposure d ''largest_allocation_pct'' 15
     (py_greater (default_zero d ''stablecoin_depeg_scenario_loss_pct'') 20) 30"

section \<open>Dispatch\<close>

type_synonym live_engine = "engine_id \<Rightarrow> pydict \<Rightarrow> engine_result py"

definition run_live ::
  "(pyval \<Rightarrow> string) \<Rightarrow> run_ids \<Rightarrow> live_engine \<Rightarrow> engine_id \<Rightarrow> pydict \<Rightarrow> engine_result py" where
  "run_live rep ids live e d =
     (let result =
        (if e = B3 then
           rbind (b3_snapshot_contract_error rep ids d) (\<lambda>failure.
             case failure of Some r \<Rightarrow> Inr r | None \<Rightarrow> live B3 d)
         else if e = F3 then
           rbind (live F3 d) (\<lambda>r. Inr (enforce_explicit_f3_adapter_contract rep ids r d))
         else live e d)
      in rbind result normalize_current_live_contract)"

definition label_conflict :: source_conflict where
  "label_conflict = \<lparr>metric = ''entity_label'', source_a = ''Demo Source A'', value_a = VStr ''Entity A'',
     source_b = ''Demo Source B'', value_b = VStr ''Entity B'', difference = None,
     difference_percentage = None, expected_tolerance = None, conflict_severity = ''high'',
     resolution_method = ''unresolved'', resolved_value = VNone, resolution_confidence = 0\<rparr>"

definition num_scale :: "rat \<Rightarrow> pyfloat \<Rightarrow> pyfloat" where
  "num_scale c x = (case x of Fin r \<Rightarrow> fl (r * c) | _ \<Rightarrow> x)"

definition price_conflict :: "pyfloat \<Rightarrow> source_conflict" where
  "price_conflict pct = \<lparr>metric = ''reference_price'', source_a = ''Demo Price A'', value_a = VInt 100,
     source_b = ''Demo Price B'',
     value_b = VFloat (num_scale 100 (num_add (Fin 1) (num_scale (1 / 100) pct))),
     difference = None, difference_percentage = Some pct, expected_tolerance = None,
     conflict_severity = ''high'', resolution_method = ''unresolved'', resolved_value = VNone,
     resolution_confidence = 0\<rparr>"

definition demo_conflicts :: "pydict \<Rightarrow> source_conflict list py" where
  "demo_conflicts d =
     rbind (py_greater (default_zero d ''price_conflict_pct'') 3) (\<lambda>big.
       let labels = (if truthy (dict_get d ''label_conflict'') then [label_conflict] else []) in
       if big then rbind (py_float (dict_get d ''price_conflict_pct'')) (\<lambda>pct.
         Inr (labels @ [price_conflict pct]))
       else Inr labels)"

definition demo_evidence :: "string \<Rightarrow> int \<Rightarrow> pydict \<Rightarrow> evidence_record" where
  "demo_evidence uuid now d = \<lparr>evidence_id = uuid, provider = ''Rivexis Demo Adapter'',
     source_type = ''demo'', provider_endpoint = None, provider_request_id = None,
     retrieved_at = now, observed_at = None, block_number = None, evidence_chain_id = None,
     asset_id = None, protocol_id = None, raw_reference = None, normalized_value = VDict d,
     calculation_version = ''1.0.0'', evidence_engine_version = ''1.0.0'', evidence_confidence = 75,
     freshness = CURRENT, license_classification = ''internal-demo''\<rparr>"

definition demo_blockers :: "pydict \<Rightarrow> string list" where
  "demo_blockers d =
     (if truthy (dict_get d ''known_malicious'') \<or> truthy (dict_get d ''active_exploit'')
      then [''Material security blocker detected in demonstration input''] else [])"

definition demo_warnings :: "pydict \<Rightarrow> string list" where
  "demo_warnings d =
     (if truthy (dict_get d ''unlimited_approval'')
      then [''Unlimited approval increases token exposure''] else []) @
     (if truthy (dict_get d ''label_conflict'')
      then [''Entity labels conflict; identity is not resolved''] else [])"

definition demo_mitigations :: "pydict \<Rightarrow> string list" where
  "demo_mitigations d =
     (if truthy (dict_get d ''unlimited_approval'')
      then [''Reduce approval to the minimum required amount''] else [])"

definition demo_result ::
  "run_ids \<Rightarrow> string \<Rightarrow> engine_id \<Rightarrow> pydict \<Rightarrow> rat \<Rightarrow> source_conflict list \<Rightarrow> engine_result" where
  "demo_result ids uuid e d risk conflicts =
     (default_result ids e (''Demonstration result for '' @ engine_name e @
        '': detected risk score '' @ fixed0 risk @ ''/100.''))
     \<lparr>status := (if conflicts \<noteq> [] then CONFLICTING_DATA else COMPLETED),
      risk_score := risk, data_confidence := (if conflicts \<noteq> [] then 65 else 82),
      engine_confidence := 80, result_severity := sev (Fin risk),
      metrics := [(''input_echo'', VDict d)], warnings := demo_warnings d,
      hard_blockers := demo_blockers d, mitigations := demo_mitigations d,
      safer_alternatives := demo_mitigations d,
      evidence := [demo_evidence uuid (fresh_time ids) d],
      provider_consensus := (if conflicts \<noteq> [] then ''CONFLICTING'' else ''SINGLE SOURCE''),
      provider_conflicts := conflicts,
      data_freshness := [(''status'', VStr ''CURRENT''), (''source'', VStr ''demo'')],
      assumptions := [''Synthetic demonstration inputs supplied by the user/interface.''],
      result_demo := True\<rparr>"

definition run_demo :: "run_ids \<Rightarrow> string \<Rightarrow> engine_id \<Rightarrow> pydict \<Rightarrow> engine_result py" where
  "run_demo ids uuid e d =
     rbind (score e d) (\<lambda>s.
     rbind (demo_conflicts d) (\<lambda>conflicts.
       case s of
         Fin risk \<Rightarrow> if percent risk then Inr (demo_result ids uuid e d risk conflicts)
           else Inl ValueError
       | _ \<Rightarrow> Inl ValueError))"

definition run_engine ::
  "(pyval \<Rightarrow> string) \<Rightarrow> run_ids \<Rightarrow> string \<Rightarrow> live_engine \<Rightarrow> engine_id \<Rightarrow> pydict \<Rightarrow> bool \<Rightarrow> engine_result py"
where
  "run_engine rep ids uuid live e d demo =
     (if \<not> demo then run_live rep ids live e d else run_demo ids uuid e d)"

section \<open>Normalisation is idempotent\<close>

lemma dict_set_same: "map_of d k = Some v \<Longrightarrow> dict_set k v d = d"
  by (induction d) (auto simp: dict_set_def split: if_split_asm)

lemma normalize_evidence_idem [simp]:
  "normalize_evidence e (normalize_evidence e ev) = normalize_evidence e ev"
proof -
  have "live_calculation_version e \<noteq> ''1.0.0''"
    by (cases e) (simp_all add: live_calculation_version_def py_lower_def lower_char_def code_def)
  then show ?thesis by (simp add: normalize_evidence_def Let_def)
qed

lemma evidence_provider [simp]:
  "provider (normalize_evidence e ev) = provider ev" "freshness (normalize_evidence e ev) = freshness ev"
  "evidence_engine_version (normalize_evidence e ev) = live_version e"
  "evidence_confidence (normalize_evidence e ev) = evidence_confidence ev"
  by (simp_all add: normalize_evidence_def Let_def)

lemma effects_ignore_effects:
  "b1_transaction_effects_summary (dict_set ''transaction_effects'' v m) = b1_transaction_effects_summary m"
proof -
  let ?m = "dict_set ''transaction_effects'' v m"
  have keys: "dict_get ?m ''calldata_decode'' = dict_get m ''calldata_decode''"
    "dict_get ?m ''call_trace'' = dict_get m ''call_trace''"
    "dict_get ?m ''state_diff'' = dict_get m ''state_diff''"
    "dict_get ?m ''event_effects'' = dict_get m ''event_effects''" "dict_get ?m ''to'' = dict_get m ''to''"
    "dict_get ?m ''execution_success'' = dict_get m ''execution_success''"
    "dict_get ?m ''revert_reason'' = dict_get m ''revert_reason''"
    "dict_get ?m ''gas_estimate'' = dict_get m ''gas_estimate''"
    "dict_get ?m ''gas_used'' = dict_get m ''gas_used''"
    "dict_get ?m ''simulation_mode'' = dict_get m ''simulation_mode''"
    by simp_all
  show ?thesis
    unfolding b1_transaction_effects_summary_def effect_parts_of_def entry_approval_def keys
    by (rule refl)
qed

lemma live_metrics_again:
  assumes "live_metrics r = Inr m" and "result_engine r' = result_engine r" and "metrics r' = m"
  shows "live_metrics r' = Inr m"
proof (cases "result_engine r = B1")
  case True
  with assms(1) obtain s where s: "b1_transaction_effects_summary (metrics r) = Inr s"
    and m: "m = dict_set ''transaction_effects'' (VDict s) (metrics r)"
    by (auto simp: live_metrics_def elim!: rbindE)
  have "b1_transaction_effects_summary m = Inr s" unfolding m effects_ignore_effects by (rule s)
  moreover have "dict_set ''transaction_effects'' (VDict s) m = m"
    by (rule dict_set_same) (simp add: m)
  ultimately show ?thesis using assms(2,3) True by (simp add: live_metrics_def)
qed (use assms in \<open>simp add: live_metrics_def\<close>)

lemma conflict_status_idem: "status r' = conflict_status r \<Longrightarrow> provider_conflicts r' = provider_conflicts r
  \<Longrightarrow> conflict_status r' = conflict_status r"
  by (simp add: conflict_status_def)

lemma consensus_idem: "provider_consensus r' = consensus_of ps r \<Longrightarrow>
  provider_conflicts r' = provider_conflicts r \<Longrightarrow> consensus_of ps r' = consensus_of ps r"
  by (simp add: consensus_of_def split: if_splits)

lemma normalized_form:
  assumes "normalize_current_live_contract r = Inr r'"
  obtains m evs ps where "live_metrics r = Inr m"
    and "evs = map (normalize_evidence (result_engine r)) (evidence r)"
    and "ps = sorted_set (filter (\<lambda>p. p \<noteq> []) (map provider evs))"
    and "r' = r\<lparr>engine_version := live_version (result_engine r), evidence := evs, metrics := m,
      status := conflict_status r, provider_consensus := consensus_of ps r,
      data_freshness := dict_set ''evidence_freshness''
          (VList (map (VStr \<circ> freshness_value) (sort (remdups (map freshness evs)))))
        (dict_set ''evidence_providers'' (VList (map VStr ps)) (data_freshness r))\<rparr>"
  using assms unfolding normalize_current_live_contract_def Let_def by (auto elim!: rbindE)

section \<open>Properties\<close>

text \<open>
  A fresh live result that comes out of the dispatch carries the version of its engine on
  itself and on every piece of evidence, never calls itself completed or partial while source
  conflicts are unresolved, reports the consensus its evidence supports, and keeps its scores.
\<close>

theorem live_contract_normalized:
  assumes "normalize_current_live_contract r = Inr r'"
  shows "engine_version r' = live_version (result_engine r) \<and>
    list_all (\<lambda>e. evidence_engine_version e = live_version (result_engine r)) (evidence r') \<and>
    (if provider_conflicts r' \<noteq> []
     then status r' \<noteq> COMPLETED \<and> status r' \<noteq> PARTIAL \<and> provider_consensus r' = ''CONFLICTING''
     else status r' = status r \<and>
       provider_consensus r' = (let n = card (set (map provider (evidence r)) - {[]}) in
         if 1 < n then ''MULTI_SOURCE'' else if n = 1 then ''SINGLE_SOURCE''
         else if provider_consensus r = ''USER_INPUT_ONLY'' then ''USER_INPUT_ONLY'' else ''UNAVAILABLE'')) \<and>
    risk_score r' = risk_score r \<and> hard_blockers r' = hard_blockers r \<and>
    (valid_result r' \<longleftrightarrow> valid_result r)"
proof -
  from assms obtain m evs ps where evs: "evs = map (normalize_evidence (result_engine r)) (evidence r)"
    and ps: "ps = sorted_set (filter (\<lambda>p. p \<noteq> []) (map provider evs))"
    and r': "r' = r\<lparr>engine_version := live_version (result_engine r), evidence := evs, metrics := m,
      status := conflict_status r, provider_consensus := consensus_of ps r,
      data_freshness := dict_set ''evidence_freshness''
          (VList (map (VStr \<circ> freshness_value) (sort (remdups (map freshness evs)))))
        (dict_set ''evidence_providers'' (VList (map VStr ps)) (data_freshness r))\<rparr>"
    by (rule normalized_form)
  have set: "set ps = set (map provider (evidence r)) - {[]}" by (auto simp: ps evs)
  have "length ps = card (set ps)" using ps by (simp add: distinct_card del: set_sorted_set)
  then have card: "length ps = card (set (map provider (evidence r)) - {[]})" by (simp only: set)
  have "provider_conflicts r = [] \<Longrightarrow> consensus_of ps r =
      (if 1 < length ps then ''MULTI_SOURCE'' else if length ps = 1 then ''SINGLE_SOURCE''
       else if provider_consensus r = ''USER_INPUT_ONLY'' then ''USER_INPUT_ONLY'' else ''UNAVAILABLE'')"
    by (cases ps; cases "tl ps") (auto simp: consensus_of_def)
  with card show ?thesis
    by (simp add: r' conflict_status_def valid_result_def evs list_all_iff consensus_of_def [of _ r] Let_def)
qed

definition sample_ids :: run_ids where
  "sample_ids = \<lparr>fresh_analysis = ''a'', fresh_run = ''r'', fresh_time = 0\<rparr>"

definition conflicted_result :: engine_result where
  "conflicted_result = (default_result sample_ids F2 ''x'')
     \<lparr>provider_conflicts := [label_conflict], evidence := [demo_evidence ''e'' 0 []]\<rparr>"

lemma conflicted_normalized:
  "\<exists>r'. normalize_current_live_contract conflicted_result = Inr r' \<and> provider_conflicts r' \<noteq> []"
  by (simp add: normalize_current_live_contract_def live_metrics_def conflicted_result_def
      default_result_def Let_def)

theorem live_contract_normalized_witness:
  "\<exists>r'. normalize_current_live_contract conflicted_result = Inr r' \<and>
     provider_consensus r' = ''CONFLICTING'' \<and> engine_version r' = ''1.2.0''"
proof -
  obtain r' where r': "normalize_current_live_contract conflicted_result = Inr r'"
    "provider_conflicts r' \<noteq> []" using conflicted_normalized by blast
  have "result_engine conflicted_result = F2" by (simp add: conflicted_result_def default_result_def)
  with live_contract_normalized [OF r'(1)] r' show ?thesis by auto
qed


text \<open>
  Normalising a live result twice changes nothing more: the provenance of a result is a
  function of the run, not of how often it passed the dispatch.
\<close>

theorem live_contract_idempotent:
  assumes "normalize_current_live_contract r = Inr r'"
  shows "normalize_current_live_contract r' = Inr r'"
proof -
  from assms obtain m evs ps where m: "live_metrics r = Inr m"
    and evs: "evs = map (normalize_evidence (result_engine r)) (evidence r)"
    and ps: "ps = sorted_set (filter (\<lambda>p. p \<noteq> []) (map provider evs))"
    and r': "r' = r\<lparr>engine_version := live_version (result_engine r), evidence := evs, metrics := m,
      status := conflict_status r, provider_consensus := consensus_of ps r,
      data_freshness := dict_set ''evidence_freshness''
          (VList (map (VStr \<circ> freshness_value) (sort (remdups (map freshness evs)))))
        (dict_set ''evidence_providers'' (VList (map VStr ps)) (data_freshness r))\<rparr>"
    by (rule normalized_form)
  have 1: "live_metrics r' = Inr m" using m by (rule live_metrics_again) (simp_all add: r')
  have 2: "map (normalize_evidence (result_engine r')) (evidence r') = evs" by (simp add: r' evs)
  have 3: "conflict_status r' = status r'" "consensus_of ps r' = provider_consensus r'"
    using conflict_status_idem [of r' r] consensus_idem [of r' ps r] by (simp_all add: r')
  have 4: "dict_set ''evidence_providers'' (VList (map VStr ps)) (data_freshness r') = data_freshness r'"
    by (rule dict_set_same) (simp add: r')
  have 5: "dict_set ''evidence_freshness'' (VList (map (VStr \<circ> freshness_value)
      (sort (remdups (map freshness evs))))) (data_freshness r') = data_freshness r'"
    by (rule dict_set_same) (simp add: r')
  show ?thesis
    unfolding normalize_current_live_contract_def 1 rbind_simps Let_def 2 ps [symmetric] 3 4 5
    by (simp add: r')
qed

theorem live_contract_idempotent_witness:
  "\<exists>r'. normalize_current_live_contract conflicted_result = Inr r' \<and>
     normalize_current_live_contract r' = Inr r'"
proof -
  obtain r' where r': "normalize_current_live_contract conflicted_result = Inr r'"
    using conflicted_normalized by blast
  from r' live_contract_idempotent [OF r'] show ?thesis by blast
qed


text \<open>
  C31: a request for an explicit F3 adapter fails closed: whatever the live engine returned, the
  result either carries an authoritative position or has no risk conclusion and no confidence.
\<close>

theorem f3_adapter_fails_closed:
  assumes "run_live rep ids live F3 d = Inr r" and "explicit_f3_adapter_requested d"
    and "\<And>r'. live F3 d = Inr r' \<Longrightarrow> result_engine r' = F3"
  shows "(truthy (dict_get (metrics r) ''authoritative_adapter'') \<and>
      is_dict (dict_get (metrics r) ''position'')) \<or>
    (status r \<in> {PROVIDER_UNAVAILABLE, INSUFFICIENT_DATA} \<and> risk_score r = 0 \<and>
     data_confidence r = 0 \<and> engine_confidence r = 0 \<and> evidence r = [])"
proof -
  from assms(1) obtain r0 where r0: "live F3 d = Inr r0"
    and n: "normalize_current_live_contract (enforce_explicit_f3_adapter_contract rep ids r0 d) = Inr r"
    by (auto simp: run_live_def elim!: rbindE)
  let ?r = "enforce_explicit_f3_adapter_contract rep ids r0 d"
  have "result_engine ?r \<noteq> B1"
    using assms(3) [OF r0]
    by (simp add: enforce_explicit_f3_adapter_contract_def f3_adapter_failure_def default_result_def)
  with n obtain evs where r: "metrics r = metrics ?r" "status r = conflict_status ?r"
    "risk_score r = risk_score ?r" "data_confidence r = data_confidence ?r"
    "engine_confidence r = engine_confidence ?r"
    "evidence r = map (normalize_evidence (result_engine ?r)) (evidence ?r)"
    by (elim normalized_form) (simp add: live_metrics_def)
  from assms(2) consider "truthy (dict_get (metrics ?r) ''authoritative_adapter'') \<and>
      is_dict (dict_get (metrics ?r) ''position'')" | "?r = f3_adapter_failure rep ids r0 d"
    by (cases "truthy (dict_get (metrics r0) ''authoritative_adapter'') \<and>
        is_dict (dict_get (metrics r0) ''position'')")
      (simp_all add: enforce_explicit_f3_adapter_contract_def)
  then show ?thesis
  proof cases
    case 1
    with r(1) show ?thesis by simp
  next
    case 2
    with r(2-6) show ?thesis
      by (simp add: f3_adapter_failure_def default_result_def conflict_status_def)
  qed
qed

theorem f3_adapter_fails_closed_witness:
  "\<exists>r. run_live (\<lambda>_. []) sample_ids (\<lambda>e d. Inr (default_result sample_ids e ''generic'')) F3
      [(''protocol_adapter'', VStr ''x''), (''wallet'', VStr ''w'')] = Inr r \<and>
     status r = INSUFFICIENT_DATA \<and> risk_score r = 0"
proof -
  let ?d = "[(''protocol_adapter'', VStr ''x''), (''wallet'', VStr ''w'')]"
  let ?live = "\<lambda>e d. Inr (default_result sample_ids e ''generic'') :: engine_result py"
  have req: "explicit_f3_adapter_requested ?d" by (simp add: explicit_f3_adapter_requested_def)
  obtain r where r: "run_live (\<lambda>_. []) sample_ids ?live F3 ?d = Inr r"
    "status r = INSUFFICIENT_DATA" "metrics r = metrics (f3_adapter_failure (\<lambda>_. []) sample_ids (default_result sample_ids F3 ''generic'') ?d)"
    using req
    by (simp add: run_live_def enforce_explicit_f3_adapter_contract_def default_result_def
        f3_adapter_failure_def normalize_current_live_contract_def live_metrics_def Let_def
        conflict_status_def)
  from r f3_adapter_fails_closed [OF r(1) req] show ?thesis
    by (auto simp: default_result_def f3_adapter_failure_def)
qed


text \<open>
  The B3 contract only lets a prior snapshot through when it is of the same entity, the same
  chain, the same token and the same oracle feed as the current monitor, as far as the monitor
  names them. The one exception in the code is an unsupported chain, which it leaves to the engine.
\<close>

theorem b3_snapshot_same_identity:
  assumes "b3_snapshot_message rep d = Inr None"
    and "dict_get d ''previous_snapshot'' = VDict p"
    and "normalize_chain rep (py_or (dict_get d ''chain'') (dict_get d ''network'')) = Inr chain"
  shows "identity_text rep (dict_get p ''entity'') \<noteq> [] \<and>
    current_entity rep d \<in> {[], identity_text rep (dict_get p ''entity'')} \<and>
    previous_chain (dict_get p ''chain_id'') = Inr (Some (chain_id chain)) \<and>
    identity_text rep (dict_get d ''token_contract'') \<in>
      {[], identity_text rep (dict_get p ''token_contract'')} \<and>
    identity_text rep (dict_get d ''oracle_feed'') \<in> {[], previous_oracle rep p}"
  using assms
  by (auto simp: b3_snapshot_message_def b3_chain_error_def b3_source_error_def
      identity_mismatch_def Let_def elim!: rbindE split: if_split_asm option.split_asm)

lemma sample_identity: "identity_text rep (VStr ''x'') = ''x''"
  by (simp add: identity_text_def py_or_def py_strip_def text_eval code_def)

theorem b3_snapshot_same_identity_witness:
  "b3_snapshot_message (\<lambda>_. []) [(''entity'', VStr ''x''), (''previous_snapshot'',
      VDict [(''entity'', VStr ''x''), (''chain_id'', VInt 1)])] = Inr None \<and>
   previous_chain (VInt 1) = Inr (Some 1)"
proof -
  let ?rep = "\<lambda>_ :: pyval. [] :: string"
  let ?p = "[(''entity'', VStr ''x''), (''chain_id'', VInt 1)]"
  let ?d = "[(''entity'', VStr ''x''), (''previous_snapshot'', VDict ?p)]"
  let ?c = "mk_chain ''ethereum'' 1 ''Ethereum'' ''ETH'' ''eth-mainnet'' ''ETHEREUM_RPC_URL''"
  have chain: "normalize_chain ?rep (py_or (dict_get ?d ''chain'') (dict_get ?d ''network'')) = Inr ?c"
    by (simp add: py_or_def normalize_chain_def chain_by_name_def ALIASES_def CHAINS_def)
  have none: "identity_text ?rep VNone = []"
    by (simp add: identity_text_def py_or_def py_strip_def py_lower_def)
  have msg: "b3_snapshot_message ?rep ?d = Inr None"
    using chain
    by (simp add: b3_snapshot_message_def current_entity_def py_or_def sample_identity none
        b3_chain_error_def previous_chain_def mk_chain_def b3_source_error_def
        identity_mismatch_def)
  from b3_snapshot_same_identity [OF msg _ chain, of ?p] msg show ?thesis
    by (simp add: mk_chain_def)
qed


text \<open>
  A prior snapshot whose chain identifier is a superscript digit makes the contract check
  raise instead of refusing the snapshot.
\<close>

theorem b3_snapshot_superscript_raises:
  "b3_snapshot_message rep [(''entity'', VStr ''x''), (''previous_snapshot'',
     VDict [(''entity'', VStr ''x''), (''chain_id'', VStr [CHR 0xB2])])] = Inl ValueError"
proof -
  have "previous_chain (VStr [CHR 0xB2]) = Inl ValueError"
    by (simp add: previous_chain_def py_isdigit_def is_digit_char_def text_eval code_def)
  moreover have "identity_text rep (VStr ''x'') = ''x''"
    by (simp add: identity_text_def py_or_def py_strip_def text_eval code_def)
  moreover have "chain_by_name ''ethereum'' = Inr (mk_chain ''ethereum'' 1 ''Ethereum'' ''ETH'' ''eth-mainnet'' ''ETHEREUM_RPC_URL'')"
    by (simp add: chain_by_name_def ALIASES_def CHAINS_def)
  ultimately show ?thesis
    by (simp add: b3_snapshot_message_def current_entity_def py_or_def b3_chain_error_def
        normalize_chain_def)
qed

lemma sum_points_nonneg: "list_all (\<lambda>(k, n). 0 \<le> n) flags \<Longrightarrow>
  0 \<le> sum_list (map (\<lambda>(k, n). points d k n) flags)"
  by (induction flags) (auto simp: points_def)

lemma cap_percent: "0 \<le> x \<Longrightarrow> \<exists>r. cap (Fin x) = Fin r \<and> percent r"
  by (auto simp: cap_def num_min_def percent_def)

text \<open>
  A demonstration run of a flag-based engine always returns a result, within the score
  bounds, marked as a demonstration, and with status COMPLETED exactly when no source conflicts.
\<close>

theorem demo_flag_engines_total:
  assumes "e \<in> {B1, B2, B3, F2}" and "demo_conflicts d = Inr conflicts"
  shows "\<exists>r. run_engine rep ids uuid live e d True = Inr r \<and> percent (risk_score r) \<and> result_demo r \<and>
    result_engine r = e \<and> (status r = COMPLETED \<longleftrightarrow> conflicts = []) \<and>
    hard_blockers r = demo_blockers d"
proof -
  have "\<exists>s. score e d = Inr (Fin s) \<and> percent s"
  proof -
    have "0 \<le> base + sum_list (map (\<lambda>(k, n). points d k n) flags)"
      if "0 \<le> base" "list_all (\<lambda>(k, n). 0 \<le> n) flags" for base flags
      using sum_points_nonneg [OF that(2)] that(1) by simp
    with cap_percent have "\<exists>r. flag_score d base flags = Fin r \<and> percent r"
      if "0 \<le> base" "list_all (\<lambda>(k, n). 0 \<le> n) flags" for base flags
      using that unfolding flag_score_def by blast
    with assms(1) show ?thesis by auto
  qed
  then obtain s where "score e d = Inr (Fin s)" "percent s" by blast
  then show ?thesis
    using assms(2) by (auto simp: run_engine_def run_demo_def demo_result_def default_result_def)
qed

theorem demo_flag_engines_total_witness:
  "\<exists>r. run_engine (\<lambda>_. []) sample_ids ''u'' (\<lambda>_ _. Inl TypeError) B2
      [(''known_malicious'', VBool True)] True = Inr r \<and> percent (risk_score r) \<and> hard_blockers r \<noteq> []"
proof -
  have "demo_conflicts [(''known_malicious'', VBool True)] = Inr []"
    by (simp add: demo_conflicts_def default_zero_def dict_get_or_def py_greater_def)
  from demo_flag_engines_total [of B2, OF _ this] show ?thesis
    by (fastforce simp: demo_blockers_def)
qed

end
