(* ===== verification/Decision.thy ===== *)
theory Decision
  imports EngineModel
begin

text \<open>
  The decision engine (\<open>decision.py\<close>). Submitted results are replaced by the stored
  ones where the store has them (\<open>lookup\<close>, the store read and its pydantic validation,
  is a parameter: \<open>None\<close> is no record, \<open>Inl\<close> a payload that does not
  validate), duplicates are refused, and the usable results are aggregated.
\<close>

type_synonym store_lookup = "string \<Rightarrow> engine_result py option"

definition USABLE_STATUSES :: "analysis_status list" where
  "USABLE_STATUSES = [COMPLETED, PARTIAL, CONFLICTING_DATA, STALE_DATA]"

section \<open>Rehydration and provenance\<close>

fun rehydrate :: "store_lookup \<Rightarrow> engine_result list \<Rightarrow> (engine_result list \<times> nat) py" where
  "rehydrate lookup [] = Inr ([], 0)"
| "rehydrate lookup (r # rs) =
     (case lookup (analysis_id r) of
        None \<Rightarrow> rbind (rehydrate lookup rs) (\<lambda>(canonical, n). Inr (r # canonical, n))
      | Some payload \<Rightarrow> rbind payload (\<lambda>stored.
          rbind (rehydrate lookup rs) (\<lambda>(canonical, n). Inr (stored # canonical, Suc n))))"

definition canonicalize_persisted :: "store_lookup \<Rightarrow> engine_result list \<Rightarrow> (engine_result list \<times> bool) py"
where
  "canonicalize_persisted lookup results =
     rbind (rehydrate lookup results) (\<lambda>(canonical, persisted).
       Inr (canonical, canonical \<noteq> [] \<and> persisted = length canonical))"

definition by_engine :: "(engine_result \<Rightarrow> 'v) \<Rightarrow> engine_result list \<Rightarrow> (string \<times> 'v) list" where
  "by_engine f rs = fold (\<lambda>r d. dict_set (engine_value (result_engine r)) (f r) d) rs []"

definition conflict_count :: "engine_result list \<Rightarrow> nat" where
  "conflict_count rs = sum_list (map (\<lambda>r. length (provider_conflicts r)) rs)"

definition provenance_of :: "engine_result list \<Rightarrow> bool \<Rightarrow> provenance" where
  "provenance_of rs verified = \<lparr>
     p_analysis_ids = map analysis_id rs,
     p_engine_versions = by_engine engine_version rs,
     p_engine_statuses = by_engine (\<lambda>r. status_value (status r)) rs,
     p_framework_versions = by_engine framework_version rs,
     p_evidence_sources = sorted_set (concat (map (\<lambda>r. map provider (evidence r)) rs)),
     p_conflict_count = conflict_count rs,
     p_evidence_count = sum_list (map (\<lambda>r. length (evidence r)) rs),
     p_canonical = verified,
     p_demo = list_ex result_demo rs\<rparr>"

definition empty_provenance :: provenance where
  "empty_provenance = \<lparr>p_analysis_ids = [], p_engine_versions = [], p_engine_statuses = [],
     p_framework_versions = [], p_evidence_sources = [], p_conflict_count = 0,
     p_evidence_count = 0, p_canonical = False, p_demo = False\<rparr>"

text \<open>A decision without a score: the fields the early returns set.\<close>

definition unscored :: "rat \<Rightarrow> string \<Rightarrow> string list \<Rightarrow> string \<Rightarrow> string list \<Rightarrow> provenance \<Rightarrow> rivexis_decision"
where
  "unscored dc text reasons action missing prov = \<lparr>decision = UNKNOWN, overall_risk_score = 0,
     decision_confidence = 0, decision_data_confidence = dc, executive_summary = text,
     critical_findings = [], positive_findings = [], risk_breakdown = [], why = reasons,
     what_could_go_wrong = [], recommended_action = action, safer_option = None,
     decision_assumptions = [], decision_missing_data = missing, decision_provenance = prov\<rparr>"

definition no_evidence_decision :: rivexis_decision where
  "no_evidence_decision = unscored 0 ''No engine evidence was supplied.'' []
     ''Collect required evidence before acting.'' [''engine results''] empty_provenance"

definition duplicate_reference_decision :: "engine_result list \<Rightarrow> string \<Rightarrow> bool \<Rightarrow> rivexis_decision" where
  "duplicate_reference_decision rs reason verified =
     unscored (if rs \<noteq> [] then round2 (fmean (map data_confidence rs)) else 0)
       (''Decision inputs contain duplicate analytical references and '' @
        ''cannot be weighted safely.'') [reason]
       (''Use one unique persisted result per specialist engine before '' @
        ''requesting a decision.'')
       [''unique decision-grade specialist engine results''] (provenance_of rs verified)"

definition no_usable_decision :: "engine_result list \<Rightarrow> bool \<Rightarrow> rivexis_decision" where
  "no_usable_decision rs verified =
     unscored (round2 (fmean (map data_confidence rs)))
       ''Required evidence is insufficient to support a Rivexis decision.''
       [''No submitted specialist result is in a decision-usable evidence state.'']
       ''Obtain fresh normalized provider evidence.''
       (sorted_set (concat (map missing_data rs))) (provenance_of rs verified)"

section \<open>Aggregation\<close>

definition max_list :: "rat list \<Rightarrow> rat" where
  "max_list xs = foldl max (hd xs) (tl xs)"

definition hard_of :: "engine_result list \<Rightarrow> string list" where
  "hard_of usable = concat (map hard_blockers usable)"

definition aggregate_risk :: "engine_result list \<Rightarrow> rat" where
  "aggregate_risk usable =
     (if hard_of usable \<noteq> [] then max_list (map risk_score usable) else fmean (map risk_score usable))"

definition clamp_percent :: "rat \<Rightarrow> rat" where
  "clamp_percent x = max 0 (min 100 x)"

definition decision_conf :: "rat \<Rightarrow> rat \<Rightarrow> nat \<Rightarrow> nat \<Rightarrow> rat" where
  "decision_conf data_conf engine_conf conflicts uncertain =
     clamp_percent (fsub (fsub (fdiv (fadd data_conf engine_conf) 2) (of_nat (conflicts * 12)))
       (of_nat (uncertain * 10)))"

definition choose_state :: "bool \<Rightarrow> rat \<Rightarrow> bool \<Rightarrow> rat \<Rightarrow> decision_state" where
  "choose_state hard data_conf uncertain risk =
     (if hard then AVOID
      else if data_conf < 35 then UNKNOWN
      else if uncertain then WAIT
      else if 80 \<le> risk then AVOID
      else if 40 \<le> risk then MODIFY
      else PROCEED)"

fun action_text :: "decision_state \<Rightarrow> string" where
  "action_text PROCEED = ''Proceed subject to the stated assumptions and current evidence.''"
| "action_text MODIFY = ''Modify the exposure or transaction to reduce identified material risks.''"
| "action_text WAIT = ''Wait until partial, stale, unavailable, or conflicting evidence is resolved.''"
| "action_text AVOID = ''Avoid the proposed action while material blockers remain.''"
| "action_text UNKNOWN = ''Do not act on this analysis; evidence is insufficient.''"

definition why_lines ::
  "rat \<Rightarrow> engine_result list \<Rightarrow> string list \<Rightarrow> engine_result list \<Rightarrow> nat \<Rightarrow> rat \<Rightarrow> string list" where
  "why_lines risk usable hard uncertain conflicts data_conf =
     [''Aggregate materialized risk assessment is '' @ fixed1 risk @ ''/100 across '' @
        dec_text (length usable) @ '' usable specialist result(s).''] @
     (if hard \<noteq> [] then [dec_text (length hard) @ '' hard blocker(s) override aggregate scoring.'']
      else []) @
     (if uncertain \<noteq> [] then [''Decision-grade evidence is incomplete or unresolved: '' @
        join '', '' (map (\<lambda>r. engine_value (result_engine r) @ ''='' @ status_value (status r)) uncertain)
        @ ''.''] else []) @
     (if conflicts \<noteq> 0 then [dec_text conflicts @
        '' unresolved source conflict(s) reduce decision confidence.''] else []) @
     (if data_conf < 60 then [''Data confidence is below the preferred institutional threshold.'']
      else [])"

definition positives :: "engine_result list \<Rightarrow> string list" where
  "positives usable = map (\<lambda>r. engine_value (result_engine r) @ '' returned no hard blocker.'')
     (filter (\<lambda>r. status r = COMPLETED \<and> hard_blockers r = [] \<and> risk_score r < 40) usable)"

definition scored_decision :: "engine_result list \<Rightarrow> bool \<Rightarrow> rivexis_decision" where
  "scored_decision rs verified =
     (let usable = filter (\<lambda>r. status r \<in> set USABLE_STATUSES) rs;
          hard = hard_of usable;
          risk = aggregate_risk usable;
          data_conf = fmean (map data_confidence usable);
          engine_conf = fmean (map engine_confidence usable);
          conflicts = conflict_count usable;
          uncertain = filter (\<lambda>r. status r \<noteq> COMPLETED) rs;
          conf = decision_conf data_conf engine_conf conflicts (length uncertain);
          state = choose_state (hard \<noteq> []) data_conf (uncertain \<noteq> []) risk;
          mits = concat (map mitigations usable);
          warns = concat (map warnings usable)
      in \<lparr>decision = state, overall_risk_score = round2 risk, decision_confidence = round2 conf,
          decision_data_confidence = round2 data_conf,
          executive_summary = ''Rivexis evaluated '' @ dec_text (length rs) @
            '' specialist engine result(s) and returned '' @ decision_value state @ ''.'',
          critical_findings = hard @ warns, positive_findings = positives usable,
          risk_breakdown = by_engine risk_score usable,
          why = why_lines risk usable hard uncertain conflicts data_conf,
          what_could_go_wrong = warns, recommended_action = action_text state,
          safer_option = (case mits of [] \<Rightarrow> None | m # _ \<Rightarrow> Some m),
          decision_assumptions = sorted_set (concat (map assumptions rs)),
          decision_missing_data = sorted_set (concat (map missing_data rs)),
          decision_provenance = provenance_of rs verified\<rparr>)"

definition decide_canonical :: "engine_result list \<Rightarrow> bool \<Rightarrow> rivexis_decision" where
  "decide_canonical rs verified =
     (if \<not> distinct (map analysis_id rs)
      then duplicate_reference_decision rs (''The same persisted analysis_id was submitted '' @
        ''more than once; repeated references are not additional evidence.'') verified
      else if \<not> distinct (map (\<lambda>r. engine_value (result_engine r)) rs)
      then duplicate_reference_decision rs (''Multiple results from the same specialist '' @
        ''engine were supplied; the shared decision model does not silently overweight one engine.'')
        verified
      else if list_all (\<lambda>r. status r \<notin> set USABLE_STATUSES) rs
      then no_usable_decision rs verified
      else scored_decision rs verified)"

definition analyze_decision :: "store_lookup \<Rightarrow> decision_request \<Rightarrow> rivexis_decision py" where
  "analyze_decision lookup req =
     (if engine_results req = [] then Inr no_evidence_decision
      else rbind (canonicalize_persisted lookup (engine_results req)) (\<lambda>(rs, verified).
        Inr (decide_canonical rs verified)))"

section \<open>Bounds\<close>

lemma fmean_single: "\<bar>n\<bar> < 2 ^ 53 \<Longrightarrow> fmean [of_int n] = of_int n"
  by (simp add: fmean_def fdiv_def rnd_of_int)

lemma clamp_percent_ok [simp]: "percent (clamp_percent x)"
  by (simp add: clamp_percent_def percent_def)

lemma list_all_int: "list_all percent xs \<longleftrightarrow> list_all (\<lambda>x. of_int 0 \<le> x \<and> x \<le> of_int 100) xs"
  by (simp add: percent_def list_all_iff)

lemma fmean_percent:
  assumes "list_all percent xs" and "xs \<noteq> []" and "length xs < 2 ^ 40"
  shows "percent (fmean xs)"
proof -
  have "int (length xs) < 2 ^ 40" using assms(3) by simp
  then have "int (length xs) * 100 < 2 ^ 53" by simp
  from fmean_bounds [OF assms(1) [unfolded list_all_int] assms(2) _ this] show ?thesis
    by (simp add: percent_def)
qed

lemma max_list_mem: "xs \<noteq> [] \<Longrightarrow> max_list xs \<in> set xs"
proof -
  have "foldl max a ys \<in> insert a (set ys)" for a :: rat and ys
    by (induction ys arbitrary: a) (auto simp: max_def)
  then show "xs \<noteq> [] \<Longrightarrow> max_list xs \<in> set xs"
    by (cases xs) (auto simp: max_list_def)
qed

lemma foldl_max_ge: "a \<le> foldl max a (ys :: rat list)"
  by (induction ys arbitrary: a) (auto intro: order.trans [OF max.cobounded1])

lemma max_list_ge: "x \<in> set xs \<Longrightarrow> x \<le> max_list xs"
proof -
  have "x \<le> foldl max a ys" if "x = a \<or> x \<in> set ys" for a :: rat and ys
    using that
  proof (induction ys arbitrary: a)
    case (Cons y ys)
    from Cons.prems have "x \<le> max a y \<or> x \<in> set ys" by auto
    with Cons.IH [of "max a y"] foldl_max_ge [of "max a y" ys] show ?case by auto
  qed simp
  then show "x \<in> set xs \<Longrightarrow> x \<le> max_list xs"
    by (cases xs) (auto simp: max_list_def)
qed

lemma aggregate_percent:
  assumes "list_all valid_result us" and "us \<noteq> []" and "length us < 2 ^ 40"
  shows "percent (aggregate_risk us)"
proof (cases "hard_of us = []")
  case True
  have "list_all percent (map risk_score us)" using assms(1) by (auto simp: list_all_iff valid_result_def)
  with True assms show ?thesis by (simp add: aggregate_risk_def fmean_percent)
next
  case False
  have "max_list (map risk_score us) \<in> set (map risk_score us)" using assms(2) by (intro max_list_mem) simp
  with False assms(1) show ?thesis by (auto simp: aggregate_risk_def list_all_iff valid_result_def)
qed

lemma mean_percent:
  assumes "list_all valid_result us" and "us \<noteq> []" and "length us < 2 ^ 40"
  shows "percent (fmean (map data_confidence us))"
  using assms by (intro fmean_percent) (auto simp: list_all_iff valid_result_def)

lemma decide_valid:
  assumes "list_all valid_result rs" and "rs \<noteq> []" and "length rs < 2 ^ 40"
  shows "valid_decision (decide_canonical rs v)"
proof -
  let ?us = "filter (\<lambda>r. status r \<in> set USABLE_STATUSES) rs"
  have us: "list_all valid_result ?us" "length ?us < 2 ^ 40"
    using assms by (auto simp: list_all_iff intro: le_less_trans [OF length_filter_le])
  have scored: "valid_decision (scored_decision rs v)" if "?us \<noteq> []"
    using round2_percent [OF aggregate_percent [OF us(1) that us(2)]]
      round2_percent [OF mean_percent [OF us(1) that us(2)]] round2_percent [OF clamp_percent_ok]
    by (simp add: valid_decision_def scored_decision_def Let_def decision_conf_def)
  have "\<not> list_all (\<lambda>r. status r \<notin> set USABLE_STATUSES) rs \<Longrightarrow> ?us \<noteq> []"
    by (auto simp: list_all_iff filter_empty_conv)
  moreover have "percent (round2 (fmean (map data_confidence rs)))"
    by (intro round2_percent mean_percent assms)
  ultimately show ?thesis
    using scored assms(2)
    by (auto simp: decide_canonical_def duplicate_reference_decision_def no_usable_decision_def
        unscored_def valid_decision_def)
qed

lemma rehydrate_valid:
  assumes "rehydrate lookup rs = Inr (cs, n)" and "list_all valid_result rs"
    and "\<And>i r. lookup i = Some (Inr r) \<Longrightarrow> valid_result r"
  shows "list_all valid_result cs \<and> length cs = length rs \<and> n \<le> length cs"
  using assms
proof (induction rs arbitrary: cs n)
  case (Cons r rs)
  then show ?case
    by (fastforce elim!: rbindE split: option.split_asm)
qed simp

lemma rehydrate_ids:
  assumes "map analysis_id rs = map analysis_id rs'"
    and "list_all (\<lambda>r. lookup (analysis_id r) \<noteq> None) rs"
  shows "rehydrate lookup rs = rehydrate lookup rs'"
  using assms
proof (induction rs arbitrary: rs')
  case (Cons r rs)
  then obtain r' ts where rs': "rs' = r' # ts" "analysis_id r = analysis_id r'"
    "map analysis_id rs = map analysis_id ts" by (cases rs') auto
  with Cons obtain payload where "lookup (analysis_id r') = Some payload"
    "rehydrate lookup rs = rehydrate lookup ts" by auto
  with rs' show ?case by simp
qed simp

section \<open>Properties\<close>

text \<open>
  C18: when the submitted and the stored results carry scores within their declared bounds, the
  decision's three scores are within theirs, whatever the floating-point rounding does, so
  building the decision never raises.
\<close>

theorem decision_scores_bounded:
  assumes "list_all valid_result (engine_results req)"
    and "\<And>i r. lookup i = Some (Inr r) \<Longrightarrow> valid_result r"
    and "length (engine_results req) < 2 ^ 40"
    and "analyze_decision lookup req = Inr d"
  shows "valid_decision d"
proof (cases "engine_results req = []")
  case True
  with assms(4) have "d = no_evidence_decision" by (simp add: analyze_decision_def)
  then show ?thesis by (simp add: no_evidence_decision_def unscored_def valid_decision_def)
next
  case False
  with assms(4) obtain cs v n where reh: "rehydrate lookup (engine_results req) = Inr (cs, n)"
    and d: "d = decide_canonical cs v"
    by (auto simp: analyze_decision_def canonicalize_persisted_def elim!: rbindE)
  from rehydrate_valid [OF reh assms(1)] assms(2) have
    "list_all valid_result cs" "length cs = length (engine_results req)" by blast+
  with False assms(3) show ?thesis unfolding d by (intro decide_valid) auto
qed

definition sample_result :: engine_result where
  "sample_result = (default_result \<lparr>fresh_analysis = ''a'', fresh_run = ''r'', fresh_time = 0\<rparr> B2 ''ok'')
     \<lparr>risk_score := 20, data_confidence := 90, engine_confidence := 80\<rparr>"

definition sample_request :: decision_request where
  "sample_request = \<lparr>engine_results = [sample_result], user_role = ''Individual'',
     risk_tolerance = ''moderate'', transaction_size = None, position_size = None, policy = []\<rparr>"

lemma sample_valid [simp]: "valid_result sample_result"
  by (simp add: valid_result_def sample_result_def default_result_def percent_def)

theorem decision_scores_bounded_witness:
  "\<exists>d. analyze_decision (\<lambda>_. None) sample_request = Inr d \<and> valid_decision d"
proof -
  obtain d where d: "analyze_decision (\<lambda>_. None) sample_request = Inr d"
    by (simp add: analyze_decision_def canonicalize_persisted_def sample_request_def)
  from sample_valid have "list_all valid_result (engine_results sample_request)"
    "length (engine_results sample_request) < 2 ^ 40"
    by (simp_all add: sample_request_def)
  from decision_scores_bounded [OF this(1) _ this(2) d] d show ?thesis by auto
qed

lemma proceed_scored:
  assumes "decision (decide_canonical rs v) = PROCEED"
  shows "decision (scored_decision rs v) = PROCEED" and "distinct (map analysis_id rs)"
    and "distinct (map result_engine rs)" and "rs \<noteq> []" and "list_all (\<lambda>r. status r = COMPLETED) rs"
proof -
  from assms show scored: "decision (scored_decision rs v) = PROCEED"
    and "distinct (map analysis_id rs)" and "rs \<noteq> []"
    by (auto simp: decide_canonical_def duplicate_reference_decision_def no_usable_decision_def
        unscored_def split: if_split_asm)
  from assms have "distinct (map (\<lambda>r. engine_value (result_engine r)) rs)"
    by (auto simp: decide_canonical_def duplicate_reference_decision_def unscored_def split: if_split_asm)
  then show "distinct (map result_engine rs)" by (simp add: distinct_map inj_on_def)
  from scored have "filter (\<lambda>r. status r \<noteq> COMPLETED) rs = []"
    by (auto simp: scored_decision_def Let_def choose_state_def split: if_split_asm)
  then show "list_all (\<lambda>r. status r = COMPLETED) rs" by (simp add: filter_empty_conv list_all_iff)
qed

lemma rehydrate_stored:
  assumes "rehydrate lookup rs = Inr (cs, n)" and "x \<in> set rs" and "lookup (analysis_id x) = Some (Inr r)"
  shows "r \<in> set cs"
  using assms
proof (induction rs arbitrary: cs n)
  case (Cons y rs)
  then show ?case by (fastforce elim!: rbindE split: option.split_asm)
qed simp

text \<open>
  C2: the decision to proceed is only taken on complete evidence: every canonical result is
  completed and without a hard blocker, no analysis or engine is counted twice, the mean data
  confidence is at least 35 and the mean risk is below 40.
\<close>

theorem proceed_sound:
  assumes "decision (decide_canonical rs v) = PROCEED"
  shows "rs \<noteq> [] \<and> list_all (\<lambda>r. status r = COMPLETED \<and> hard_blockers r = []) rs \<and>
    distinct (map analysis_id rs) \<and> distinct (map result_engine rs) \<and>
    35 \<le> fmean (map data_confidence rs) \<and> fmean (map risk_score rs) < 40"
proof -
  note facts = proceed_scored [OF assms]
  let ?us = "filter (\<lambda>r. status r \<in> set USABLE_STATUSES) rs"
  from facts(1) have hard: "hard_of ?us = []" and conf: "35 \<le> fmean (map data_confidence ?us)"
    and risk: "aggregate_risk ?us < 40"
    by (auto simp: scored_decision_def Let_def choose_state_def split: if_split_asm)
  from facts(5) have us: "?us = rs" by (auto simp: filter_id_conv USABLE_STATUSES_def list_all_iff)
  with hard conf risk facts show ?thesis
    by (auto simp: hard_of_def aggregate_risk_def list_all_iff)
qed

lemma sample_means:
  "fmean (map data_confidence [sample_result]) = 90" "fmean (map risk_score [sample_result]) = 20"
  using fmean_single [of 90] fmean_single [of 20]
  by (simp_all add: sample_result_def default_result_def)

theorem proceed_sound_witness:
  "decision (decide_canonical [sample_result] True) = PROCEED \<and> risk_score sample_result < 40"
proof -
  have fields: "status sample_result = COMPLETED" "hard_blockers sample_result = []"
    "risk_score sample_result = 20"
    by (simp_all add: sample_result_def default_result_def)
  have "decision (decide_canonical [sample_result] True) = PROCEED"
    using sample_means
    by (simp add: decide_canonical_def scored_decision_def Let_def choose_state_def fields
        USABLE_STATUSES_def hard_of_def aggregate_risk_def)
  from this proceed_sound [OF this] sample_means fields show ?thesis by simp
qed

text \<open>
  C17: a hard blocker on a usable result leads to AVOID when no two results share an analysis or an
  engine (those are refused as UNKNOWN). The reported risk is then the largest risk score of the
  usable results, rounded to two digits, never an average that hides it, and the critical findings
  name every blocker of the result.
\<close>

theorem hard_blocker_avoids:
  assumes "distinct (map analysis_id rs)" and "distinct (map result_engine rs)"
    and "r \<in> set rs" and "status r \<in> set USABLE_STATUSES" and "hard_blockers r \<noteq> []"
  shows "decision (decide_canonical rs v) = AVOID \<and>
    (\<exists>worst \<in> set rs. status worst \<in> set USABLE_STATUSES \<and>
      overall_risk_score (decide_canonical rs v) = round2 (risk_score worst) \<and>
      list_all (\<lambda>q. status q \<in> set USABLE_STATUSES \<longrightarrow> risk_score q \<le> risk_score worst) rs) \<and>
    set (hard_blockers r) \<subseteq> set (critical_findings (decide_canonical rs v))"
proof -
  let ?us = "filter (\<lambda>r. status r \<in> set USABLE_STATUSES) rs"
  have r: "r \<in> set ?us" using assms(3,4) by simp
  then have hard: "hard_of ?us \<noteq> []" "set (hard_blockers r) \<subseteq> set (hard_of ?us)"
    using assms(5) by (auto simp: hard_of_def)
  have "distinct (map (\<lambda>r. engine_value (result_engine r)) rs)"
    using assms(2) by (simp add: distinct_map inj_on_def)
  then have d: "decide_canonical rs v = scored_decision rs v"
    using assms(1,3,4) by (auto simp: decide_canonical_def list_all_iff)
  have "map risk_score ?us \<noteq> []" using r by (metis empty_iff list.map_disc_iff list.set(1))
  then obtain worst where worst: "worst \<in> set ?us" "max_list (map risk_score ?us) = risk_score worst"
    using max_list_mem [of "map risk_score ?us"] by auto
  moreover have "risk_score q \<le> risk_score worst" if "q \<in> set ?us" for q
    using max_list_ge [of "risk_score q" "map risk_score ?us"] that worst(2) by auto
  ultimately show ?thesis
    using hard unfolding d
    by (auto simp: scored_decision_def Let_def choose_state_def aggregate_risk_def list_all_iff
        intro!: bexI [of _ worst])
qed

theorem hard_blocker_avoids_witness:
  "let r = sample_result\<lparr>hard_blockers := [''drainer'']\<rparr> in
   distinct (map analysis_id [r]) \<and> decision (decide_canonical [r] True) = AVOID"
  using hard_blocker_avoids [of "[sample_result\<lparr>hard_blockers := [''drainer'']\<rparr>]"
      "sample_result\<lparr>hard_blockers := [''drainer'']\<rparr>" True]
  by (simp add: USABLE_STATUSES_def sample_result_def default_result_def)

text \<open>
  Once every submitted analysis is stored, the decision depends on the submitted identifiers
  alone: a caller cannot change it by altering scores, confidence or blockers.
\<close>

theorem stored_results_override:
  assumes "map analysis_id (engine_results req) = map analysis_id (engine_results req')"
    and "list_all (\<lambda>r. lookup (analysis_id r) \<noteq> None) (engine_results req)"
  shows "analyze_decision lookup req = analyze_decision lookup req'"
proof -
  have "engine_results req = [] \<longleftrightarrow> engine_results req' = []"
    using assms(1) by (metis map_is_Nil_conv)
  with rehydrate_ids [OF assms] show ?thesis
    by (simp add: analyze_decision_def canonicalize_persisted_def)
qed

theorem stored_results_override_witness:
  "analyze_decision (\<lambda>_. Some (Inr sample_result)) sample_request =
   analyze_decision (\<lambda>_. Some (Inr sample_result))
     (sample_request\<lparr>engine_results := [sample_result\<lparr>risk_score := 0, hard_blockers := []\<rparr>]\<rparr>)"
  by (rule stored_results_override) (simp_all add: sample_request_def)

text \<open>
  Results that share an analysis or an engine are refused: the decision is UNKNOWN with all
  scores but the data confidence zero.
\<close>

theorem duplicates_refused:
  assumes "\<not> distinct (map analysis_id rs) \<or> \<not> distinct (map result_engine rs)"
  shows "decision (decide_canonical rs v) = UNKNOWN \<and> overall_risk_score (decide_canonical rs v) = 0 \<and>
    decision_confidence (decide_canonical rs v) = 0 \<and> safer_option (decide_canonical rs v) = None"
proof -
  have "distinct (map (\<lambda>r. engine_value (result_engine r)) rs) \<Longrightarrow> distinct (map result_engine rs)"
    by (simp add: distinct_map inj_on_def)
  with assms show ?thesis
    by (auto simp: decide_canonical_def duplicate_reference_decision_def unscored_def)
qed

theorem duplicates_refused_witness:
  "decision (decide_canonical [sample_result, sample_result] False) = UNKNOWN"
  using duplicates_refused [of "[sample_result, sample_result]" False] by simp

text \<open>
  Completed results without blockers whose risk scores are all at least 80 lead to AVOID,
  and all at least 40 never to PROCEED: rounding the mean does not cross a threshold.
\<close>

theorem uniform_risk_thresholds:
  assumes "distinct (map analysis_id rs)" and "distinct (map result_engine rs)" and "rs \<noteq> []"
    and "list_all (\<lambda>r. valid_result r \<and> status r = COMPLETED) rs"
    and "35 \<le> fmean (map data_confidence rs)"
  shows "(if list_all (\<lambda>r. 80 \<le> risk_score r) rs then decision (decide_canonical rs v) = AVOID
    else if list_all (\<lambda>r. 40 \<le> risk_score r) rs then decision (decide_canonical rs v) \<noteq> PROCEED
    else True)"
proof -
  have us: "filter (\<lambda>r. status r \<in> set USABLE_STATUSES) rs = rs"
    "filter (\<lambda>r. status r \<noteq> COMPLETED) rs = []"
    using assms(4) by (auto simp: filter_id_conv filter_empty_conv list_all_iff USABLE_STATUSES_def)
  have "distinct (map (\<lambda>r. engine_value (result_engine r)) rs)"
    using assms(2) by (simp add: distinct_map inj_on_def)
  moreover have "\<not> list_all (\<lambda>r. status r \<notin> set USABLE_STATUSES) rs"
    using assms(3,4) by (cases rs) (auto simp: USABLE_STATUSES_def)
  ultimately have d: "decide_canonical rs v = scored_decision rs v"
    using assms(1) by (simp add: decide_canonical_def)
  have len: "length rs \<le> 10"
  proof -
    have "length rs = card (set (map result_engine rs))"
      using assms(2) distinct_card by (metis length_map)
    also have "\<dots> \<le> card (set [B1, B2, B3, B4, B5, F1, F2, F3, F4, F5])"
      by (intro card_mono) (auto, metis engine_id.exhaust)
    also have "\<dots> \<le> 10" by simp
    finally show ?thesis .
  qed
  have mean: "of_int a \<le> fmean (map risk_score rs)"
    if "0 \<le> a" "list_all (\<lambda>r. of_int a \<le> risk_score r) rs" for a
    using that assms(3,4) len
    by (intro fmean_bounds(1) [where b = 100]) (auto simp: list_all_iff valid_result_def percent_def)
  show ?thesis
    using mean [of 80] mean [of 40] assms(5) us
    by (auto simp: d scored_decision_def Let_def choose_state_def aggregate_risk_def)
qed


theorem uniform_risk_thresholds_witness:
  "decision (decide_canonical [sample_result\<lparr>risk_score := 80\<rparr>] False) = AVOID"
proof -
  have "35 \<le> fmean (map data_confidence [sample_result\<lparr>risk_score := 80\<rparr>])"
    using sample_means by simp
  from uniform_risk_thresholds [OF _ _ _ _ this, of False] show ?thesis
    by (simp add: sample_result_def default_result_def valid_result_def percent_def)
qed

end
