(* ===== verification/Pipeline.thy ===== *)
theory Pipeline
  imports EvmCalldata Engines Decision
begin

text \<open>
  Properties that span components: calldata decoded by \<open>evm_decode.py\<close> as engine B1
  summarises it, and live results of the dispatch as the decision engine judges them.
\<close>

section \<open>From calldata to the observations of B1\<close>

definition approve_entry :: "nat \<Rightarrow> nat \<Rightarrow> pydict" where
  "approve_entry a n = [(''status'', VStr ''DECODED_STANDARD_SELECTOR''),
     (''selector'', VStr ''0x095ea7b3''), (''signature'', VStr ''approve(address,uint256)''),
     (''standard'', VStr ''ERC20_OR_ERC721_AMBIGUOUS_WITHOUT_CONTRACT_INTERFACE''),
     (''parameters'', VDict [(''spender_or_approved'', VStr (address_text a)),
        (''amount_or_token_id'', VInt (int n))]),
     (''unlimited_approval_candidate'', VBool (int n = UINT256_MAX)), (''confidence'', VInt 88)]"

lemma approve_calldata:
  assumes "a < 2 ^ 160" and "n < 2 ^ 256"
  shows "decode_common_calldata (VStr (''0x095ea7b3'' @ abi_address a @ abi_uint n @ tail)) =
    VDict (approve_entry a n)"
  using assms unfolding standard_dispatch decode_approve_call_def approve_entry_def
  by (simp add: addr.dec_words uint.dec_words del: append_Cons)

lemma approve_entry_get [simp]:
  "dict_get (approve_entry a n) ''status'' = VStr ''DECODED_STANDARD_SELECTOR''"
  "dict_get (approve_entry a n) ''signature'' = VStr ''approve(address,uint256)''"
  "dict_get (approve_entry a n) ''parameters'' =
     VDict [(''spender_or_approved'', VStr (address_text a)), (''amount_or_token_id'', VInt (int n))]"
  "dict_get (approve_entry a n) ''unlimited_approval_candidate'' = VBool (int n = UINT256_MAX)"
  by (simp_all add: approve_entry_def dict_get_def)

lemma int_uint256_max: "int n = UINT256_MAX \<longleftrightarrow> n = 2 ^ 256 - 1"
  unfolding UINT256_MAX_def by (metis int_ops(1) nat_int of_nat_diff of_nat_numeral of_nat_power
      one_le_numeral one_le_power of_nat_1)

definition approve_candidate :: "pyval \<Rightarrow> pydict \<Rightarrow> pydict" where
  "approve_candidate to decoded = [(''trace_index'', VNone), (''contract'', to), (''decode'', VDict decoded),
     (''source'', VStr ''entry_calldata'')]"

lemma approve_scoped:
  "dict_get (b1_approval_scope (approve_candidate to (approve_entry a n))) ''scope'' =
     VStr (if int n = UINT256_MAX then ''UINT256_MAX_CANDIDATE'' else ''BOUNDED_AMOUNT_OR_TOKEN_ID'')"
  "dict_get (b1_approval_scope (approve_candidate to (approve_entry a n))) ''contract'' =
     b1_canonical_address to"
  "dict_get (b1_approval_scope (approve_candidate to (approve_entry a n))) ''source'' =
     VStr ''entry_calldata''"
  by (simp_all add: approve_candidate_def b1_approval_scope_def approve_scope_def scope_as_def Let_def)

lemma approve_signals:
  "approval_signals False [b1_approval_scope (approve_candidate to (approve_entry a n))] =
     (if int n = UINT256_MAX \<and> b1_canonical_address to \<noteq> VNone
      then [VDict [(''type'', VStr ''UNLIMITED_APPROVAL_CANDIDATE''), (''category'', VStr ''permission_scope''),
        (''count'', VInt 1), (''candidates'', VList [VDict
          [(''trace_index'', dict_get (b1_approval_scope (approve_candidate to (approve_entry a n))) ''trace_index''),
           (''contract'', b1_canonical_address to)]])]]
      else [])"
  by (simp add: approval_signals_def approval_signal_def approve_scoped)

lemma approve_effects:
  assumes "dict_get m ''calldata_decode'' = VDict (approve_entry a n)" and "dict_get m ''to'' = to"
  shows "effect_parts_of m [] False [] False [] (approve_entry a n) =
    Inr \<lparr>part_approvals = [b1_approval_scope (approve_candidate to (approve_entry a n))],
      part_transfers = [], part_changes = [], part_assets = [], part_events = []\<rparr>"
  using assms
  by (simp add: effect_parts_of_def entry_approval_def listed_def in_texts_def dicts_of_def
      approve_candidate_def)

lemma approve_observations:
  "\<exists>d. b1_security_observations (approve_entry a n) [] False [] False [c] = Inr d \<and>
     dict_get d ''signals'' = VList (approval_signals False [c])"
  by (simp add: b1_security_observations_def canonical_trace_def no_call_signals state_signals_def
      state_signal_def entry_available_def in_texts_def Let_def)

text \<open>
  For a transaction that calls \<open>approve\<close> with a canonically encoded spender and amount, and
  without a trace, a state difference or event logs, the summary of B1 is always produced, and it
  signals an unlimited approval exactly when the amount is the largest 256-bit integer and the
  called contract is a well-formed address.
\<close>

theorem approval_reaches_summary:
  assumes "a < 2 ^ 160" and "n < 2 ^ 256"
    and "dict_get m ''calldata_decode'' =
      decode_common_calldata (VStr (''0x095ea7b3'' @ abi_address a @ abi_uint n @ tail))"
    and "dict_get m ''call_trace'' = VNone" and "dict_get m ''state_diff'' = VNone"
    and "dict_get m ''event_effects'' = VNone"
  shows "\<exists>s d signals. b1_transaction_effects_summary m = Inr s \<and>
    dict_get s ''security_observations'' = VDict d \<and> dict_get d ''signals'' = VList signals \<and>
    ((\<exists>x. VDict x \<in> set signals \<and> dict_get x ''type'' = VStr ''UNLIMITED_APPROVAL_CANDIDATE'') \<longleftrightarrow>
     n = 2 ^ 256 - 1 \<and> b1_canonical_address (dict_get m ''to'') \<noteq> VNone)"
proof -
  let ?c = "b1_approval_scope (approve_candidate (dict_get m ''to'') (approve_entry a n))"
  have entry: "dict_get m ''calldata_decode'' = VDict (approve_entry a n)"
    using assms(3) by (simp only: approve_calldata [OF assms(1,2)])
  obtain d where d: "b1_security_observations (approve_entry a n) [] False [] False [?c] = Inr d"
    and signals: "dict_get d ''signals'' = VList (approval_signals False [?c])"
    using approve_observations by blast
  obtain s where s: "b1_transaction_effects_summary m = Inr s"
    "dict_get s ''security_observations'' = VDict d"
    by (simp add: b1_transaction_effects_summary_def entry assms(4-6) dict_or_empty_def diff_available_def
        approve_effects [OF entry refl] d entry_available_def in_texts_def Let_def)
  have "(\<exists>x. VDict x \<in> set (approval_signals False [?c]) \<and>
      dict_get x ''type'' = VStr ''UNLIMITED_APPROVAL_CANDIDATE'') \<longleftrightarrow>
    n = 2 ^ 256 - 1 \<and> b1_canonical_address (dict_get m ''to'') \<noteq> VNone"
    unfolding approve_signals int_uint256_max by (simp split: if_split)
  with s signals show ?thesis by blast
qed

lemma sample_token: "b1_canonical_address (VStr (''0x'' @ replicate 40 CHR ''0'')) \<noteq> VNone"
  by code_simp

theorem approval_reaches_summary_witness:
  "\<exists>s d signals x. b1_transaction_effects_summary [(''calldata_decode'', decode_common_calldata
         (VStr (''0x095ea7b3'' @ abi_address 1 @ abi_uint (2 ^ 256 - 1) @ []))),
       (''to'', VStr (''0x'' @ replicate 40 CHR ''0''))] = Inr s \<and>
     dict_get s ''security_observations'' = VDict d \<and> dict_get d ''signals'' = VList signals \<and>
     VDict x \<in> set signals \<and> dict_get x ''type'' = VStr ''UNLIMITED_APPROVAL_CANDIDATE''"
proof -
  obtain n :: nat where n: "n = 2 ^ 256 - 1" by blast
  have small: "(1 :: nat) < 2 ^ 160" "n < 2 ^ 256" by (simp_all add: n)
  obtain to where to: "to = VStr (''0x'' @ replicate 40 CHR ''0'')" by blast
  let ?m = "[(''calldata_decode'', decode_common_calldata
      (VStr (''0x095ea7b3'' @ abi_address 1 @ abi_uint n @ []))), (''to'', to)]"
  have "dict_get ?m ''calldata_decode'' = decode_common_calldata
      (VStr (''0x095ea7b3'' @ abi_address 1 @ abi_uint n @ []))"
    "dict_get ?m ''call_trace'' = VNone" "dict_get ?m ''state_diff'' = VNone"
    "dict_get ?m ''event_effects'' = VNone" "dict_get ?m ''to'' = to"
    unfolding dict_get_Cons dict_get_Nil by simp_all
  from approval_reaches_summary [OF small this(1-4)] this(5) n to sample_token
  show ?thesis by metis
qed

section \<open>From a live run to the decision\<close>

text \<open>
  C15: when a live run ends with source conflicts that are not resolved and its result is what the
  store holds for one of the submitted analyses, the decision is never to proceed, whatever the
  submitted copies claim.
\<close>

theorem conflict_never_proceeds:
  assumes "run_live rep ids live e inputs = Inr r" and "provider_conflicts r \<noteq> []"
    and "x \<in> set (engine_results req)" and "lookup (analysis_id x) = Some (Inr r)"
    and "analyze_decision lookup req = Inr d"
  shows "decision d \<noteq> PROCEED"
proof
  assume "decision d = PROCEED"
  with assms(3,5) obtain cs v n where cs: "rehydrate lookup (engine_results req) = Inr (cs, n)"
    and proceed: "decision (decide_canonical cs v) = PROCEED"
    by (auto simp: analyze_decision_def canonicalize_persisted_def elim!: rbindE split: if_split_asm)
  from rehydrate_stored [OF cs assms(3,4)] proceed_scored(5) [OF proceed]
  have "status r = COMPLETED" by (simp add: list_all_iff)
  moreover from assms(1) obtain r0 where r0: "normalize_current_live_contract r0 = Inr r"
    unfolding run_live_def Let_def by (elim rbindE)
  have "status r \<noteq> COMPLETED"
    by (rule normalized_form [OF r0]) (use assms(2) in \<open>auto simp: conflict_status_def\<close>)
  ultimately show False by simp
qed

theorem conflict_never_proceeds_witness:
  "\<exists>r d. run_live (\<lambda>_. []) sample_ids (\<lambda>_ _. Inr conflicted_result) F2 [] = Inr r \<and>
     analyze_decision (\<lambda>_. Some (Inr r)) sample_request = Inr d \<and> decision d \<noteq> PROCEED"
proof -
  obtain r where r: "normalize_current_live_contract conflicted_result = Inr r" "provider_conflicts r \<noteq> []"
    using conflicted_normalized by blast
  then have run: "run_live (\<lambda>_. []) sample_ids (\<lambda>_ _. Inr conflicted_result) F2 [] = Inr r"
    by (simp add: run_live_def)
  obtain d where d: "analyze_decision (\<lambda>_. Some (Inr r)) sample_request = Inr d"
    by (simp add: analyze_decision_def canonicalize_persisted_def sample_request_def)
  have "sample_result \<in> set (engine_results sample_request)" by (simp add: sample_request_def)
  from conflict_never_proceeds [OF run r(2) this refl d] run d show ?thesis by blast
qed

end
