(* ===== verification/ControlPlane.thy ===== *)
theory ControlPlane
  imports PyNumber
begin

text \<open>
  The provider control plane of \<open>runtime_backend.py\<close>: the protocol \<open>ControlPlane\<close> as a
  record of operations and as the locale \<open>lawful_plane\<close>, and its in-process implementation
  \<open>MemoryControlPlane\<close>. The sliding request window, which the login limiter shares, is the
  locale \<open>rate_window\<close>. Clock readings are finite doubles; a cool-down read from the
  environment may be infinite, so an opening time is a \<open>pyfloat\<close>.
\<close>

section \<open>Sliding windows\<close>

definition expire_slots :: "rat \<Rightarrow> rat list \<Rightarrow> rat list" where
  "expire_slots now q = dropWhile (\<lambda>t. t \<le> fsub now 60) q"

definition take_slot :: "int \<Rightarrow> rat \<Rightarrow> rat list \<Rightarrow> bool \<times> rat list" where
  "take_slot limit now q =
     (let live = expire_slots now q in
      if limit \<le> int (length live) then (False, live) else (True, live @ [now]))"

text \<open>The grants of a history that count against a request at a given time.\<close>

definition in_window :: "(rat \<Rightarrow> rat) \<Rightarrow> rat \<Rightarrow> rat list \<Rightarrow> rat list" where
  "in_window cutoff now history = filter (\<lambda>t. cutoff now < t \<and> t \<le> now) history"

definition within_limit :: "(rat \<Rightarrow> rat) \<Rightarrow> int \<Rightarrow> rat list \<Rightarrow> bool" where
  "within_limit cutoff limit history \<longleftrightarrow> (\<forall>now. int (length (in_window cutoff now history)) \<le> limit)"

text \<open>A queue tracks a history when it is the end of it and the rest has expired for good.\<close>

definition tracks :: "(rat \<Rightarrow> rat) \<Rightarrow> rat list \<Rightarrow> rat \<Rightarrow> rat list \<Rightarrow> bool" where
  "tracks cutoff history bound queue \<longleftrightarrow>
     sorted history \<and> (\<forall>t\<in>set history. t \<le> bound) \<and>
     (\<exists>old. history = old @ queue \<and> (\<forall>t\<in>set old. t \<le> cutoff bound))"

lemma within_limit_Nil [simp]: "0 \<le> limit \<Longrightarrow> within_limit cutoff limit []"
  by (simp add: within_limit_def in_window_def)

lemma tracks_Nil [simp]: "tracks cutoff [] bound []"
  by (simp add: tracks_def)

lemma sorted_split_at: "sorted (q :: rat list) \<Longrightarrow> q = filter (\<lambda>t. t \<le> c) q @ filter (\<lambda>t. c < t) q"
proof (induction q)
  case (Cons a q)
  show ?case
  proof (cases "a \<le> c")
    case False
    with Cons.prems have "filter (\<lambda>t. t \<le> c) q = []" "filter (\<lambda>t. c < t) q = q"
      by (auto simp: filter_empty_conv filter_id_conv)
    with False show ?thesis by simp
  qed (use Cons in simp)
qed simp

locale rate_window =
  fixes take_step :: "int \<Rightarrow> rat \<Rightarrow> rat list \<Rightarrow> bool \<times> rat list" and cutoff :: "rat \<Rightarrow> rat"
  assumes cutoff_mono: "a \<le> b \<Longrightarrow> cutoff a \<le> cutoff b"
    and step_granted: "sorted q \<Longrightarrow>
      fst (take_step limit now q) \<longleftrightarrow> int (length (filter (\<lambda>t. cutoff now < t) q)) < limit"
    and step_queue: "sorted q \<Longrightarrow> snd (take_step limit now q) =
      filter (\<lambda>t. cutoff now < t) q @ (if fst (take_step limit now q) then [now] else [])"
begin

lemma tracks_later: "tracks cutoff history a queue \<Longrightarrow> a \<le> b \<Longrightarrow> tracks cutoff history b queue"
  using cutoff_mono [of a b] by (fastforce simp: tracks_def)

text \<open>One request keeps the queue in step with the history, and the history within the limit.\<close>

lemma step_tracks:
  assumes "tracks cutoff history bound q" and "bound \<le> now"
    and "take_step limit now q = (ok, q')"
  shows "tracks cutoff (history @ (if ok then [now] else [])) now q'"
    and "ok \<longleftrightarrow> int (length (filter (\<lambda>t. cutoff now < t) history)) < limit"
proof -
  from assms(1) obtain old where s: "sorted history" "\<And>t. t \<in> set history \<Longrightarrow> t \<le> bound"
    and h: "history = old @ q" and old: "\<And>t. t \<in> set old \<Longrightarrow> t \<le> cutoff bound"
    by (auto simp: tracks_def)
  have sq: "sorted q" using s(1) unfolding h by (simp add: sorted_append)
  have gone: "t \<le> cutoff now" if "t \<in> set old" for t
    using old [OF that] cutoff_mono [OF assms(2)] by simp
  then have "filter (\<lambda>t. cutoff now < t) old = []" by (force simp: filter_empty_conv)
  then have live: "filter (\<lambda>t. cutoff now < t) history = filter (\<lambda>t. cutoff now < t) q"
    by (simp add: h)
  show "ok \<longleftrightarrow> int (length (filter (\<lambda>t. cutoff now < t) history)) < limit"
    using step_granted [OF sq, of limit now] assms(3) live by simp
  have q': "q' = filter (\<lambda>t. cutoff now < t) q @ (if ok then [now] else [])"
    using step_queue [OF sq, of limit now] assms(3) by simp
  let ?new = "if ok then [now] else []"
  have "history @ ?new = (old @ filter (\<lambda>t. t \<le> cutoff now) q) @ q'"
    unfolding q' h using sorted_split_at [OF sq, of "cutoff now"] by simp
  moreover have "sorted (history @ ?new)" "\<forall>t\<in>set (history @ ?new). t \<le> now"
    using s assms(2) by (auto simp: sorted_append intro: order.trans)
  ultimately show "tracks cutoff (history @ ?new) now q'"
    unfolding tracks_def using gone by (intro conjI exI) auto
qed

lemma step_within:
  assumes "tracks cutoff history bound q" and "bound \<le> now" and "within_limit cutoff limit history"
    and "take_step limit now q = (ok, q')"
  shows "within_limit cutoff limit (history @ (if ok then [now] else []))"
  unfolding within_limit_def
proof
  fix t
  show "int (length (in_window cutoff t (history @ (if ok then [now] else [])))) \<le> limit"
  proof (cases "ok \<and> cutoff t < now \<and> now \<le> t")
    case True
    then have "int (length (filter (\<lambda>t. cutoff now < t) history)) < limit"
      using step_tracks(2) [OF assms(1,2,4)] by simp
    moreover have "length (in_window cutoff t history) \<le> length (filter (\<lambda>t. cutoff now < t) history)"
      unfolding in_window_def using cutoff_mono [of now t] True
      by (induction history) auto
    ultimately show ?thesis using True by (simp add: in_window_def)
  next
    case False
    with assms(3) show ?thesis by (auto simp: within_limit_def in_window_def)
  qed
qed

end

text \<open>The queue of the code is such a window: the double \<open>now - 60.0\<close> is monotone in \<open>now\<close>.\<close>

lemma sixty_mono: "a \<le> b \<Longrightarrow> fsub a 60 \<le> fsub b 60"
  unfolding fsub_def by (rule rnd_mono) simp

lemma expire_slots_sorted: "sorted q \<Longrightarrow> expire_slots now q = filter (\<lambda>t. fsub now 60 < t) q"
  unfolding expire_slots_def
  by (induction q) (auto intro!: filter_True [symmetric])

interpretation slots: rate_window take_slot "\<lambda>now. fsub now 60"
  by unfold_locales (auto simp: take_slot_def Let_def expire_slots_sorted sixty_mono)

section \<open>Circuits\<close>

type_synonym plane_key = "string \<times> string"

record circuit_state =
  consecutive_failures :: nat
  opened_until :: pyfloat

definition closed_circuit :: circuit_state where
  "closed_circuit = \<lparr>consecutive_failures = 0, opened_until = Fin 0\<rparr>"

definition is_open :: "rat \<Rightarrow> circuit_state \<Rightarrow> bool" where
  "is_open now c = num_less (Fin now) (opened_until c)"

text \<open>What a query makes of a circuit, and what a failure does.\<close>

definition settle :: "rat \<Rightarrow> circuit_state \<Rightarrow> circuit_state" where
  "settle now c =
     (if opened_until c \<noteq> Fin 0 \<and> num_le (opened_until c) (Fin now)
      then c\<lparr>opened_until := Fin 0, consecutive_failures := 0\<rparr> else c)"

definition trip :: "rat \<Rightarrow> int \<Rightarrow> pyfloat \<Rightarrow> circuit_state \<Rightarrow> circuit_state" where
  "trip now threshold cooldown c =
     (let c' = c\<lparr>consecutive_failures := consecutive_failures c + 1\<rparr> in
      if threshold \<le> int (consecutive_failures c')
      then c'\<lparr>opened_until := num_add (Fin now) cooldown\<rparr> else c')"

text \<open>The operations of the protocol.\<close>

record 's control_plane =
  plane_name :: string
  plane_consume :: "'s \<Rightarrow> plane_key \<Rightarrow> rat \<Rightarrow> int \<Rightarrow> bool \<times> 's"
  plane_circuit :: "'s \<Rightarrow> plane_key \<Rightarrow> rat \<Rightarrow> circuit_state \<times> 's"
  plane_success :: "'s \<Rightarrow> plane_key \<Rightarrow> 's"
  plane_failure :: "'s \<Rightarrow> plane_key \<Rightarrow> rat \<Rightarrow> int \<Rightarrow> pyfloat \<Rightarrow> circuit_state \<times> 's"
  plane_reset :: "'s \<Rightarrow> 's"

locale lawful_plane =
  fixes cp :: "'s control_plane" and view :: "'s \<Rightarrow> plane_key \<Rightarrow> circuit_state"
  assumes consume_view: "view (snd (plane_consume cp s k now limit)) = view s"
    and consume_zero: "\<not> fst (plane_consume cp s k now 0)"
    and circuit_value: "fst (plane_circuit cp s k now) = settle now (view s k)"
    and circuit_view: "view (snd (plane_circuit cp s k now)) = (view s)(k := settle now (view s k))"
    and success_view: "view (plane_success cp s k) = (view s)(k := closed_circuit)"
    and failure_value: "fst (plane_failure cp s k now threshold cooldown) =
      trip now threshold cooldown (view s k)"
    and failure_view: "view (snd (plane_failure cp s k now threshold cooldown)) =
      (view s)(k := trip now threshold cooldown (view s k))"
begin

text \<open>Failures add up, and from the threshold on each one moves the opening time.\<close>

lemma failures_view:
  "view (fold (\<lambda>t s. snd (plane_failure cp s k t threshold cooldown)) ts s) k =
     fold (\<lambda>t. trip t threshold cooldown) ts (view s k)"
  by (induction ts arbitrary: s) (simp_all add: failure_view)

lemma failures_frame:
  "k' \<noteq> k \<Longrightarrow> view (fold (\<lambda>t s. snd (plane_failure cp s k t threshold cooldown)) ts s) k' = view s k'"
  by (induction ts arbitrary: s) (simp_all add: failure_view)

lemma query_again: "settle now (settle now c) = settle now c"
  by (auto simp: settle_def)

lemma query_stable:
  "fst (plane_circuit cp (snd (plane_circuit cp s k now)) k now) = fst (plane_circuit cp s k now)"
  by (simp add: circuit_value circuit_view query_again)

end

lemma trips_from_closed:
  assumes "ts \<noteq> []" and "threshold \<le> int (consecutive_failures c) + int (length ts)"
  shows "fold (\<lambda>t. trip t threshold cooldown) ts c =
    c\<lparr>consecutive_failures := consecutive_failures c + length ts,
      opened_until := num_add (Fin (last ts)) cooldown\<rparr>"
proof -
  have count: "consecutive_failures (fold (\<lambda>t. trip t threshold cooldown) us c) =
      consecutive_failures c + length us" for us
    by (induction us arbitrary: c) (simp_all add: trip_def Let_def)
  have more: "circuit_state.more (fold (\<lambda>t. trip t threshold cooldown) us c) = circuit_state.more c" for us
    by (induction us arbitrary: c) (simp_all add: trip_def Let_def)
  obtain us t where ts: "ts = us @ [t]" using assms(1) by (cases ts rule: rev_cases) auto
  show ?thesis
    using assms(2) count [of us] more [of us] unfolding ts
    by (simp add: trip_def Let_def)
qed

section \<open>The in-process control plane\<close>

record memory_plane =
  budgets :: "plane_key \<Rightarrow> rat list"
  circuits :: "plane_key \<Rightarrow> circuit_state"

definition empty_plane :: memory_plane where
  "empty_plane = \<lparr>budgets = (\<lambda>_. []), circuits = (\<lambda>_. closed_circuit)\<rparr>"

definition memory_consume :: "memory_plane \<Rightarrow> plane_key \<Rightarrow> rat \<Rightarrow> int \<Rightarrow> bool \<times> memory_plane" where
  "memory_consume s k now limit =
     (if limit = 0 then (False, s)
      else case take_slot limit now (budgets s k) of (ok, q) \<Rightarrow>
        (ok, s\<lparr>budgets := (budgets s)(k := q)\<rparr>))"

definition memory_circuit :: "memory_plane \<Rightarrow> plane_key \<Rightarrow> rat \<Rightarrow> circuit_state \<times> memory_plane" where
  "memory_circuit s k now =
     (let c = settle now (circuits s k) in (c, s\<lparr>circuits := (circuits s)(k := c)\<rparr>))"

definition memory_success :: "memory_plane \<Rightarrow> plane_key \<Rightarrow> memory_plane" where
  "memory_success s k = s\<lparr>circuits := (circuits s)(k := closed_circuit)\<rparr>"

definition memory_failure ::
  "memory_plane \<Rightarrow> plane_key \<Rightarrow> rat \<Rightarrow> int \<Rightarrow> pyfloat \<Rightarrow> circuit_state \<times> memory_plane" where
  "memory_failure s k now threshold cooldown =
     (let c = trip now threshold cooldown (circuits s k) in (c, s\<lparr>circuits := (circuits s)(k := c)\<rparr>))"

definition memory_reset :: "memory_plane \<Rightarrow> memory_plane" where
  "memory_reset s = s\<lparr>budgets := (\<lambda>_. []), circuits := (\<lambda>_. closed_circuit)\<rparr>"

definition memory_control :: "memory_plane control_plane" where
  "memory_control = \<lparr>plane_name = ''memory'', plane_consume = memory_consume,
     plane_circuit = memory_circuit, plane_success = memory_success,
     plane_failure = memory_failure, plane_reset = memory_reset\<rparr>"

lemmas memory_ops = memory_control_def memory_consume_def memory_circuit_def memory_success_def
  memory_failure_def Let_def

interpretation memory: lawful_plane memory_control circuits
  by unfold_locales (simp_all add: memory_ops fun_eq_iff split: prod.split)

section \<open>Runs of the control plane\<close>

datatype plane_event = Consumed plane_key rat bool | Queried plane_key rat circuit_state
  | Succeeded plane_key | Failed plane_key rat

inductive plane_run :: "int \<Rightarrow> int \<Rightarrow> pyfloat \<Rightarrow> rat \<Rightarrow> plane_event list \<Rightarrow> memory_plane \<Rightarrow> bool"
  for limit threshold cooldown where
  start: "plane_run limit threshold cooldown t [] empty_plane"
| consume: "plane_run limit threshold cooldown t evs s \<Longrightarrow> t \<le> now \<Longrightarrow>
    memory_consume s k now limit = (ok, s') \<Longrightarrow>
    plane_run limit threshold cooldown now (evs @ [Consumed k now ok]) s'"
| query: "plane_run limit threshold cooldown t evs s \<Longrightarrow> t \<le> now \<Longrightarrow>
    memory_circuit s k now = (c, s') \<Longrightarrow>
    plane_run limit threshold cooldown now (evs @ [Queried k now c]) s'"
| success: "plane_run limit threshold cooldown t evs s \<Longrightarrow> s' = memory_success s k \<Longrightarrow>
    plane_run limit threshold cooldown t (evs @ [Succeeded k]) s'"
| failure: "plane_run limit threshold cooldown t evs s \<Longrightarrow> t \<le> now \<Longrightarrow>
    memory_failure s k now threshold cooldown = (c, s') \<Longrightarrow>
    plane_run limit threshold cooldown now (evs @ [Failed k now]) s'"

inductive_cases plane_run_consumedE: "plane_run limit threshold cooldown t (evs @ [Consumed k now ok]) s"

fun granted :: "plane_key \<Rightarrow> plane_event \<Rightarrow> rat list" where
  "granted k (Consumed k' now ok) = (if k' = k \<and> ok then [now] else [])"
| "granted k _ = []"

definition grants :: "plane_key \<Rightarrow> plane_event list \<Rightarrow> rat list" where
  "grants k evs = concat (map (granted k) evs)"

text \<open>Failures of a key since its last success.\<close>

fun unbroken :: "plane_key \<Rightarrow> nat \<Rightarrow> plane_event \<Rightarrow> nat" where
  "unbroken k n (Failed k' now) = (if k' = k then n + 1 else n)"
| "unbroken k n (Succeeded k') = (if k' = k then 0 else n)"
| "unbroken k n _ = n"

definition failure_streak :: "plane_key \<Rightarrow> plane_event list \<Rightarrow> nat" where
  "failure_streak k evs = foldl (unbroken k) 0 evs"

lemma history_snoc [simp]:
  "grants k [] = []" "grants k (evs @ [e]) = grants k evs @ granted k e"
  "failure_streak k [] = 0" "failure_streak k (evs @ [e]) = unbroken k (failure_streak k evs) e"
  by (simp_all add: grants_def failure_streak_def)

lemma consume_history:
  assumes "memory_consume s k now limit = (ok, s')"
    and "tracks (\<lambda>now. fsub now 60) history t (budgets s k)" and "t \<le> now" and "0 \<le> limit"
    and "within_limit (\<lambda>now. fsub now 60) limit history"
  shows "tracks (\<lambda>now. fsub now 60) (history @ (if ok then [now] else [])) now (budgets s' k)"
    and "within_limit (\<lambda>now. fsub now 60) limit (history @ (if ok then [now] else []))"
    and "ok \<longleftrightarrow> int (length (filter (\<lambda>t. fsub now 60 < t) history)) < limit"
proof -
  consider "limit = 0" "s' = s" "\<not> ok" | q where "take_slot limit now (budgets s k) = (ok, q)"
    "s' = s\<lparr>budgets := (budgets s)(k := q)\<rparr>"
    using assms(1) by (cases "take_slot limit now (budgets s k)")
      (simp add: memory_consume_def split: if_split_asm)
  then have "tracks (\<lambda>now. fsub now 60) (history @ (if ok then [now] else [])) now (budgets s' k) \<and>
    within_limit (\<lambda>now. fsub now 60) limit (history @ (if ok then [now] else [])) \<and>
    (ok \<longleftrightarrow> int (length (filter (\<lambda>t. fsub now 60 < t) history)) < limit)"
  proof cases
    case 1
    with assms(2,3,5) slots.tracks_later [OF assms(2,3)] show ?thesis by simp
  next
    case 2
    from slots.step_tracks [OF assms(2,3) 2(1)] slots.step_within [OF assms(2,3,5) 2(1)] 2(2)
    show ?thesis by simp
  qed
  then show "tracks (\<lambda>now. fsub now 60) (history @ (if ok then [now] else [])) now (budgets s' k)"
    and "within_limit (\<lambda>now. fsub now 60) limit (history @ (if ok then [now] else []))"
    and "ok \<longleftrightarrow> int (length (filter (\<lambda>t. fsub now 60 < t) history)) < limit" by blast+
qed

lemma consume_frame:
  assumes "memory_consume s k now limit = (ok, s')"
  shows "circuits s' = circuits s" and "k' \<noteq> k \<Longrightarrow> budgets s' k' = budgets s k'"
  using assms by (cases "take_slot limit now (budgets s k)",
      auto simp: memory_consume_def split: if_split_asm)+

lemma run_tracks:
  assumes "plane_run limit threshold cooldown t evs s" and "0 \<le> limit"
  shows "tracks (\<lambda>now. fsub now 60) (grants k evs) t (budgets s k) \<and>
    within_limit (\<lambda>now. fsub now 60) limit (grants k evs)"
  using assms(1)
proof induction
  case (consume t evs s now k' ok s')
  then show ?case
  proof (cases "k' = k")
    case True
    from consume.IH have ih: "tracks (\<lambda>now. fsub now 60) (grants k evs) t (budgets s k')"
      "within_limit (\<lambda>now. fsub now 60) limit (grants k evs)" unfolding True by blast+
    from consume_history [OF consume.hyps(3) ih(1) consume.hyps(2) assms(2) ih(2)] True
    show ?thesis by simp
  next
    case False
    then have "budgets s' k = budgets s k" using consume_frame(2) [OF consume.hyps(3)] by auto
    with consume.IH slots.tracks_later [OF _ consume.hyps(2)] False show ?thesis by auto
  qed
qed (use assms(2) in \<open>auto simp: empty_plane_def memory_ops intro: slots.tracks_later\<close>)

lemma run_streak:
  assumes "plane_run limit threshold cooldown t evs s"
  shows "consecutive_failures (circuits s k) \<le> failure_streak k evs \<and>
    (opened_until (circuits s k) \<noteq> Fin 0 \<longrightarrow> threshold \<le> int (consecutive_failures (circuits s k)))"
  using assms
proof induction
  case (consume t evs s now k' ok s')
  then show ?case using consume_frame(1) [OF consume.hyps(3)] by simp
qed (auto simp: empty_plane_def closed_circuit_def memory_ops settle_def trip_def split: if_splits)

section \<open>Properties\<close>

text \<open>
  C13: in every run of the control plane with a clock that does not go back, no key is granted
  more than the limit of requests within any sixty seconds, and a request is refused exactly when
  the grants of the sixty seconds before it reach the limit.
\<close>

theorem budget_window_exact:
  assumes "plane_run limit threshold cooldown t (evs @ [Consumed k now ok]) s" and "0 \<le> limit"
  shows "within_limit (\<lambda>now. fsub now 60) limit (grants k (evs @ [Consumed k now ok])) \<and>
    (ok \<longleftrightarrow> int (length (filter (\<lambda>t. fsub now 60 < t) (grants k evs))) < limit)"
proof -
  from assms(1) obtain t0 s0 where r: "plane_run limit threshold cooldown t0 evs s0" "t0 \<le> now"
    "memory_consume s0 k now limit = (ok, s)"
    by (rule plane_run_consumedE) auto
  have t: "tracks (\<lambda>now. fsub now 60) (grants k evs) t0 (budgets s0 k)"
    "within_limit (\<lambda>now. fsub now 60) limit (grants k evs)"
    using run_tracks [OF r(1) assms(2)] by blast+
  from consume_history [OF r(3) t(1) r(2) assms(2) t(2)] show ?thesis by simp
qed

theorem budget_window_exact_witness:
  "\<exists>s. plane_run 1 1 (Fin 30) 61 ([Consumed (''w'', ''p'') 1 True] @ [Consumed (''w'', ''p'') 61 True]) s \<and>
     int (length (filter (\<lambda>t. fsub 61 60 < t) (grants (''w'', ''p'') [Consumed (''w'', ''p'') 1 True]))) < 1"
proof -
  let ?k = "(''w'', ''p'')"
  have r: "fsub 1 60 = - 59" "fsub 61 60 = 1"
    using rnd_of_int [of "- 59"] rnd_of_int [of 1] by (simp_all add: fsub_def)
  obtain s where a: "memory_consume empty_plane ?k 1 1 = (True, s)" "budgets s ?k = [1]"
    by (simp add: memory_consume_def take_slot_def expire_slots_def empty_plane_def)
  obtain s' where b: "memory_consume s ?k 61 1 = (True, s')"
    using a(2) r by (simp add: memory_consume_def take_slot_def expire_slots_def)
  have "plane_run 1 1 (Fin 30) 61 (([] @ [Consumed ?k 1 True]) @ [Consumed ?k 61 True]) s'"
    by (rule plane_run.consume, rule plane_run.consume, rule plane_run.start [of _ _ _ 0])
      (use a(1) b in simp_all)
  then have run: "plane_run 1 1 (Fin 30) 61 ([Consumed ?k 1 True] @ [Consumed ?k 61 True]) s'" by simp
  from run budget_window_exact [OF run] show ?thesis by auto
qed

text \<open>
  In every run, an open circuit has been earned: its key failed at least as often as the
  threshold since its last success.
\<close>

theorem open_circuit_earned:
  assumes "plane_run limit threshold cooldown t evs s" and "opened_until (circuits s k) \<noteq> Fin 0"
  shows "threshold \<le> int (failure_streak k evs)"
  using run_streak [OF assms(1), of k] assms(2) by linarith

theorem open_circuit_earned_witness:
  "1 \<le> int (failure_streak (''w'', ''p'') [Failed (''w'', ''p'') 0])"
proof -
  let ?k = "(''w'', ''p'')"
  obtain c s where s: "memory_failure empty_plane ?k 0 1 (Fin 30) = (c, s)"
    "opened_until (circuits s ?k) = num_add (Fin 0) (Fin 30)"
    by (simp add: memory_ops trip_def empty_plane_def closed_circuit_def)
  have "num_add (Fin 0) (Fin 30) \<noteq> Fin 0"
    using rnd_of_int [of 30] by (simp add: fl_small)
  moreover have "plane_run 1 1 (Fin 30) 0 ([] @ [Failed ?k 0]) s"
    by (rule plane_run.failure [OF plane_run.start [of _ _ _ 0] _ s(1)]) simp
  ultimately show ?thesis using open_circuit_earned [of 1 1 "Fin 30" 0 "[Failed ?k 0]" s ?k] s(2) by simp
qed

end
