(* ===== verification/ProviderRuntime.thy ===== *)
theory ProviderRuntime
  imports ControlPlane Endpoints
begin

text \<open>
  The provider runtime (\<open>provider_runtime.py\<close>): one logical request under cache, budget,
  retry and circuit control, over any control plane. The outside world of a request is a record
  of clock readings and, per attempt, what the provider call did; the module's dictionaries are
  the state. The persisted events are the list of calls to \<open>record_provider_request_event\<close>,
  whose failures the code swallows, and the sleeps are recorded, not waited for. Tracing spans
  only pass the attempt through.
\<close>

section \<open>Settings\<close>

type_synonym environ = "string \<Rightarrow> string option"

definition env_int :: "environ \<Rightarrow> string \<Rightarrow> int \<Rightarrow> int" where
  "env_int env name fallback =
     (case env name of
        None \<Rightarrow> max 0 fallback
      | Some text \<Rightarrow> (case py_int 10 text of None \<Rightarrow> fallback | Some n \<Rightarrow> max 0 n))"

definition env_float :: "environ \<Rightarrow> string \<Rightarrow> pyfloat \<Rightarrow> pyfloat" where
  "env_float env name fallback =
     (case env name of
        None \<Rightarrow> num_max (Fin 0) fallback
      | Some text \<Rightarrow> (case float_of_text text of None \<Rightarrow> fallback | Some x \<Rightarrow> num_max (Fin 0) x))"

definition provider_limit :: "environ \<Rightarrow> string \<Rightarrow> int" where
  "provider_limit env provider_id =
     env_int env (''RIVEXIS_PROVIDER_'' @ py_upper provider_id @ ''_CALLS_PER_MINUTE'')
       (env_int env ''RIVEXIS_PROVIDER_CALLS_PER_MINUTE'' 120)"

definition cost_per_attempt :: "environ \<Rightarrow> string \<Rightarrow> pyfloat" where
  "cost_per_attempt env provider_id =
     env_float env (''RIVEXIS_PROVIDER_'' @ py_upper provider_id @ ''_ESTIMATED_COST_USD_PER_ATTEMPT'')
       (env_float env ''RIVEXIS_PROVIDER_ESTIMATED_COST_USD_PER_ATTEMPT'' (Fin 0))"

record run_settings =
  max_retries :: int
  retry_base :: pyfloat
  retry_cap :: pyfloat
  failure_threshold :: int
  circuit_cooldown :: pyfloat
  attempt_cost :: pyfloat
  budget_limit :: int

definition run_settings_of :: "environ \<Rightarrow> string \<Rightarrow> run_settings" where
  "run_settings_of env provider_id =
     \<lparr>max_retries = env_int env ''RIVEXIS_PROVIDER_MAX_RETRIES'' 2,
      retry_base = env_float env ''RIVEXIS_PROVIDER_RETRY_BASE_SECONDS'' (Fin (rnd (5 / 100))),
      retry_cap = env_float env ''RIVEXIS_PROVIDER_RETRY_MAX_SECONDS'' (Fin (1 / 2)),
      failure_threshold = max 1 (env_int env ''RIVEXIS_PROVIDER_CIRCUIT_FAILURE_THRESHOLD'' 4),
      circuit_cooldown = env_float env ''RIVEXIS_PROVIDER_CIRCUIT_COOLDOWN_SECONDS'' (Fin 30),
      attempt_cost = cost_per_attempt env provider_id,
      budget_limit = provider_limit env provider_id\<rparr>"

definition scope_of :: "string option \<Rightarrow> string" where
  "scope_of workspace = (case workspace of None \<Rightarrow> ''GLOBAL'' | Some w \<Rightarrow> if w = [] then ''GLOBAL'' else w)"

section \<open>State\<close>

record telemetry =
  logical_calls :: nat
  attempts :: nat
  successes :: nat
  failures :: nat
  retries :: nat
  cache_hits :: nat
  rate_limited :: nat
  circuit_rejections :: nat
  total_latency_ms :: pyfloat
  estimated_cost_usd :: pyfloat
  last_error_code :: "string option"
  last_success_at :: "rat option"
  last_failure_at :: "rat option"

definition fresh_telemetry :: telemetry where
  "fresh_telemetry = \<lparr>logical_calls = 0, attempts = 0, successes = 0, failures = 0, retries = 0,
     cache_hits = 0, rate_limited = 0, circuit_rejections = 0, total_latency_ms = Fin 0,
     estimated_cost_usd = Fin 0, last_error_code = None, last_success_at = None,
     last_failure_at = None\<rparr>"

record request_event =
  event_provider :: string
  event_operation :: string
  event_endpoint :: string
  event_status :: string
  event_latency :: pyfloat
  event_attempts :: nat
  event_retries :: nat
  event_cost :: pyfloat
  event_error :: "string option"
  event_cache_hit :: bool

type_synonym flight_key = "string \<times> string \<times> string \<times> string"

record ('s, 'v) runtime =
  telemetry_of :: "(plane_key \<times> telemetry) list"
  cache :: "flight_key \<Rightarrow> (rat \<times> 'v) option"
  flights :: "flight_key list"
  plane :: 's
  persisted :: "(string \<times> request_event) list"
  sleeps :: "pyfloat list"

text \<open>An entry of a \<open>defaultdict(Telemetry)\<close>, and its update.\<close>

definition stat :: "('s, 'v) runtime \<Rightarrow> plane_key \<Rightarrow> telemetry" where
  "stat st k = (case map_of (telemetry_of st) k of None \<Rightarrow> fresh_telemetry | Some t \<Rightarrow> t)"

definition bump :: "plane_key \<Rightarrow> (telemetry \<Rightarrow> telemetry) \<Rightarrow> ('s, 'v) runtime \<Rightarrow> ('s, 'v) runtime" where
  "bump k f st = st\<lparr>telemetry_of := AList.update k (f (stat st k)) (telemetry_of st)\<rparr>"

definition persist_event :: "string \<Rightarrow> request_event \<Rightarrow> ('s, 'v) runtime \<Rightarrow> ('s, 'v) runtime" where
  "persist_event workspace ev st =
     (if workspace = ''GLOBAL'' then st else st\<lparr>persisted := persisted st @ [(workspace, ev)]\<rparr>)"

section \<open>Calls\<close>

text \<open>
  What a request can end with: an error of the provider with its code and whether it may be
  retried, another Python exception, a refusal of the runtime, or the code after the loop.
\<close>

datatype exec_error = ProviderFailed string bool | Raised py_exn | Rejected string | Unreachable

fun error_code :: "exec_error \<Rightarrow> string" where
  "error_code (ProviderFailed msg retryable) = msg"
| "error_code (Rejected msg) = msg"
| "error_code _ = ''PROVIDER_ERROR''"

fun error_retryable :: "exec_error \<Rightarrow> bool" where
  "error_retryable (ProviderFailed msg retryable) = retryable"
| "error_retryable (Rejected msg) = True"
| "error_retryable _ = False"

record 'v attempt =
  at_budget :: rat
  at_outcome :: "exec_error + 'v"
  at_latency :: rat
  at_elapsed :: rat
  at_stamp :: rat
  at_failure :: rat
  at_mono :: rat

record 'v call_env =
  start_now :: rat
  start_mono :: rat
  attempt_env :: "nat \<Rightarrow> 'v attempt"

record provider_call =
  call_scope :: string
  call_provider :: string
  call_operation :: string
  call_endpoint :: string
  call_cache_key :: "string option"
  call_ttl :: rat

definition call_key :: "provider_call \<Rightarrow> plane_key" where
  "call_key c = (call_scope c, call_provider c)"

text \<open>The cache key of a request that may be cached.\<close>

definition cache_slot :: "provider_call \<Rightarrow> flight_key option" where
  "cache_slot c =
     (case call_cache_key c of
        None \<Rightarrow> None
      | Some key \<Rightarrow> if key \<noteq> [] \<and> 0 < call_ttl c
          then Some (call_scope c, call_provider c, call_operation c, key) else None)"

definition call_event ::
  "provider_call \<Rightarrow> string \<Rightarrow> pyfloat \<Rightarrow> nat \<Rightarrow> nat \<Rightarrow> pyfloat \<Rightarrow> string option \<Rightarrow> bool \<Rightarrow>
   ('s, 'v) runtime \<Rightarrow> ('s, 'v) runtime" where
  "call_event c status latency used retried cost err hit =
     persist_event (call_scope c) \<lparr>event_provider = call_provider c, event_operation = call_operation c,
       event_endpoint = call_endpoint c, event_status = status, event_latency = latency,
       event_attempts = used, event_retries = retried, event_cost = cost, event_error = err,
       event_cache_hit = hit\<rparr>"

fun num_times :: "nat \<Rightarrow> pyfloat \<Rightarrow> pyfloat" where
  "num_times n (Fin x) = fl (of_nat n * x)"
| "num_times n x = (if n = 0 then NaN else x)"

text \<open>\<open>min(cap, base * 2 ** attempt)\<close>: from attempt 1024 on the power is no double.\<close>

definition retry_delay :: "run_settings \<Rightarrow> nat \<Rightarrow> pyfloat py" where
  "retry_delay cfg i =
     (if 1024 \<le> i then Inl OverflowError
      else Inr (num_min (retry_cap cfg) (num_times (2 ^ i) (retry_base cfg))))"

section \<open>One request\<close>

definition refuse_budget ::
  "run_settings \<Rightarrow> provider_call \<Rightarrow> 'v attempt \<Rightarrow> nat \<Rightarrow> nat \<Rightarrow> ('s, 'v) runtime \<Rightarrow>
   (exec_error + 'v) \<times> ('s, 'v) runtime" where
  "refuse_budget cfg c a used retried st =
     (Inl (Rejected ''LOCAL_RATE_LIMIT''),
      call_event c ''LOCAL_RATE_LIMIT'' (Fin (at_elapsed a)) used retried
        (num_times used (attempt_cost cfg)) (Some ''LOCAL_RATE_LIMIT'') False
        (bump (call_key c) (\<lambda>t. t\<lparr>rate_limited := rate_limited t + 1\<rparr>) st))"

definition charge :: "run_settings \<Rightarrow> provider_call \<Rightarrow> 'v attempt \<Rightarrow> ('s, 'v) runtime \<Rightarrow> ('s, 'v) runtime"
where
  "charge cfg c a =
     bump (call_key c) (\<lambda>t. t\<lparr>total_latency_ms := num_add (total_latency_ms t) (Fin (at_latency a)),
       estimated_cost_usd := num_add (estimated_cost_usd t) (attempt_cost cfg)\<rparr>)"

definition fail_call ::
  "'s control_plane \<Rightarrow> run_settings \<Rightarrow> provider_call \<Rightarrow> 'v attempt \<Rightarrow> exec_error \<Rightarrow> nat \<Rightarrow> nat \<Rightarrow>
   ('s, 'v) runtime \<Rightarrow> (exec_error + 'v) \<times> ('s, 'v) runtime" where
  "fail_call cp cfg c a err used retried st =
     (let st1 = bump (call_key c) (\<lambda>t. t\<lparr>failures := failures t + 1,
            last_error_code := Some (error_code err), last_failure_at := Some (at_stamp a)\<rparr>) st;
          st2 = st1\<lparr>plane := snd (plane_failure cp (plane st1) (call_key c) (at_failure a)
            (failure_threshold cfg) (circuit_cooldown cfg))\<rparr>
      in (Inl err, call_event c ''FAILED'' (Fin (at_elapsed a)) used retried
            (num_times used (attempt_cost cfg)) (Some (error_code err)) False st2))"

definition succeed_call ::
  "'s control_plane \<Rightarrow> run_settings \<Rightarrow> provider_call \<Rightarrow> 'v attempt \<Rightarrow> 'v \<Rightarrow> nat \<Rightarrow> nat \<Rightarrow>
   ('s, 'v) runtime \<Rightarrow> (exec_error + 'v) \<times> ('s, 'v) runtime" where
  "succeed_call cp cfg c a v used retried st =
     (let st1 = bump (call_key c) (\<lambda>t. t\<lparr>successes := successes t + 1,
            last_success_at := Some (at_stamp a)\<rparr>) st;
          st2 = st1\<lparr>plane := plane_success cp (plane st1) (call_key c)\<rparr>;
          st3 = (case cache_slot c of None \<Rightarrow> st2
            | Some slot \<Rightarrow> st2\<lparr>cache := (cache st2)(slot \<mapsto> (fadd (at_mono a) (call_ttl c), v))\<rparr>)
      in (Inr v, call_event c ''SUCCESS'' (Fin (at_elapsed a)) used retried
            (num_times used (attempt_cost cfg)) None False st3))"

text \<open>
  The loop over the attempts; the first argument counts those that remain. The label of the
  span is computed inside the handler, so its exception counts as one of the provider.
\<close>

fun attempt_loop ::
  "nat \<Rightarrow> 's control_plane \<Rightarrow> run_settings \<Rightarrow> provider_call \<Rightarrow> string py \<Rightarrow> (nat \<Rightarrow> 'v attempt) \<Rightarrow>
   nat \<Rightarrow> nat \<Rightarrow> nat \<Rightarrow> ('s, 'v) runtime \<Rightarrow> (exec_error + 'v) \<times> ('s, 'v) runtime" where
  "attempt_loop 0 cp cfg c label env i used retried st = (Inl Unreachable, st)"
| "attempt_loop (Suc n) cp cfg c label env i used retried st =
     (let a = env i;
          admission = plane_consume cp (plane st) (call_key c) (at_budget a) (budget_limit cfg);
          st0 = st\<lparr>plane := snd admission\<rparr>
      in if \<not> fst admission then refuse_budget cfg c a used retried st0
         else
           let st1 = charge cfg c a (bump (call_key c) (\<lambda>t. t\<lparr>attempts := attempts t + 1\<rparr>) st0)
           in case (case label of Inl e \<Rightarrow> Inl (Raised e) | Inr _ \<Rightarrow> at_outcome a) of
                Inr v \<Rightarrow> succeed_call cp cfg c a v (used + 1) retried st1
              | Inl err \<Rightarrow>
                  if \<not> (error_retryable err \<and> int i < max_retries cfg)
                  then fail_call cp cfg c a err (used + 1) retried st1
                  else
                    let st2 = bump (call_key c) (\<lambda>t. t\<lparr>retries := retries t + 1\<rparr>) st1
                    in case retry_delay cfg i of
                         Inl e \<Rightarrow> (Inl (Raised e), st2)
                       | Inr delay \<Rightarrow>
                           attempt_loop n cp cfg c label env (i + 1) (used + 1) (retried + 1)
                             (if delay = Fin 0 then st2 else st2\<lparr>sleeps := sleeps st2 @ [delay]\<rparr>))"

definition reject_open ::
  "provider_call \<Rightarrow> ('s, 'v) runtime \<Rightarrow> (exec_error + 'v) \<times> ('s, 'v) runtime" where
  "reject_open c st =
     (Inl (Rejected ''CIRCUIT_OPEN''),
      call_event c ''CIRCUIT_OPEN'' (Fin 0) 0 0 (Fin 0) (Some ''CIRCUIT_OPEN'') False
        (bump (call_key c) (\<lambda>t. t\<lparr>circuit_rejections := circuit_rejections t + 1\<rparr>) st))"

text \<open>A cache entry that is still valid, and the cache without one that is not.\<close>

definition cached :: "('s, 'v) runtime \<Rightarrow> provider_call \<Rightarrow> rat \<Rightarrow> 'v option" where
  "cached st c reading =
     (case cache_slot c of None \<Rightarrow> None
      | Some slot \<Rightarrow> (case cache st slot of None \<Rightarrow> None
          | Some (expires, v) \<Rightarrow> if reading < expires then Some v else None))"

definition evict :: "provider_call \<Rightarrow> ('s, 'v) runtime \<Rightarrow> ('s, 'v) runtime" where
  "evict c st =
     (case cache_slot c of None \<Rightarrow> st | Some slot \<Rightarrow> st\<lparr>cache := (cache st)(slot := None)\<rparr>)"

definition execute_impl ::
  "'s control_plane \<Rightarrow> run_settings \<Rightarrow> (string \<Rightarrow> bool) \<Rightarrow> provider_call \<Rightarrow> 'v call_env \<Rightarrow>
   ('s, 'v) runtime \<Rightarrow> (exec_error + 'v) \<times> ('s, 'v) runtime" where
  "execute_impl cp cfg bracket_ok c env st =
     (let st0 = bump (call_key c) (\<lambda>t. t\<lparr>logical_calls := logical_calls t + 1\<rparr>) st in
      case cached st0 c (start_mono env) of
        Some v \<Rightarrow>
          (Inr v, call_event c ''CACHE_HIT'' (Fin 0) 0 0 (Fin 0) None True
             (bump (call_key c) (\<lambda>t. t\<lparr>cache_hits := cache_hits t + 1\<rparr>) st0))
      | None \<Rightarrow>
          let st1 = evict c st0;
              query = plane_circuit cp (plane st1) (call_key c) (start_now env);
              st2 = st1\<lparr>plane := snd query\<rparr>
          in if is_open (start_now env) (fst query) then reject_open c st2
             else attempt_loop (nat (max_retries cfg + 1)) cp cfg c
               (safe_provider_endpoint bracket_ok (call_provider c) (call_endpoint c))
               (attempt_env env) 0 0 0 st2)"

definition execute ::
  "'s control_plane \<Rightarrow> run_settings \<Rightarrow> (string \<Rightarrow> bool) \<Rightarrow> provider_call \<Rightarrow> 'v call_env \<Rightarrow>
   ('s, 'v) runtime \<Rightarrow> (exec_error + 'v) \<times> ('s, 'v) runtime" where
  "execute cp cfg bracket_ok c env st =
     (case safe_provider_endpoint bracket_ok (call_provider c) (call_endpoint c) of
        Inl e \<Rightarrow> (Inl (Raised e), st)
      | Inr label \<Rightarrow>
          let st' = (case cache_slot c of None \<Rightarrow> st
                | Some slot \<Rightarrow> st\<lparr>flights := List.insert slot (flights st)\<rparr>)
          in execute_impl cp cfg bracket_ok (c\<lparr>call_endpoint := label\<rparr>) env st')"

section \<open>Snapshot and reset\<close>

record provider_snapshot =
  snap_telemetry :: telemetry
  average_latency :: "pyfloat option"
  circuit_label :: string
  circuit_failures :: nat
  opens_for_seconds :: pyfloat
  calls_budget :: int
  snap_cost :: pyfloat

text \<open>\<open>round(x, digits)\<close> of a number that is not NaN.\<close>

fun num_round :: "nat \<Rightarrow> pyfloat \<Rightarrow> pyfloat" where
  "num_round digits (Fin x) = fl (of_int (round_even (x * 10 ^ digits)) / 10 ^ digits)"
| "num_round digits x = x"

fun num_over :: "pyfloat \<Rightarrow> nat \<Rightarrow> pyfloat" where
  "num_over (Fin x) n = fl (x / of_nat n)"
| "num_over x n = x"

text \<open>One provider of the snapshot; three clock readings are taken for it.\<close>

definition snapshot_provider ::
  "environ \<Rightarrow> string \<Rightarrow> telemetry \<Rightarrow> circuit_state \<Rightarrow> rat \<Rightarrow> rat \<Rightarrow> provider_snapshot" where
  "snapshot_provider env provider_id t circuit now1 now2 =
     \<lparr>snap_telemetry = t,
      average_latency = (if attempts t = 0 then None
        else Some (num_round 2 (num_over (total_latency_ms t) (attempts t)))),
      circuit_label = (if is_open now1 circuit then ''OPEN'' else ''CLOSED''),
      circuit_failures = consecutive_failures circuit,
      opens_for_seconds = num_max (Fin 0) (num_round 3 (num_add (opened_until circuit) (Fin (- now2)))),
      calls_budget = provider_limit env provider_id,
      snap_cost = cost_per_attempt env provider_id\<rparr>"

fun snapshot_loop ::
  "'s control_plane \<Rightarrow> environ \<Rightarrow> string \<Rightarrow> (string \<Rightarrow> rat \<times> rat \<times> rat) \<Rightarrow> string list \<Rightarrow>
   ('s, 'v) runtime \<Rightarrow> (string \<times> provider_snapshot) list \<times> ('s, 'v) runtime" where
  "snapshot_loop cp env scope clock [] st = ([], st)"
| "snapshot_loop cp env scope clock (p # ps) st =
     (case clock p of (now, now1, now2) \<Rightarrow>
      let query = plane_circuit cp (plane st) (scope, p) now;
          entry = snapshot_provider env p (stat st (scope, p)) (fst query) now1 now2;
          rest = snapshot_loop cp env scope clock ps (st\<lparr>plane := snd query\<rparr>)
      in ((p, entry) # fst rest, snd rest))"

definition snapshot ::
  "'s control_plane \<Rightarrow> environ \<Rightarrow> string option \<Rightarrow> string option \<Rightarrow> (string \<Rightarrow> rat \<times> rat \<times> rat) \<Rightarrow>
   ('s, 'v) runtime \<Rightarrow> (string \<times> string \<times> (string \<times> provider_snapshot) list) \<times> ('s, 'v) runtime"
where
  "snapshot cp env requested workspace clock st =
     (let scope = (case requested of Some w \<Rightarrow> if w = [] then scope_of workspace else w
            | None \<Rightarrow> scope_of workspace);
          providers = sorted_set (map (snd \<circ> fst) (filter (\<lambda>e. fst (fst e) = scope) (telemetry_of st)));
          out = snapshot_loop cp env scope clock providers st
      in ((scope, plane_name cp, fst out), snd out))"

definition reset_runtime_state ::
  "'s control_plane \<Rightarrow> ('s, 'v) runtime \<Rightarrow> ('s, 'v) runtime" where
  "reset_runtime_state cp st =
     st\<lparr>telemetry_of := [], cache := (\<lambda>_. None), flights := [], plane := plane_reset cp (plane st)\<rparr>"

section \<open>Accounting\<close>

named_theorems runtime_simps "effects of the bookkeeping steps on the parts of the state"

lemma stat_bump [runtime_simps]: "stat (bump k f st) k' = (if k' = k then f (stat st k) else stat st k')"
  by (simp add: stat_def bump_def update_conv')

lemma stat_fields [runtime_simps]:
  "stat (st\<lparr>plane := p\<rparr>) = stat st" "stat (st\<lparr>cache := m\<rparr>) = stat st"
  "stat (st\<lparr>flights := fs\<rparr>) = stat st" "stat (st\<lparr>sleeps := ds\<rparr>) = stat st"
  "stat (st\<lparr>persisted := es\<rparr>) = stat st"
  by (simp_all add: stat_def fun_eq_iff)

lemma bump_fields [runtime_simps]:
  "plane (bump k f st) = plane st" "cache (bump k f st) = cache st"
  "flights (bump k f st) = flights st" "persisted (bump k f st) = persisted st"
  by (simp_all add: bump_def)

lemma event_fields [runtime_simps]:
  "stat (call_event c s l u r x e h st) = stat st"
  "plane (call_event c s l u r x e h st) = plane st"
  "cache (call_event c s l u r x e h st) = cache st"
  by (simp_all add: call_event_def persist_event_def stat_fields)

lemma evict_fields [runtime_simps]:
  "stat (evict c st) = stat st" "plane (evict c st) = plane st"
  by (simp_all add: evict_def stat_fields split: option.split)

lemma charge_fields [runtime_simps]:
  "plane (charge cfg c a st) = plane st" "cache (charge cfg c a st) = cache st"
  by (simp_all add: charge_def bump_fields)

definition balanced :: "telemetry \<Rightarrow> bool" where
  "balanced t = (logical_calls t = cache_hits t + circuit_rejections t + rate_limited t +
       successes t + failures t \<and>
     attempts t = successes t + failures t + retries t)"

text \<open>The entry of a request that is still running.\<close>

definition pending :: "telemetry \<Rightarrow> bool" where
  "pending t = (logical_calls t = 1 + cache_hits t + circuit_rejections t + rate_limited t +
       successes t + failures t \<and>
     attempts t = successes t + failures t + retries t)"

lemma refuse_stat:
  "stat (snd (refuse_budget cfg c a u r st)) k =
     (if k = call_key c then (stat st k)\<lparr>rate_limited := rate_limited (stat st k) + 1\<rparr> else stat st k)"
  by (simp add: refuse_budget_def runtime_simps)

lemma fail_stat:
  "stat (snd (fail_call cp cfg c a err u r st)) k =
     (if k = call_key c then (stat st k)\<lparr>failures := failures (stat st k) + 1,
        last_error_code := Some (error_code err), last_failure_at := Some (at_stamp a)\<rparr> else stat st k)"
  by (simp add: fail_call_def Let_def runtime_simps)

lemma succeed_stat:
  "stat (snd (succeed_call cp cfg c a v u r st)) k =
     (if k = call_key c then (stat st k)\<lparr>successes := successes (stat st k) + 1,
        last_success_at := Some (at_stamp a)\<rparr> else stat st k)"
  by (simp add: succeed_call_def Let_def runtime_simps split: option.split)

lemma charge_stat:
  "stat (charge cfg c a st) k =
     (if k = call_key c then (stat st k)\<lparr>
        total_latency_ms := num_add (total_latency_ms (stat st k)) (Fin (at_latency a)),
        estimated_cost_usd := num_add (estimated_cost_usd (stat st k)) (attempt_cost cfg)\<rparr>
      else stat st k)"
  by (simp add: charge_def runtime_simps)

lemma ends_simps [simp]:
  "fst (refuse_budget cfg c a u r st) = Inl (Rejected ''LOCAL_RATE_LIMIT'')"
  "fst (fail_call cp cfg c a err u r st) = Inl err"
  "fst (succeed_call cp cfg c a v u r st) = Inr v"
  by (simp_all add: refuse_budget_def fail_call_def succeed_call_def Let_def)

lemma loop_balanced:
  assumes "pending (stat st (call_key c))" and "int i + int n = max_retries cfg + 1" and "0 < n"
    and "max_retries cfg \<le> 1024"
  shows "balanced (stat (snd (attempt_loop n cp cfg c label env i u r st)) (call_key c)) \<and>
    attempts (stat (snd (attempt_loop n cp cfg c label env i u r st)) (call_key c)) \<le>
      attempts (stat st (call_key c)) + n"
  using assms(1-3)
proof (induction n arbitrary: i u r st)
  case (Suc n)
  have "\<not> 1024 \<le> i" if "int i < max_retries cfg" using that assms(4) by linarith
  then have delay: "int i < max_retries cfg \<Longrightarrow> \<exists>d. retry_delay cfg i = Inr d"
    by (simp add: retry_delay_def)
  from Suc.prems have n: "int i < max_retries cfg \<Longrightarrow> 0 < n"
      "int (i + 1) + int n = max_retries cfg + 1" by linarith+
  let ?a = "env i" and ?k = "call_key c"
  let ?ad = "plane_consume cp (plane st) ?k (at_budget ?a) (budget_limit cfg)"
  let ?st1 = "charge cfg c ?a (bump ?k (\<lambda>t. t\<lparr>attempts := attempts t + 1\<rparr>) (st\<lparr>plane := snd ?ad\<rparr>))"
  let ?st2 = "bump ?k (\<lambda>t. t\<lparr>retries := retries t + 1\<rparr>) ?st1"
  have p2: "pending (stat ?st2 ?k)" "attempts (stat ?st2 ?k) = attempts (stat st ?k) + 1"
    using Suc.prems(1) by (simp_all add: pending_def charge_stat runtime_simps)
  show ?case
  proof (cases "fst ?ad")
    case False
    then show ?thesis using Suc.prems(1)
      by (simp add: Let_def refuse_stat runtime_simps pending_def balanced_def)
  next
    case True
    show ?thesis
    proof (cases "case label of Inl e \<Rightarrow> Inl (Raised e) | Inr _ \<Rightarrow> at_outcome ?a")
      case (Inr v)
      with True Suc.prems(1) show ?thesis
        by (simp add: Let_def succeed_stat charge_stat runtime_simps pending_def balanced_def)
    next
      case (Inl err)
      show ?thesis
      proof (cases "error_retryable err \<and> int i < max_retries cfg")
        case False
        with True Inl Suc.prems(1) show ?thesis
          by (simp add: Let_def fail_stat charge_stat runtime_simps pending_def balanced_def)
      next
        case retry: True
        with delay obtain d where d: "retry_delay cfg i = Inr d" by blast
        let ?st3 = "if d = Fin 0 then ?st2 else ?st2\<lparr>sleeps := sleeps ?st2 @ [d]\<rparr>"
        have "stat ?st3 = stat ?st2" by (simp add: stat_fields)
        then have p3: "pending (stat ?st3 ?k)" "attempts (stat ?st3 ?k) = attempts (stat st ?k) + 1"
          using p2 by simp_all
        have "attempt_loop (Suc n) cp cfg c label env i u r st =
            attempt_loop n cp cfg c label env (i + 1) (u + 1) (r + 1) ?st3"
          unfolding attempt_loop.simps Let_def using retry True Inl d by simp
        with Suc.IH [OF p3(1) n(2), of "u + 1" "r + 1"] n(1) retry p3(2) show ?thesis by simp
      qed
    qed
  qed
qed simp

lemma loop_returns:
  assumes "0 < n" and "int i + int n = max_retries cfg + 1"
    and "\<And>j. at_outcome (env j) \<noteq> Inl Unreachable"
  shows "fst (attempt_loop n cp cfg c label env i u r st) \<noteq> Inl Unreachable"
  using assms(1,2)
proof (induction n arbitrary: i u r st)
  case (Suc n)
  then have "int i < max_retries cfg \<Longrightarrow> 0 < n" "int (i + 1) + int n = max_retries cfg + 1"
    by linarith+
  with Suc.IH assms(3) show ?case
    by (auto simp: Let_def split: sum.split)
qed simp

lemma label_fields [simp]:
  "call_key (c\<lparr>call_endpoint := l\<rparr>) = call_key c" "cache_slot (c\<lparr>call_endpoint := l\<rparr>) = cache_slot c"
  by (simp_all add: call_key_def cache_slot_def split: option.split)

text \<open>The three ways a request goes on.\<close>

lemma impl_cases:
  obtains (hit) v where "cached st c (start_mono env) = Some v"
      "execute_impl cp cfg b c env st = (Inr v, call_event c ''CACHE_HIT'' (Fin 0) 0 0 (Fin 0) None True
         (bump (call_key c) (\<lambda>t. t\<lparr>cache_hits := cache_hits t + 1\<rparr>)
           (bump (call_key c) (\<lambda>t. t\<lparr>logical_calls := logical_calls t + 1\<rparr>) st)))"
  | (rejected) st2 where "cached st c (start_mono env) = None"
      "is_open (start_now env) (fst (plane_circuit cp (plane st) (call_key c) (start_now env)))"
      "execute_impl cp cfg b c env st = reject_open c st2"
      "stat st2 = stat (bump (call_key c) (\<lambda>t. t\<lparr>logical_calls := logical_calls t + 1\<rparr>) st)"
      "plane st2 = snd (plane_circuit cp (plane st) (call_key c) (start_now env))"
      "\<And>f. cache_slot c \<noteq> Some f \<Longrightarrow> cache st2 f = cache st f"
  | (admitted) st2 where "cached st c (start_mono env) = None"
      "\<not> is_open (start_now env) (fst (plane_circuit cp (plane st) (call_key c) (start_now env)))"
      "execute_impl cp cfg b c env st = attempt_loop (nat (max_retries cfg + 1)) cp cfg c
         (safe_provider_endpoint b (call_provider c) (call_endpoint c)) (attempt_env env) 0 0 0 st2"
      "stat st2 = stat (bump (call_key c) (\<lambda>t. t\<lparr>logical_calls := logical_calls t + 1\<rparr>) st)"
      "plane st2 = snd (plane_circuit cp (plane st) (call_key c) (start_now env))"
      "\<And>f. cache_slot c \<noteq> Some f \<Longrightarrow> cache st2 f = cache st f"
proof -
  let ?st0 = "bump (call_key c) (\<lambda>t. t\<lparr>logical_calls := logical_calls t + 1\<rparr>) st"
  let ?q = "plane_circuit cp (plane (evict c ?st0)) (call_key c) (start_now env)"
  let ?st2 = "(evict c ?st0)\<lparr>plane := snd ?q\<rparr>"
  have cached: "cached ?st0 c (start_mono env) = cached st c (start_mono env)"
    by (simp add: cached_def runtime_simps cong: option.case_cong)
  have q: "?q = plane_circuit cp (plane st) (call_key c) (start_now env)" by (simp add: runtime_simps)
  have st2: "stat ?st2 = stat ?st0" "plane ?st2 = snd ?q"
    "\<And>f. cache_slot c \<noteq> Some f \<Longrightarrow> cache ?st2 f = cache st f"
    by (simp_all add: runtime_simps) (auto simp: evict_def runtime_simps split: option.split)
  show thesis
  proof (cases "cached st c (start_mono env)")
    case (Some v)
    then show thesis using hit cached by (simp add: execute_impl_def Let_def)
  next
    case None
    then have e: "execute_impl cp cfg b c env st =
        (if is_open (start_now env) (fst ?q) then reject_open c ?st2
         else attempt_loop (nat (max_retries cfg + 1)) cp cfg c
           (safe_provider_endpoint b (call_provider c) (call_endpoint c)) (attempt_env env) 0 0 0 ?st2)"
      using cached unfolding execute_impl_def Let_def by (simp only: option.case)
    show thesis
    proof (cases "is_open (start_now env) (fst ?q)")
      case True
      then show thesis using rejected [of ?st2] None e st2 unfolding q by simp
    next
      case False
      then show thesis using admitted [of ?st2] None e st2 unfolding q by simp
    qed
  qed
qed

lemma execute_cases:
  obtains (label) e where "execute cp cfg b c env st = (Inl (Raised e), st)"
      "safe_provider_endpoint b (call_provider c) (call_endpoint c) = Inl e"
  | (impl) l st' where "execute cp cfg b c env st = execute_impl cp cfg b (c\<lparr>call_endpoint := l\<rparr>) env st'"
      "safe_provider_endpoint b (call_provider c) (call_endpoint c) = Inr l"
      "stat st' = stat st" "plane st' = plane st" "cache st' = cache st"
proof (cases "safe_provider_endpoint b (call_provider c) (call_endpoint c)")
  case (Inl e)
  then show thesis using label by (simp add: execute_def)
next
  case (Inr l)
  let ?st' = "case cache_slot c of None \<Rightarrow> st | Some slot \<Rightarrow> st\<lparr>flights := List.insert slot (flights st)\<rparr>"
  have "stat ?st' = stat st" "plane ?st' = plane st" "cache ?st' = cache st"
    by (simp_all add: stat_fields split: option.split)
  with Inr show thesis using impl [of l ?st'] by (simp add: execute_def Let_def)
qed

lemma impl_stat:
  assumes "balanced (stat st (call_key c))" and "0 \<le> max_retries cfg" and "max_retries cfg \<le> 1024"
  shows "balanced (stat (snd (execute_impl cp cfg b c env st)) (call_key c)) \<and>
    attempts (stat (snd (execute_impl cp cfg b c env st)) (call_key c)) \<le>
      attempts (stat st (call_key c)) + nat (max_retries cfg + 1)"
proof (cases rule: impl_cases [of st c env cp cfg b])
  case (hit v)
  with assms(1) show ?thesis by (simp add: runtime_simps balanced_def)
next
  case (rejected st2)
  with assms(1) show ?thesis by (simp add: reject_open_def runtime_simps balanced_def)
next
  case (admitted st2)
  from assms(1) have "pending (stat st2 (call_key c))" "attempts (stat st2 (call_key c)) = attempts (stat st (call_key c))"
    by (simp_all add: admitted(4) runtime_simps balanced_def pending_def)
  with loop_balanced [of st2 c 0 "nat (max_retries cfg + 1)" cfg] assms(2,3) show ?thesis
    unfolding admitted(3) by simp
qed

lemma execute_stat:
  assumes "balanced (stat st (call_key c))" and "0 \<le> max_retries cfg" and "max_retries cfg \<le> 1024"
  shows "balanced (stat (snd (execute cp cfg b c env st)) (call_key c)) \<and>
    attempts (stat (snd (execute cp cfg b c env st)) (call_key c)) \<le>
      attempts (stat st (call_key c)) + nat (max_retries cfg + 1)"
proof (cases rule: execute_cases [of cp cfg b c env st])
  case (impl l st')
  with impl_stat [of st' "c\<lparr>call_endpoint := l\<rparr>" cfg cp b env] assms show ?thesis by simp
qed (use assms in simp)

text \<open>
  What a request leaves alone: an observation of the state that no primitive step of the request
  changes is not changed by the request.
\<close>

definition unaffected ::
  "'s control_plane \<Rightarrow> provider_call \<Rightarrow> (('s, 'v) runtime \<Rightarrow> 'o) \<Rightarrow> bool" where
  "unaffected cp c obs \<longleftrightarrow>
     (\<forall>f st. obs (bump (call_key c) f st) = obs st) \<and>
     (\<forall>ev st. obs (persist_event (call_scope c) ev st) = obs st) \<and>
     (\<forall>now l st. obs (st\<lparr>plane := snd (plane_consume cp (plane st) (call_key c) now l)\<rparr>) = obs st) \<and>
     (\<forall>now st. obs (st\<lparr>plane := snd (plane_circuit cp (plane st) (call_key c) now)\<rparr>) = obs st) \<and>
     (\<forall>now t d st. obs (st\<lparr>plane := snd (plane_failure cp (plane st) (call_key c) now t d)\<rparr>) = obs st) \<and>
     (\<forall>st. obs (st\<lparr>plane := plane_success cp (plane st) (call_key c)\<rparr>) = obs st) \<and>
     (\<forall>m st. (\<forall>f. cache_slot c \<noteq> Some f \<longrightarrow> m f = cache st f) \<longrightarrow> obs (st\<lparr>cache := m\<rparr>) = obs st) \<and>
     (\<forall>fs st. obs (st\<lparr>flights := fs\<rparr>) = obs st) \<and> (\<forall>ds st. obs (st\<lparr>sleeps := ds\<rparr>) = obs st)"

lemma unaffected_label: "unaffected cp (c\<lparr>call_endpoint := l\<rparr>) obs = unaffected cp c obs"
  by (simp add: unaffected_def)

lemma unaffected_steps:
  assumes "unaffected cp c obs"
  shows "obs (bump (call_key c) f st) = obs st" "obs (call_event c s l u r x e h st) = obs st"
    "obs (st\<lparr>plane := snd (plane_consume cp (plane st) (call_key c) now limit)\<rparr>) = obs st"
    "obs (charge cfg c a st) = obs st" "obs (evict c st) = obs st"
    "obs (snd (refuse_budget cfg c a u r st)) = obs st"
    "obs (snd (fail_call cp cfg c a err u r st)) = obs st"
    "obs (snd (succeed_call cp cfg c a v u r st)) = obs st" "obs (snd (reject_open c st)) = obs st"
    "obs (st\<lparr>plane := snd (plane_circuit cp (plane st) (call_key c) now)\<rparr>) = obs st"
    "obs (st\<lparr>flights := fs\<rparr>) = obs st" "obs (st\<lparr>sleeps := ds\<rparr>) = obs st"
  using assms
  by (simp_all add: unaffected_def charge_def evict_def refuse_budget_def fail_call_def
      succeed_call_def reject_open_def call_event_def Let_def split: option.split)

lemma loop_unaffected:
  assumes "unaffected cp c obs"
  shows "obs (snd (attempt_loop n cp cfg c label env i u r st)) = obs st"
proof (induction n arbitrary: i u r st)
  case (Suc n)
  then show ?case by (auto simp: Let_def unaffected_steps [OF assms] split: sum.split)
qed simp

lemma execute_unaffected:
  assumes "unaffected cp c obs"
  shows "obs (snd (execute cp cfg b c env st)) = obs st"
proof (cases "safe_provider_endpoint b (call_provider c) (call_endpoint c)")
  case (Inr l)
  let ?c = "c\<lparr>call_endpoint := l\<rparr>"
  have c: "unaffected cp ?c obs" using assms by (simp add: unaffected_label)
  note steps = unaffected_steps [OF c]
  have "obs (snd (execute_impl cp cfg b ?c env st')) = obs st'" for st'
    unfolding execute_impl_def Let_def
    by (auto simp only: steps loop_unaffected [OF c] snd_conv split: option.split if_split)
  then show ?thesis
    using Inr by (simp add: execute_def Let_def unaffected_steps [OF assms] split: option.split)
qed (simp add: execute_def)

lemma execute_frame:
  assumes "k \<noteq> call_key c"
  shows "stat (snd (execute cp cfg b c env st)) k = stat st k"
  by (rule execute_unaffected [where obs = "\<lambda>st. stat st k"])
    (use assms in \<open>simp add: unaffected_def persist_event_def runtime_simps\<close>)

lemma snapshot_loop_stat:
  "stat (snd (snapshot_loop cp env scope clock ps st)) = stat st"
  by (induction ps arbitrary: st) (auto simp: Let_def stat_fields split: prod.split)

lemma snapshot_stat [simp]: "stat (snd (snapshot cp env req ws clock st)) = stat st"
  by (simp add: snapshot_def Let_def snapshot_loop_stat)

section \<open>Reachable states\<close>

definition empty_runtime :: "'s \<Rightarrow> ('s, 'v) runtime" where
  "empty_runtime p = \<lparr>telemetry_of = [], cache = (\<lambda>_. None), flights = [], plane = p,
     persisted = [], sleeps = []\<rparr>"

inductive runtime_reach :: "'s control_plane \<Rightarrow> ('s, 'v) runtime \<Rightarrow> bool" for cp where
  start: "runtime_reach cp (empty_runtime p)"
| call: "runtime_reach cp st \<Longrightarrow> 0 \<le> max_retries cfg \<Longrightarrow> max_retries cfg \<le> 1024 \<Longrightarrow>
    runtime_reach cp (snd (execute cp cfg bracket_ok c env st))"
| look: "runtime_reach cp st \<Longrightarrow> runtime_reach cp (snd (snapshot cp env req ws clock st))"
| reset: "runtime_reach cp st \<Longrightarrow> runtime_reach cp (reset_runtime_state cp st)"

lemma empty_stat: "stat (empty_runtime p) k = fresh_telemetry"
  by (simp add: stat_def empty_runtime_def)

lemma reset_stat: "stat (reset_runtime_state cp st) k = fresh_telemetry"
  by (simp add: stat_def reset_runtime_state_def)

lemma fresh_balanced: "balanced fresh_telemetry"
  by (simp add: balanced_def fresh_telemetry_def)

lemma reach_balanced: "runtime_reach cp st \<Longrightarrow> balanced (stat st k)"
proof (induction rule: runtime_reach.induct)
  case (call st cfg b c env)
  then show ?case
    using execute_stat [of st c cfg cp b env] execute_frame [of k c cp cfg b env st]
    by (cases "k = call_key c") auto
qed (simp_all add: empty_stat reset_stat fresh_balanced)

section \<open>What a lawful control plane gives\<close>

context lawful_plane
begin

lemma execute_view_frame:
  assumes "k \<noteq> call_key c"
  shows "view (plane (snd (execute cp cfg b c env st))) k = view (plane st) k"
  by (rule execute_unaffected [where obs = "\<lambda>st. view (plane st) k"])
    (use assms in \<open>simp add: unaffected_def persist_event_def runtime_simps consume_view
      circuit_view success_view failure_view\<close>)

lemma open_rejects:
  assumes "is_open (start_now env) (settle (start_now env) (view (plane st) (call_key c)))"
    and "cached st c (start_mono env) = None"
    and "safe_provider_endpoint b (call_provider c) (call_endpoint c) = Inr l"
  shows "fst (execute cp cfg b c env st) = Inl (Rejected ''CIRCUIT_OPEN'') \<and>
    attempts (stat (snd (execute cp cfg b c env st)) (call_key c)) = attempts (stat st (call_key c))"
proof (cases rule: execute_cases [of cp cfg b c env st])
  case (label e)
  with assms(3) show ?thesis by simp
next
  case (impl l' st')
  have cached: "cached st' (c\<lparr>call_endpoint := l'\<rparr>) (start_mono env) = None"
    using assms(2) impl(5) by (simp add: cached_def cong: option.case_cong)
  show ?thesis
    by (cases rule: impl_cases [of st' "c\<lparr>call_endpoint := l'\<rparr>" env cp cfg b])
      (use cached assms(1) impl in \<open>simp_all add: circuit_value reject_open_def runtime_simps\<close>)
qed

end

text \<open>A plane whose whole state, not only its circuits, is kept apart by key.\<close>

locale isolated_plane = lawful_plane cp view
  for cp :: "'s control_plane" and view +
  fixes slice :: "'s \<Rightarrow> plane_key \<Rightarrow> 'p"
  assumes consume_slice: "k' \<noteq> k \<Longrightarrow> slice (snd (plane_consume cp s k now limit)) k' = slice s k'"
    and circuit_slice: "k' \<noteq> k \<Longrightarrow> slice (snd (plane_circuit cp s k now)) k' = slice s k'"
    and success_slice: "k' \<noteq> k \<Longrightarrow> slice (plane_success cp s k) k' = slice s k'"
    and failure_slice: "k' \<noteq> k \<Longrightarrow>
      slice (snd (plane_failure cp s k now threshold cooldown)) k' = slice s k'"
begin

lemma execute_slice_frame:
  assumes "k \<noteq> call_key c"
  shows "slice (plane (snd (execute cp cfg b c env st))) k = slice (plane st) k"
  by (rule execute_unaffected [where obs = "\<lambda>st. slice (plane st) k"])
    (use assms in \<open>simp add: unaffected_def persist_event_def runtime_simps consume_slice
      circuit_slice success_slice failure_slice\<close>)

end

interpretation memory: isolated_plane memory_control circuits "\<lambda>s k. (budgets s k, circuits s k)"
  by unfold_locales (auto simp: memory_ops split: prod.split)

lemma execute_cache_frame:
  assumes "cache_slot c \<noteq> Some f"
  shows "cache (snd (execute cp cfg b c env st)) f = cache st f"
  by (rule execute_unaffected [where obs = "\<lambda>st. cache st f"])
    (use assms in \<open>cases f, auto simp: unaffected_def persist_event_def runtime_simps\<close>)

lemma execute_events_frame:
  assumes "w \<noteq> call_scope c"
  shows "filter (\<lambda>e. fst e = w) (persisted (snd (execute cp cfg b c env st))) =
    filter (\<lambda>e. fst e = w) (persisted st)"
  by (rule execute_unaffected [where obs = "\<lambda>st. filter (\<lambda>e. fst e = w) (persisted st)"])
    (use assms in \<open>auto simp: unaffected_def persist_event_def runtime_simps\<close>)

section \<open>Properties\<close>

text \<open>
  C4: in every reachable state of the runtime, over any control plane, the counters of each
  workspace and provider add up: every logical call ended as exactly one of a cache hit, a circuit
  rejection, a refused budget, a success or a failure, and every attempt as a success, a failure
  or a retry. Retries are limited to 1024: beyond that the back-off itself overflows.
\<close>

theorem accounting_invariant:
  assumes "runtime_reach cp st"
  shows "balanced (stat st k)"
  using assms by (rule reach_balanced)

definition sample_settings :: run_settings where
  "sample_settings = run_settings_of (\<lambda>_. None) ''defillama''"

definition sample_call :: provider_call where
  "sample_call = \<lparr>call_scope = ''w'', call_provider = ''defillama'', call_operation = ''protocols'',
     call_endpoint = [], call_cache_key = Some ''k'', call_ttl = 60\<rparr>"

definition sample_env :: "int call_env" where
  "sample_env = \<lparr>start_now = 0, start_mono = 0, attempt_env = (\<lambda>i. \<lparr>at_budget = 0,
     at_outcome = Inr 7, at_latency = 0, at_elapsed = 0, at_stamp = 0, at_failure = 0, at_mono = 0\<rparr>)\<rparr>"

lemma sample_settings_eval [simp]:
  "max_retries sample_settings = 2" "budget_limit sample_settings = 120"
  by (simp_all add: sample_settings_def run_settings_of_def env_int_def provider_limit_def)

theorem accounting_invariant_witness:
  "balanced (stat (snd (execute memory_control sample_settings (\<lambda>_. False) sample_call sample_env
     (empty_runtime empty_plane))) (''w'', ''defillama''))"
  by (rule accounting_invariant [OF runtime_reach.call [OF runtime_reach.start]]) simp_all

text \<open>
  C32: a logical call always ends with a value or an error of its own, never behind the loop, and
  contacts the provider at most once more than the configured retries.
\<close>

theorem execute_returns:
  assumes "balanced (stat st (call_key c))" and "0 \<le> max_retries cfg" and "max_retries cfg \<le> 1024"
    and "\<And>j. at_outcome (attempt_env env j) \<noteq> Inl Unreachable"
  shows "fst (execute cp cfg b c env st) \<noteq> Inl Unreachable \<and>
    int (attempts (stat (snd (execute cp cfg b c env st)) (call_key c))) \<le>
      int (attempts (stat st (call_key c))) + max_retries cfg + 1"
proof
  show "fst (execute cp cfg b c env st) \<noteq> Inl Unreachable"
  proof (cases rule: execute_cases [of cp cfg b c env st])
    case (impl l st')
    have "fst (execute_impl cp cfg b (c\<lparr>call_endpoint := l\<rparr>) env st') \<noteq> Inl Unreachable"
      by (cases rule: impl_cases [of st' "c\<lparr>call_endpoint := l\<rparr>" env cp cfg b])
        (use assms(2,4) in \<open>simp_all add: reject_open_def loop_returns\<close>)
    with impl show ?thesis by simp
  qed simp
  show "int (attempts (stat (snd (execute cp cfg b c env st)) (call_key c))) \<le>
      int (attempts (stat st (call_key c))) + max_retries cfg + 1"
    using execute_stat [OF assms(1-3), of cp b env] assms(2) by linarith
qed

lemma sample_balanced: "balanced (stat (empty_runtime p) k)"
  by (simp add: empty_stat fresh_balanced)

theorem execute_returns_witness:
  "fst (execute memory_control sample_settings (\<lambda>_. False) sample_call sample_env
     (empty_runtime empty_plane)) \<noteq> Inl Unreachable"
  using execute_returns [of "empty_runtime empty_plane" sample_call sample_settings sample_env
      memory_control "\<lambda>_. False"]
  by (simp add: sample_balanced sample_env_def)

text \<open>
  Once a provider with a closed circuit in the in-process plane has failed as often as the
  threshold without a success in between, a request before the end of the cool-down that has no
  cached value and whose endpoint has a label is rejected without contacting the provider.
\<close>

theorem tripped_circuit_rejects:
  assumes "circuits (plane st) (call_key c) = closed_circuit" and "ts \<noteq> []"
    and "failure_threshold cfg \<le> int (length ts)"
    and "st' = st\<lparr>plane := fold (\<lambda>t s. snd (plane_failure memory_control s (call_key c) t
      (failure_threshold cfg) (circuit_cooldown cfg))) ts (plane st)\<rparr>"
    and "num_less (Fin (start_now env)) (num_add (Fin (last ts)) (circuit_cooldown cfg))"
    and "cached st c (start_mono env) = None"
    and "safe_provider_endpoint b (call_provider c) (call_endpoint c) = Inr l"
  shows "fst (execute memory_control cfg b c env st') = Inl (Rejected ''CIRCUIT_OPEN'') \<and>
    attempts (stat (snd (execute memory_control cfg b c env st')) (call_key c)) =
      attempts (stat st (call_key c))"
proof -
  have "circuits (plane st') (call_key c) = closed_circuit\<lparr>
      consecutive_failures := length ts,
      opened_until := num_add (Fin (last ts)) (circuit_cooldown cfg)\<rparr>"
    using memory.failures_view [where s = "plane st" and k = "call_key c" and ts = ts]
      trips_from_closed [OF assms(2), of "failure_threshold cfg" closed_circuit "circuit_cooldown cfg"]
      assms(1,3,4) by (simp add: closed_circuit_def)
  moreover have "\<not> num_le b' (Fin a)" if "num_less (Fin a) b'" for a b'
    using that by (cases b') (auto simp: num_le_def)
  ultimately have rejecting: "is_open (start_now env) (settle (start_now env) (circuits (plane st') (call_key c)))"
    using assms(5) by (simp add: is_open_def settle_def)
  have "cached st' c (start_mono env) = None" "stat st' = stat st"
    using assms(4,6) by (simp_all add: cached_def runtime_simps cong: option.case_cong)
  with memory.open_rejects [OF rejecting _ assms(7), of cfg] show ?thesis by simp
qed


theorem tripped_circuit_rejects_witness:
  "fst (execute memory_control sample_settings (\<lambda>_. False) sample_call sample_env
     ((empty_runtime empty_plane)\<lparr>plane := fold (\<lambda>t s. snd (plane_failure memory_control s
        (call_key sample_call) t 4 (Fin 30))) [0, 0, 0, 0] empty_plane\<rparr>)) = Inl (Rejected ''CIRCUIT_OPEN'')"
proof -
  have cfg: "failure_threshold sample_settings = 4" "circuit_cooldown sample_settings = Fin 30"
    by (simp_all add: sample_settings_def run_settings_of_def env_int_def env_float_def num_max_def)
  have "num_less (Fin 0) (num_add (Fin 0) (Fin 30))"
    using rnd_of_int [of 30] by (simp add: fl_small)
  then show ?thesis
    using tripped_circuit_rejects [of "empty_runtime empty_plane" sample_call "[0, 0, 0, 0]"
        sample_settings _ sample_env "\<lambda>_. False" "[]", OF _ _ _ refl]
    by (simp add: cfg empty_runtime_def empty_plane_def cached_def sample_env_def sample_call_def
        cache_slot_def safe_provider_endpoint_def py_strip_def)
qed

text \<open>
  C11: workspaces are isolated: a request changes nothing of another workspace, neither its
  telemetry, its circuits, its budgets, its cache entries nor its persisted events.
\<close>

theorem workspace_isolation:
  assumes "w \<noteq> call_scope c"
  shows "let st' = snd (execute memory_control cfg b c env st) in
    stat st' (w, p) = stat st (w, p) \<and> circuits (plane st') (w, p) = circuits (plane st) (w, p) \<and>
    budgets (plane st') (w, p) = budgets (plane st) (w, p) \<and>
    cache st' (w, p, operation, key) = cache st (w, p, operation, key) \<and>
    filter (\<lambda>e. fst e = w) (persisted st') = filter (\<lambda>e. fst e = w) (persisted st)"
proof -
  have k: "(w, p) \<noteq> call_key c" using assms by (simp add: call_key_def)
  have f: "cache_slot c \<noteq> Some (w, p, operation, key)"
    using assms by (auto simp: cache_slot_def split: option.split)
  show ?thesis
    using memory.execute_slice_frame [OF k, of cfg b env st]
      execute_frame [OF k, of memory_control cfg b env st]
      execute_cache_frame [OF f, of memory_control cfg b env st]
      execute_events_frame [OF assms, of memory_control cfg b env st] by (simp add: Let_def)
qed

theorem workspace_isolation_witness:
  "stat (snd (execute memory_control sample_settings (\<lambda>_. False) sample_call sample_env
     (empty_runtime empty_plane))) (''v'', ''p'') = fresh_telemetry"
  using workspace_isolation [of "''v''" sample_call sample_settings "\<lambda>_. False" sample_env
      "empty_runtime empty_plane" "''p''"]
  by (simp add: Let_def sample_call_def empty_stat)


lemma loop_caches:
  assumes "attempt_loop n cp cfg c label env i u r st = (Inr v, st')" and "cache_slot c = Some slot"
  shows "\<exists>e. cache st' slot = Some (e, v)"
  using assms(1)
proof (induction n arbitrary: i u r st)
  case (Suc n)
  have ends: "(Inr v, st') \<noteq> refuse_budget cfg c a x y z" "(Inr v, st') \<noteq> fail_call cp cfg c a err x y z"
    for a x y z err by (simp_all add: refuse_budget_def fail_call_def Let_def)
  have finished: "succeed_call cp cfg c a w x y z = (Inr v, st') \<Longrightarrow> \<exists>e. cache st' slot = Some (e, v)" for a w x y z
    using assms(2) by (auto simp: succeed_call_def Let_def runtime_simps)
  from Suc.prems show ?case
    unfolding attempt_loop.simps Let_def
    using ends ends [THEN not_sym] finished Suc.IH
    by (auto split: if_split_asm sum.split_asm)
qed simp

lemma cached_again: "cached st c t = Some v \<Longrightarrow> cached (bump k f st) c t = Some v"
  by (simp add: cached_def runtime_simps cong: option.case_cong)

lemma execute_hit:
  assumes "cached st c (start_mono env) = Some v"
    and "safe_provider_endpoint b (call_provider c) (call_endpoint c) = Inr l"
  shows "fst (execute cp cfg b c env st) = Inr v \<and>
    attempts (stat (snd (execute cp cfg b c env st)) (call_key c)) = attempts (stat st (call_key c))"
proof (cases rule: execute_cases [of cp cfg b c env st])
  case (label e)
  with assms(2) show ?thesis by simp
next
  case (impl l' st')
  have c: "cached st' (c\<lparr>call_endpoint := l'\<rparr>) (start_mono env) = Some v"
    using assms(1) impl(5) by (simp add: cached_def cong: option.case_cong)
  show ?thesis
    by (cases rule: impl_cases [of st' "c\<lparr>call_endpoint := l'\<rparr>" env cp cfg b])
      (use c impl in \<open>simp_all add: runtime_simps\<close>)
qed

text \<open>
  After a successful cacheable request, the value is kept with an expiry, and repeating the
  request next, before that expiry, returns it without contacting the provider.
\<close>

theorem cached_value_reused:
  fixes st' :: "('s, 'v) runtime"
  assumes "execute cp cfg b c env st = (Inr v, st')" and "cache_slot c = Some slot"
  shows "\<exists>e. cache st' slot = Some (e, v) \<and>
    (\<forall>env'. start_mono env' < e \<longrightarrow>
       fst (execute cp cfg' b c env' st') = Inr v \<and>
       attempts (stat (snd (execute cp cfg' b c env' st')) (call_key c)) = attempts (stat st' (call_key c)))"
proof (cases rule: execute_cases [of cp cfg b c env st])
  case (label e)
  with assms(1) show ?thesis by simp
next
  case (impl l st0)
  let ?c = "c\<lparr>call_endpoint := l\<rparr>"
  have run: "execute_impl cp cfg b ?c env st0 = (Inr v, st')" using impl(1) assms(1) by simp
  have "\<exists>e. cache st' slot = Some (e, v)"
  proof (cases rule: impl_cases [of st0 ?c env cp cfg b])
    case (hit w)
    with run assms(2) show ?thesis
      by (auto simp: cached_def runtime_simps split: option.split_asm if_split_asm)
  next
    case (rejected st2)
    with run show ?thesis by (simp add: reject_open_def)
  next
    case (admitted st2)
    with run have "attempt_loop (nat (max_retries cfg + 1)) cp cfg ?c
        (safe_provider_endpoint b (call_provider ?c) (call_endpoint ?c)) (attempt_env env) 0 0 0 st2 =
      (Inr v, st')" by (simp only:)
    then show ?thesis by (rule loop_caches) (simp add: assms(2))
  qed
  then obtain e where e: "cache st' slot = Some (e, v)" by blast
  have valid: "cached st' c t = Some v" if "t < e" for t
    using that e assms(2) by (simp add: cached_def)
  show ?thesis
  proof (intro exI conjI allI impI)
    show "cache st' slot = Some (e, v)" by (rule e)
    fix env' :: "'v call_env"
    assume "start_mono env' < e"
    note hit = execute_hit [OF valid [OF this] impl(2), of cp cfg']
    show "fst (execute cp cfg' b c env' st') = Inr v" using hit by (rule conjunct1)
    show "attempts (stat (snd (execute cp cfg' b c env' st')) (call_key c)) =
        attempts (stat st' (call_key c))" using hit by (rule conjunct2)
  qed
qed

lemma loop_first:
  assumes "fst (plane_consume cp (plane st) (call_key c) (at_budget (env i)) (budget_limit cfg))"
    and "at_outcome (env i) = Inr v" and "0 < n"
  shows "\<exists>st'. attempt_loop n cp cfg c (Inr l) env i u r st = (Inr v, st')"
  using assms by (cases n) (simp_all add: Let_def succeed_call_def)

lemma sample_run:
  "\<exists>st'. execute memory_control sample_settings (\<lambda>_. False) sample_call sample_env
     (empty_runtime empty_plane) = (Inr 7, st')"
proof (cases rule: execute_cases [of memory_control sample_settings "\<lambda>_. False" sample_call
      sample_env "empty_runtime empty_plane"])
  case (label e)
  then show ?thesis by (simp add: sample_call_def safe_provider_endpoint_def py_strip_def)
next
  case (impl l st0)
  let ?c = "sample_call\<lparr>call_endpoint := l\<rparr>"
  have l: "l = []" using impl(2) by (simp add: sample_call_def safe_provider_endpoint_def py_strip_def)
  have st0: "plane st0 = empty_plane" "cache st0 = (\<lambda>_. None)"
    using impl(4,5) by (simp_all add: empty_runtime_def)
  have q: "fst (plane_circuit memory_control empty_plane k t) = closed_circuit"
    "budgets (snd (plane_circuit memory_control empty_plane k t)) k = []" for k t
    by (simp_all add: memory.circuit_value settle_def empty_plane_def closed_circuit_def memory_ops)
  show ?thesis
  proof (cases rule: impl_cases [of st0 ?c sample_env memory_control sample_settings "\<lambda>_. False"])
    case (hit v)
    then show ?thesis by (simp add: cached_def st0 split: option.split_asm)
  next
    case (rejected st2)
    then show ?thesis by (simp add: st0 q is_open_def closed_circuit_def sample_env_def)
  next
    case (admitted st2)
    let ?e = "attempt_env sample_env"
    have grant: "fst (memory_consume s k 0 120)" if "budgets s k = []" for s k
      using that by (simp add: memory_consume_def take_slot_def expire_slots_def)
    have "budgets (plane st2) (call_key ?c) = []" by (simp add: admitted(5) st0 q)
    from grant [OF this] have "fst (plane_consume memory_control (plane st2) (call_key ?c) (at_budget (?e 0))
        (budget_limit sample_settings))"
      by (simp add: memory_control_def sample_env_def)
    moreover have "safe_provider_endpoint (\<lambda>_. False) (call_provider ?c) (call_endpoint ?c) = Inr []"
      by (simp add: l safe_provider_endpoint_def py_strip_def)
    ultimately show ?thesis
      using loop_first [of memory_control st2 ?c ?e 0 sample_settings 7 "nat (max_retries sample_settings + 1)"]
      unfolding impl(1) admitted(3) by (simp add: sample_env_def)
  qed
qed

theorem cached_value_reused_witness:
  "\<exists>st' e. cache st' (''w'', ''defillama'', ''protocols'', ''k'') = Some (e, 7 :: int) \<and>
     execute memory_control sample_settings (\<lambda>_. False) sample_call sample_env
       (empty_runtime empty_plane) = (Inr 7, st')"
proof -
  obtain st' where r: "execute memory_control sample_settings (\<lambda>_. False) sample_call sample_env
     (empty_runtime empty_plane) = (Inr 7, st')" using sample_run by blast
  from cached_value_reused [OF r, of "(''w'', ''defillama'', ''protocols'', ''k'')"] r show ?thesis
    by (auto simp: sample_call_def cache_slot_def)
qed

text \<open>
  An endpoint with a bracketed IPv6 host can never succeed: its label loses the brackets, and
  the second labelling of the label raises inside the handler, so each request counts as a
  provider failure without the provider having been called.
\<close>

theorem ipv6_endpoint_never_called:
  assumes "call_endpoint c = ''https://[2001:db8::1]/x''" and "bracket_ok ''[2001:db8::1]''"
    and "call_provider c \<notin> set RPC_PROVIDERS" and "cache_slot c = None"
  shows "fst (execute cp cfg bracket_ok c env st) \<noteq> Inr v"
proof -
  note eval = safe_provider_endpoint_def py_strip_def py_space_def code_def starts_with_def
    urlsplit_def split_scheme_def before_first_def after_first_def ascii_alpha_def scheme_char_def
    is_digit_def digit_val_def url_netloc_def host_of_def after_last_def py_lower_def lower_char_def
    url_port_def port_text_def origin_label_def
  have label: "safe_provider_endpoint bracket_ok (call_provider c) (call_endpoint c) =
      Inr ''https://2001:db8::1''"
    using assms by (simp add: eval)
  have again: "safe_provider_endpoint bracket_ok (call_provider c) ''https://2001:db8::1'' = Inl ValueError"
    using assms by (simp add: eval)
  have loop: "fst (attempt_loop n cp cfg c' (Inl ValueError) env' i u r st') \<noteq> Inr v"
    for n c' env' i u r st'
  proof (cases n)
    case (Suc m)
    then show ?thesis by (simp add: Let_def)
  qed simp
  show ?thesis
  proof (cases rule: execute_cases [of cp cfg bracket_ok c env st])
    case (impl l st')
    with label have l: "l = ''https://2001:db8::1''" by simp
    have "fst (execute_impl cp cfg bracket_ok (c\<lparr>call_endpoint := l\<rparr>) env st') \<noteq> Inr v"
      by (cases rule: impl_cases [of st' "c\<lparr>call_endpoint := l\<rparr>" env cp cfg bracket_ok])
        (use assms(4) l again loop in \<open>simp_all add: reject_open_def cached_def\<close>)
    with impl show ?thesis by simp
  qed simp
qed

theorem ipv6_endpoint_never_called_witness:
  "fst (execute memory_control sample_settings (\<lambda>_. True)
     (sample_call\<lparr>call_endpoint := ''https://[2001:db8::1]/x'', call_cache_key := None\<rparr>) sample_env
     (empty_runtime empty_plane)) \<noteq> Inr 7"
  by (rule ipv6_endpoint_never_called)
    (simp_all add: sample_call_def RPC_PROVIDERS_def cache_slot_def)

end
