(* ===== verification/PostgresControl.thy ===== *)
theory PostgresControl
  imports ControlPlane
begin

text \<open>
  The PostgreSQL control plane (\<open>postgres_control.py\<close> and \<open>PostgresControlPlane\<close> of
  \<open>runtime_backend.py\<close>). Each function is one transaction on two tables, serialised by an
  advisory lock, so it is one step on the tables: the rows of a bucket in the order of their
  insertion, and the circuit rows by their key. Every function of the code first refuses a
  session that is not bound to PostgreSQL; the model is that of a session which is.
\<close>

section \<open>Tables and transactions\<close>

record pg_tables =
  rate_events :: "(string \<times> rat) list"
  circuit_rows :: "plane_key \<Rightarrow> (nat \<times> pyfloat) option"

definition pg_empty :: pg_tables where
  "pg_empty = \<lparr>rate_events = [], circuit_rows = (\<lambda>_. None)\<rparr>"

definition bucket_times :: "pg_tables \<Rightarrow> string \<Rightarrow> rat list" where
  "bucket_times T bucket = map snd (filter (\<lambda>row. fst row = bucket) (rate_events T))"

definition pg_expire :: "pg_tables \<Rightarrow> string \<Rightarrow> rat \<Rightarrow> pg_tables" where
  "pg_expire T bucket cutoff =
     T\<lparr>rate_events := filter (\<lambda>row. \<not> (fst row = bucket \<and> snd row \<le> cutoff)) (rate_events T)\<rparr>"

definition pg_consume_budget :: "pg_tables \<Rightarrow> string \<Rightarrow> rat \<Rightarrow> int \<Rightarrow> bool \<times> pg_tables" where
  "pg_consume_budget T bucket now limit =
     (if limit = 0 then (False, T)
      else
        let kept = pg_expire T bucket (fsub now 60)
        in if limit \<le> int (length (bucket_times kept bucket)) then (False, kept)
           else (True, kept\<lparr>rate_events := rate_events kept @ [(bucket, now)]\<rparr>))"

definition pg_clear_budget :: "pg_tables \<Rightarrow> string \<Rightarrow> pg_tables" where
  "pg_clear_budget T bucket = T\<lparr>rate_events := filter (\<lambda>row. fst row \<noteq> bucket) (rate_events T)\<rparr>"

definition pg_read_circuit :: "pg_tables \<Rightarrow> plane_key \<Rightarrow> rat \<Rightarrow> circuit_state \<times> pg_tables" where
  "pg_read_circuit T k now =
     (case circuit_rows T k of
        None \<Rightarrow> (closed_circuit, T)
      | Some (n, opened) \<Rightarrow>
          if opened \<noteq> Fin 0 \<and> num_le opened (Fin now)
          then (closed_circuit, T\<lparr>circuit_rows := (circuit_rows T)(k := None)\<rparr>)
          else (\<lparr>consecutive_failures = n, opened_until = opened\<rparr>, T))"

definition pg_record_success :: "pg_tables \<Rightarrow> plane_key \<Rightarrow> pg_tables" where
  "pg_record_success T k = T\<lparr>circuit_rows := (circuit_rows T)(k := None)\<rparr>"

definition pg_record_failure ::
  "pg_tables \<Rightarrow> plane_key \<Rightarrow> rat \<Rightarrow> int \<Rightarrow> pyfloat \<Rightarrow> circuit_state \<times> pg_tables" where
  "pg_record_failure T k now threshold cooldown =
     (let n = (case circuit_rows T k of None \<Rightarrow> 0 | Some row \<Rightarrow> fst row) + 1;
          opened = (if threshold \<le> int n then num_add (Fin now) cooldown else Fin 0)
      in (\<lparr>consecutive_failures = n, opened_until = opened\<rparr>,
          T\<lparr>circuit_rows := (circuit_rows T)(k \<mapsto> (n, opened))\<rparr>))"

text \<open>The bucket of a provider: prefix, scope and provider joined by colons.\<close>

definition pg_bucket :: "plane_key \<Rightarrow> string" where
  "pg_bucket k = ''rivexis:provider-control:'' @ fst k @ CHR '':'' # snd k"

definition postgres_control :: "pg_tables control_plane" where
  "postgres_control = \<lparr>plane_name = ''postgres'',
     plane_consume = (\<lambda>T k. pg_consume_budget T (pg_bucket k)),
     plane_circuit = pg_read_circuit, plane_success = pg_record_success,
     plane_failure = pg_record_failure, plane_reset = (\<lambda>T. T)\<rparr>"

section \<open>Commands\<close>

datatype plane_command = Consume plane_key rat int | Query plane_key rat
  | Success plane_key | Failure plane_key rat

datatype plane_reply = Granted bool | State circuit_state | Done

fun run_command :: "'s control_plane \<Rightarrow> int \<Rightarrow> pyfloat \<Rightarrow> plane_command \<Rightarrow> 's \<Rightarrow> plane_reply \<times> 's" where
  "run_command cp threshold cooldown (Consume k now limit) s =
     map_prod Granted id (plane_consume cp s k now limit)"
| "run_command cp threshold cooldown (Query k now) s = map_prod State id (plane_circuit cp s k now)"
| "run_command cp threshold cooldown (Success k) s = (Done, plane_success cp s k)"
| "run_command cp threshold cooldown (Failure k now) s =
     map_prod State id (plane_failure cp s k now threshold cooldown)"

fun replies :: "'s control_plane \<Rightarrow> int \<Rightarrow> pyfloat \<Rightarrow> plane_command list \<Rightarrow> 's \<Rightarrow> plane_reply list" where
  "replies cp threshold cooldown [] s = []"
| "replies cp threshold cooldown (c # cs) s =
     (let r = run_command cp threshold cooldown c s
      in fst r # replies cp threshold cooldown cs (snd r))"

text \<open>Requests in the order of a clock that does not go back; providers without a colon.\<close>

fun consume_times :: "plane_command \<Rightarrow> rat list" where
  "consume_times (Consume k now limit) = [now]"
| "consume_times _ = []"

fun command_key :: "plane_command \<Rightarrow> plane_key" where
  "command_key (Consume k now limit) = k"
| "command_key (Query k now) = k"
| "command_key (Success k) = k"
| "command_key (Failure k now) = k"

definition colon_free :: "plane_key \<Rightarrow> bool" where
  "colon_free k = (CHR '':'' \<notin> set (snd k))"

section \<open>Simulation\<close>

definition row_circuit :: "(nat \<times> pyfloat) option \<Rightarrow> circuit_state" where
  "row_circuit row = (case row of None \<Rightarrow> closed_circuit
     | Some (n, opened) \<Rightarrow> \<lparr>consecutive_failures = n, opened_until = opened\<rparr>)"

definition agrees :: "int \<Rightarrow> rat list \<Rightarrow> pg_tables \<Rightarrow> memory_plane \<Rightarrow> bool" where
  "agrees threshold later T s \<longleftrightarrow>
     (\<forall>k. colon_free k \<longrightarrow> bucket_times T (pg_bucket k) = budgets s k \<and>
        sorted (budgets s k @ later)) \<and>
     (\<forall>k. circuits s k = row_circuit (circuit_rows T k) \<and>
        (opened_until (circuits s k) = Fin 0 \<or>
         threshold \<le> int (consecutive_failures (circuits s k))))"

lemma bucket_inject:
  assumes "colon_free k" and "colon_free k'"
  shows "pg_bucket k = pg_bucket k' \<longleftrightarrow> k = k'"
proof
  assume eq: "pg_bucket k = pg_bucket k'"
  have "after_last (CHR '':'') (fst j @ CHR '':'' # snd j) = snd j" if "colon_free j" for j
    using that by (simp add: colon_free_def)
  with assms eq have "snd k = snd k'" by (metis append_same_eq pg_bucket_def same_append_eq)
  with eq show "k = k'" by (simp add: pg_bucket_def prod_eq_iff)
qed simp


lemma bucket_times_expire:
  "bucket_times (pg_expire T bucket c) b =
     (if b = bucket then filter (\<lambda>t. c < t) (bucket_times T b) else bucket_times T b)"
proof -
  have "map snd (filter (\<lambda>row. fst row = b) (filter (\<lambda>row. \<not> (fst row = bucket \<and> snd row \<le> c)) rows)) =
      (if b = bucket then filter (\<lambda>t. c < t) (map snd (filter (\<lambda>row. fst row = b) rows))
       else map snd (filter (\<lambda>row. fst row = b) rows))" for rows
    by (induction rows) (auto simp: not_le)
  moreover have "rate_events (T\<lparr>rate_events := rows\<rparr>) = rows" for rows by simp
  ultimately show ?thesis by (simp only: bucket_times_def pg_expire_def)
qed

lemma bucket_times_insert:
  "bucket_times (T\<lparr>rate_events := rate_events T @ [(bucket, now)]\<rparr>) b =
     bucket_times T b @ (if b = bucket then [now] else [])"
  by (simp add: bucket_times_def)

lemma pg_consume_times:
  "bucket_times (snd (pg_consume_budget T bucket now limit)) b =
     (if b \<noteq> bucket \<or> limit = 0 then bucket_times T b
      else filter (\<lambda>t. fsub now 60 < t) (bucket_times T b) @
        (if fst (pg_consume_budget T bucket now limit) then [now] else []))"
  "fst (pg_consume_budget T bucket now limit) \<longleftrightarrow>
     limit \<noteq> 0 \<and> int (length (filter (\<lambda>t. fsub now 60 < t) (bucket_times T bucket))) < limit"
  "circuit_rows (snd (pg_consume_budget T bucket now limit)) = circuit_rows T"
proof -
  have "circuit_rows (pg_expire T bucket c) = circuit_rows T" for c by (simp add: pg_expire_def)
  then show "circuit_rows (snd (pg_consume_budget T bucket now limit)) = circuit_rows T"
    by (simp add: pg_consume_budget_def Let_def)
qed (auto simp: pg_consume_budget_def Let_def bucket_times_expire bucket_times_insert)


lemma memory_consume_times:
  assumes "sorted (budgets s k)"
  shows "budgets (snd (memory_consume s k now limit)) k' =
      (if k' \<noteq> k \<or> limit = 0 then budgets s k'
       else filter (\<lambda>t. fsub now 60 < t) (budgets s k') @
         (if fst (memory_consume s k now limit) then [now] else []))"
    and "fst (memory_consume s k now limit) \<longleftrightarrow>
      limit \<noteq> 0 \<and> int (length (filter (\<lambda>t. fsub now 60 < t) (budgets s k))) < limit"
    and "circuits (snd (memory_consume s k now limit)) = circuits s"
  by (auto simp: memory_consume_def take_slot_def Let_def expire_slots_sorted [OF assms]
      split: prod.split)

text \<open>One command keeps the two planes in agreement and gives the same reply.\<close>

lemma command_agrees:
  assumes "agrees threshold (consume_times c @ later) T s" and "colon_free (command_key c)"
  shows "fst (run_command postgres_control threshold cooldown c T) =
      fst (run_command memory_control threshold cooldown c s)"
    and "agrees threshold later (snd (run_command postgres_control threshold cooldown c T))
      (snd (run_command memory_control threshold cooldown c s))"
proof -
  have ag: "\<And>k. colon_free k \<Longrightarrow> bucket_times T (pg_bucket k) = budgets s k"
    "\<And>k. colon_free k \<Longrightarrow> sorted (budgets s k @ consume_times c @ later)"
    "\<And>k. circuits s k = row_circuit (circuit_rows T k)"
    "\<And>k. opened_until (circuits s k) = Fin 0 \<or> threshold \<le> int (consecutive_failures (circuits s k))"
    using assms(1) unfolding agrees_def by blast+
  have "fst (run_command postgres_control threshold cooldown c T) =
      fst (run_command memory_control threshold cooldown c s) \<and>
    agrees threshold later (snd (run_command postgres_control threshold cooldown c T))
      (snd (run_command memory_control threshold cooldown c s))"
  proof (cases c)
    case (Consume k now limit)
    with assms(2) have k: "colon_free k" by simp
    have b: "bucket_times T (pg_bucket k) = budgets s k" using k by (rule ag(1))
    have s: "sorted (budgets s k @ now # later)" using ag(2) [OF k] by (simp add: Consume)
    have sk: "sorted (budgets s k)" using s by (simp add: sorted_append)
    note m = memory_consume_times [OF sk, of now limit] and
      p = pg_consume_times [of T "pg_bucket k" now limit]
    have fst: "fst (pg_consume_budget T (pg_bucket k) now limit) = fst (memory_consume s k now limit)"
      unfolding p(2) m(2) b ..
    have "bucket_times (snd (pg_consume_budget T (pg_bucket k) now limit)) (pg_bucket k') =
        budgets (snd (memory_consume s k now limit)) k' \<and>
      sorted (budgets (snd (memory_consume s k now limit)) k' @ later)" if "colon_free k'" for k'
    proof
      show "bucket_times (snd (pg_consume_budget T (pg_bucket k) now limit)) (pg_bucket k') =
          budgets (snd (memory_consume s k now limit)) k'"
        unfolding p(1) m(1) fst bucket_inject [OF that k] using ag(1) [OF that] b by simp
      have "sorted (budgets s k' @ now # later)" using ag(2) [OF that] by (simp add: Consume)
      then show "sorted (budgets (snd (memory_consume s k now limit)) k' @ later)"
        unfolding m(1) by (auto simp: sorted_append sorted_wrt_filter)
    qed
    then show ?thesis using ag(3,4) m(3) p(3) fst
      by (simp add: Consume postgres_control_def memory_control_def agrees_def)
  next
    case (Query k now)
    have "bucket_times (snd (pg_read_circuit T k now)) = bucket_times T"
      by (simp add: pg_read_circuit_def bucket_times_def fun_eq_iff split: option.split)
    with ag show ?thesis
      by (auto simp: Query postgres_control_def memory_ops agrees_def pg_read_circuit_def
          settle_def row_circuit_def closed_circuit_def split: option.splits)
  next
    case (Success k)
    with ag show ?thesis
      by (auto simp: postgres_control_def memory_ops agrees_def pg_record_success_def
          bucket_times_def row_circuit_def closed_circuit_def)
  next
    case (Failure k now)
    let ?f = "pg_record_failure T k now threshold cooldown"
    have trip: "trip now threshold cooldown (circuits s k) = fst ?f"
      using ag(3) [of k] ag(4) [of k]
      by (cases "circuit_rows T k")
        (auto simp: pg_record_failure_def trip_def row_circuit_def closed_circuit_def Let_def)
    have rows: "circuit_rows (snd ?f) =
        (circuit_rows T)(k \<mapsto> (consecutive_failures (fst ?f), opened_until (fst ?f)))"
      "bucket_times (snd ?f) = bucket_times T"
      "opened_until (fst ?f) = Fin 0 \<or> threshold \<le> int (consecutive_failures (fst ?f))"
      by (simp_all add: pg_record_failure_def Let_def bucket_times_def fun_eq_iff)
    have "agrees threshold later (snd ?f) (s\<lparr>circuits := (circuits s)(k := fst ?f)\<rparr>)"
      using ag rows by (simp add: agrees_def Failure row_circuit_def)
    then show ?thesis
      by (simp add: Failure postgres_control_def memory_control_def memory_failure_def Let_def trip)
  qed
  then show "fst (run_command postgres_control threshold cooldown c T) =
      fst (run_command memory_control threshold cooldown c s)"
    and "agrees threshold later (snd (run_command postgres_control threshold cooldown c T))
      (snd (run_command memory_control threshold cooldown c s))" by blast+
qed

lemma replies_agree:
  assumes "agrees threshold (concat (map consume_times cs)) T s"
    and "list_all (\<lambda>c. colon_free (command_key c)) cs"
  shows "replies postgres_control threshold cooldown cs T = replies memory_control threshold cooldown cs s"
  using assms
proof (induction cs arbitrary: T s)
  case (Cons c cs)
  from command_agrees [of threshold c _ T s cooldown] Cons.prems
  show ?case using Cons.IH by (simp add: Let_def)
qed simp

text \<open>On a sorted bucket the transaction is the step of the in-process queue.\<close>

lemma pg_slot:
  assumes "bucket_times T b = q" and "sorted q" and "0 < limit"
  shows "fst (pg_consume_budget T b now limit) = fst (take_slot limit now q)"
    and "bucket_times (snd (pg_consume_budget T b now limit)) b = snd (take_slot limit now q)"
    and "b' \<noteq> b \<Longrightarrow> bucket_times (snd (pg_consume_budget T b now limit)) b' = bucket_times T b'"
  using assms(3) pg_consume_times(1) [of T b now limit] pg_consume_times(2) [of T b now limit]
  by (auto simp: assms(1) take_slot_def Let_def expire_slots_sorted [OF assms(2)])

section \<open>Properties\<close>

text \<open>
  C10: the PostgreSQL control plane refines the in-process one: started empty, both give the same
  replies to every sequence of commands in which the times of the budget requests never decrease
  and no provider has a colon in its name. (The queue in the process only drops expired slots at
  its head, the transaction deletes all of them, so the order of the times matters.)
\<close>

theorem postgres_refines_memory:
  assumes "sorted (concat (map consume_times cs))"
    and "list_all (\<lambda>c. colon_free (command_key c)) cs"
  shows "replies postgres_control threshold cooldown cs pg_empty =
    replies memory_control threshold cooldown cs empty_plane"
  by (rule replies_agree [OF _ assms(2)])
    (use assms(1) in \<open>simp add: agrees_def pg_empty_def empty_plane_def bucket_times_def
      row_circuit_def closed_circuit_def\<close>)

theorem postgres_refines_memory_witness:
  "replies postgres_control 1 (Fin 30)
     [Consume (''w'', ''p'') 0 1, Failure (''w'', ''p'') 0, Query (''w'', ''p'') 5] pg_empty =
   replies memory_control 1 (Fin 30)
     [Consume (''w'', ''p'') 0 1, Failure (''w'', ''p'') 0, Query (''w'', ''p'') 5] empty_plane"
  by (rule postgres_refines_memory) (simp_all add: colon_free_def)

end
