(* ===== verification/AuthRateLimit.thy ===== *)
theory AuthRateLimit
  imports PostgresControl
begin

text \<open>
  The login rate limiter (\<open>services/auth_rate_limit.py\<close>): a global window and one window per
  account identity, in the process or in PostgreSQL; the Redis store is a pair of parameters.
  The keyed hash that turns a normalised address into an identity is the parameter
  \<open>digest\<close>.
\<close>

definition identity_of :: "(string \<Rightarrow> string) \<Rightarrow> string \<Rightarrow> string" where
  "identity_of digest email = digest (''login:'' @ take 320 (py_lower (py_strip email)))"

definition limit_of :: "int \<Rightarrow> int \<Rightarrow> string option \<Rightarrow> int" where
  "limit_of cap configured setting =
     (case setting of
        None \<Rightarrow> max 1 (min cap configured)
      | Some text \<Rightarrow> (case py_int 10 text of
            None \<Rightarrow> max 1 configured | Some n \<Rightarrow> max 1 (min cap n)))"

definition login_limit :: "int \<Rightarrow> string option \<Rightarrow> int" where
  "login_limit = limit_of 1000"

definition global_login_limit :: "int \<Rightarrow> string option \<Rightarrow> int" where
  "global_login_limit = limit_of 10000"

section \<open>State and operations\<close>

record 's limiter =
  account_slots :: "string \<Rightarrow> rat list"
  global_slots :: "rat list"
  pg_store :: pg_tables
  redis_store :: 's

text \<open>The operations of the Redis store: one run of the script, and a deletion.\<close>

record 's redis_ops =
  redis_take :: "'s \<Rightarrow> string \<Rightarrow> rat \<Rightarrow> int \<Rightarrow> bool \<times> 's"
  redis_delete :: "'s \<Rightarrow> string \<Rightarrow> 's"

definition memory_attempt ::
  "int \<Rightarrow> int \<Rightarrow> string \<Rightarrow> rat \<Rightarrow> 's limiter \<Rightarrow> bool \<times> 's limiter" where
  "memory_attempt limit global_limit identity now st =
     (let gate = take_slot global_limit now (global_slots st);
          st1 = st\<lparr>global_slots := snd gate\<rparr>
      in if \<not> fst gate then (False, st1)
         else
           let account = take_slot limit now (account_slots st1 identity)
           in (fst account, st1\<lparr>account_slots := (account_slots st1)(identity := snd account)\<rparr>))"

text \<open>The two shared stores: the global bucket first, then the bucket of the account.\<close>

definition shared_attempt ::
  "('t \<Rightarrow> string \<Rightarrow> rat \<Rightarrow> int \<Rightarrow> bool \<times> 't) \<Rightarrow> int \<Rightarrow> int \<Rightarrow> string \<Rightarrow> rat \<Rightarrow> 't \<Rightarrow> bool \<times> 't" where
  "shared_attempt take_one limit global_limit identity now T =
     (let gate = take_one T ''rivexis:auth-global'' now global_limit in
      if \<not> fst gate then (False, snd gate)
      else take_one (snd gate) (''rivexis:auth-login:'' @ identity) now limit)"

definition consume_login_attempt ::
  "(string \<Rightarrow> string) \<Rightarrow> 's redis_ops \<Rightarrow> string \<Rightarrow> int \<Rightarrow> int \<Rightarrow> string \<Rightarrow> rat \<Rightarrow> 's limiter \<Rightarrow> bool \<times> 's limiter"
where
  "consume_login_attempt digest ops backend limit global_limit email now st =
     (let identity = identity_of digest email in
      if backend = ''postgres''
      then map_prod id (\<lambda>T. st\<lparr>pg_store := T\<rparr>)
        (shared_attempt pg_consume_budget limit global_limit identity now (pg_store st))
      else if backend = ''redis''
      then map_prod id (\<lambda>T. st\<lparr>redis_store := T\<rparr>)
        (shared_attempt (redis_take ops) limit global_limit identity now (redis_store st))
      else memory_attempt limit global_limit identity now st)"

definition clear_login_attempts ::
  "(string \<Rightarrow> string) \<Rightarrow> 's redis_ops \<Rightarrow> string \<Rightarrow> string \<Rightarrow> 's limiter \<Rightarrow> 's limiter" where
  "clear_login_attempts digest ops backend email st =
     (let identity = identity_of digest email; bucket = ''rivexis:auth-login:'' @ identity in
      if backend = ''postgres'' then st\<lparr>pg_store := pg_clear_budget (pg_store st) bucket\<rparr>
      else if backend = ''redis'' then st\<lparr>redis_store := redis_delete ops (redis_store st) bucket\<rparr>
      else st\<lparr>account_slots := (account_slots st)(identity := [])\<rparr>)"

definition reset_limiter :: "'s limiter \<Rightarrow> 's limiter" where
  "reset_limiter st = st\<lparr>account_slots := (\<lambda>_. []), global_slots := []\<rparr>"

section \<open>Runs of the in-process limiter\<close>

datatype login_event = Attempted string rat bool bool | Cleared string

definition passed_gate :: "login_event list \<Rightarrow> rat list" where
  "passed_gate evs = concat (map (\<lambda>e. case e of Attempted i now gate ok \<Rightarrow>
     if gate then [now] else [] | Cleared i \<Rightarrow> []) evs)"

text \<open>The accepted attempts of an identity since its last clearing.\<close>

fun accepted_step :: "string \<Rightarrow> rat list \<Rightarrow> login_event \<Rightarrow> rat list" where
  "accepted_step i xs (Attempted j now gate ok) = (if j = i \<and> ok then xs @ [now] else xs)"
| "accepted_step i xs (Cleared j) = (if j = i then [] else xs)"

definition accepted :: "string \<Rightarrow> login_event list \<Rightarrow> rat list" where
  "accepted i evs = foldl (accepted_step i) [] evs"

definition gate_open :: "int \<Rightarrow> rat \<Rightarrow> 's limiter \<Rightarrow> bool" where
  "gate_open global_limit now st = fst (take_slot global_limit now (global_slots st))"

inductive login_run :: "int \<Rightarrow> int \<Rightarrow> rat \<Rightarrow> login_event list \<Rightarrow> 's limiter \<Rightarrow> bool"
  for limit global_limit where
  start: "global_slots st = [] \<Longrightarrow> account_slots st = (\<lambda>_. []) \<Longrightarrow>
    login_run limit global_limit t [] st"
| attempt: "login_run limit global_limit t evs st \<Longrightarrow> t \<le> now \<Longrightarrow>
    memory_attempt limit global_limit i now st = (ok, st') \<Longrightarrow>
    login_run limit global_limit now (evs @ [Attempted i now (gate_open global_limit now st) ok]) st'"
| clear: "login_run limit global_limit t evs st \<Longrightarrow>
    login_run limit global_limit t (evs @ [Cleared i])
      (st\<lparr>account_slots := (account_slots st)(i := [])\<rparr>)"

lemma login_history [simp]:
  "passed_gate [] = []" "accepted i [] = []"
  "passed_gate (evs @ [Attempted j now gate ok]) = passed_gate evs @ (if gate then [now] else [])"
  "passed_gate (evs @ [Cleared j]) = passed_gate evs"
  "accepted i (evs @ [Attempted j now gate ok]) = accepted i evs @ (if j = i \<and> ok then [now] else [])"
  "accepted i (evs @ [Cleared j]) = (if j = i then [] else accepted i evs)"
  by (simp_all add: passed_gate_def accepted_def)

definition tracked :: "int \<Rightarrow> rat list \<Rightarrow> rat \<Rightarrow> rat list \<Rightarrow> bool" where
  "tracked limit history t q =
     (tracks (\<lambda>now. fsub now 60) history t q \<and> within_limit (\<lambda>now. fsub now 60) limit history)"

lemma tracked_step:
  assumes "tracked limit history t q" and "t \<le> now" and "take_slot limit now q = (ok, q')"
  shows "tracked limit (history @ (if ok then [now] else [])) now q'"
  using assms slots.step_tracks(1) slots.step_within unfolding tracked_def by blast

lemma tracked_later: "tracked limit history t q \<Longrightarrow> t \<le> now \<Longrightarrow> tracked limit history now q"
  unfolding tracked_def using slots.tracks_later by blast

lemma tracked_Nil [simp]: "0 \<le> limit \<Longrightarrow> tracked limit [] t []"
  by (simp add: tracked_def)

lemma login_run_tracked:
  assumes "login_run limit global_limit t evs st" and "0 \<le> limit" and "0 \<le> global_limit"
  shows "tracked global_limit (passed_gate evs) t (global_slots st) \<and>
    (\<forall>i. tracked limit (accepted i evs) t (account_slots st i))"
  using assms(1)
proof induction
  case (attempt t evs st now i ok st')
  obtain gate q where g: "take_slot global_limit now (global_slots st) = (gate, q)" by fastforce
  have go: "gate_open global_limit now st = gate" by (simp add: gate_open_def g)
  have gl: "tracked global_limit (passed_gate evs @ (if gate then [now] else [])) now q"
    using tracked_step [OF _ attempt.hyps(2) g] attempt.IH by blast
  have old: "tracked limit (accepted j evs) now (account_slots st j)" for j
    using tracked_later attempt.IH attempt.hyps(2) by blast
  show ?case
  proof (cases gate)
    case False
    with attempt.hyps(3) g have "st' = st\<lparr>global_slots := q\<rparr>" "\<not> ok"
      by (simp_all add: memory_attempt_def)
    with gl old go False show ?thesis by simp
  next
    case True
    obtain b r where a: "take_slot limit now (account_slots st i) = (b, r)" by fastforce
    with attempt.hyps(3) g True have st': "ok = b"
      "st' = st\<lparr>global_slots := q, account_slots := (account_slots st)(i := r)\<rparr>"
      by (simp_all add: memory_attempt_def Let_def)
    have "tracked limit (accepted i evs @ (if ok then [now] else [])) now r"
      using tracked_step [OF _ attempt.hyps(2) a] attempt.IH st'(1) by blast
    with gl old go True st' show ?thesis by auto
  qed
qed (use assms(2,3) in auto)

section \<open>Properties\<close>

text \<open>
  In every run of the in-process limiter with a clock that does not go back, at most the
  global limit of attempts passes the gate within any sixty seconds, whatever addresses are used,
  and at most the account limit is accepted for one identity since its counter was last cleared.
\<close>

theorem login_attempts_bounded:
  assumes "login_run limit global_limit t evs st" and "0 \<le> limit" and "0 \<le> global_limit"
  shows "within_limit (\<lambda>now. fsub now 60) global_limit (passed_gate evs) \<and>
    within_limit (\<lambda>now. fsub now 60) limit (accepted i evs)"
  using login_run_tracked [OF assms] by (simp add: tracked_def)

theorem login_attempts_bounded_witness:
  "\<exists>st. login_run 1 5 0 [Attempted ''i'' 0 True True] (st :: unit limiter) \<and>
     within_limit (\<lambda>now. fsub now 60) 1 (accepted ''i'' [Attempted ''i'' 0 True True])"
proof -
  define st :: "unit limiter" where
    "st = \<lparr>account_slots = (\<lambda>_. []), global_slots = [], pg_store = pg_empty, redis_store = ()\<rparr>"
  obtain st' where m: "memory_attempt 1 5 ''i'' 0 st = (True, st')"
    by (simp add: memory_attempt_def st_def take_slot_def expire_slots_def Let_def)
  have g: "gate_open 5 0 st" by (simp add: gate_open_def st_def take_slot_def expire_slots_def)
  have "login_run 1 5 0 [] st" by (rule login_run.start) (simp_all add: st_def)
  from login_run.attempt [OF this _ m] g have r: "login_run 1 5 0 [Attempted ''i'' 0 True True] st'"
    by simp
  with login_attempts_bounded [OF r] show ?thesis by auto
qed

text \<open>
  C33: the limiter over PostgreSQL and the one in the process decide the same: from stores that hold
  the same slots, in order, an attempt gives the same answer and leaves the same slots.
\<close>

theorem login_backends_agree:
  assumes "bucket_times (pg_store st) ''rivexis:auth-global'' = global_slots st"
    and "\<And>i. bucket_times (pg_store st) (''rivexis:auth-login:'' @ i) = account_slots st i"
    and "sorted (global_slots st)" and "\<And>i. sorted (account_slots st i)"
    and "0 < limit" and "0 < global_limit"
    and "consume_login_attempt digest ops ''memory'' limit global_limit email now st = (ok, st')"
    and "consume_login_attempt digest ops ''postgres'' limit global_limit email now st = (ok', st'')"
  shows "ok' = ok \<and>
    bucket_times (pg_store st'') ''rivexis:auth-global'' = global_slots st' \<and>
    (\<forall>i. bucket_times (pg_store st'') (''rivexis:auth-login:'' @ i) = account_slots st' i)"
proof -
  let ?i = "identity_of digest email" and ?T = "pg_store st"
  obtain G and B :: "string \<Rightarrow> string" where names: "G = ''rivexis:auth-global''"
    "B = (\<lambda>i. ''rivexis:auth-login:'' @ i)" by blast
  have apart: "B i \<noteq> G" "B i = B k \<longleftrightarrow> i = k" for i k by (simp_all add: names)
  note g = pg_slot [OF assms(1) assms(3,6), folded names, where now = now]
  let ?T1 = "snd (pg_consume_budget ?T G now global_limit)"
  have B: "bucket_times ?T (B i) = account_slots st i" for i using assms(2) by (simp add: names)
  have "bucket_times ?T1 (B ?i) = account_slots st ?i" using g(3) [OF apart(1)] B by simp
  note a = pg_slot [OF this assms(4,5), where now = now]
  have pg: "consume_login_attempt digest ops ''postgres'' limit global_limit email now st =
      map_prod id (\<lambda>T. st\<lparr>pg_store := T\<rparr>)
        (if fst (take_slot global_limit now (global_slots st))
         then pg_consume_budget ?T1 (B ?i) now limit else (False, ?T1))"
    by (simp add: consume_login_attempt_def shared_attempt_def Let_def g(1) [unfolded names] names)
  have "ok' = ok \<and> bucket_times (pg_store st'') G = global_slots st' \<and>
    (\<forall>i. bucket_times (pg_store st'') (B i) = account_slots st' i)"
  proof (cases "fst (take_slot global_limit now (global_slots st))")
    case False
    with assms(8) pg have "ok' = False" "pg_store st'' = ?T1" by auto
    moreover from False assms(7) have "ok = False"
      "st' = st\<lparr>global_slots := snd (take_slot global_limit now (global_slots st))\<rparr>"
      by (auto simp: consume_login_attempt_def memory_attempt_def Let_def)
    ultimately show ?thesis using g(2,3) B apart by simp
  next
    case True
    let ?T2 = "pg_consume_budget ?T1 (B ?i) now limit"
    from True assms(8) pg have "ok' = fst ?T2" "pg_store st'' = snd ?T2"
      by (cases ?T2, auto)+
    moreover from True assms(7) have "ok = fst (take_slot limit now (account_slots st ?i))"
      "global_slots st' = snd (take_slot global_limit now (global_slots st))"
      "account_slots st' = (account_slots st)(?i := snd (take_slot limit now (account_slots st ?i)))"
      by (auto simp: consume_login_attempt_def memory_attempt_def Let_def)
    moreover have "bucket_times (snd ?T2) G = snd (take_slot global_limit now (global_slots st))"
      using a(3) [of G] apart(1) [of ?i] g(2) by simp
    moreover have "bucket_times (snd ?T2) (B k) =
        (if k = ?i then snd (take_slot limit now (account_slots st ?i)) else account_slots st k)" for k
      using a(2,3) apart g(3) B by simp
    ultimately show ?thesis using a(1) by simp
  qed
  then show ?thesis unfolding names .
qed


theorem login_backends_agree_witness:
  "let st = \<lparr>account_slots = (\<lambda>_. []), global_slots = [], pg_store = pg_empty, redis_store = ()\<rparr>;
       ops = \<lparr>redis_take = (\<lambda>s _ _ _. (True, s)), redis_delete = (\<lambda>s _. s)\<rparr> in
   fst (consume_login_attempt id ops ''postgres'' 1 5 ''a'' 0 st) =
     fst (consume_login_attempt id ops ''memory'' 1 5 ''a'' 0 st)"
proof -
  let ?st = "\<lparr>account_slots = (\<lambda>_. []), global_slots = [], pg_store = pg_empty, redis_store = ()\<rparr>"
  let ?ops = "\<lparr>redis_take = (\<lambda>s _ _ _. (True, s)), redis_delete = (\<lambda>s _. s)\<rparr>"
  obtain ok st1 where m: "consume_login_attempt id ?ops ''memory'' 1 5 ''a'' 0 ?st = (ok, st1)" by fastforce
  obtain ok' st2 where p: "consume_login_attempt id ?ops ''postgres'' 1 5 ''a'' 0 ?st = (ok', st2)" by fastforce
  have "ok' = ok"
    using login_backends_agree [OF _ _ _ _ _ _ m p] by (simp add: bucket_times_def pg_empty_def)
  with m p show ?thesis by (simp add: Let_def)
qed

end
