(* ===== verification/Certification.thy ===== *)
theory Certification
  imports PyNumber "HOL-Library.Multiset"
begin

text \<open>
  Canonical JSON, sealed evidence and the source-tree fingerprint (\<open>certification.py\<close>).
  SHA-256 of a text is the parameter \<open>sha\<close> and the shortest decimal form of a float the
  parameter \<open>frep\<close>. A source tree is the list of its files in any order: the parts of the
  relative path and the hash of the contents.
\<close>

section \<open>Canonical JSON\<close>

definition json_char :: "char \<Rightarrow> string" where
  "json_char c =
     (let n = code c in
      if n = 34 then [CHR 0x5C, CHR 0x22]
      else if n = 92 then [CHR 0x5C, CHR 0x5C]
      else if n = 8 then [CHR 0x5C, CHR ''b'']
      else if n = 9 then [CHR 0x5C, CHR ''t'']
      else if n = 10 then [CHR 0x5C, CHR ''n'']
      else if n = 12 then [CHR 0x5C, CHR ''f'']
      else if n = 13 then [CHR 0x5C, CHR ''r'']
      else if n < 32 then CHR 0x5C # CHR ''u'' # hexw 4 n
      else [c])"

definition json_string :: "string \<Rightarrow> string" where
  "json_string s = CHR 0x22 # concat (map json_char s) @ [CHR 0x22]"

text \<open>
  \<open>json.dumps(value, sort_keys=True, separators=(',', ':'), ensure_ascii=False)\<close>. The keys of
  a dictionary are distinct, so the texts of its values may be sorted with them.
\<close>

fun json_text :: "(pyfloat \<Rightarrow> string) \<Rightarrow> pyval \<Rightarrow> string" where
  "json_text frep VNone = ''null''"
| "json_text frep (VBool b) = (if b then ''true'' else ''false'')"
| "json_text frep (VInt n) = int_text n"
| "json_text frep (VFloat x) = frep x"
| "json_text frep (VStr s) = json_string s"
| "json_text frep (VList vs) = CHR ''['' # join '','' (map (json_text frep) vs) @ [CHR '']'']"
| "json_text frep (VDict d) = CHR 0x7B #
     join '','' (map (\<lambda>(k, t). json_string k @ CHR '':'' # t)
       (sort_key fst (map (\<lambda>p. (fst p, json_text frep (snd p))) d))) @ [CHR 0x7D]"

definition canonical_json :: "(pyfloat \<Rightarrow> string) \<Rightarrow> pydict \<Rightarrow> string" where
  "canonical_json frep d = json_text frep (VDict d)"

section \<open>Sealed evidence\<close>

text \<open>\<open>body = dict(d); body.pop(key, None)\<close>.\<close>

definition dict_without :: "string \<Rightarrow> pydict \<Rightarrow> pydict" where
  "dict_without k d = filter (\<lambda>p. fst p \<noteq> k) d"

definition seal_evidence :: "(string \<Rightarrow> string) \<Rightarrow> (pyfloat \<Rightarrow> string) \<Rightarrow> pydict \<Rightarrow> pydict" where
  "seal_evidence sha frep payload =
     (let body = dict_without ''evidence_sha256'' payload in
      body @ [(''evidence_sha256'', VStr (sha (canonical_json frep body)))])"

definition verify_evidence ::
  "(pyval \<Rightarrow> string) \<Rightarrow> (string \<Rightarrow> string) \<Rightarrow> (pyfloat \<Rightarrow> string) \<Rightarrow> pydict \<Rightarrow> bool" where
  "verify_evidence rep sha frep payload =
     (let expected = py_str rep (py_or (dict_get payload ''evidence_sha256'') (VStr [])) in
      expected \<noteq> [] \<and>
      expected = sha (canonical_json frep (dict_without ''evidence_sha256'' payload)))"

definition safe_env_presence :: "(string \<Rightarrow> string option) \<Rightarrow> string list \<Rightarrow> (string \<times> bool) list" where
  "safe_env_presence env names =
     fold (\<lambda>n d. dict_set n (case env n of None \<Rightarrow> False | Some t \<Rightarrow> py_strip t \<noteq> []) d) names []"

section \<open>The source tree\<close>

definition TRANSIENT_PARTS :: "string list" where
  "TRANSIENT_PARTS = [''.git'', ''.pytest_cache'', ''__pycache__'', ''node_modules'', ''.next'',
     ''test-results'', ''playwright-report'', ''certification-reports'']"

definition TRANSIENT_SUFFIXES :: "string list" where
  "TRANSIENT_SUFFIXES = [''.pyc'', ''.pyo'', ''.db'', ''.sqlite'', ''.sqlite3'']"

definition TRANSIENT_NAMES :: "string list" where
  "TRANSIENT_NAMES = [''REPOSITORY_MANIFEST.txt'', ''staging-certification.json'',
     ''release-certification-bundle.json'', ''certification-execution-manifest.json'']"

definition RUNNER_GENERATED_ROOT_FILES :: "string list" where
  "RUNNER_GENERATED_ROOT_FILES = [''package-lock.json'']"

text \<open>\<open>PurePath.suffix\<close>.\<close>

definition suffix_of :: "string \<Rightarrow> string" where
  "suffix_of name =
     (if CHR ''.'' \<in> set name \<and> before_last (CHR ''.'') name \<noteq> [] \<and> after_last (CHR ''.'') name \<noteq> []
      then CHR ''.'' # after_last (CHR ''.'') name else [])"

definition fingerprinted :: "string list \<Rightarrow> bool" where
  "fingerprinted parts =
     (\<not> list_ex (\<lambda>p. p \<in> set TRANSIENT_PARTS) parts \<and>
      last parts \<notin> set TRANSIENT_NAMES \<and>
      py_lower (suffix_of (last parts)) \<notin> set TRANSIENT_SUFFIXES \<and>
      join ''/'' parts \<notin> set RUNNER_GENERATED_ROOT_FILES)"

definition tree_rows :: "(string list \<times> string) list \<Rightarrow> string list" where
  "tree_rows files = map (\<lambda>(parts, digest). join ''/'' parts @ CHR 0x00 # digest)
     (filter (\<lambda>f. fingerprinted (fst f)) (sort_key fst files))"

definition tree_text :: "(string list \<times> string) list \<Rightarrow> string" where
  "tree_text files = join [CHR 10] (tree_rows files) @ [CHR 10]"

definition source_tree_fingerprint ::
  "(string \<Rightarrow> string) \<Rightarrow> (string list \<times> string) list \<Rightarrow> string \<times> nat" where
  "source_tree_fingerprint sha files = (sha (tree_text files), length (tree_rows files))"

section \<open>Order does not matter\<close>

lemma sort_key_unique:
  assumes "mset xs = mset ys" and "distinct (map fst xs)"
  shows "sort_key fst xs = sort_key fst (ys :: ('k :: linorder \<times> 'v) list)"
  using assms by (intro sort_key_inj_key_eq) (simp_all add: distinct_map)

lemma json_text_order:
  assumes "mset d = mset d'" and "wf_dict d"
  shows "canonical_json frep d = canonical_json frep d'"
proof -
  let ?f = "\<lambda>p. (fst p, json_text frep (snd p))"
  have "mset (map ?f d) = mset (map ?f d')" using assms(1) by simp
  moreover have "distinct (map fst (map ?f d))" using assms(2) by (simp add: wf_dict_def comp_def)
  ultimately have "sort_key fst (map ?f d) = sort_key fst (map ?f d')" by (rule sort_key_unique)
  then show ?thesis by (simp add: canonical_json_def)
qed

lemma dict_get_perm:
  assumes "mset d = mset d'" and "wf_dict d"
  shows "dict_get d k = dict_get d' k"
proof -
  have "distinct (map fst d')" using assms by (metis mset_map mset_eq_imp_distinct_iff wf_dict_def)
  moreover have "set d = set d'" using assms(1) by (rule mset_eq_setD)
  ultimately have "map_of d = map_of d'"
    using assms(2) by (intro map_of_inject_set [THEN iffD2]) (simp_all add: wf_dict_def)
  then show ?thesis by (simp add: dict_get_def)
qed

lemma without_perm:
  assumes "mset d = mset d'" and "wf_dict d"
  shows "canonical_json frep (dict_without k d) = canonical_json frep (dict_without k d')"
  using assms
  by (intro json_text_order)
    (simp_all add: dict_without_def wf_dict_def mset_filter distinct_map_filter)

section \<open>Properties\<close>

text \<open>
  Sealing evidence and verifying it is a round trip, for evidence in any order of its keys and
  also when it was sealed before, as long as the hash of the body is not the empty text.
\<close>

theorem seal_roundtrip:
  assumes "sha (canonical_json frep (dict_without ''evidence_sha256'' payload)) \<noteq> []"
    and "wf_dict payload" and "mset sealed = mset (seal_evidence sha frep payload)"
  shows "verify_evidence rep sha frep sealed"
proof -
  let ?k = "''evidence_sha256''"
  let ?body = "dict_without ?k payload"
  have wf: "wf_dict (seal_evidence sha frep payload)"
    using assms(2) by (auto simp: seal_evidence_def dict_without_def wf_dict_def distinct_map_filter Let_def)
  have get: "dict_get (d @ [(k, v)]) k = v" if "k \<notin> fst ` set d" for d k v
    using that by (induction d) (auto simp: rev_image_eqI)
  have "dict_get (seal_evidence sha frep payload) ?k = VStr (sha (canonical_json frep ?body))"
    unfolding seal_evidence_def Let_def by (rule get) (auto simp: dict_without_def)
  then have 1: "dict_get sealed ?k = VStr (sha (canonical_json frep ?body))"
    using dict_get_perm [OF assms(3) [symmetric] wf] by simp
  have "dict_without ?k (seal_evidence sha frep payload) = ?body"
    by (simp add: seal_evidence_def Let_def dict_without_def)
  then have 2: "canonical_json frep (dict_without ?k sealed) = canonical_json frep ?body"
    using without_perm [OF assms(3) [symmetric] wf, of frep ?k] by simp
  show ?thesis unfolding verify_evidence_def 1 2 using assms(1) by (simp add: py_or_def)
qed

theorem seal_roundtrip_witness:
  "verify_evidence (\<lambda>_. []) (\<lambda>t. ''h'' @ t) (\<lambda>_. [])
     [(''evidence_sha256'', VStr (''h'' @ canonical_json (\<lambda>_. []) [(''b'', VInt 1), (''a'', VNone)])),
      (''a'', VNone), (''b'', VInt 1)]"
  by (rule seal_roundtrip [where payload = "[(''b'', VInt 1), (''a'', VNone)]"])
    (simp_all add: wf_dict_def seal_evidence_def dict_without_def)

lemma split_at_inject:
  assumes "a @ c # x = b @ c # y" and "c \<notin> set a" and "c \<notin> set b"
  shows "a = b \<and> x = y"
  using assms by (induction a arbitrary: b) (auto simp: Cons_eq_append_conv)

lemma joined_rows: "xs \<noteq> [] \<Longrightarrow> join sep xs @ sep = concat (map (\<lambda>x. x @ sep) xs)"
proof -
  have "y @ concat (map (\<lambda>t. sep @ t) ys) @ sep = concat (map (\<lambda>x. x @ sep) (y # ys))" for y ys
    by (induction ys arbitrary: y) auto
  then show "xs \<noteq> [] \<Longrightarrow> join sep xs @ sep = concat (map (\<lambda>x. x @ sep) xs)"
    by (cases xs) (simp_all add: join_def)
qed

lemma parts_inject:
  assumes "concat (map (\<lambda>p. p @ [c]) xs) = concat (map (\<lambda>p. p @ [c]) ys)"
    and "list_all (\<lambda>p. c \<notin> set p) xs" and "list_all (\<lambda>p. c \<notin> set p) ys"
  shows "xs = ys"
  using assms
proof (induction xs arbitrary: ys)
  case Nil
  then show ?case by (cases ys) simp_all
next
  case (Cons p xs)
  then obtain q ys' where ys: "ys = q # ys'" by (cases ys) simp_all
  from Cons.prems split_at_inject [of p c "concat (map (\<lambda>p. p @ [c]) xs)" q]
  have "p = q" "concat (map (\<lambda>p. p @ [c]) xs) = concat (map (\<lambda>p. p @ [c]) ys')"
    by (simp_all add: ys)
  with Cons.IH Cons.prems show ?case by (simp add: ys)
qed

definition row_bytes :: "string \<times> string \<Rightarrow> string" where
  "row_bytes e = fst e @ CHR 0x00 # snd e @ [CHR 10]"

lemma rows_inject:
  assumes "concat (map row_bytes es) = concat (map row_bytes fs)"
    and "list_all (\<lambda>e. CHR 0x00 \<notin> set (fst e) \<and> length (snd e) = 64) es"
    and "list_all (\<lambda>e. CHR 0x00 \<notin> set (fst e) \<and> length (snd e) = 64) fs"
  shows "es = fs"
  using assms
proof (induction es arbitrary: fs)
  case Nil
  then show ?case by (cases fs) (simp_all add: row_bytes_def)
next
  case (Cons e es)
  then obtain f fs' where fs: "fs = f # fs'" by (cases fs) (simp_all add: row_bytes_def)
  from Cons.prems
  have "fst e @ CHR 0x00 # (snd e @ CHR 10 # concat (map row_bytes es)) =
      fst f @ CHR 0x00 # (snd f @ CHR 10 # concat (map row_bytes fs'))"
    using row_bytes_def [of e] row_bytes_def [of f] by (simp add: fs)
  from split_at_inject [OF this] Cons.prems
  have n: "fst e = fst f" "snd e @ CHR 10 # concat (map row_bytes es) =
      snd f @ CHR 10 # concat (map row_bytes fs')" by (simp_all add: fs)
  with Cons.prems have "snd e = snd f \<and> concat (map row_bytes es) = concat (map row_bytes fs')"
    by (simp add: fs append_eq_append_conv)
  with n(1) Cons.IH Cons.prems show ?case by (simp add: fs prod_eq_iff)
qed

text \<open>Paths as a file system gives them, and digests of 64 characters.\<close>

definition tree_ok :: "(string list \<times> string) list \<Rightarrow> bool" where
  "tree_ok files = (distinct (map fst files) \<and>
     list_all (\<lambda>f. fst f \<noteq> [] \<and> list_all (\<lambda>p. CHR 0x00 \<notin> set p \<and> CHR ''/'' \<notin> set p) (fst f) \<and>
       length (snd f) = 64) files)"

lemma join_chars: "c \<notin> set sep \<Longrightarrow> list_all (\<lambda>p. c \<notin> set p) xs \<Longrightarrow> c \<notin> set (join sep xs)"
  by (cases xs) (auto simp: join_def list_all_iff)

lemma tree_text_rows:
  assumes "entries = filter (\<lambda>f. fingerprinted (fst f)) (sort_key fst files)"
  shows "tree_text files = (if entries = [] then [CHR 10] else
    concat (map row_bytes (map (\<lambda>f. (join ''/'' (fst f), snd f)) entries)))"
proof (cases "entries = []")
  case False
  then have "tree_rows files \<noteq> []" using assms by (simp add: tree_rows_def)
  then have "tree_text files = concat (map (\<lambda>r. r @ [CHR 10]) (tree_rows files))"
    by (simp add: tree_text_def joined_rows)
  also have "\<dots> = concat (map row_bytes (map (\<lambda>f. (join ''/'' (fst f), snd f)) entries))"
    unfolding tree_rows_def assms by (simp add: comp_def case_prod_beta row_bytes_def)
  finally show ?thesis using False by simp
qed (use assms in \<open>simp add: tree_text_def tree_rows_def join_def\<close>)

lemma entries_inject:
  assumes "map (\<lambda>f. (join ''/'' (fst f), snd f)) es = map (\<lambda>f. (join ''/'' (fst f), snd f)) fs"
    and "\<And>f. f \<in> set es \<union> set fs \<Longrightarrow> fst f \<noteq> [] \<and> list_all (\<lambda>p. CHR ''/'' \<notin> set p) (fst f)"
  shows "es = fs"
proof (rule map_inj_on [OF assms(1)])
  show "inj_on (\<lambda>f. (join ''/'' (fst f), snd f)) (set es \<union> set fs)"
  proof (rule inj_onI)
    fix x y
    assume x: "x \<in> set es \<union> set fs" and y: "y \<in> set es \<union> set fs"
      and eq: "(join ''/'' (fst x), snd x) = (join ''/'' (fst y), snd y)"
    then have "concat (map (\<lambda>p. p @ ''/'') (fst x)) = concat (map (\<lambda>p. p @ ''/'') (fst y))"
      using assms(2) by (metis joined_rows prod.inject)
    then have "fst x = fst y" using parts_inject [of "CHR ''/''"] assms(2) x y by auto
    with eq show "x = y" by (simp add: prod_eq_iff)
  qed
qed

text \<open>
  C36: the hashed text of a source tree determines exactly the files that count: two trees have the
  same text if and only if their files outside the transient and generated ones are the same, with
  the same contents, in whatever order the directory was listed and whatever their names contain.
\<close>

theorem fingerprint_exact:
  assumes "tree_ok files" and "tree_ok files'"
  shows "tree_text files = tree_text files' \<longleftrightarrow>
    mset (filter (\<lambda>f. fingerprinted (fst f)) files) = mset (filter (\<lambda>f. fingerprinted (fst f)) files')"
proof
  let ?es = "\<lambda>files. filter (\<lambda>f. fingerprinted (fst f)) (sort_key fst files)"
  let ?row = "\<lambda>f. (join ''/'' (fst f), snd f)"
  have mset: "mset (?es fs) = mset (filter (\<lambda>f. fingerprinted (fst f)) fs)"
    for fs :: "(string list \<times> string) list"
    by (simp add: mset_filter)
  have ok: "list_all (\<lambda>e. CHR 0x00 \<notin> set (fst e) \<and> length (snd e) = 64) (map ?row (?es fs))"
    "\<And>f. f \<in> set (?es fs) \<Longrightarrow> fst f \<noteq> [] \<and> list_all (\<lambda>p. CHR ''/'' \<notin> set p) (fst f)"
    if "tree_ok fs" for fs
  proof -
    have f: "fst f \<noteq> []" "list_all (\<lambda>p. CHR 0x00 \<notin> set p) (fst f)"
      "list_all (\<lambda>p. CHR ''/'' \<notin> set p) (fst f)" "length (snd f) = 64" if "f \<in> set (?es fs)" for f
      using that \<open>tree_ok fs\<close> by (auto simp: tree_ok_def list_all_iff)
    have "CHR 0x00 \<notin> set (join ''/'' (fst f))" if "f \<in> set (?es fs)" for f
      using f(2) [OF that] by (intro join_chars) simp_all
    then show "list_all (\<lambda>e. CHR 0x00 \<notin> set (fst e) \<and> length (snd e) = 64) (map ?row (?es fs))"
      using f(4) by (simp add: list_all_iff)
    show "\<And>f. f \<in> set (?es fs) \<Longrightarrow> fst f \<noteq> [] \<and> list_all (\<lambda>p. CHR ''/'' \<notin> set p) (fst f)"
      using f by blast
  qed
  have long: "concat (map row_bytes (map ?row es)) \<noteq> [CHR 10]" for es
    by (cases es) (auto simp: row_bytes_def Cons_eq_append_conv append_eq_Cons_conv)
  assume "tree_text files = tree_text files'"
  then consider "?es files = []" "?es files' = []" |
    "concat (map row_bytes (map ?row (?es files))) = concat (map row_bytes (map ?row (?es files')))"
    unfolding tree_text_rows [OF refl] using long by (metis (no_types, lifting))
  then have "?es files = ?es files'"
  proof cases
    case 2
    from rows_inject [OF 2 ok(1) [OF assms(1)] ok(1) [OF assms(2)]]
    show ?thesis by (rule entries_inject) (use ok(2) assms in blast)
  qed simp
  then show "mset (filter (\<lambda>f. fingerprinted (fst f)) files) = mset (filter (\<lambda>f. fingerprinted (fst f)) files')"
    using mset by metis
next
  let ?in = "\<lambda>f :: string list \<times> string. fingerprinted (fst f)"
  assume "mset (filter ?in files) = mset (filter ?in files')"
  moreover have "distinct (map fst (filter ?in files))"
    using assms(1) by (simp add: tree_ok_def distinct_map_filter)
  ultimately have "sort_key fst (filter ?in files) = sort_key fst (filter ?in files')"
    by (rule sort_key_unique)
  then have "filter ?in (sort_key fst files) = filter ?in (sort_key fst files')"
    by (simp only: filter_sort)
  then show "tree_text files = tree_text files'" by (simp add: tree_text_def tree_rows_def)
qed

theorem fingerprint_exact_witness:
  "tree_text [([''a''], replicate 64 (CHR ''0'')), ([''.git'', ''x''], replicate 64 (CHR ''1''))] =
   tree_text [([''a''], replicate 64 (CHR ''0''))]"
  by (subst fingerprint_exact)
    (simp_all add: tree_ok_def fingerprinted_def TRANSIENT_PARTS_def)

end
