(* ===== verification/ReleaseBase.thy ===== *)
theory ReleaseBase
  imports Certification
begin

text \<open>
  What the release modules share: their errors (a refusal of the module itself, or an exception
  that escapes it), the regular expressions of names, roles, digests and release codenames, and
  timestamps. The ISO-8601 parser of \<open>datetime\<close> is the parameter \<open>fromiso\<close>: no value for
  \<open>ValueError\<close>, else the microseconds since the year one as written and the offset in
  microseconds, if there is one. The conversion to UTC fails outside the years 1 to 9999.
\<close>

datatype release_error = Refused string | Crashed py_exn

type_synonym 'a checked = "release_error + 'a"

text \<open>The result of a check that only passes or fails.\<close>

datatype passed = Passed

definition refuse_if :: "bool \<Rightarrow> string \<Rightarrow> passed checked" where
  "refuse_if b msg = (if b then Inl (Refused msg) else Inr Passed)"

lemma refuse_if_simps [simp]:
  "refuse_if False msg = Inr Passed" "refuse_if True msg = Inl (Refused msg)"
  by (simp_all add: refuse_if_def)

lemma refuse_if_Inr: "refuse_if b msg = Inr u \<longleftrightarrow> \<not> b"
  by (cases u) (simp add: refuse_if_def)

text \<open>A call of Python that can raise.\<close>

definition lift_py :: "'a py \<Rightarrow> 'a checked" where
  "lift_py m = (case m of Inl e \<Rightarrow> Inl (Crashed e) | Inr x \<Rightarrow> Inr x)"

lemma lift_py_simps [simp]: "lift_py (Inr x) = Inr x" "lift_py (Inl e) = Inl (Crashed e)"
  "lift_py m = Inr x \<longleftrightarrow> m = Inr x"
  by (auto simp: lift_py_def split: sum.split)

section \<open>Regular expressions\<close>

definition ascii_upper :: "char \<Rightarrow> bool" where
  "ascii_upper c = (65 \<le> code c \<and> code c \<le> 90)"

definition ascii_lower :: "char \<Rightarrow> bool" where
  "ascii_lower c = (97 \<le> code c \<and> code c \<le> 122)"

definition ascii_digit :: "char \<Rightarrow> bool" where
  "ascii_digit c = (48 \<le> code c \<and> code c \<le> 57)"

definition name_char :: "char \<Rightarrow> bool" where
  "name_char c = (ascii_upper c \<or> ascii_lower c \<or> ascii_digit c \<or> c \<in> set ''._:/@+-'')"

text \<open>\<open>[A-Za-z0-9][A-Za-z0-9._:/@+-]{0,n}\<close>.\<close>

definition name_match :: "nat \<Rightarrow> string \<Rightarrow> bool" where
  "name_match n s =
     (case s of [] \<Rightarrow> False
      | c # cs \<Rightarrow> (ascii_upper c \<or> ascii_lower c \<or> ascii_digit c) \<and> length cs \<le> n \<and> list_all name_char cs)"

text \<open>\<open>[A-Z][A-Z0-9_]{1,63}\<close>.\<close>

definition role_match :: "string \<Rightarrow> bool" where
  "role_match s =
     (case s of [] \<Rightarrow> False
      | c # cs \<Rightarrow> ascii_upper c \<and> 1 \<le> length cs \<and> length cs \<le> 63 \<and>
          list_all (\<lambda>c. ascii_upper c \<or> ascii_digit c \<or> c = CHR ''_'') cs)"

text \<open>\<open>[0-9a-f]{64}\<close>.\<close>

definition sha256_match :: "string \<Rightarrow> bool" where
  "sha256_match s =
     (length s = 64 \<and> list_all (\<lambda>c. ascii_digit c \<or> 97 \<le> code c \<and> code c \<le> 102) s)"

text \<open>\<open>P([1-9][0-9]*)\<close> and the number; a number of more than 4300 digits is refused by \<open>int\<close>.\<close>

definition release_match :: "string \<Rightarrow> bool" where
  "release_match s =
     (case s of c # d # ds \<Rightarrow> c = CHR ''P'' \<and> ascii_digit d \<and> d \<noteq> CHR ''0'' \<and> list_all ascii_digit ds
      | _ \<Rightarrow> False)"

definition release_number :: "(pyval \<Rightarrow> string) \<Rightarrow> string \<Rightarrow> int checked" where
  "release_number rep release =
     (if \<not> release_match release
      then Inl (Refused (''invalid release codename: '' @ rep (VStr release)))
      else case py_int 10 (tl release) of None \<Rightarrow> Inl (Crashed ValueError) | Some n \<Rightarrow> Inr n)"

section \<open>Timestamps\<close>

type_synonym iso_parser = "string \<Rightarrow> (int \<times> int option) option"

definition time_limit :: int where
  "time_limit = 3652059 * 86400 * 1000000"

definition replace_z :: "string \<Rightarrow> string" where
  "replace_z s = concat (map (\<lambda>c. if c = CHR ''Z'' then ''+00:00'' else [c]) s)"

definition parse_timestamp :: "iso_parser \<Rightarrow> pyval \<Rightarrow> string \<Rightarrow> int checked" where
  "parse_timestamp fromiso value label =
     (case value of
        VStr text \<Rightarrow>
          if py_strip text = [] then Inl (Refused (label @ '' must be an ISO-8601 timestamp''))
          else (case fromiso (replace_z text) of
            None \<Rightarrow> Inl (Refused (label @ '' must be an ISO-8601 timestamp''))
          | Some (t, None) \<Rightarrow> Inl (Refused (label @ '' must include a timezone offset''))
          | Some (t, Some offset) \<Rightarrow>
              if 0 \<le> t - offset \<and> t - offset < time_limit then Inr (t - offset)
              else Inl (Crashed OverflowError))
      | _ \<Rightarrow> Inl (Refused (label @ '' must be an ISO-8601 timestamp'')))"

text \<open>\<open>value == n\<close> for an integer.\<close>

definition equals_int :: "pyval \<Rightarrow> int \<Rightarrow> bool" where
  "equals_int v n =
     (case v of
        VInt m \<Rightarrow> m = n
      | VBool b \<Rightarrow> (if b then 1 else 0) = n
      | VFloat (Fin r) \<Rightarrow> r = of_int n
      | _ \<Rightarrow> False)"

text \<open>\<open>set(d) == fields\<close>.\<close>

definition same_fields :: "pydict \<Rightarrow> string list \<Rightarrow> bool" where
  "same_fields d fields =
     (list_all (\<lambda>p. fst p \<in> set fields) d \<and> list_all (\<lambda>f. f \<in> set (map fst d)) fields)"

lemma same_fields_iff: "same_fields d fields \<longleftrightarrow> set (map fst d) = set fields"
  by (auto simp: same_fields_def list_all_iff)

end
