(* ===== verification/ReleaseTrust.thy ===== *)
theory ReleaseTrust
  imports ReleaseBase
begin

text \<open>
  The organisational trust policy of a release (\<open>release_trust.py\<close>): validation of keys,
  quorum and ceremony, the authorisation of one signer and of a quorum of signers. \<open>rep\<close> is
  \<open>repr\<close>, used in messages only.
\<close>

section \<open>Keys\<close>

record key_entry =
  entry_key_id :: string
  entry_role :: string
  entry_fingerprint :: string
  entry_status :: string
  not_before :: int
  not_after :: "int option"
  release_min :: int
  release_max :: "int option"

definition KEY_FIELDS :: "string list" where
  "KEY_FIELDS = [''key_id'', ''role'', ''public_key_sha256'', ''status'', ''not_before'',
     ''not_after'', ''release_min'', ''release_max'']"

text \<open>A text that matches, or a refusal.\<close>

definition matching :: "(string \<Rightarrow> bool) \<Rightarrow> pyval \<Rightarrow> string \<Rightarrow> string checked" where
  "matching p v msg =
     (case v of VStr s \<Rightarrow> if p s then Inr s else Inl (Refused msg) | _ \<Rightarrow> Inl (Refused msg))"

definition validity :: "iso_parser \<Rightarrow> string \<Rightarrow> pydict \<Rightarrow> (int \<times> int option) checked" where
  "validity fromiso key entry =
     rbind (parse_timestamp fromiso (dict_get entry ''not_before'') (key @ '' not_before'')) (\<lambda>before.
     rbind (if dict_get entry ''not_after'' = VNone then Inr None
            else map_sum id Some (parse_timestamp fromiso (dict_get entry ''not_after'') (key @ '' not_after'')))
       (\<lambda>after.
     rbind (refuse_if (case after of None \<Rightarrow> False | Some t \<Rightarrow> t \<le> before)
         (key @ '' not_after must be later than not_before'')) (\<lambda>_. Inr (before, after))))"

definition release_range :: "string \<Rightarrow> pydict \<Rightarrow> (int \<times> int option) checked" where
  "release_range key entry =
     (let bad_min = Inl (Refused (key @ '' release_min must be a positive integer''));
          bad_max = Inl (Refused (key @ '' release_max must be null or >= release_min''))
      in case dict_get entry ''release_min'' of
           VInt low \<Rightarrow>
             if low < 1 then bad_min
             else (case dict_get entry ''release_max'' of
                 VNone \<Rightarrow> Inr (low, None)
               | VInt high \<Rightarrow> if high < low then bad_max else Inr (low, Some high)
               | _ \<Rightarrow> bad_max)
         | _ \<Rightarrow> bad_min)"

definition validate_key_entry :: "(pyval \<Rightarrow> string) \<Rightarrow> iso_parser \<Rightarrow> pyval \<Rightarrow> key_entry checked" where
  "validate_key_entry rep fromiso value =
     (case value of
        VDict entry \<Rightarrow>
          rbind (refuse_if (\<not> same_fields entry KEY_FIELDS)
            ''trust policy key entries must contain exactly the documented fields'') (\<lambda>_.
          rbind (matching (name_match 127) (dict_get entry ''key_id'') ''trust policy key_id is invalid'')
            (\<lambda>key_id.
          let key = ''trust policy key '' @ rep (VStr key_id) in
          rbind (matching role_match (dict_get entry ''role'') (key @ '' has invalid role'')) (\<lambda>role.
          rbind (matching sha256_match (dict_get entry ''public_key_sha256'')
            (key @ '' has invalid public_key_sha256'')) (\<lambda>fingerprint.
          rbind (lift_py (in_texts (dict_get entry ''status'') [''ACTIVE'', ''REVOKED''])) (\<lambda>known.
          rbind (refuse_if (\<not> known) (key @ '' has invalid status'')) (\<lambda>_.
          rbind (validity fromiso key entry) (\<lambda>times.
          rbind (release_range key entry) (\<lambda>releases.
            Inr \<lparr>entry_key_id = key_id, entry_role = role, entry_fingerprint = fingerprint,
              entry_status = (case dict_get entry ''status'' of VStr s \<Rightarrow> s | _ \<Rightarrow> []),
              not_before = fst times, not_after = snd times,
              release_min = fst releases, release_max = snd releases\<rparr>))))))))
      | _ \<Rightarrow> Inl (Refused ''trust policy keys must be objects''))"

section \<open>Quorum, ceremony, policy\<close>

definition texts_of :: "pyval list \<Rightarrow> string list" where
  "texts_of vs = map (\<lambda>v. case v of VStr s \<Rightarrow> s | _ \<Rightarrow> []) vs"

definition quorum_roles :: "pyval \<Rightarrow> string list checked" where
  "quorum_roles roles =
     (case roles of
        VList vs \<Rightarrow>
          if length vs < 2 then Inl (Refused ''trust policy required_roles must contain at least two roles'')
          else if list_ex (\<lambda>v. \<not> is_str v \<or> \<not> role_match (hd (texts_of [v]))) vs
          then Inl (Refused ''trust policy required_roles contains an invalid role'')
          else if \<not> distinct (texts_of vs) then Inl (Refused ''trust policy required_roles must be unique'')
          else Inr (texts_of vs)
      | _ \<Rightarrow> Inl (Refused ''trust policy required_roles must contain at least two roles''))"

definition validate_quorum ::
  "(pyval \<Rightarrow> string) \<Rightarrow> pyval \<Rightarrow> key_entry list \<Rightarrow> (int \<times> string list) checked" where
  "validate_quorum rep quorum keys =
     (case quorum of
        VDict d \<Rightarrow>
          rbind (refuse_if (\<not> same_fields d [''minimum_signatures'', ''required_roles''])
            ''trust policy quorum must contain exactly minimum_signatures and required_roles'') (\<lambda>_.
          case dict_get d ''minimum_signatures'' of
            VInt minimum \<Rightarrow>
              rbind (refuse_if (minimum < 2) ''trust policy minimum_signatures must be an integer >= 2'') (\<lambda>_.
              rbind (refuse_if (int (length keys) < minimum)
                ''trust policy minimum_signatures cannot exceed the number of trusted keys'') (\<lambda>_.
              rbind (quorum_roles (dict_get d ''required_roles'')) (\<lambda>roles.
              rbind (refuse_if (minimum < int (length roles))
                ''minimum_signatures must be >= the number of required_roles'') (\<lambda>_.
              let missing = filter (\<lambda>r. r \<notin> set (map entry_role keys)) roles in
              rbind (refuse_if (missing \<noteq> []) (''trust policy required_roles are not backed by trusted keys: '' @
                rep (VList (map VStr (sorted_set missing))))) (\<lambda>_. Inr (minimum, roles))))))
          | _ \<Rightarrow> Inl (Refused ''trust policy minimum_signatures must be an integer >= 2''))
      | _ \<Rightarrow> Inl (Refused
          ''trust policy quorum must contain exactly minimum_signatures and required_roles''))"

definition int_between :: "pyval \<Rightarrow> int \<Rightarrow> int \<Rightarrow> string \<Rightarrow> int checked" where
  "int_between v low high msg =
     (case v of VInt n \<Rightarrow> if low \<le> n \<and> n \<le> high then Inr n else Inl (Refused msg)
      | _ \<Rightarrow> Inl (Refused msg))"

definition validate_ceremony :: "pyval \<Rightarrow> (int \<times> int \<times> int) checked" where
  "validate_ceremony ceremony =
     (let fields = ''trust policy ceremony must contain exactly request_ttl_seconds, '' @
            ''max_certification_age_seconds and max_clock_skew_seconds''
      in case ceremony of
        VDict d \<Rightarrow>
          rbind (refuse_if (\<not> same_fields d [''request_ttl_seconds'', ''max_certification_age_seconds'',
            ''max_clock_skew_seconds'']) fields) (\<lambda>_.
          rbind (int_between (dict_get d ''request_ttl_seconds'') 300 86400
            ''trust policy request_ttl_seconds must be an integer between 300 and 86400'') (\<lambda>ttl.
          rbind (int_between (dict_get d ''max_certification_age_seconds'') 3600 604800
            (''trust policy max_certification_age_seconds must be an integer between 3600 and 604800''))
            (\<lambda>age.
          rbind (int_between (dict_get d ''max_clock_skew_seconds'') 0 300
            ''trust policy max_clock_skew_seconds must be an integer between 0 and 300'') (\<lambda>skew.
          Inr (ttl, age, skew)))))
      | _ \<Rightarrow> Inl (Refused fields))"

definition POLICY_FIELDS :: "string list" where
  "POLICY_FIELDS = [''schema_version'', ''policy_id'', ''organization'', ''signature_algorithm'',
     ''quorum'', ''ceremony'', ''keys'']"

definition policy_keys :: "pydict \<Rightarrow> pyval list" where
  "policy_keys policy = (case dict_get policy ''keys'' of VList ks \<Rightarrow> ks | _ \<Rightarrow> [])"

definition verify_policy_keys :: "(pyval \<Rightarrow> string) \<Rightarrow> iso_parser \<Rightarrow> pydict \<Rightarrow> key_entry list checked" where
  "verify_policy_keys rep fromiso policy =
     rbind (refuse_if (length (policy_keys policy) < 2) ''trust policy must contain at least two keys'') (\<lambda>_.
     rbind (map_res (validate_key_entry rep fromiso) (policy_keys policy)) (\<lambda>keys.
     rbind (refuse_if (\<not> distinct (map entry_key_id keys)) ''trust policy contains duplicate key_id values'') (\<lambda>_.
     rbind (refuse_if (\<not> distinct (map entry_fingerprint keys))
       ''trust policy contains duplicate public-key fingerprints'') (\<lambda>_. Inr keys))))"

definition organization_ok :: "string \<Rightarrow> bool" where
  "organization_ok s = (py_strip s \<noteq> [] \<and> length (py_strip s) \<le> 128)"

definition verify_trust_policy :: "(pyval \<Rightarrow> string) \<Rightarrow> iso_parser \<Rightarrow> pyval \<Rightarrow> pydict checked" where
  "verify_trust_policy rep fromiso value =
     (case value of
        VDict policy \<Rightarrow>
          rbind (refuse_if (\<not> equals_int (dict_get policy ''schema_version'') 3)
            ''unsupported release trust policy schema'') (\<lambda>_.
          rbind (refuse_if (\<not> same_fields policy POLICY_FIELDS)
            ''trust policy must contain exactly the documented top-level fields'') (\<lambda>_.
          rbind (matching (name_match 127) (dict_get policy ''policy_id'') ''trust policy policy_id is invalid'')
            (\<lambda>_.
          rbind (matching organization_ok (dict_get policy ''organization'')
            ''trust policy organization must be 1-128 characters'') (\<lambda>_.
          rbind (refuse_if (dict_get policy ''signature_algorithm'' \<noteq> VStr ''Ed25519'')
            ''trust policy signature_algorithm must be Ed25519'') (\<lambda>_.
          rbind (verify_policy_keys rep fromiso policy) (\<lambda>keys.
          rbind (validate_quorum rep (dict_get policy ''quorum'') keys) (\<lambda>_.
          rbind (validate_ceremony (dict_get policy ''ceremony'')) (\<lambda>_. Inr policy))))))))
      | _ \<Rightarrow> Inl (Refused ''unsupported release trust policy schema''))"

definition trust_policy_fingerprint ::
  "(pyval \<Rightarrow> string) \<Rightarrow> iso_parser \<Rightarrow> (string \<Rightarrow> string) \<Rightarrow> (pyfloat \<Rightarrow> string) \<Rightarrow> pyval \<Rightarrow> string checked" where
  "trust_policy_fingerprint rep fromiso sha frep policy =
     rbind (verify_trust_policy rep fromiso policy) (\<lambda>verified. Inr (sha (canonical_json frep verified)))"

section \<open>Authorisation\<close>

text \<open>The checks on the entry that has the key id of the signer.\<close>

definition authorize_entry :: "key_entry \<Rightarrow> pyval \<Rightarrow> int \<Rightarrow> int \<Rightarrow> passed checked" where
  "authorize_entry entry fingerprint number signed_time =
     rbind (refuse_if (VStr (entry_fingerprint entry) \<noteq> fingerprint)
       ''trusted key fingerprint does not match attestation signer'') (\<lambda>_.
     rbind (refuse_if (entry_status entry \<noteq> ''ACTIVE'') ''release signing key is revoked'') (\<lambda>_.
     rbind (refuse_if (signed_time < not_before entry) ''release signature predates key validity'') (\<lambda>_.
     rbind (refuse_if (case not_after entry of None \<Rightarrow> False | Some t \<Rightarrow> t < signed_time)
       ''release signature is outside key validity window'') (\<lambda>_.
     rbind (refuse_if (number < release_min entry) ''release is below key authorization range'') (\<lambda>_.
     refuse_if (case release_max entry of None \<Rightarrow> False | Some m \<Rightarrow> m < number)
       ''release is above key authorization range'')))))"

fun find_signer ::
  "(pyval \<Rightarrow> string) \<Rightarrow> iso_parser \<Rightarrow> pyval \<Rightarrow> pyval \<Rightarrow> int \<Rightarrow> int \<Rightarrow> pyval list \<Rightarrow> pyval checked" where
  "find_signer rep fromiso key_id fingerprint number signed_time [] =
     Inl (Refused (''key_id '' @ rep key_id @ '' is not authorized by the trust policy''))"
| "find_signer rep fromiso key_id fingerprint number signed_time (raw # rest) =
     rbind (validate_key_entry rep fromiso raw) (\<lambda>entry.
       if VStr (entry_key_id entry) \<noteq> key_id
       then find_signer rep fromiso key_id fingerprint number signed_time rest
       else rbind (authorize_entry entry fingerprint number signed_time) (\<lambda>_. Inr raw))"

definition require_authorized_signer ::
  "(pyval \<Rightarrow> string) \<Rightarrow> iso_parser \<Rightarrow> pyval \<Rightarrow> pyval \<Rightarrow> pyval \<Rightarrow> string \<Rightarrow> pyval \<Rightarrow> pyval checked" where
  "require_authorized_signer rep fromiso policy key_id fingerprint release signed_at =
     rbind (verify_trust_policy rep fromiso policy) (\<lambda>verified.
     rbind (release_number rep release) (\<lambda>number.
     rbind (parse_timestamp fromiso signed_at ''attestation generated_at'') (\<lambda>signed_time.
       find_signer rep fromiso key_id fingerprint number signed_time (policy_keys verified))))"

text \<open>\<open>signer[key]\<close>.\<close>

definition dict_index :: "pydict \<Rightarrow> string \<Rightarrow> pyval checked" where
  "dict_index d k = (case map_of d k of None \<Rightarrow> Inl (Crashed KeyError) | Some v \<Rightarrow> Inr v)"

definition authorize_signer ::
  "(pyval \<Rightarrow> string) \<Rightarrow> iso_parser \<Rightarrow> pyval \<Rightarrow> string \<Rightarrow> pyval \<Rightarrow> pydict \<Rightarrow> pyval checked" where
  "authorize_signer rep fromiso policy release signed_at signer =
     rbind (dict_index signer ''key_id'') (\<lambda>key_id.
     rbind (dict_index signer ''public_key_sha256'') (\<lambda>fingerprint.
       require_authorized_signer rep fromiso policy key_id fingerprint release signed_at))"

definition signer_texts :: "(pyval \<Rightarrow> string) \<Rightarrow> string \<Rightarrow> pydict list \<Rightarrow> string list" where
  "signer_texts rep k ds = map (\<lambda>d. py_str rep (py_or (dict_get d k) (VStr []))) ds"

definition require_authorized_quorum ::
  "(pyval \<Rightarrow> string) \<Rightarrow> iso_parser \<Rightarrow> pyval \<Rightarrow> pyval \<Rightarrow> string \<Rightarrow> pyval \<Rightarrow> pyval list checked" where
  "require_authorized_quorum rep fromiso policy signers release signed_at =
     rbind (verify_trust_policy rep fromiso policy) (\<lambda>verified.
     case signers of
       VList vs \<Rightarrow>
         let ds = map dict_items (filter is_dict vs) in
         rbind (refuse_if (length ds \<noteq> length vs)
           ''release signers must contain key_id and public_key_sha256'') (\<lambda>_.
         rbind (refuse_if (\<not> distinct (signer_texts rep ''key_id'' ds))
           ''release signer key IDs must be distinct'') (\<lambda>_.
         rbind (refuse_if (\<not> distinct (signer_texts rep ''public_key_sha256'' ds))
           ''release signer public-key fingerprints must be distinct'') (\<lambda>_.
         rbind (map_res (authorize_signer rep fromiso (VDict verified) release signed_at) ds) (\<lambda>authorized.
         rbind (map_res (validate_key_entry rep fromiso) (policy_keys verified)) (\<lambda>keys.
         rbind (validate_quorum rep (dict_get verified ''quorum'') keys) (\<lambda>quorum.
         rbind (refuse_if (int (length authorized) < fst quorum) (''release signature quorum not met: '' @
           dec_text (length authorized) @ ''/'' @ int_text (fst quorum) @ '' authorized signatures'')) (\<lambda>_.
         let roles = map (\<lambda>e. py_str rep (dict_get (dict_items e) ''role'')) authorized;
             missing = filter (\<lambda>r. r \<notin> set roles) (snd quorum) in
         rbind (refuse_if (missing \<noteq> []) (''release signature quorum is missing required roles: '' @
           rep (VList (map VStr (sorted_set missing))))) (\<lambda>_. Inr authorized))))))))
     | _ \<Rightarrow> Inl (Refused ''release signers must be a list''))"

text \<open>The policy file must be a file outside the repository; paths are resolved, as lists of parts.\<close>

definition ensure_external_trust_policy ::
  "(string list \<Rightarrow> bool) \<Rightarrow> string list \<Rightarrow> string list \<Rightarrow> string list checked" where
  "ensure_external_trust_policy is_file resolved repository =
     (if \<not> is_file resolved
      then Inl (Refused (''release trust policy does not exist or is not a file: '' @ join ''/'' resolved))
      else if take (length repository) resolved \<noteq> repository then Inr resolved
      else Inl (Refused ''release trust policy must remain outside the Rivexis repository''))"

section \<open>Properties\<close>

lemma map_res_all2: "map_res f xs = Inr ys \<Longrightarrow> list_all2 (\<lambda>x y. f x = Inr y) xs ys"
  by (induction xs arbitrary: ys) (auto elim!: rbindE)

lemma all2_choose:
  assumes "list_all2 (\<lambda>x y. \<exists>z. Q x y z) xs ys"
  obtains zs where "length zs = length xs" "length ys = length xs"
    "\<And>i. i < length xs \<Longrightarrow> Q (xs ! i) (ys ! i) (zs ! i)"
proof -
  from assms have "\<forall>i. \<exists>z. i < length xs \<longrightarrow> Q (xs ! i) (ys ! i) z"
    by (auto simp: list_all2_conv_all_nth)
  then obtain f where "\<forall>i. i < length xs \<longrightarrow> Q (xs ! i) (ys ! i) (f i)" by metis
  with assms that [of "map f [0..<length xs]"] show thesis by (auto dest: list_all2_lengthD)
qed

text \<open>A key that may sign a release at a time.\<close>

definition usable :: "key_entry \<Rightarrow> int \<Rightarrow> int \<Rightarrow> bool" where
  "usable e number t =
     (entry_status e = ''ACTIVE'' \<and> not_before e \<le> t \<and>
      (case not_after e of None \<Rightarrow> True | Some u \<Rightarrow> t \<le> u) \<and> release_min e \<le> number \<and>
      (case release_max e of None \<Rightarrow> True | Some m \<Rightarrow> number \<le> m))"

lemma authorize_entry_iff:
  "authorize_entry e fingerprint number t = Inr u \<longleftrightarrow>
     VStr (entry_fingerprint e) = fingerprint \<and> usable e number t"
  by (auto simp: authorize_entry_def usable_def rbind_eq_Inr refuse_if_Inr not_less split: option.split)

lemma matchingE:
  assumes "matching p v msg = Inr s"
  shows "v = VStr s \<and> p s"
  using assms by (auto simp: matching_def split: pyval.split_asm if_split_asm)

lemma validate_key_fields:
  assumes "validate_key_entry rep fromiso raw = Inr e"
  shows "dict_get (dict_items raw) ''role'' = VStr (entry_role e) \<and>
    entry_key_id e \<noteq> [] \<and> entry_fingerprint e \<noteq> []"
  using assms
  by (cases raw) (auto simp: validate_key_entry_def Let_def name_match_def sha256_match_def
      elim!: rbindE dest!: matchingE)

lemma find_signer_sound:
  "find_signer rep fromiso key_id fingerprint number t raws = Inr raw \<Longrightarrow>
   \<exists>e. raw \<in> set raws \<and> validate_key_entry rep fromiso raw = Inr e \<and>
     VStr (entry_key_id e) = key_id \<and> VStr (entry_fingerprint e) = fingerprint \<and> usable e number t"
  by (induction raws) (auto simp: authorize_entry_iff elim!: rbindE split: if_split_asm)

lemma dict_index_get: "dict_index d k = Inr v \<Longrightarrow> dict_get d k = v"
  by (simp add: dict_index_def dict_get_def split: option.split_asm)

lemma verify_policy_same: "verify_trust_policy rep fromiso v = Inr p \<Longrightarrow> v = VDict p"
  by (cases v) (auto simp: verify_trust_policy_def elim!: rbindE)

lemma authorize_signer_sound:
  assumes "authorize_signer rep fromiso (VDict p) release signed_at d = Inr raw"
  shows "\<exists>number t e. release_number rep release = Inr number \<and>
    parse_timestamp fromiso signed_at ''attestation generated_at'' = Inr t \<and>
    raw \<in> set (policy_keys p) \<and> validate_key_entry rep fromiso raw = Inr e \<and>
    VStr (entry_key_id e) = dict_get d ''key_id'' \<and>
    VStr (entry_fingerprint e) = dict_get d ''public_key_sha256'' \<and> usable e number t"
  using assms find_signer_sound
  by (auto simp: authorize_signer_def require_authorized_signer_def elim!: rbindE
      dest!: dict_index_get verify_policy_same)

lemma quorum_bounds:
  assumes "validate_quorum rep q keys = Inr (minimum, roles)"
  shows "2 \<le> minimum \<and> 2 \<le> length roles \<and> distinct roles"
  using assms
  by (auto simp: refuse_if_Inr validate_quorum_def quorum_roles_def texts_of_def Let_def elim!: rbindE
      split: pyval.split_asm if_split_asm)

lemma quorum_fields:
  assumes "validate_quorum rep q keys = Inr (minimum, roles)"
  shows "q = VDict (dict_items q) \<and> dict_get (dict_items q) ''minimum_signatures'' = VInt minimum \<and>
    dict_get (dict_items q) ''required_roles'' = VList (map VStr roles)"
proof -
  have roles: "r = VList (map VStr rs)" if "quorum_roles r = Inr rs" for r rs
  proof -
    from that obtain vs where vs: "r = VList vs" "list_all is_str vs" "rs = texts_of vs"
      by (cases r) (auto simp: quorum_roles_def list_all_iff list_ex_iff split: if_split_asm)
    have "is_str v \<Longrightarrow> VStr (case v of VStr s \<Rightarrow> s | _ \<Rightarrow> []) = v" for v by (cases v) simp_all
    with vs(2) have "map VStr (texts_of vs) = vs"
      by (auto simp: texts_of_def list_all_iff intro!: map_idI)
    with vs show ?thesis by simp
  qed
  from assms show ?thesis
    by (cases q) (auto simp: validate_quorum_def refuse_if_Inr Let_def elim!: rbindE
        split: pyval.split_asm dest: roles)
qed

text \<open>The entries behind the signers that were all authorised.\<close>

lemma authorized_signers:
  assumes "map_res (authorize_signer rep fromiso (VDict p) release signed_at) ds = Inr authorized" and "ds \<noteq> []"
  obtains number t es where "release_number rep release = Inr number"
    "parse_timestamp fromiso signed_at ''attestation generated_at'' = Inr t"
    "list_all2 (\<lambda>raw e. raw \<in> set (policy_keys p) \<and> validate_key_entry rep fromiso raw = Inr e \<and>
      usable e number t) authorized es"
    "map (\<lambda>d. (dict_get d ''key_id'', dict_get d ''public_key_sha256'')) ds =
      map (\<lambda>e. (VStr (entry_key_id e), VStr (entry_fingerprint e))) es"
proof -
  from map_res_all2 [OF assms(1)]
  have "list_all2 (\<lambda>d raw. \<exists>e. \<exists>number t. release_number rep release = Inr number \<and>
      parse_timestamp fromiso signed_at ''attestation generated_at'' = Inr t \<and>
      raw \<in> set (policy_keys p) \<and> validate_key_entry rep fromiso raw = Inr e \<and>
      VStr (entry_key_id e) = dict_get d ''key_id'' \<and>
      VStr (entry_fingerprint e) = dict_get d ''public_key_sha256'' \<and> usable e number t) ds authorized"
    by (rule list_all2_mono) (use authorize_signer_sound in blast)
  then obtain es where es: "length es = length ds" "length authorized = length ds"
    and some: "\<And>i. i < length ds \<Longrightarrow> \<exists>number t. release_number rep release = Inr number \<and>
      parse_timestamp fromiso signed_at ''attestation generated_at'' = Inr t \<and>
      authorized ! i \<in> set (policy_keys p) \<and> validate_key_entry rep fromiso (authorized ! i) = Inr (es ! i) \<and>
      VStr (entry_key_id (es ! i)) = dict_get (ds ! i) ''key_id'' \<and>
      VStr (entry_fingerprint (es ! i)) = dict_get (ds ! i) ''public_key_sha256'' \<and>
      usable (es ! i) number t"
    by (rule all2_choose) auto
  obtain number t where nt: "release_number rep release = Inr number"
    "parse_timestamp fromiso signed_at ''attestation generated_at'' = Inr t"
    using some [of 0] assms(2) by fastforce
  show thesis
    by (rule that [OF nt, of es])
      (use some es nt in \<open>fastforce simp: list_all2_conv_all_nth intro!: nth_equalityI\<close>)+
qed

lemma signer_names:
  assumes "list_all2 (\<lambda>raw e. Q raw e \<and> validate_key_entry rep fromiso raw = Inr e \<and> R e) authorized es"
    and "map (\<lambda>d. (dict_get d ''key_id'', dict_get d ''public_key_sha256'')) ds =
      map (\<lambda>e. (VStr (entry_key_id e), VStr (entry_fingerprint e))) es"
  shows "signer_texts rep ''key_id'' ds = map entry_key_id es"
    and "signer_texts rep ''public_key_sha256'' ds = map entry_fingerprint es"
    and "map (\<lambda>raw. py_str rep (dict_get (dict_items raw) ''role'')) authorized = map entry_role es"
proof -
  have len: "length ds = length es" using assms(2) by (rule map_eq_imp_length_eq)
  have each: "dict_get (ds ! i) ''key_id'' = VStr (entry_key_id (es ! i))"
    "dict_get (ds ! i) ''public_key_sha256'' = VStr (entry_fingerprint (es ! i))" if "i < length es" for i
    using arg_cong [OF assms(2), of "\<lambda>xs. xs ! i"] that len by simp_all
  have names: "entry_key_id e \<noteq> [] \<and> entry_fingerprint e \<noteq> [] \<and> dict_get (dict_items raw) ''role'' = VStr (entry_role e)"
    if "validate_key_entry rep fromiso raw = Inr e" for raw e using validate_key_fields [OF that] by simp
  then have "entry_key_id (es ! i) \<noteq> [] \<and> entry_fingerprint (es ! i) \<noteq> [] \<and>
      dict_get (dict_items (authorized ! i)) ''role'' = VStr (entry_role (es ! i))" if "i < length es" for i
    using assms(1) that by (auto simp: list_all2_conv_all_nth)
  with each len list_all2_lengthD [OF assms(1)]
  show "signer_texts rep ''key_id'' ds = map entry_key_id es"
    "signer_texts rep ''public_key_sha256'' ds = map entry_fingerprint es"
    "map (\<lambda>raw. py_str rep (dict_get (dict_items raw) ''role'')) authorized = map entry_role es"
    by (auto simp: signer_texts_def py_or_def intro!: nth_equalityI)
qed

text \<open>
  C6: a quorum is only authorised when the signers, with different keys, each match an active key
  of the verified policy by id and fingerprint, inside its validity period and its release range,
  are at least as many as the \<open>minimum_signatures\<close> of the policy (which are at least two), and
  together hold all of its \<open>required_roles\<close> (at least two different ones).
\<close>

theorem quorum_sound:
  assumes "require_authorized_quorum rep fromiso policy signers release signed_at = Inr authorized"
  shows "\<exists>p q ds es number t minimum roles. verify_trust_policy rep fromiso policy = Inr p \<and>
    signers = VList (map VDict ds) \<and> release_number rep release = Inr number \<and>
    parse_timestamp fromiso signed_at ''attestation generated_at'' = Inr t \<and>
    list_all2 (\<lambda>raw e. raw \<in> set (policy_keys p) \<and> validate_key_entry rep fromiso raw = Inr e \<and>
      usable e number t) authorized es \<and>
    map (\<lambda>d. (dict_get d ''key_id'', dict_get d ''public_key_sha256'')) ds =
      map (\<lambda>e. (VStr (entry_key_id e), VStr (entry_fingerprint e))) es \<and>
    distinct (map entry_key_id es) \<and> distinct (map entry_fingerprint es) \<and>
    dict_get p ''quorum'' = VDict q \<and>
    dict_get q ''minimum_signatures'' = VInt minimum \<and> 2 \<le> minimum \<and> minimum \<le> int (length es) \<and>
    dict_get q ''required_roles'' = VList (map VStr roles) \<and> distinct roles \<and> 2 \<le> length roles \<and>
    set roles \<subseteq> set (map entry_role es)"
proof -
  from assms obtain p vs keys minimum roles where p: "verify_trust_policy rep fromiso policy = Inr p"
    and vs: "signers = VList vs" "length (map dict_items (filter is_dict vs)) = length vs"
    and dist: "distinct (signer_texts rep ''key_id'' (map dict_items (filter is_dict vs)))"
      "distinct (signer_texts rep ''public_key_sha256'' (map dict_items (filter is_dict vs)))"
    and auth: "map_res (authorize_signer rep fromiso (VDict p) release signed_at)
      (map dict_items (filter is_dict vs)) = Inr authorized"
    and q: "validate_quorum rep (dict_get p ''quorum'') keys = Inr (minimum, roles)"
    and enough: "minimum \<le> int (length authorized)"
    and cover: "filter (\<lambda>r. r \<notin> set (map (\<lambda>e. py_str rep (dict_get (dict_items e) ''role'')) authorized)) roles = []"
    by (auto simp: refuse_if_Inr require_authorized_quorum_def Let_def not_less elim!: rbindE split: pyval.split_asm)
  define ds where "ds = map dict_items (filter is_dict vs)"
  have "list_all is_dict vs"
    using vs(2) by (metis filter_id_conv length_filter_less length_map less_irrefl list_all_iff)
  moreover have "is_dict x \<Longrightarrow> VDict (dict_items x) = x" for x by (cases x) simp_all
  ultimately have signers: "signers = VList (map VDict ds)"
    using vs(1) by (auto simp: ds_def list_all_iff intro!: map_idI [symmetric])
  have two: "2 \<le> minimum" "2 \<le> length roles" "distinct roles" using quorum_bounds [OF q] by auto
  then have "ds \<noteq> []" using enough map_res_length [OF auth] by (auto simp: ds_def)
  from authorized_signers [OF auth [folded ds_def] this] obtain number t es where nt:
    "release_number rep release = Inr number" "parse_timestamp fromiso signed_at ''attestation generated_at'' = Inr t"
    and es: "list_all2 (\<lambda>raw e. raw \<in> set (policy_keys p) \<and> validate_key_entry rep fromiso raw = Inr e \<and>
      usable e number t) authorized es"
    and pairs: "map (\<lambda>d. (dict_get d ''key_id'', dict_get d ''public_key_sha256'')) ds =
      map (\<lambda>e. (VStr (entry_key_id e), VStr (entry_fingerprint e))) es" .
  note names = signer_names [OF es pairs]
  have "distinct (map entry_key_id es)" "distinct (map entry_fingerprint es)"
    using dist names(1,2) by (simp_all add: ds_def)
  moreover have "set roles \<subseteq> set (map entry_role es)" using cover unfolding names(3) by (auto simp: filter_empty_conv)
  moreover have "minimum \<le> int (length es)" using enough list_all2_lengthD [OF es] by simp
  ultimately show ?thesis using p signers nt es pairs two quorum_fields [OF q] by blast
qed

definition sample_key :: "string \<Rightarrow> char \<Rightarrow> pydict" where
  "sample_key role c = [(''key_id'', VStr [c]), (''role'', VStr role),
     (''public_key_sha256'', VStr (replicate 64 c)), (''status'', VStr ''ACTIVE''),
     (''not_before'', VStr ''t''), (''not_after'', VNone), (''release_min'', VInt 1), (''release_max'', VNone)]"

definition sample_policy :: pydict where
  "sample_policy = [(''schema_version'', VInt 3), (''policy_id'', VStr ''p''),
     (''organization'', VStr ''o''), (''signature_algorithm'', VStr ''Ed25519''),
     (''quorum'', VDict [(''minimum_signatures'', VInt 2),
        (''required_roles'', VList [VStr ''SEC'', VStr ''REL''])]),
     (''ceremony'', VDict [(''request_ttl_seconds'', VInt 300),
        (''max_certification_age_seconds'', VInt 3600), (''max_clock_skew_seconds'', VInt 0)]),
     (''keys'', VList [VDict (sample_key ''SEC'' (CHR ''a'')), VDict (sample_key ''REL'' (CHR ''b''))])]"

definition sample_signer :: "char \<Rightarrow> pyval" where
  "sample_signer c = VDict [(''key_id'', VStr [c]), (''public_key_sha256'', VStr (replicate 64 c))]"

abbreviation sample_iso :: iso_parser where
  "sample_iso \<equiv> \<lambda>_. Some (0, Some 0)"

abbreviation no_rep :: "pyval \<Rightarrow> string" where
  "no_rep \<equiv> \<lambda>_. []"

definition sample_entry :: "string \<Rightarrow> char \<Rightarrow> key_entry" where
  "sample_entry role c = \<lparr>entry_key_id = [c], entry_role = role, entry_fingerprint = replicate 64 c,
     entry_status = ''ACTIVE'', not_before = 0, not_after = None, release_min = 1, release_max = None\<rparr>"

lemma sample_time: "parse_timestamp sample_iso (VStr ''t'') l = Inr 0"
  by (simp add: parse_timestamp_def py_strip_def py_space_def code_def time_limit_def)

lemma sample_roles: "role_match ''SEC''" "role_match ''REL''"
  by (simp_all add: role_match_def ascii_upper_def code_def)

lemma sample_key_valid:
  assumes "role_match role" and "c = CHR ''a'' \<or> c = CHR ''b''"
  shows "validate_key_entry no_rep sample_iso (VDict (sample_key role c)) = Inr (sample_entry role c)"
proof -
  have c: "sha256_match (replicate 64 c)" "name_match 127 [c]"
    using assms(2) by (auto simp: sha256_match_def name_match_def ascii_digit_def ascii_upper_def
        ascii_lower_def code_def list_all_iff)
  have f: "same_fields (sample_key role c) KEY_FIELDS"
    by (simp add: same_fields_def sample_key_def KEY_FIELDS_def)
  have get: "dict_get (sample_key role c) ''key_id'' = VStr [c]"
    "dict_get (sample_key role c) ''role'' = VStr role"
    "dict_get (sample_key role c) ''public_key_sha256'' = VStr (replicate 64 c)"
    "dict_get (sample_key role c) ''status'' = VStr ''ACTIVE''"
    "dict_get (sample_key role c) ''not_before'' = VStr ''t''"
    "dict_get (sample_key role c) ''not_after'' = VNone"
    "dict_get (sample_key role c) ''release_min'' = VInt 1"
    "dict_get (sample_key role c) ''release_max'' = VNone"
    by (simp_all add: sample_key_def)
  have "matching (name_match 127) (VStr [c]) m = Inr [c]" "matching role_match (VStr role) m = Inr role"
    "matching sha256_match (VStr (replicate 64 c)) m = Inr (replicate 64 c)"
    "in_texts (VStr ''ACTIVE'') [''ACTIVE'', ''REVOKED''] = Inr True" for m
    using c assms(1) by (simp_all add: matching_def in_texts_def)
  then show ?thesis
    by (simp add: validate_key_entry_def f get validity_def sample_time release_range_def Let_def
        sample_entry_def)
qed

lemma sample_policy_fields:
  "same_fields sample_policy POLICY_FIELDS"
  "dict_get sample_policy ''schema_version'' = VInt 3" "dict_get sample_policy ''policy_id'' = VStr ''p''"
  "dict_get sample_policy ''organization'' = VStr ''o''"
  "dict_get sample_policy ''signature_algorithm'' = VStr ''Ed25519''"
  "policy_keys sample_policy = [VDict (sample_key ''SEC'' (CHR ''a'')), VDict (sample_key ''REL'' (CHR ''b''))]"
  "validate_ceremony (dict_get sample_policy ''ceremony'') = Inr (300, 3600, 0)"
  by (simp_all add: same_fields_def sample_policy_def POLICY_FIELDS_def policy_keys_def
      validate_ceremony_def int_between_def)

lemma sample_keys:
  "map_res (validate_key_entry no_rep sample_iso) (policy_keys sample_policy) =
     Inr [sample_entry ''SEC'' (CHR ''a''), sample_entry ''REL'' (CHR ''b'')]"
  by (simp add: sample_policy_fields sample_key_valid sample_roles)

lemma sample_quorum:
  "validate_quorum no_rep (dict_get sample_policy ''quorum'')
     [sample_entry ''SEC'' (CHR ''a''), sample_entry ''REL'' (CHR ''b'')] = Inr (2, [''SEC'', ''REL''])"
  by (simp add: sample_policy_def validate_quorum_def same_fields_def quorum_roles_def texts_of_def
      sample_roles sample_entry_def)

lemma sample_policy_valid: "verify_trust_policy no_rep sample_iso (VDict sample_policy) = Inr sample_policy"
proof -
  have "replicate 64 (CHR ''a'') \<noteq> replicate 64 (CHR ''b'')" by simp
  then have "verify_policy_keys no_rep sample_iso sample_policy =
      Inr [sample_entry ''SEC'' (CHR ''a''), sample_entry ''REL'' (CHR ''b'')]"
    by (simp add: verify_policy_keys_def sample_keys) (simp add: sample_policy_fields sample_entry_def)
  moreover have "matching (name_match 127) (VStr ''p'') m = Inr ''p''"
    "matching organization_ok (VStr ''o'') m = Inr ''o''" for m
    by (simp_all add: matching_def name_match_def organization_ok_def py_strip_def py_space_def
        code_def ascii_lower_def)
  ultimately show ?thesis
    by (simp add: verify_trust_policy_def sample_policy_fields equals_int_def sample_quorum)
qed

theorem quorum_sound_witness:
  "require_authorized_quorum no_rep sample_iso (VDict sample_policy)
     (VList [sample_signer (CHR ''a''), sample_signer (CHR ''b'')]) ''P37'' (VStr ''t'') =
       Inr (policy_keys sample_policy) \<and>
   release_number no_rep ''P37'' = Inr 37"
proof -
  have n: "release_number no_rep ''P37'' = Inr 37"
    by (simp add: release_number_def release_match_def ascii_digit_def code_def text_eval)
  let ?ds = "map dict_items (filter is_dict [sample_signer (CHR ''a''), sample_signer (CHR ''b'')])"
  have a: "map_res (authorize_signer no_rep sample_iso (VDict sample_policy) ''P37'' (VStr ''t'')) ?ds =
      Inr (policy_keys sample_policy)"
    by (simp add: sample_signer_def authorize_signer_def dict_index_def require_authorized_signer_def
        sample_policy_valid n sample_time sample_policy_fields sample_key_valid sample_roles)
      (simp add: sample_entry_def authorize_entry_def)
  have s: "signer_texts no_rep ''key_id'' ?ds = [''a'', ''b'']"
    "signer_texts no_rep ''public_key_sha256'' ?ds = [replicate 64 (CHR ''a''), replicate 64 (CHR ''b'')]"
    "length ?ds = 2"
    by (simp_all add: sample_signer_def signer_texts_def py_or_def)
  have roles: "map (\<lambda>e. py_str no_rep (dict_get (dict_items e) ''role'')) (policy_keys sample_policy) =
      [''SEC'', ''REL'']" "length (policy_keys sample_policy) = 2"
    by (simp_all add: sample_policy_fields sample_key_def)
  have r: "require_authorized_quorum no_rep sample_iso (VDict sample_policy)
     (VList [sample_signer (CHR ''a''), sample_signer (CHR ''b'')]) ''P37'' (VStr ''t'') =
       Inr (policy_keys sample_policy)"
    unfolding require_authorized_quorum_def sample_policy_valid rbind_simps pyval.case Let_def a s
      sample_keys sample_quorum roles by simp
  from quorum_sound [OF r] r n show ?thesis by blast
qed

text \<open>
  A signer without a key id is not refused: the index into it raises \<open>KeyError\<close>, which
  is not the error the module promises.
\<close>

theorem missing_key_id_raises:
  assumes "verify_trust_policy rep fromiso policy = Inr p"
  shows "require_authorized_quorum rep fromiso policy (VList [VDict []]) release signed_at =
    Inl (Crashed KeyError)"
  using assms
  by (simp add: require_authorized_quorum_def signer_texts_def authorize_signer_def dict_index_def)

theorem missing_key_id_raises_witness:
  "require_authorized_quorum no_rep sample_iso (VDict sample_policy)
     (VList [VDict []]) ''P37'' (VStr ''t'') = Inl (Crashed KeyError)"
  by (rule missing_key_id_raises [OF sample_policy_valid])

end
