(* ===== verification/ReleaseLineage.thy ===== *)
theory ReleaseLineage
  imports ReleaseBase
begin

text \<open>
  The publication lineage of releases (\<open>release_lineage.py\<close>): sealed checkpoints, their
  verification, the advancement of a channel by one release and the check of a deployed release
  against a checkpoint. The verification of the attestation itself belongs to
  \<open>release_signing.py\<close>; here its outcome is an argument. The artifact is the content of the
  file, if there is one, and \<open>shab\<close> the hash of bytes.
\<close>

section \<open>Checkpoints\<close>

definition validate_hash :: "pyval \<Rightarrow> string \<Rightarrow> string checked" where
  "validate_hash value label =
     (case value of
        VStr s \<Rightarrow> if sha256_match s then Inr s
          else Inl (Refused (label @ '' must be a lowercase SHA-256 hex digest''))
      | _ \<Rightarrow> Inl (Refused (label @ '' must be a lowercase SHA-256 hex digest'')))"

definition checkpoint_fingerprint :: "(string \<Rightarrow> string) \<Rightarrow> (pyfloat \<Rightarrow> string) \<Rightarrow> pydict \<Rightarrow> string" where
  "checkpoint_fingerprint sha frep checkpoint =
     sha (canonical_json frep (dict_without ''checkpoint_sha256'' checkpoint))"

definition CHECKPOINT_FIELDS :: "string list" where
  "CHECKPOINT_FIELDS = [''schema_version'', ''channel'', ''sequence'', ''release'', ''release_number'',
     ''artifact_sha256'', ''attestation_sha256'', ''previous_checkpoint_sha256'', ''published_at'',
     ''checkpoint_sha256'']"

definition channel_of :: "pyval \<Rightarrow> string checked" where
  "channel_of v =
     (case v of VStr s \<Rightarrow> if name_match 63 s then Inr s
        else Inl (Refused ''release lineage channel is invalid'')
      | _ \<Rightarrow> Inl (Refused ''release lineage channel is invalid''))"

definition sequence_of :: "pyval \<Rightarrow> int checked" where
  "sequence_of v =
     (case v of VInt n \<Rightarrow> if 1 \<le> n then Inr n
        else Inl (Refused ''release lineage sequence must be a positive integer'')
      | _ \<Rightarrow> Inl (Refused ''release lineage sequence must be a positive integer''))"

definition codename_of :: "pyval \<Rightarrow> string \<Rightarrow> string checked" where
  "codename_of v msg = (case v of VStr s \<Rightarrow> Inr s | _ \<Rightarrow> Inl (Refused msg))"

definition predecessor_ok :: "int \<Rightarrow> pyval \<Rightarrow> passed checked" where
  "predecessor_ok sequence previous =
     (if sequence = 1
      then refuse_if (previous \<noteq> VNone) ''genesis release lineage checkpoint must not have a predecessor''
      else rbind (validate_hash previous ''release lineage previous_checkpoint_sha256'') (\<lambda>_. Inr Passed))"

definition expected_head_ok :: "string option \<Rightarrow> string \<Rightarrow> passed checked" where
  "expected_head_ok expected supplied =
     (case expected of
        None \<Rightarrow> Inr Passed
      | Some head \<Rightarrow>
          rbind (validate_hash (VStr head) ''expected release lineage head'') (\<lambda>_.
            refuse_if (supplied \<noteq> head) ''release lineage checkpoint does not match trusted head''))"

definition verify_lineage_checkpoint ::
  "(pyval \<Rightarrow> string) \<Rightarrow> iso_parser \<Rightarrow> (string \<Rightarrow> string) \<Rightarrow> (pyfloat \<Rightarrow> string) \<Rightarrow>
   pyval \<Rightarrow> string option \<Rightarrow> string option \<Rightarrow> pydict checked" where
  "verify_lineage_checkpoint rep fromiso sha frep value expected_channel expected_head =
     (case value of
        VDict payload \<Rightarrow>
          rbind (refuse_if (\<not> same_fields payload CHECKPOINT_FIELDS \<or>
              \<not> equals_int (dict_get payload ''schema_version'') 1)
            ''unsupported or malformed release lineage checkpoint schema'') (\<lambda>_.
          rbind (channel_of (dict_get payload ''channel'')) (\<lambda>channel.
          rbind (refuse_if (expected_channel \<noteq> None \<and> expected_channel \<noteq> Some channel)
            ''release lineage channel does not match expected channel'') (\<lambda>_.
          rbind (sequence_of (dict_get payload ''sequence'')) (\<lambda>sequence.
          rbind (codename_of (dict_get payload ''release'')
            ''release lineage release must be a release codename'') (\<lambda>release.
          rbind (release_number rep release) (\<lambda>number.
          rbind (refuse_if (\<not> equals_int (dict_get payload ''release_number'') number)
            ''release lineage release_number does not match release codename'') (\<lambda>_.
          rbind (validate_hash (dict_get payload ''artifact_sha256'') ''release lineage artifact_sha256'') (\<lambda>_.
          rbind (validate_hash (dict_get payload ''attestation_sha256'') ''release lineage attestation_sha256'')
            (\<lambda>_.
          rbind (predecessor_ok sequence (dict_get payload ''previous_checkpoint_sha256'')) (\<lambda>_.
          rbind (parse_timestamp fromiso (dict_get payload ''published_at'') ''release lineage published_at'')
            (\<lambda>_.
          rbind (validate_hash (dict_get payload ''checkpoint_sha256'') ''release lineage checkpoint_sha256'')
            (\<lambda>supplied.
          rbind (refuse_if (supplied \<noteq> checkpoint_fingerprint sha frep payload)
            ''release lineage checkpoint seal mismatch'') (\<lambda>_.
          rbind (expected_head_ok expected_head supplied) (\<lambda>_. Inr payload))))))))))))))
      | _ \<Rightarrow> Inl (Refused ''release lineage checkpoint must be an object''))"

section \<open>Advancement\<close>

definition artifact_sha256 :: "(string \<Rightarrow> string) \<Rightarrow> string \<Rightarrow> string option \<Rightarrow> string checked" where
  "artifact_sha256 shab path content =
     (case content of
        None \<Rightarrow> Inl (Refused (''release artifact does not exist or is not a file: '' @ path))
      | Some bytes \<Rightarrow> if bytes = [] then Inl (Refused ''release artifact must not be empty'')
          else Inr (shab bytes))"

definition attestation_sha256 :: "(string \<Rightarrow> string) \<Rightarrow> (pyfloat \<Rightarrow> string) \<Rightarrow> pydict \<Rightarrow> string" where
  "attestation_sha256 sha frep attestation = sha (canonical_json frep attestation)"

text \<open>\<open>int(value)\<close> of a verified number.\<close>

definition int_value :: "pyval \<Rightarrow> int" where
  "int_value v =
     (case v of VInt n \<Rightarrow> n | VBool b \<Rightarrow> (if b then 1 else 0) | VFloat (Fin r) \<Rightarrow> \<lfloor>r\<rfloor> | _ \<Rightarrow> 0)"

definition text_value :: "pyval \<Rightarrow> string" where
  "text_value v = (case v of VStr s \<Rightarrow> s | _ \<Rightarrow> [])"

record advance_env =
  advance_attested :: "bool py"
  advance_path :: string
  advance_artifact :: "string option"
  advance_now :: string

text \<open>The sequence number and the predecessor of the next checkpoint.\<close>

definition genesis_position :: "string option \<Rightarrow> bool \<Rightarrow> (int \<times> pyval) checked" where
  "genesis_position expected_previous allow_genesis =
     rbind (refuse_if (\<not> allow_genesis)
       ''release lineage genesis requires explicit allow_genesis authorization'') (\<lambda>_.
     rbind (refuse_if (expected_previous \<noteq> None)
       ''genesis release lineage must not specify an expected predecessor hash'') (\<lambda>_. Inr (1, VNone)))"

definition next_position ::
  "(pyval \<Rightarrow> string) \<Rightarrow> iso_parser \<Rightarrow> (string \<Rightarrow> string) \<Rightarrow> (pyfloat \<Rightarrow> string) \<Rightarrow>
   string \<Rightarrow> int \<Rightarrow> pyval \<Rightarrow> string option \<Rightarrow> (int \<times> pyval) checked" where
  "next_position rep fromiso sha frep channel number checkpoint expected_previous =
     (case expected_previous of
        None \<Rightarrow> Inl (Refused ''release lineage advancement requires the trusted previous head SHA-256'')
      | Some head \<Rightarrow>
          rbind (verify_lineage_checkpoint rep fromiso sha frep checkpoint (Some channel) (Some head))
            (\<lambda>previous.
          rbind (refuse_if (number \<le> int_value (dict_get previous ''release_number''))
            ''release lineage rejects rollback or non-monotonic release advancement'') (\<lambda>_.
          Inr (int_value (dict_get previous ''sequence'') + 1,
            VStr (text_value (dict_get previous ''checkpoint_sha256''))))))"

definition lineage_body ::
  "string \<Rightarrow> int \<Rightarrow> string \<Rightarrow> int \<Rightarrow> string \<Rightarrow> string \<Rightarrow> pyval \<Rightarrow> string \<Rightarrow> pydict" where
  "lineage_body channel sequence release number artifact attestation previous now =
     [(''schema_version'', VInt 1), (''channel'', VStr channel), (''sequence'', VInt sequence),
      (''release'', VStr release), (''release_number'', VInt number), (''artifact_sha256'', VStr artifact),
      (''attestation_sha256'', VStr attestation), (''previous_checkpoint_sha256'', previous),
      (''published_at'', VStr now)]"

definition sealed_record :: "(string \<Rightarrow> string) \<Rightarrow> (pyfloat \<Rightarrow> string) \<Rightarrow> pydict \<Rightarrow> pydict" where
  "sealed_record sha frep body = body @ [(''checkpoint_sha256'', VStr (sha (canonical_json frep body)))]"

definition advance_release_lineage ::
  "(pyval \<Rightarrow> string) \<Rightarrow> iso_parser \<Rightarrow> (string \<Rightarrow> string) \<Rightarrow> (string \<Rightarrow> string) \<Rightarrow> (pyfloat \<Rightarrow> string) \<Rightarrow>
   advance_env \<Rightarrow> pyval \<Rightarrow> pydict \<Rightarrow> pyval option \<Rightarrow> string option \<Rightarrow> bool \<Rightarrow> pydict checked" where
  "advance_release_lineage rep fromiso sha shab frep env channel_value attestation
       previous_checkpoint expected_previous allow_genesis =
     rbind (channel_of channel_value) (\<lambda>channel.
     rbind (lift_py (advance_attested env)) (\<lambda>attested.
     rbind (refuse_if (\<not> attested)
       ''release lineage advancement requires a valid quorum release attestation'') (\<lambda>_.
     rbind (codename_of (dict_get attestation ''release'')
       ''release attestation does not contain a valid release codename'') (\<lambda>release.
     rbind (release_number rep release) (\<lambda>number.
     rbind (case previous_checkpoint of
         None \<Rightarrow> genesis_position expected_previous allow_genesis
       | Some checkpoint \<Rightarrow> next_position rep fromiso sha frep channel number checkpoint expected_previous)
       (\<lambda>position.
     rbind (artifact_sha256 shab (advance_path env) (advance_artifact env)) (\<lambda>artifact.
       Inr (sealed_record sha frep (lineage_body channel (fst position) release number artifact
         (attestation_sha256 sha frep attestation) (snd position) (advance_now env))))))))))"

section \<open>Verification of a release\<close>

definition minimum_ok :: "pyval \<Rightarrow> int \<Rightarrow> bool" where
  "minimum_ok minimum number =
     (case minimum of VNone \<Rightarrow> True | VInt m \<Rightarrow> 1 \<le> m \<and> m \<le> number | _ \<Rightarrow> False)"

definition lineage_checks ::
  "(pyval \<Rightarrow> string) \<Rightarrow> iso_parser \<Rightarrow> (string \<Rightarrow> string) \<Rightarrow> (string \<Rightarrow> string) \<Rightarrow> (pyfloat \<Rightarrow> string) \<Rightarrow>
   advance_env \<Rightarrow> pyval \<Rightarrow> string \<Rightarrow> string \<Rightarrow> pydict \<Rightarrow> pyval \<Rightarrow> bool checked" where
  "lineage_checks rep fromiso sha shab frep env checkpoint head channel attestation minimum =
     rbind (verify_lineage_checkpoint rep fromiso sha frep checkpoint (Some channel) (Some head)) (\<lambda>verified.
     rbind (lift_py (advance_attested env)) (\<lambda>attested.
       if \<not> attested then Inr False
       else if dict_get attestation ''release'' \<noteq> dict_get verified ''release'' then Inr False
       else if \<not> minimum_ok minimum (int_value (dict_get verified ''release_number'')) then Inr False
       else rbind (artifact_sha256 shab (advance_path env) (advance_artifact env)) (\<lambda>artifact.
         Inr (VStr artifact = dict_get verified ''artifact_sha256'' \<and>
           VStr (attestation_sha256 sha frep attestation) = dict_get verified ''attestation_sha256''))))"

text \<open>The handler turns the module's own refusals into \<open>False\<close>; other exceptions escape.\<close>

definition verify_release_against_lineage ::
  "(pyval \<Rightarrow> string) \<Rightarrow> iso_parser \<Rightarrow> (string \<Rightarrow> string) \<Rightarrow> (string \<Rightarrow> string) \<Rightarrow> (pyfloat \<Rightarrow> string) \<Rightarrow>
   advance_env \<Rightarrow> pyval \<Rightarrow> string \<Rightarrow> string \<Rightarrow> pydict \<Rightarrow> pyval \<Rightarrow> bool py" where
  "verify_release_against_lineage rep fromiso sha shab frep env checkpoint head channel attestation minimum =
     (case lineage_checks rep fromiso sha shab frep env checkpoint head channel attestation minimum of
        Inr b \<Rightarrow> Inr b
      | Inl (Refused _) \<Rightarrow> Inr False
      | Inl (Crashed e) \<Rightarrow> Inl e)"

section \<open>Properties\<close>

definition release_no :: "pydict \<Rightarrow> int" where
  "release_no cp = int_value (dict_get cp ''release_number'')"

definition sequence_no :: "pydict \<Rightarrow> int" where
  "sequence_no cp = int_value (dict_get cp ''sequence'')"

definition seal_of :: "pydict \<Rightarrow> string" where
  "seal_of cp = text_value (dict_get cp ''checkpoint_sha256'')"

lemma validate_hash_iff: "validate_hash v label = Inr s \<longleftrightarrow> v = VStr s \<and> sha256_match s"
  by (auto simp: validate_hash_def split: pyval.split)

lemma channel_of_iff: "channel_of v = Inr s \<longleftrightarrow> v = VStr s \<and> name_match 63 s"
  by (auto simp: channel_of_def split: pyval.split)

lemma sequence_of_iff: "sequence_of v = Inr n \<longleftrightarrow> v = VInt n \<and> 1 \<le> n"
  by (auto simp: sequence_of_def split: pyval.split)

lemma codename_of_iff: "codename_of v msg = Inr s \<longleftrightarrow> v = VStr s"
  by (auto simp: codename_of_def split: pyval.split)

lemma equals_int_value: "equals_int v n \<Longrightarrow> int_value v = n"
  by (auto simp: equals_int_def int_value_def split: pyval.split_asm pyfloat.split_asm if_split_asm)

lemmas checkpoint_iffs = validate_hash_iff channel_of_iff sequence_of_iff codename_of_iff refuse_if_Inr

text \<open>What a verified checkpoint satisfies.\<close>

lemma verified_checkpoint:
  assumes "verify_lineage_checkpoint rep fromiso sha frep v ch expected = Inr cp"
  obtains channel release where "v = VDict cp" "dict_get cp ''channel'' = VStr channel"
    "ch \<noteq> None \<Longrightarrow> ch = Some channel" "dict_get cp ''release'' = VStr release"
    "release_number rep release = Inr (release_no cp)" "dict_get cp ''sequence'' = VInt (sequence_no cp)"
    "1 \<le> sequence_no cp"
    "dict_get cp ''checkpoint_sha256'' = VStr (checkpoint_fingerprint sha frep cp)"
    "seal_of cp = checkpoint_fingerprint sha frep cp" "sha256_match (seal_of cp)"
    "expected \<noteq> None \<Longrightarrow> expected = Some (seal_of cp)"
proof (cases v)
  case (VDict payload)
  from assms show thesis
    unfolding VDict verify_lineage_checkpoint_def pyval.case
    by (elim rbindE)
      (auto simp: VDict checkpoint_iffs expected_head_ok_def release_no_def sequence_no_def seal_of_def
        int_value_def text_value_def dest: equals_int_value elim!: rbindE split: option.split_asm
        intro!: that)
qed (use assms in \<open>simp_all add: verify_lineage_checkpoint_def\<close>)


lemma lineage_record_get:
  assumes "cp = sealed_record sha frep (lineage_body channel n release number artifact att previous now)"
  shows "dict_get cp ''schema_version'' = VInt 1" "dict_get cp ''channel'' = VStr channel"
    "dict_get cp ''sequence'' = VInt n" "dict_get cp ''release'' = VStr release"
    "dict_get cp ''release_number'' = VInt number" "dict_get cp ''artifact_sha256'' = VStr artifact"
    "dict_get cp ''attestation_sha256'' = VStr att" "dict_get cp ''previous_checkpoint_sha256'' = previous"
    "dict_get cp ''published_at'' = VStr now"
    "dict_get cp ''checkpoint_sha256'' = VStr (checkpoint_fingerprint sha frep cp)"
    "same_fields cp CHECKPOINT_FIELDS"
  by (simp_all add: assms sealed_record_def lineage_body_def dict_get_def checkpoint_fingerprint_def
      dict_without_def same_fields_def CHECKPOINT_FIELDS_def)

lemma lineage_record_numbers:
  assumes "cp = sealed_record sha frep (lineage_body channel n release number artifact att previous now)"
  shows "sequence_no cp = n" "release_no cp = number" "seal_of cp = checkpoint_fingerprint sha frep cp"
  by (simp_all add: sequence_no_def release_no_def seal_of_def int_value_def text_value_def
      lineage_record_get [OF assms])

text \<open>What an advancement has checked, and the position it takes.\<close>

lemma advanced:
  assumes "advance_release_lineage rep fromiso sha shab frep env channel_value attestation previous expected
      genesis = Inr cp"
  obtains channel release number n pred artifact where
    "channel_value = VStr channel" "name_match 63 channel" "advance_attested env = Inr True"
    "dict_get attestation ''release'' = VStr release" "release_number rep release = Inr number"
    "(case previous of None \<Rightarrow> genesis_position expected genesis
      | Some v \<Rightarrow> next_position rep fromiso sha frep channel number v expected) = Inr (n, pred)"
    "artifact_sha256 shab (advance_path env) (advance_artifact env) = Inr artifact"
    "cp = sealed_record sha frep (lineage_body channel n release number artifact
      (attestation_sha256 sha frep attestation) pred (advance_now env))"
  using assms unfolding advance_release_lineage_def
  by (elim rbindE) (auto simp: checkpoint_iffs intro: that)

lemma genesis_positioned:
  "genesis_position expected genesis = Inr (n, pred) \<Longrightarrow> genesis \<and> expected = None \<and> n = 1 \<and> pred = VNone"
  unfolding genesis_position_def by (elim rbindE) (auto simp: refuse_if_Inr)

lemma next_positioned:
  assumes "next_position rep fromiso sha frep channel number v expected = Inr (n, pred)"
  obtains prior where
    "verify_lineage_checkpoint rep fromiso sha frep v (Some channel) expected = Inr prior"
    "release_no prior < number" "n = sequence_no prior + 1" "pred = VStr (seal_of prior)"
    "expected = Some (seal_of prior)"
proof (cases expected)
  case None
  with assms show ?thesis by (simp add: next_position_def)
next
  case (Some h)
  from assms obtain prior where
    v: "verify_lineage_checkpoint rep fromiso sha frep v (Some channel) expected = Inr prior"
    and p: "release_no prior < number" "n = sequence_no prior + 1" "pred = VStr (seal_of prior)"
    unfolding next_position_def Some option.case
    by (elim rbindE) (auto simp: refuse_if_Inr release_no_def sequence_no_def seal_of_def)
  from v have "expected = Some (seal_of prior)"
    by (rule verified_checkpoint) (simp add: Some)
  with v p show ?thesis by (rule that)
qed

lemma position_ok:
  assumes "(case previous of None \<Rightarrow> genesis_position expected genesis
      | Some v \<Rightarrow> next_position rep fromiso sha frep channel number v expected) = Inr (n, pred)"
  shows "1 \<le> n" and "predecessor_ok n pred = Inr Passed"
proof -
  have "1 \<le> n \<and> predecessor_ok n pred = Inr Passed"
  proof (cases previous)
    case None
    with assms show ?thesis
      using genesis_positioned [of expected genesis n pred] by (simp add: predecessor_ok_def)
  next
    case (Some v)
    from assms have *: "next_position rep fromiso sha frep channel number v expected = Inr (n, pred)"
      by (simp add: Some)
    obtain prior where "verify_lineage_checkpoint rep fromiso sha frep v (Some channel) expected = Inr prior"
      and n: "n = sequence_no prior + 1" "pred = VStr (seal_of prior)"
      by (rule next_positioned [OF *])
    then show ?thesis
      by (elim verified_checkpoint) (simp add: n predecessor_ok_def validate_hash_def)
  qed
  then show "1 \<le> n" and "predecessor_ok n pred = Inr Passed" by simp_all
qed

text \<open>
  C35: every checkpoint that an advancement returns is accepted by the verification for its channel
  and under its own seal as the trusted head, provided the hash function returns digests and the
  clock's timestamp is one that can be converted.
\<close>

theorem advance_roundtrip:
  assumes "advance_release_lineage rep fromiso sha shab frep env (VStr channel) attestation previous expected
      genesis = Inr cp"
    and "\<And>s. sha256_match (sha s)" and "\<And>s. sha256_match (shab s)"
    and "parse_timestamp fromiso (VStr (advance_now env)) ''release lineage published_at'' = Inr t"
  shows "verify_lineage_checkpoint rep fromiso sha frep (VDict cp) (Some channel) (Some (seal_of cp)) = Inr cp"
  using assms(1)
proof (rule advanced)
  fix channel' release number n pred artifact
  assume ch: "VStr channel = VStr channel'" "name_match 63 channel'"
    and rel: "release_number rep release = Inr number"
    and pos: "(case previous of None \<Rightarrow> genesis_position expected genesis
      | Some v \<Rightarrow> next_position rep fromiso sha frep channel' number v expected) = Inr (n, pred)"
    and art: "artifact_sha256 shab (advance_path env) (advance_artifact env) = Inr artifact"
    and cp: "cp = sealed_record sha frep (lineage_body channel' n release number artifact
      (attestation_sha256 sha frep attestation) pred (advance_now env))"
  have digest: "sha256_match artifact"
    using art assms(3) by (auto simp: artifact_sha256_def split: option.split_asm if_split_asm)
  have seal: "sha256_match (checkpoint_fingerprint sha frep cp)"
    and att: "sha256_match (attestation_sha256 sha frep attestation)"
    by (simp_all add: checkpoint_fingerprint_def attestation_sha256_def assms(2))
  show ?thesis
    using ch seal att digest position_ok [OF pos] assms(4)
    unfolding verify_lineage_checkpoint_def pyval.case lineage_record_get [OF cp] codename_of_def
      channel_of_def sequence_of_def validate_hash_def expected_head_ok_def lineage_record_numbers [OF cp]
    by (simp add: rel equals_int_def lineage_record_get [OF cp])
qed


section \<open>The history of a channel\<close>

text \<open>Newest first: each checkpoint comes from an advancement that was given its predecessor.\<close>

inductive lineage ::
  "(pyval \<Rightarrow> string) \<Rightarrow> iso_parser \<Rightarrow> (string \<Rightarrow> string) \<Rightarrow> (string \<Rightarrow> string) \<Rightarrow> (pyfloat \<Rightarrow> string) \<Rightarrow>
   string \<Rightarrow> pydict list \<Rightarrow> bool"
  for rep fromiso sha shab frep channel where
  genesis: "advance_release_lineage rep fromiso sha shab frep env (VStr channel) attestation None expected
      allow = Inr cp \<Longrightarrow> lineage rep fromiso sha shab frep channel [cp]"
| extend: "lineage rep fromiso sha shab frep channel (prior # history) \<Longrightarrow>
    advance_release_lineage rep fromiso sha shab frep env (VStr channel) attestation (Some (VDict prior))
      expected allow = Inr cp \<Longrightarrow>
    lineage rep fromiso sha shab frep channel (cp # prior # history)"

lemma advanced_genesis:
  assumes "advance_release_lineage rep fromiso sha shab frep env (VStr channel) attestation None expected
      allow = Inr cp"
  shows "dict_get cp ''channel'' = VStr channel" "sequence_no cp = 1"
    "dict_get cp ''previous_checkpoint_sha256'' = VNone" "allow"
  using assms
  by (rule advanced; auto simp: lineage_record_get lineage_record_numbers dest!: genesis_positioned)+

lemma advanced_extend:
  assumes "advance_release_lineage rep fromiso sha shab frep env (VStr channel) attestation
      (Some (VDict prior)) expected allow = Inr cp"
  shows "dict_get cp ''channel'' = VStr channel \<and> sequence_no cp = sequence_no prior + 1 \<and>
    dict_get cp ''previous_checkpoint_sha256'' = VStr (seal_of prior) \<and> release_no prior < release_no cp \<and>
    expected = Some (seal_of prior)"
  using assms
proof (rule advanced)
  fix channel' release number n pred artifact
  assume ch: "VStr channel = VStr channel'"
    and pos: "(case Some (VDict prior) of None \<Rightarrow> genesis_position expected allow
      | Some v \<Rightarrow> next_position rep fromiso sha frep channel' number v expected) = Inr (n, pred)"
    and cp: "cp = sealed_record sha frep (lineage_body channel' n release number artifact
      (attestation_sha256 sha frep attestation) pred (advance_now env))"
  from pos have "next_position rep fromiso sha frep channel' number (VDict prior) expected = Inr (n, pred)"
    by simp
  then show ?thesis
    by (rule next_positioned; elim verified_checkpoint)
      (use ch in \<open>simp_all add: lineage_record_get [OF cp] lineage_record_numbers [OF cp]\<close>)
qed

text \<open>
  C8: along the history of a channel, release numbers strictly increase, so that no release is ever
  rolled back or published twice; sequence numbers count from one without a gap, every checkpoint
  names the seal of its predecessor and the first one has none, and all carry the channel's name.
\<close>

theorem lineage_monotone:
  assumes "lineage rep fromiso sha shab frep channel history"
  shows "sorted_wrt (>) (map release_no history) \<and>
    map sequence_no (rev history) = [1..int (length history)] \<and>
    map (\<lambda>cp. dict_get cp ''previous_checkpoint_sha256'') history =
      map (\<lambda>cp. VStr (seal_of cp)) (tl history) @ [VNone] \<and>
    list_all (\<lambda>cp. dict_get cp ''channel'' = VStr channel) history"
  using assms
proof induction
  case (genesis env attestation expected allow cp)
  then show ?case
    using advanced_genesis [OF genesis.hyps] by simp
next
  case (extend prior history env attestation expected allow cp)
  note step = advanced_extend [OF extend.hyps(2)]
  have "sequence_no prior = int (length (prior # history))"
    using extend.IH upto_rec2 [of 1 "int (length (prior # history))"] by simp
  moreover have "[1..int (length (cp # prior # history))] =
      [1..int (length (prior # history))] @ [int (length (prior # history)) + 1]"
    using upto_rec2 [of 1 "int (length (cp # prior # history))"] by simp
  ultimately show ?case
    using extend.IH step by auto
qed

section \<open>Samples and verification of a deployed release\<close>

definition sample_digest :: string where
  "sample_digest = replicate 64 CHR ''a''"

definition sample_sha :: "string \<Rightarrow> string" where
  "sample_sha s = sample_digest"

definition sample_iso :: iso_parser where
  "sample_iso s = (if s = ''now'' then Some (0, Some 0) else if s = ''far'' then Some (0, Some 3600000000) else None)"

definition sample_env :: "string \<Rightarrow> advance_env" where
  "sample_env now = \<lparr>advance_attested = Inr True, advance_path = ''dist'', advance_artifact = Some ''x'',
     advance_now = now\<rparr>"

definition sample_record :: "int \<Rightarrow> string \<Rightarrow> pyval \<Rightarrow> string \<Rightarrow> pydict" where
  "sample_record n release previous now =
     sealed_record sample_sha (\<lambda>_. []) (lineage_body ''stable'' n release n sample_digest
       (attestation_sha256 sample_sha (\<lambda>_. []) [(''release'', VStr release)]) previous now)"

lemma sample_sha_match: "sha256_match sample_digest" "sha256_match (sample_sha s)"
  by (simp_all add: sample_sha_def sample_digest_def sha256_match_def list_all_iff code_def)

lemma sample_names:
  "name_match 63 ''stable''" "release_number rep ''P1'' = Inr 1" "release_number rep ''P2'' = Inr 2"
  by code_simp+

lemma sample_timestamps:
  "parse_timestamp sample_iso (VStr ''now'') label = Inr 0"
  "parse_timestamp sample_iso (VStr ''far'') label = Inl (Crashed OverflowError)"
  by code_simp+

lemma sample_first:
  "advance_release_lineage rep sample_iso sample_sha sample_sha (\<lambda>_. []) (sample_env now) (VStr ''stable'')
     [(''release'', VStr ''P1'')] None None True = Inr (sample_record 1 ''P1'' VNone now)"
  by (simp add: advance_release_lineage_def channel_of_def sample_env_def codename_of_def dict_get_def
      sample_names genesis_position_def artifact_sha256_def sample_record_def sample_sha_def)

lemma advance_roundtrip_witness:
  "verify_lineage_checkpoint (\<lambda>_. []) sample_iso sample_sha (\<lambda>_. []) (VDict (sample_record 1 ''P1'' VNone ''now''))
     (Some ''stable'') (Some (seal_of (sample_record 1 ''P1'' VNone ''now''))) =
   Inr (sample_record 1 ''P1'' VNone ''now'')"
  by (rule advance_roundtrip [OF sample_first sample_sha_match(2) sample_sha_match(2), where t = 0])
    (simp add: sample_env_def sample_timestamps)


lemma sample_second:
  "advance_release_lineage (\<lambda>_. []) sample_iso sample_sha sample_sha (\<lambda>_. []) (sample_env ''now'')
     (VStr ''stable'') [(''release'', VStr ''P2'')] (Some (VDict (sample_record 1 ''P1'' VNone ''now'')))
     (Some (seal_of (sample_record 1 ''P1'' VNone ''now''))) False =
   Inr (sample_record 2 ''P2'' (VStr sample_digest) ''now'')"
proof -
  let ?first = "sample_record 1 ''P1'' VNone ''now''"
  have v: "verify_lineage_checkpoint (\<lambda>_. []) sample_iso sample_sha (\<lambda>_. []) (VDict ?first) (Some ''stable'')
      (Some (seal_of ?first)) = Inr ?first"
    by (simp add: verify_lineage_checkpoint_def lineage_record_get [OF sample_record_def]
        lineage_record_numbers [OF sample_record_def] channel_of_def sequence_of_def codename_of_def
        validate_hash_def predecessor_ok_def expected_head_ok_def equals_int_def sample_names
        sample_timestamps sample_sha_match attestation_sha256_def checkpoint_fingerprint_def)
  have p: "next_position (\<lambda>_. []) sample_iso sample_sha (\<lambda>_. []) ''stable'' 2 (VDict ?first)
      (Some (seal_of ?first)) = Inr (2, VStr sample_digest)"
    by (simp add: next_position_def v lineage_record_get [OF sample_record_def] int_value_def text_value_def
        checkpoint_fingerprint_def sample_sha_def)
  show ?thesis
    by (simp add: advance_release_lineage_def channel_of_def sample_env_def codename_of_def dict_get_def
        sample_names p artifact_sha256_def sample_sha_def sample_record_def [of 2])
qed

lemma lineage_monotone_witness:
  "release_no (sample_record 1 ''P1'' VNone ''now'') <
   release_no (sample_record 2 ''P2'' (VStr sample_digest) ''now'')"
  using lineage_monotone [OF lineage.extend [OF lineage.genesis [OF sample_first] sample_second]] by simp

text \<open>
  C34: a release is only accepted against a lineage when the checkpoint is verified under the given
  head and channel, the quorum attestation of the release is valid, the attestation names the
  release of the checkpoint, the release number is not below the required minimum, and both the
  artifact and the attestation hash to what the checkpoint records.
\<close>

theorem lineage_release_sound:
  assumes "verify_release_against_lineage rep fromiso sha shab frep env checkpoint head channel attestation
      minimum = Inr True"
  shows "\<exists>cp bytes. checkpoint = VDict cp \<and> seal_of cp = head \<and>
    head = checkpoint_fingerprint sha frep cp \<and> dict_get cp ''channel'' = VStr channel \<and>
    advance_attested env = Inr True \<and> dict_get cp ''release'' = dict_get attestation ''release'' \<and>
    (minimum = VNone \<or> (\<exists>m. minimum = VInt m \<and> 1 \<le> m \<and> m \<le> release_no cp)) \<and>
    advance_artifact env = Some bytes \<and> dict_get cp ''artifact_sha256'' = VStr (shab bytes) \<and>
    dict_get cp ''attestation_sha256'' = VStr (attestation_sha256 sha frep attestation)"
proof -
  from assms have "lineage_checks rep fromiso sha shab frep env checkpoint head channel attestation minimum =
      Inr True"
    by (auto simp: verify_release_against_lineage_def split: sum.split_asm release_error.split_asm)
  then obtain cp artifact where
    cp: "verify_lineage_checkpoint rep fromiso sha frep checkpoint (Some channel) (Some head) = Inr cp"
    and checks: "advance_attested env = Inr True" "dict_get cp ''release'' = dict_get attestation ''release''"
      "minimum_ok minimum (release_no cp)"
    and art: "artifact_sha256 shab (advance_path env) (advance_artifact env) = Inr artifact"
    and hashes: "dict_get cp ''artifact_sha256'' = VStr artifact"
      "dict_get cp ''attestation_sha256'' = VStr (attestation_sha256 sha frep attestation)"
    unfolding lineage_checks_def
    by (elim rbindE) (auto simp: release_no_def elim!: rbindE split: if_split_asm)
  from art obtain bytes where "advance_artifact env = Some bytes" "artifact = shab bytes"
    by (auto simp: artifact_sha256_def split: option.split_asm if_split_asm)
  moreover have "minimum = VNone \<or> (\<exists>m. minimum = VInt m \<and> 1 \<le> m \<and> m \<le> release_no cp)"
    using checks(3) by (auto simp: minimum_ok_def split: pyval.split_asm)
  moreover have "checkpoint = VDict cp \<and> seal_of cp = head \<and> head = checkpoint_fingerprint sha frep cp \<and>
      dict_get cp ''channel'' = VStr channel"
    using cp by (rule verified_checkpoint) simp
  ultimately show ?thesis using checks hashes by blast
qed

lemma sample_first_verified:
  assumes "parse_timestamp fromiso (VStr now) ''release lineage published_at'' = r"
  shows "verify_lineage_checkpoint (\<lambda>_. []) fromiso sample_sha (\<lambda>_. [])
      (VDict (sample_record 1 ''P1'' VNone now)) (Some ''stable'') (Some sample_digest) =
    rbind r (\<lambda>_. Inr (sample_record 1 ''P1'' VNone now))"
  using assms
  by (simp add: verify_lineage_checkpoint_def lineage_record_get [OF sample_record_def]
      lineage_record_numbers [OF sample_record_def] channel_of_def sequence_of_def codename_of_def
      validate_hash_def predecessor_ok_def expected_head_ok_def equals_int_def sample_names
      sample_sha_match attestation_sha256_def checkpoint_fingerprint_def refuse_if_def sample_sha_def)

lemma lineage_release_sound_witness:
  "dict_get (sample_record 1 ''P1'' VNone ''now'') ''release'' = VStr ''P1''"
proof -
  have "verify_release_against_lineage (\<lambda>_. []) sample_iso sample_sha sample_sha (\<lambda>_. [])
      (sample_env ''now'') (VDict (sample_record 1 ''P1'' VNone ''now'')) sample_digest ''stable''
      [(''release'', VStr ''P1'')] (VInt 1) = Inr True"
    by (simp add: verify_release_against_lineage_def lineage_checks_def
        sample_first_verified [OF sample_timestamps(1)] sample_env_def dict_get_def [of "[(a, b)]" for a b]
        lineage_record_get [OF sample_record_def] minimum_ok_def int_value_def artifact_sha256_def
        sample_sha_def attestation_sha256_def)
  from lineage_release_sound [OF this] show ?thesis by (auto simp: dict_get_def [of "[(a, b)]" for a b])
qed

text \<open>
  A well-formed checkpoint whose timestamp lies outside the representable years in UTC does not
  make the check of a release return false: the conversion's \<open>OverflowError\<close> escapes it.
\<close>

theorem far_timestamp_raises:
  "verify_release_against_lineage (\<lambda>_. []) sample_iso sample_sha sample_sha (\<lambda>_. []) env
     (VDict (sample_record 1 ''P1'' VNone ''far'')) sample_digest ''stable'' attestation minimum =
   Inl OverflowError"
  by (simp add: verify_release_against_lineage_def lineage_checks_def
      sample_first_verified [OF sample_timestamps(2)])

end
