(* ===== verification/Tenancy.thy ===== *)
theory Tenancy
  imports PyText
begin

text \<open>
  Users, organizations, memberships and workspaces of \<open>services/store.py\<close>: who may see and
  change what. The tables of \<open>services/db.py\<close> are association lists from primary keys to rows,
  in insertion order; each function of the code is one transaction. Identifiers that the database
  draws and the clock are arguments. Rows with the same time are listed in insertion order, and
  the request context that the row-level security of PostgreSQL reads has no part in the checks
  of the code itself.
\<close>

section \<open>Tables\<close>

datatype store_error = PermissionError string | BadValue string | LookupError string | Escaped py_exn

type_synonym 'a stored = "store_error + 'a"

record user_row =
  user_email :: string
  password_hash :: string
  user_role :: string
  token_version :: int

record org_row =
  org_name :: string
  org_created :: int

record member_row =
  member_role :: string
  member_since :: int

record workspace_row =
  owner_user :: string
  workspace_org :: "string option"
  workspace_name :: string
  workspace_role :: string
  workspace_created :: int

record tenancy =
  users :: "(string \<times> user_row) list"
  organizations :: "(string \<times> org_row) list"
  memberships :: "((string \<times> string) \<times> member_row) list"
  workspaces :: "(string \<times> workspace_row) list"

definition no_tenants :: tenancy where
  "no_tenants = \<lparr>users = [], organizations = [], memberships = [], workspaces = []\<rparr>"

definition ORG_ROLES :: "string list" where
  "ORG_ROLES = [''OWNER'', ''ADMIN'', ''ANALYST'', ''VIEWER'']"

definition WRITE_ROLES :: "string list" where
  "WRITE_ROLES = [''OWNER'', ''ADMIN'', ''ANALYST'']"

definition MANAGE_ROLES :: "string list" where
  "MANAGE_ROLES = [''OWNER'', ''ADMIN'']"

section \<open>Users\<close>

definition normal_email :: "string \<Rightarrow> string" where
  "normal_email email = py_strip (py_lower email)"

definition user_with_email :: "tenancy \<Rightarrow> string \<Rightarrow> (string \<times> user_row) option" where
  "user_with_email T email = find (\<lambda>(i, u). user_email u = email) (users T)"

definition get_user :: "tenancy \<Rightarrow> string \<Rightarrow> (string \<times> user_row) option" where
  "get_user T email = user_with_email T (normal_email email)"

definition create_user ::
  "string \<Rightarrow> string \<Rightarrow> string \<Rightarrow> string \<Rightarrow> tenancy \<Rightarrow> ((string \<times> user_row) \<times> tenancy) stored" where
  "create_user uid email hash role T =
     (let address = normal_email email;
          row = \<lparr>user_email = address, password_hash = hash, user_role = role, token_version = 0\<rparr> in
      if user_with_email T address \<noteq> None then Inl (BadValue ''Email already registered'')
      else Inr ((uid, row), T\<lparr>users := users T @ [(uid, row)]\<rparr>))"

definition get_user_by_id :: "tenancy \<Rightarrow> string \<Rightarrow> user_row option" where
  "get_user_by_id T uid = map_of (users T) uid"

definition bump_user_token_version :: "string \<Rightarrow> tenancy \<Rightarrow> int option \<times> tenancy" where
  "bump_user_token_version uid T =
     (case map_of (users T) uid of
        None \<Rightarrow> (None, T)
      | Some u \<Rightarrow> (Some (token_version u + 1),
          T\<lparr>users := AList.update uid (u\<lparr>token_version := token_version u + 1\<rparr>) (users T)\<rparr>))"

definition update_user_role :: "string \<Rightarrow> string \<Rightarrow> tenancy \<Rightarrow> user_row option \<times> tenancy" where
  "update_user_role uid role T =
     (case map_of (users T) uid of
        None \<Rightarrow> (None, T)
      | Some u \<Rightarrow> (Some (u\<lparr>user_role := role\<rparr>),
          T\<lparr>users := AList.update uid (u\<lparr>user_role := role\<rparr>) (users T)\<rparr>))"

section \<open>Organizations\<close>

record org_view =
  view_org :: string
  view_org_name :: string
  view_member_role :: string

definition create_organization :: "string \<Rightarrow> int \<Rightarrow> string \<Rightarrow> string \<Rightarrow> tenancy \<Rightarrow> org_view \<times> tenancy" where
  "create_organization oid now uid name T =
     (\<lparr>view_org = oid, view_org_name = name, view_member_role = ''OWNER''\<rparr>,
      T\<lparr>organizations := organizations T @ [(oid, \<lparr>org_name = name, org_created = now\<rparr>)],
         memberships := memberships T @
           [((oid, uid), \<lparr>member_role = ''OWNER'', member_since = now\<rparr>)]\<rparr>)"

definition org_role :: "tenancy \<Rightarrow> string \<Rightarrow> string \<Rightarrow> string option" where
  "org_role T uid oid =
     (if oid = [] then None else map_option member_role (map_of (memberships T) (oid, uid)))"

definition latest_first :: "('a \<Rightarrow> int) \<Rightarrow> 'a list \<Rightarrow> 'a list" where
  "latest_first f xs = sort_key (\<lambda>x. - f x) xs"

definition list_organizations :: "tenancy \<Rightarrow> string \<Rightarrow> org_view list" where
  "list_organizations T uid =
     map (\<lambda>(org, row, role). \<lparr>view_org = org, view_org_name = org_name row, view_member_role = role\<rparr>)
       (latest_first (\<lambda>(org, row, role). org_created row)
         (concat (map (\<lambda>((org, u), m). case map_of (organizations T) org of
              Some row \<Rightarrow> if u = uid then [(org, row, member_role m)] else []
            | None \<Rightarrow> []) (memberships T))))"

text \<open>\<open>if not role\<close>, \<open>if manage and role not in MANAGE_ROLES\<close>, \<open>if write and ...\<close>.\<close>

definition role_allows :: "string option \<Rightarrow> bool \<Rightarrow> bool \<Rightarrow> bool" where
  "role_allows role write manage =
     (case role of
        None \<Rightarrow> False
      | Some r \<Rightarrow> r \<noteq> [] \<and> (manage \<longrightarrow> r \<in> set MANAGE_ROLES) \<and> (write \<longrightarrow> r \<in> set WRITE_ROLES))"

definition organization_access :: "tenancy \<Rightarrow> string \<Rightarrow> string \<Rightarrow> bool \<Rightarrow> bool \<Rightarrow> org_view option" where
  "organization_access T uid oid write manage =
     (let role = org_role T uid oid in
      if \<not> role_allows role write manage then None
      else map_option (\<lambda>row. \<lparr>view_org = oid, view_org_name = org_name row, view_member_role = the role\<rparr>)
        (map_of (organizations T) oid))"

record member_view =
  member_user :: string
  member_email :: string
  listed_role :: string

definition list_organization_members :: "tenancy \<Rightarrow> string \<Rightarrow> string \<Rightarrow> member_view list option" where
  "list_organization_members T uid oid =
     (case organization_access T uid oid False False of
        None \<Rightarrow> None
      | Some _ \<Rightarrow> Some (concat (map (\<lambda>((org, u), m). case map_of (users T) u of
            Some row \<Rightarrow> [\<lparr>member_user = u, member_email = user_email row, listed_role = member_role m\<rparr>]
          | None \<Rightarrow> [])
          (sort_key (\<lambda>(k, m). member_since m) (filter (\<lambda>((org, u), m). org = oid) (memberships T))))))"

definition owner_count :: "tenancy \<Rightarrow> string \<Rightarrow> nat" where
  "owner_count T oid = length (filter (\<lambda>((org, u), m). org = oid \<and> member_role m = ''OWNER'') (memberships T))"

definition upsert_organization_member ::
  "string \<Rightarrow> string \<Rightarrow> string \<times> user_row \<Rightarrow> string \<Rightarrow> int \<Rightarrow> tenancy \<Rightarrow> (member_view \<times> tenancy) stored" where
  "upsert_organization_member actor_role oid user role now T =
     (let key = (oid, fst user);
          existing = map_of (memberships T) key;
          existing_role = map_option member_role existing;
          row = (case existing of Some m \<Rightarrow> m\<lparr>member_role := role\<rparr>
            | None \<Rightarrow> \<lparr>member_role = role, member_since = now\<rparr>)
      in if actor_role \<noteq> ''OWNER'' \<and> (role = ''OWNER'' \<or> existing_role = Some ''OWNER'')
         then Inl (PermissionError ''Only an organization owner may grant or modify OWNER membership'')
         else if existing_role = Some ''OWNER'' \<and> role \<noteq> ''OWNER'' \<and> owner_count T oid \<le> 1
         then Inl (BadValue ''Cannot demote the last organization owner'')
         else Inr (\<lparr>member_user = fst user, member_email = user_email (snd user), listed_role = role\<rparr>,
           T\<lparr>memberships := AList.update key row (memberships T)\<rparr>))"

definition managed :: "tenancy \<Rightarrow> string \<Rightarrow> string \<Rightarrow> string stored" where
  "managed T actor oid =
     (case organization_access T actor oid False True of
        None \<Rightarrow> Inl (PermissionError ''Organization administration required'')
      | Some access \<Rightarrow> Inr (view_member_role access))"

definition add_organization_member ::
  "string \<Rightarrow> string \<Rightarrow> string \<Rightarrow> string \<Rightarrow> bool \<Rightarrow> int \<Rightarrow> tenancy \<Rightarrow> (member_view \<times> tenancy) stored" where
  "add_organization_member actor oid email role allow_new now T =
     (if role \<notin> set ORG_ROLES then Inl (BadValue ''Invalid organization role'')
      else rbind (managed T actor oid) (\<lambda>actor_role.
        case user_with_email T (normal_email email) of
          None \<Rightarrow> Inl (LookupError ''User must already have a Rivexis account'')
        | Some user \<Rightarrow>
            if map_of (memberships T) (oid, fst user) = None \<and> \<not> allow_new
            then Inl (PermissionError ''New organization members require an authenticated membership claim'')
            else upsert_organization_member actor_role oid user role now T))"

definition add_organization_member_by_claim ::
  "string \<Rightarrow> string \<Rightarrow> string \<Rightarrow> string \<Rightarrow> int \<Rightarrow> tenancy \<Rightarrow> (member_view \<times> tenancy) stored" where
  "add_organization_member_by_claim actor oid target role now T =
     (if role \<notin> set ORG_ROLES then Inl (BadValue ''Invalid organization role'')
      else rbind (managed T actor oid) (\<lambda>actor_role.
        case map_of (users T) target of
          None \<Rightarrow> Inl (LookupError ''Membership-claim user no longer exists'')
        | Some user \<Rightarrow> upsert_organization_member actor_role oid (target, user) role now T))"

definition remove_organization_member ::
  "string \<Rightarrow> string \<Rightarrow> string \<Rightarrow> tenancy \<Rightarrow> (bool \<times> tenancy) stored" where
  "remove_organization_member actor oid target T =
     rbind (managed T actor oid) (\<lambda>actor_role.
       case map_of (memberships T) (oid, target) of
         None \<Rightarrow> Inr (False, T)
       | Some row \<Rightarrow>
           if member_role row = ''OWNER'' \<and> actor_role \<noteq> ''OWNER''
           then Inl (PermissionError ''Only an organization owner may remove OWNER membership'')
           else if member_role row = ''OWNER'' \<and> owner_count T oid \<le> 1
           then Inl (BadValue ''Cannot remove the last organization owner'')
           else Inr (True, T\<lparr>memberships := AList.delete (oid, target) (memberships T)\<rparr>))"

section \<open>Workspaces\<close>

record workspace_view =
  view_id :: string
  view_name :: string
  view_role :: string
  view_workspace_org :: "string option"
  access_role :: string

text \<open>\<open>if row.organization_id\<close>: neither absent nor empty.\<close>

definition in_organization :: "workspace_row \<Rightarrow> bool" where
  "in_organization row = (workspace_org row \<noteq> None \<and> workspace_org row \<noteq> Some [])"

definition or_viewer :: "string option \<Rightarrow> string" where
  "or_viewer role = (case role of None \<Rightarrow> ''VIEWER'' | Some r \<Rightarrow> if r = [] then ''VIEWER'' else r)"

definition workspace_view_of :: "string \<Rightarrow> workspace_row \<Rightarrow> string \<Rightarrow> string option \<Rightarrow> workspace_view" where
  "workspace_view_of wid row uid member =
     \<lparr>view_id = wid, view_name = workspace_name row, view_role = workspace_role row,
      view_workspace_org = workspace_org row,
      access_role = (if in_organization row then or_viewer member
        else if owner_user row = uid then ''OWNER'' else or_viewer member)\<rparr>"

definition create_workspace ::
  "string \<Rightarrow> int \<Rightarrow> string \<Rightarrow> string \<Rightarrow> string \<Rightarrow> string option \<Rightarrow> tenancy \<Rightarrow> (workspace_view \<times> tenancy) stored"
where
  "create_workspace wid now uid name role oid T =
     (let row = \<lparr>owner_user = uid, workspace_org = oid, workspace_name = name, workspace_role = role,
            workspace_created = now\<rparr>;
          access = (case oid of None \<Rightarrow> None
            | Some i \<Rightarrow> if i = [] then None else organization_access T uid i True False)
      in if in_organization row \<and> access = None
         then Inl (PermissionError ''Organization write access required'')
         else Inr (workspace_view_of wid row uid (map_option view_member_role access),
           T\<lparr>workspaces := workspaces T @ [(wid, row)]\<rparr>))"

definition memberships_of :: "tenancy \<Rightarrow> string \<Rightarrow> (string \<times> string) list" where
  "memberships_of T uid =
     map (\<lambda>((org, u), m). (org, member_role m)) (filter (\<lambda>((org, u), m). u = uid) (memberships T))"

definition listing_role :: "tenancy \<Rightarrow> string \<Rightarrow> workspace_row \<Rightarrow> string option" where
  "listing_role T uid row =
     (case workspace_org row of None \<Rightarrow> None | Some oid \<Rightarrow> map_of (memberships_of T uid) oid)"

definition list_workspaces :: "tenancy \<Rightarrow> string \<Rightarrow> workspace_view list" where
  "list_workspaces T uid =
     map (\<lambda>(w, row). workspace_view_of w row uid (listing_role T uid row))
       (latest_first (\<lambda>(w, row). workspace_created row)
         (filter (\<lambda>(w, row). owner_user row = uid \<and> workspace_org row = None \<or>
             listing_role T uid row \<noteq> None) (workspaces T)))"

definition workspace_access :: "tenancy \<Rightarrow> string \<Rightarrow> string \<Rightarrow> bool \<Rightarrow> bool \<Rightarrow> workspace_view option" where
  "workspace_access T uid wid write manage =
     (case map_of (workspaces T) wid of
        None \<Rightarrow> None
      | Some row \<Rightarrow>
          let role = (if in_organization row then org_role T uid (the (workspace_org row))
                else if owner_user row = uid then Some ''OWNER'' else None)
          in if role_allows role write manage then Some (workspace_view_of wid row uid role) else None)"

definition default_workspace :: "tenancy \<Rightarrow> string \<Rightarrow> bool \<Rightarrow> workspace_view option" where
  "default_workspace T uid write =
     find (\<lambda>w. \<not> write \<or> access_role w \<in> set WRITE_ROLES) (list_workspaces T uid)"

definition update_workspace ::
  "string \<Rightarrow> string \<Rightarrow> string \<Rightarrow> string \<Rightarrow> tenancy \<Rightarrow> workspace_view option \<times> tenancy" where
  "update_workspace uid wid name role T =
     (case (workspace_access T uid wid False True, map_of (workspaces T) wid) of
        (Some access, Some row) \<Rightarrow>
          let row' = row\<lparr>workspace_name := name, workspace_role := role\<rparr> in
          (Some (workspace_view_of wid row' uid (Some (access_role access))),
           T\<lparr>workspaces := AList.update wid row' (workspaces T)\<rparr>)
      | _ \<Rightarrow> (None, T))"

section \<open>Reachable states\<close>

inductive tenancy_reach :: "tenancy \<Rightarrow> bool" where
  start: "tenancy_reach no_tenants"
| signup: "tenancy_reach T \<Longrightarrow> map_of (users T) uid = None \<Longrightarrow>
    create_user uid email hash role T = Inr (r, T') \<Longrightarrow> tenancy_reach T'"
| logout: "tenancy_reach T \<Longrightarrow> tenancy_reach (snd (bump_user_token_version uid T))"
| reset: "tenancy_reach T \<Longrightarrow> map_of (users T) uid = Some u \<Longrightarrow>
    tenancy_reach (T\<lparr>users := AList.update uid
      (u\<lparr>password_hash := hash, token_version := token_version u + 1\<rparr>) (users T)\<rparr>)"
| persona: "tenancy_reach T \<Longrightarrow> tenancy_reach (snd (update_user_role uid role T))"
| found: "tenancy_reach T \<Longrightarrow> map_of (organizations T) oid = None \<Longrightarrow> oid \<noteq> [] \<Longrightarrow>
    tenancy_reach (snd (create_organization oid now uid name T))"
| add: "tenancy_reach T \<Longrightarrow> add_organization_member actor oid email role allow now T = Inr (v, T') \<Longrightarrow>
    tenancy_reach T'"
| claim: "tenancy_reach T \<Longrightarrow> add_organization_member_by_claim actor oid target role now T = Inr (v, T') \<Longrightarrow>
    tenancy_reach T'"
| remove: "tenancy_reach T \<Longrightarrow> remove_organization_member actor oid target T = Inr (done', T') \<Longrightarrow>
    tenancy_reach T'"
| workspace: "tenancy_reach T \<Longrightarrow> map_of (workspaces T) wid = None \<Longrightarrow>
    create_workspace wid now uid name role org T = Inr (w, T') \<Longrightarrow> tenancy_reach T'"
| rename: "tenancy_reach T \<Longrightarrow> tenancy_reach (snd (update_workspace uid wid name role T))"

definition has_owner :: "tenancy \<Rightarrow> string \<Rightarrow> bool" where
  "has_owner T oid = (\<exists>uid. org_role T uid oid = Some ''OWNER'')"

definition memberships_ok :: "tenancy \<Rightarrow> bool" where
  "memberships_ok T =
     (distinct (map fst (memberships T)) \<and>
      (\<forall>org u m. map_of (memberships T) (org, u) = Some m \<longrightarrow>
        org \<noteq> [] \<and> map_of (organizations T) org \<noteq> None \<and> member_role m \<in> set ORG_ROLES) \<and>
      (\<forall>org row. map_of (organizations T) org = Some row \<longrightarrow> org \<noteq> [] \<and> has_owner T org))"

lemma org_role_cong: "memberships T' = memberships T \<Longrightarrow> org_role T' = org_role T"
  by (simp add: org_role_def fun_eq_iff)

lemma memberships_ok_cong:
  assumes "memberships T' = memberships T" and "organizations T' = organizations T"
  shows "memberships_ok T' = memberships_ok T"
  using assms by (simp add: memberships_ok_def has_owner_def org_role_cong [OF assms(1)])

lemma managedE:
  assumes "managed T actor oid = Inr r"
  shows "org_role T actor oid = Some r" and "r \<in> set MANAGE_ROLES" and "map_of (organizations T) oid \<noteq> None"
  using assms
  by (auto simp: managed_def organization_access_def role_allows_def Let_def split: option.split_asm if_split_asm)

lemma org_role_nonempty: "org_role T u oid = Some r \<Longrightarrow> oid \<noteq> []"
  by (auto simp: org_role_def split: if_split_asm)

text \<open>The change of a membership.\<close>

lemma upserted:
  assumes "upsert_organization_member actor_role oid user role now T = Inr (v, T')"
  obtains row where "T' = T\<lparr>memberships := AList.update (oid, fst user) row (memberships T)\<rparr>"
    "member_role row = role"
    "actor_role = ''OWNER'' \<or> (role \<noteq> ''OWNER'' \<and>
       map_option member_role (map_of (memberships T) (oid, fst user)) \<noteq> Some ''OWNER'')"
    "role = ''OWNER'' \<or> 1 < owner_count T oid \<or>
       map_option member_role (map_of (memberships T) (oid, fst user)) \<noteq> Some ''OWNER''"
  using assms
  by (auto simp: upsert_organization_member_def Let_def split: if_split_asm option.split_asm intro: that)

lemma added:
  assumes "add_organization_member actor oid email role allow now T = Inr (v, T')"
  obtains actor_role user where "managed T actor oid = Inr actor_role" "role \<in> set ORG_ROLES"
    "user_with_email T (normal_email email) = Some user"
    "upsert_organization_member actor_role oid user role now T = Inr (v, T')"
  using assms unfolding add_organization_member_def
  by (auto elim!: rbindE split: if_split_asm option.split_asm intro: that)

lemma claimed:
  assumes "add_organization_member_by_claim actor oid target role now T = Inr (v, T')"
  obtains actor_role user where "managed T actor oid = Inr actor_role" "role \<in> set ORG_ROLES"
    "map_of (users T) target = Some user"
    "upsert_organization_member actor_role oid (target, user) role now T = Inr (v, T')"
  using assms unfolding add_organization_member_by_claim_def
  by (auto elim!: rbindE split: if_split_asm option.split_asm intro: that)

lemma removed:
  assumes "remove_organization_member actor oid target T = Inr (b, T')"
  obtains actor_role where "managed T actor oid = Inr actor_role" "\<not> b" "T' = T"
      "map_of (memberships T) (oid, target) = None"
    | actor_role row where "managed T actor oid = Inr actor_role" "b"
      "map_of (memberships T) (oid, target) = Some row"
      "T' = T\<lparr>memberships := AList.delete (oid, target) (memberships T)\<rparr>"
      "member_role row = ''OWNER'' \<longrightarrow> actor_role = ''OWNER'' \<and> 1 < owner_count T oid"
proof -
  from assms obtain r where r: "managed T actor oid = Inr r" unfolding remove_organization_member_def
    by (rule rbindE)
  show thesis
  proof (cases "map_of (memberships T) (oid, target)")
    case None
    with assms r have "\<not> b" "T' = T" by (simp_all add: remove_organization_member_def)
    with r None show ?thesis by (intro that(1) [of r])
  next
    case (Some row)
    with assms r have "b" "T' = T\<lparr>memberships := AList.delete (oid, target) (memberships T)\<rparr>"
      "member_role row = ''OWNER'' \<longrightarrow> r = ''OWNER'' \<and> 1 < owner_count T oid"
      by (auto simp: remove_organization_member_def split: if_split_asm)
    with r Some show ?thesis by (intro that(2) [of r row])
  qed
qed

lemma owner_entry:
  "c \<in> set (filter (\<lambda>((org, u), m). org = oid \<and> member_role m = ''OWNER'') ms) \<Longrightarrow>
   fst (fst c) = oid \<and> member_role (snd c) = ''OWNER'' \<and> c \<in> set ms"
  by auto

text \<open>Of several owners, one is left when another membership changes.\<close>

lemma other_owner:
  assumes "distinct (map fst (memberships T))" and "1 < owner_count T oid"
  obtains u m where "u \<noteq> target" "map_of (memberships T) (oid, u) = Some m" "member_role m = ''OWNER''"
proof -
  obtain owners where o: "owners = filter (\<lambda>((org, u), m). org = oid \<and> member_role m = ''OWNER'') (memberships T)"
    by blast
  have "distinct (map fst owners)" using assms(1) unfolding o by (rule distinct_map_filter)
  moreover have "1 < length owners" using assms(2) by (simp add: owner_count_def o)
  then have "\<exists>a b rest. owners = a # b # rest" by (cases owners; cases "tl owners") auto
  then obtain a b rest where ab: "owners = a # b # rest" by blast
  ultimately have ne: "fst a \<noteq> fst b" by simp
  have in_o: "fst (fst c) = oid \<and> member_role (snd c) = ''OWNER'' \<and> c \<in> set (memberships T)"
    if "c \<in> {a, b}" for c
  proof (rule owner_entry)
    have "c \<in> set owners" unfolding ab using that by (simp only: list.set insert_iff empty_iff) blast
    then show "c \<in> set (filter (\<lambda>((org, u), m). org = oid \<and> member_role m = ''OWNER'') (memberships T))"
      by (simp only: o)
  qed
  have "fst (fst a) = fst (fst b)" using in_o [of a] in_o [of b] by simp
  with ne have "snd (fst a) \<noteq> snd (fst b)" by (metis prod_eqI)
  then have "snd (fst a) \<noteq> target \<or> snd (fst b) \<noteq> target" by metis
  then obtain c where c: "c \<in> {a, b}" "snd (fst c) \<noteq> target" by blast
  then have "map_of (memberships T) (oid, snd (fst c)) = Some (snd c)"
    using in_o [OF c(1)] assms(1) by (cases c) auto
  with c(2) in_o [OF c(1)] show thesis by (intro that [of "snd (fst c)" "snd c"]) auto
qed

lemma ok_after_update:
  assumes "memberships_ok T" and "T' = T\<lparr>memberships := AList.update (oid, u) row (memberships T)\<rparr>"
    and "map_of (organizations T) oid \<noteq> None" and "oid \<noteq> []" and "member_role row \<in> set ORG_ROLES"
    and "member_role row = ''OWNER'' \<or> 1 < owner_count T oid \<or>
       map_option member_role (map_of (memberships T) (oid, u)) \<noteq> Some ''OWNER''"
  shows "memberships_ok T'"
proof -
  have d: "distinct (map fst (memberships T))" using assms(1) by (simp add: memberships_ok_def)
  have "has_owner T' org" if org: "has_owner T org" "org \<noteq> []" for org
  proof (cases "org = oid")
    case False
    then show ?thesis using org by (auto simp: has_owner_def org_role_def assms(2) update_conv')
  next
    case True
    obtain w m where w: "map_of (memberships T) (oid, w) = Some m" "member_role m = ''OWNER''"
      using org True by (auto simp: has_owner_def org_role_def)
    consider "member_role row = ''OWNER''" | "1 < owner_count T oid"
      | "map_option member_role (map_of (memberships T) (oid, u)) \<noteq> Some ''OWNER''" using assms(6) by blast
    then show ?thesis
    proof cases
      case 1
      then show ?thesis using True assms(4) by (auto simp: has_owner_def org_role_def assms(2) update_conv')
    next
      case 2
      obtain w' m' where "w' \<noteq> u" "map_of (memberships T) (oid, w') = Some m'" "member_role m' = ''OWNER''"
        by (rule other_owner [OF d 2])
      then show ?thesis using True assms(4) by (auto simp: has_owner_def org_role_def assms(2) update_conv')
    next
      case 3
      with w have "w \<noteq> u" by auto
      then show ?thesis using True assms(4) w by (auto simp: has_owner_def org_role_def assms(2) update_conv')
    qed
  qed
  then show ?thesis
    using assms d by (auto simp: memberships_ok_def distinct_update update_conv' split: if_split_asm)
qed


lemma ok_after_delete:
  assumes "memberships_ok T" and "T' = T\<lparr>memberships := AList.delete (oid, u) (memberships T)\<rparr>"
    and "map_option member_role (map_of (memberships T) (oid, u)) \<noteq> Some ''OWNER'' \<or> 1 < owner_count T oid"
  shows "memberships_ok T'"
proof -
  have d: "distinct (map fst (memberships T))" using assms(1) by (simp add: memberships_ok_def)
  have "has_owner T' org" if org: "has_owner T org" "org \<noteq> []" for org
  proof -
    obtain w m where w: "map_of (memberships T) (org, w) = Some m" "member_role m = ''OWNER''"
      "(org, w) \<noteq> (oid, u)"
    proof (cases "org = oid \<and> 1 < owner_count T oid")
      case True
      then show ?thesis using other_owner [OF d, of oid u] that by blast
    next
      case False
      from org obtain w m where w: "map_of (memberships T) (org, w) = Some m" "member_role m = ''OWNER''"
        by (auto simp: has_owner_def org_role_def)
      moreover from False assms(3) w have "(org, w) \<noteq> (oid, u)" by auto
      ultimately show ?thesis by (rule that)
    qed
    then show ?thesis using org(2) by (auto simp: has_owner_def org_role_def assms(2) delete_conv')
  qed
  then show ?thesis
    using assms d by (auto simp: memberships_ok_def distinct_delete delete_conv' split: if_split_asm)
qed

lemma ok_after_found:
  assumes "memberships_ok T" and "map_of (organizations T) oid = None" and "oid \<noteq> []"
    and "T' = snd (create_organization oid now uid name T)"
  shows "memberships_ok T'"
proof -
  have new: "map_of (memberships T) (oid, u) = None" for u
  proof (rule ccontr)
    assume "map_of (memberships T) (oid, u) \<noteq> None"
    then obtain m where "map_of (memberships T) (oid, u) = Some m" by blast
    with assms(1) have "map_of (organizations T) oid \<noteq> None" unfolding memberships_ok_def by blast
    with assms(2) show False by simp
  qed
  have T': "memberships T' = memberships T @ [((oid, uid), \<lparr>member_role = ''OWNER'', member_since = now\<rparr>)]"
    "organizations T' = organizations T @ [(oid, \<lparr>org_name = name, org_created = now\<rparr>)]"
    by (simp_all add: assms(4) create_organization_def)
  have keeps: "has_owner T' org" if "has_owner T org" for org
  proof -
    from that obtain w m where "map_of (memberships T) (org, w) = Some m" "member_role m = ''OWNER''" "org \<noteq> []"
      by (auto simp: has_owner_def org_role_def split: if_split_asm)
    then have "org_role T' w org = Some ''OWNER''" by (simp add: org_role_def T' map_add_def)
    then show ?thesis unfolding has_owner_def by blast
  qed
  have owner: "has_owner T' oid"
    using assms(3) new by (auto simp: has_owner_def org_role_def T' map_add_def intro!: exI [of _ uid])
  have fresh: "(oid, uid) \<notin> fst ` set (memberships T)"
    using new [of uid] by (simp add: map_of_eq_None_iff)
  have ok: "distinct (map fst (memberships T))"
    "\<And>org u m. map_of (memberships T) (org, u) = Some m \<Longrightarrow>
      org \<noteq> [] \<and> map_of (organizations T) org \<noteq> None \<and> member_role m \<in> set ORG_ROLES"
    "\<And>org row. map_of (organizations T) org = Some row \<Longrightarrow> org \<noteq> [] \<and> has_owner T org"
    using assms(1) unfolding memberships_ok_def by blast+
  have "distinct (map fst (memberships T'))" using ok(1) fresh by (simp add: T')
  moreover have "org \<noteq> [] \<and> map_of (organizations T') org \<noteq> None \<and> member_role m \<in> set ORG_ROLES"
    if m: "map_of (memberships T') (org, u) = Some m" for org u m
  proof (cases "map_of (memberships T) (org, u)")
    case None
    with m show ?thesis using assms(3) by (auto simp: T' map_add_def ORG_ROLES_def split: if_split_asm option.split)
  next
    case (Some m')
    with m ok(2) [OF Some] show ?thesis by (auto simp: T' map_add_def)
  qed
  moreover have "org \<noteq> [] \<and> has_owner T' org" if r: "map_of (organizations T') org = Some row" for org row
  proof (cases "map_of (organizations T) org")
    case None
    with r show ?thesis using assms(3) owner by (auto simp: T' map_add_def split: if_split_asm)
  next
    case (Some row')
    with ok(3) [OF Some] keeps show ?thesis by blast
  qed
  ultimately show ?thesis unfolding memberships_ok_def by blast
qed

lemma ok_after_upsert:
  assumes "memberships_ok T" and m: "managed T actor oid = Inr actor_role" and "role \<in> set ORG_ROLES"
    and u: "upsert_organization_member actor_role oid user role now T = Inr (v, T')"
  shows "memberships_ok T'"
  using u
proof (rule upserted)
  fix row
  assume T': "T' = T\<lparr>memberships := AList.update (oid, fst user) row (memberships T)\<rparr>"
    and row: "member_role row = role"
    and owner: "role = ''OWNER'' \<or> 1 < owner_count T oid \<or>
       map_option member_role (map_of (memberships T) (oid, fst user)) \<noteq> Some ''OWNER''"
  show ?thesis
    using assms(3) owner managedE(3) [OF m] org_role_nonempty [OF managedE(1) [OF m]]
    by (intro ok_after_update [OF assms(1) T']) (simp_all only: row not_False_eq_True)
qed

lemma reach_ok: "tenancy_reach T \<Longrightarrow> memberships_ok T"
proof (induction rule: tenancy_reach.induct)
  case start
  then show ?case by (simp add: no_tenants_def memberships_ok_def)
next
  case (signup T uid email hash role r T')
  then have "memberships T' = memberships T" "organizations T' = organizations T"
    by (auto simp: create_user_def Let_def split: if_split_asm)
  with signup.IH show ?case using memberships_ok_cong by blast
next
  case (logout T uid)
  have "memberships (snd (bump_user_token_version uid T)) = memberships T"
    "organizations (snd (bump_user_token_version uid T)) = organizations T"
    by (simp_all add: bump_user_token_version_def split: option.split)
  with logout.IH show ?case using memberships_ok_cong by blast
next
  case (reset T uid u hash)
  then show ?case
    using memberships_ok_cong [of "T\<lparr>users := AList.update uid
      (u\<lparr>password_hash := hash, token_version := token_version u + 1\<rparr>) (users T)\<rparr>" T] by simp
next
  case (persona T uid role)
  have "memberships (snd (update_user_role uid role T)) = memberships T"
    "organizations (snd (update_user_role uid role T)) = organizations T"
    by (simp_all add: update_user_role_def split: option.split)
  with persona.IH show ?case using memberships_ok_cong by blast
next
  case (found T oid now uid name)
  then show ?case using ok_after_found [OF found.IH found.hyps(2,3) refl] by blast
next
  case (add T actor oid email role allow now v T')
  from add.hyps(2) obtain actor_role user where m: "managed T actor oid = Inr actor_role"
    and r: "role \<in> set ORG_ROLES" and u: "upsert_organization_member actor_role oid user role now T = Inr (v, T')"
    by (rule added)
  show ?case by (rule ok_after_upsert [OF add.IH m r u])
next
  case (claim T actor oid target role now v T')
  from claim.hyps(2) obtain actor_role user where m: "managed T actor oid = Inr actor_role"
    and r: "role \<in> set ORG_ROLES" and u: "upsert_organization_member actor_role oid (target, user) role now T = Inr (v, T')"
    by (rule claimed)
  show ?case by (rule ok_after_upsert [OF claim.IH m r u])
next
  case (remove T actor oid target b T')
  from remove.hyps(2) show ?case
  proof (rule removed)
    fix row r
    assume T': "T' = T\<lparr>memberships := AList.delete (oid, target) (memberships T)\<rparr>"
      and "map_of (memberships T) (oid, target) = Some row"
      and "member_role row = ''OWNER'' \<longrightarrow> r = ''OWNER'' \<and> 1 < owner_count T oid"
    then show ?thesis by (intro ok_after_delete [OF remove.IH T']) auto
  qed (use remove.IH in simp)
next
  case (workspace T wid now uid name role org w T')
  then have "memberships T' = memberships T" "organizations T' = organizations T"
    by (auto simp: create_workspace_def Let_def split: if_split_asm)
  with workspace.IH show ?case using memberships_ok_cong by blast
next
  case (rename T uid wid name role)
  have "memberships (snd (update_workspace uid wid name role T)) = memberships T"
    "organizations (snd (update_workspace uid wid name role T)) = organizations T"
    by (simp_all add: update_workspace_def Let_def split: option.split)
  with rename.IH show ?case using memberships_ok_cong by blast
qed


section \<open>Properties\<close>

text \<open>
  C19: in every reachable state every organization keeps at least one owner, whatever members are
  added, demoted or removed; no user has two memberships of an organization, and every membership
  is of an existing organization and carries one of the four roles.
\<close>

theorem organizations_keep_owner:
  assumes "tenancy_reach T"
  shows "distinct (map fst (memberships T)) \<and>
    (\<forall>oid row. map_of (organizations T) oid = Some row \<longrightarrow> (\<exists>uid. org_role T uid oid = Some ''OWNER'')) \<and>
    (\<forall>oid uid m. map_of (memberships T) (oid, uid) = Some m \<longrightarrow>
       map_of (organizations T) oid \<noteq> None \<and>
       member_role m \<in> {''OWNER'', ''ADMIN'', ''ANALYST'', ''VIEWER''})"
  using reach_ok [OF assms] by (auto simp: memberships_ok_def has_owner_def ORG_ROLES_def)

definition sample_tenants :: tenancy where
  "sample_tenants = snd (create_organization ''o'' 1 ''a'' ''Org'' no_tenants)"

lemma sample_tenants_reach: "tenancy_reach sample_tenants"
  unfolding sample_tenants_def by (intro tenancy_reach.found tenancy_reach.start) (simp_all add: no_tenants_def)

lemma organizations_keep_owner_witness:
  "map_of (organizations sample_tenants) ''o'' \<noteq> None \<and>
   (\<exists>uid. org_role sample_tenants uid ''o'' = Some ''OWNER'')"
proof -
  have "map_of (organizations sample_tenants) ''o'' = Some \<lparr>org_name = ''Org'', org_created = 1\<rparr>"
    by (simp add: sample_tenants_def create_organization_def no_tenants_def)
  with organizations_keep_owner [OF sample_tenants_reach] show ?thesis by blast
qed

datatype member_command = AddMember string string bool | ClaimMember string string | RemoveMember string

definition run_member_command ::
  "string \<Rightarrow> string \<Rightarrow> member_command \<Rightarrow> int \<Rightarrow> tenancy \<Rightarrow> tenancy stored" where
  "run_member_command actor oid cmd now T =
     (case cmd of
        AddMember email role allow \<Rightarrow>
          map_sum id snd (add_organization_member actor oid email role allow now T)
      | ClaimMember target role \<Rightarrow> map_sum id snd (add_organization_member_by_claim actor oid target role now T)
      | RemoveMember target \<Rightarrow> map_sum id snd (remove_organization_member actor oid target T))"

definition member_change :: "string \<Rightarrow> string \<Rightarrow> tenancy \<Rightarrow> tenancy \<Rightarrow> string \<Rightarrow> bool" where
  "member_change oid actor_role T T' target =
     ((\<forall>org uid. (org, uid) \<noteq> (oid, target) \<longrightarrow> org_role T' uid org = org_role T uid org) \<and>
      (actor_role \<noteq> ''OWNER'' \<longrightarrow>
        org_role T target oid \<noteq> Some ''OWNER'' \<and> org_role T' target oid \<noteq> Some ''OWNER'' \<or> T' = T) \<and>
      users T' = users T \<and> organizations T' = organizations T \<and> workspaces T' = workspaces T)"

lemma upsert_change:
  assumes "upsert_organization_member actor_role oid user role now T = Inr (v, T')"
  shows "member_change oid actor_role T T' (fst user)"
  using assms
  by (rule upserted) (auto simp: member_change_def org_role_def update_conv')

lemma remove_change:
  assumes "remove_organization_member actor oid target T = Inr (b, T')"
  shows "\<exists>r. managed T actor oid = Inr r \<and> member_change oid r T T' target"
  using assms
proof (rule removed)
  fix r assume "managed T actor oid = Inr r" "T' = T"
  then show ?thesis by (auto simp: member_change_def)
next
  fix r row
  assume "managed T actor oid = Inr r" "map_of (memberships T) (oid, target) = Some row"
    "T' = T\<lparr>memberships := AList.delete (oid, target) (memberships T)\<rparr>"
    "member_role row = ''OWNER'' \<longrightarrow> r = ''OWNER'' \<and> 1 < owner_count T oid"
  then show ?thesis by (auto simp: member_change_def org_role_def delete_conv')
qed

lemma command_change:
  assumes "run_member_command actor oid cmd now T = Inr T'"
  shows "\<exists>r target. managed T actor oid = Inr r \<and> member_change oid r T T' target"
proof (cases cmd)
  case (AddMember email role allow)
  with assms obtain v where "add_organization_member actor oid email role allow now T = Inr (v, T')"
    by (auto simp: run_member_command_def map_sum_id_Inr)
  then show ?thesis by (rule added) (use upsert_change in blast)
next
  case (ClaimMember target role)
  with assms obtain v where "add_organization_member_by_claim actor oid target role now T = Inr (v, T')"
    by (auto simp: run_member_command_def map_sum_id_Inr)
  then show ?thesis by (rule claimed) (use upsert_change in blast)
next
  case (RemoveMember target)
  with assms obtain b where "remove_organization_member actor oid target T = Inr (b, T')"
    by (auto simp: run_member_command_def map_sum_id_Inr)
  from remove_change [OF this] show ?thesis by blast
qed

text \<open>
  C21: a change of memberships only succeeds for an owner or administrator of that organization; it
  changes the role of at most one user, in that organization alone, nothing else of the store,
  and when the actor is no owner, exactly the same users are owners afterwards.
\<close>

theorem membership_changes_authorized:
  assumes "run_member_command actor oid cmd now T = Inr T'"
  shows "org_role T actor oid \<in> {Some ''OWNER'', Some ''ADMIN''} \<and>
    (\<exists>target. \<forall>org uid. (org, uid) \<noteq> (oid, target) \<longrightarrow> org_role T' uid org = org_role T uid org) \<and>
    (org_role T actor oid \<noteq> Some ''OWNER'' \<longrightarrow>
      (\<forall>uid. org_role T' uid oid = Some ''OWNER'' \<longleftrightarrow> org_role T uid oid = Some ''OWNER'')) \<and>
    users T' = users T \<and> organizations T' = organizations T \<and> workspaces T' = workspaces T"
proof -
  obtain r target where m: "managed T actor oid = Inr r" and c: "member_change oid r T T' target"
    using command_change [OF assms] by blast
  have "org_role T' uid oid = Some ''OWNER'' \<longleftrightarrow> org_role T uid oid = Some ''OWNER''"
    if "r \<noteq> ''OWNER''" for uid
    using c that by (cases "uid = target") (auto simp: member_change_def)
  with c managedE [OF m] show ?thesis
    by (auto simp: member_change_def MANAGE_ROLES_def)
qed

definition two_admins :: tenancy where
  "two_admins = \<lparr>users = [(''b'', \<lparr>user_email = ''b@x'', password_hash = [], user_role = [], token_version = 0\<rparr>)],
     organizations = [(''o'', \<lparr>org_name = ''Org'', org_created = 1\<rparr>)],
     memberships = [((''o'', ''a''), \<lparr>member_role = ''ADMIN'', member_since = 1\<rparr>)], workspaces = []\<rparr>"

lemma membership_changes_authorized_witness:
  "\<exists>T'. run_member_command ''a'' ''o'' (ClaimMember ''b'' ''VIEWER'') 2 two_admins = Inr T' \<and>
     org_role T' ''b'' ''o'' = Some ''VIEWER'' \<and> org_role T' ''a'' ''o'' \<noteq> Some ''OWNER''"
proof -
  obtain T' where T': "run_member_command ''a'' ''o'' (ClaimMember ''b'' ''VIEWER'') 2 two_admins = Inr T'"
    "org_role T' ''b'' ''o'' = Some ''VIEWER''"
    by (simp add: run_member_command_def add_organization_member_by_claim_def two_admins_def managed_def
        organization_access_def role_allows_def org_role_def MANAGE_ROLES_def ORG_ROLES_def
        upsert_organization_member_def Let_def)
  have "org_role two_admins ''a'' ''o'' = Some ''ADMIN''" by (simp add: org_role_def two_admins_def)
  with membership_changes_authorized [OF T'(1)] T' show ?thesis by auto
qed


text \<open>
  C20: once a membership is removed, the user has no access to the organization nor to any of its
  workspaces, the ones they created included, and none of them is listed for the user.
\<close>

theorem removed_member_locked_out:
  assumes "remove_organization_member actor oid target T = Inr (True, T')"
  shows "organization_access T' target oid write manage = None \<and>
    (\<forall>wid row. map_of (workspaces T') wid = Some row \<and> workspace_org row = Some oid \<longrightarrow>
       workspace_access T' target wid write manage = None) \<and>
    (\<forall>v \<in> set (list_workspaces T' target). view_workspace_org v \<noteq> Some oid)"
  using assms
proof (rule removed)
  fix r row
  assume m: "managed T actor oid = Inr r"
    and T': "T' = T\<lparr>memberships := AList.delete (oid, target) (memberships T)\<rparr>"
  have "oid \<noteq> []" using managedE(1) [OF m] by (rule org_role_nonempty)
  moreover have gone: "org_role T' target oid = None"
    by (simp add: org_role_def T' delete_conv')
  moreover have "map_of (memberships_of T' target) oid = None"
  proof -
    have "((oid, target), m) \<notin> set (memberships T')" for m
      by (auto simp: T' AList.delete_eq)
    then show ?thesis by (auto simp: memberships_of_def map_of_eq_None_iff)
  qed
  ultimately show ?thesis
    by (auto simp: organization_access_def workspace_access_def role_allows_def in_organization_def Let_def
        list_workspaces_def listing_role_def workspace_view_of_def latest_first_def split: option.split)
qed simp

text \<open>Listing and access agree.\<close>

lemma map_of_memberships_of:
  assumes "distinct (map fst (memberships T))"
  shows "map_of (memberships_of T uid) oid = map_option member_role (map_of (memberships T) (oid, uid))"
proof -
  have "map_of (map (\<lambda>((org, u), m). (org, member_role m)) (filter (\<lambda>((org, u), m). u = uid) ms)) oid =
      map_option member_role (map_of ms (oid, uid))" for ms :: "((string \<times> string) \<times> member_row) list"
    by (induction ms) auto
  then show ?thesis by (simp add: memberships_of_def)
qed

lemma reach_workspaces: "tenancy_reach T \<Longrightarrow> distinct (map fst (workspaces T))"
proof (induction rule: tenancy_reach.induct)
  case (workspace T wid now uid name role org w T')
  then show ?case
    by (auto simp: create_workspace_def Let_def map_of_eq_None_iff split: if_split_asm)
next
  case (rename T uid wid name role)
  then show ?case
    by (auto simp: update_workspace_def Let_def distinct_update split: option.split)
next
  case (add T actor oid email role allow now v T')
  from add.hyps(2) show ?case by (rule added) (use add.IH in \<open>auto elim: upserted\<close>)
next
  case (claim T actor oid target role now v T')
  from claim.hyps(2) show ?case by (rule claimed) (use claim.IH in \<open>auto elim: upserted\<close>)
next
  case (remove T actor oid target b T')
  from remove.hyps(2) show ?case by (rule removed) (use remove.IH in auto)
qed (auto simp: no_tenants_def create_user_def bump_user_token_version_def update_user_role_def
    create_organization_def Let_def split: if_split_asm option.split)

lemma in_list_workspaces:
  "v \<in> set (list_workspaces T uid) \<longleftrightarrow>
    (\<exists>w row. (w, row) \<in> set (workspaces T) \<and>
      (owner_user row = uid \<and> workspace_org row = None \<or> listing_role T uid row \<noteq> None) \<and>
      v = workspace_view_of w row uid (listing_role T uid row))"
  by (force simp: list_workspaces_def latest_first_def)

text \<open>
  In every reachable state the workspaces listed for a user are exactly those the user has
  access to, each in the same view, unless its organization identifier is the empty text.
\<close>

theorem listed_iff_accessible:
  assumes "tenancy_reach T" and "map_of (workspaces T) wid = Some row" and "workspace_org row \<noteq> Some []"
  shows "workspace_access T uid wid False False = Some v \<longleftrightarrow>
    v \<in> set (list_workspaces T uid) \<and> view_id v = wid"
proof -
  have ok: "memberships_ok T" and d: "distinct (map fst (workspaces T))"
    using assms(1) by (rule reach_ok, rule reach_workspaces)
  then have mine: "map_of (memberships_of T uid) org = map_option member_role (map_of (memberships T) (org, uid))"
    for org by (simp add: map_of_memberships_of memberships_ok_def)
  have role: "org \<noteq> [] \<and> member_role m \<noteq> []" if "map_of (memberships T) (org, uid) = Some m" for org m
  proof -
    have "org \<noteq> []" "member_role m \<in> set ORG_ROLES" using ok that unfolding memberships_ok_def by blast+
    then show ?thesis by (auto simp: ORG_ROLES_def)
  qed
  have "(wid, row') \<in> set (workspaces T) \<longleftrightarrow> row' = row" for row'
    using assms(2) d by (metis map_of_is_SomeI map_of_SomeD option.inject)
  then have "v \<in> set (list_workspaces T uid) \<and> view_id v = wid \<longleftrightarrow>
    (owner_user row = uid \<and> workspace_org row = None \<or> listing_role T uid row \<noteq> None) \<and>
    v = workspace_view_of wid row uid (listing_role T uid row)"
    unfolding in_list_workspaces by (auto simp: workspace_view_of_def)
  also have "\<dots> \<longleftrightarrow> workspace_access T uid wid False False = Some v"
    using assms(2,3) role
    by (auto simp: workspace_access_def Let_def role_allows_def org_role_def in_organization_def
        listing_role_def mine workspace_view_of_def or_viewer_def split: option.split)
  finally show ?thesis by simp
qed


definition shared_tenants :: tenancy where
  "shared_tenants = \<lparr>users = [], organizations = [(''o'', \<lparr>org_name = ''Org'', org_created = 1\<rparr>)],
     memberships = [((''o'', ''a''), \<lparr>member_role = ''OWNER'', member_since = 1\<rparr>),
       ((''o'', ''b''), \<lparr>member_role = ''ANALYST'', member_since = 2\<rparr>)],
     workspaces = [(''w'', \<lparr>owner_user = ''b'', workspace_org = Some ''o'', workspace_name = ''W'',
       workspace_role = ''Fund'', workspace_created = 3\<rparr>)]\<rparr>"

lemma removed_member_locked_out_witness:
  "workspace_access shared_tenants ''b'' ''w'' True False \<noteq> None \<and>
   (\<exists>T'. remove_organization_member ''a'' ''o'' ''b'' shared_tenants = Inr (True, T') \<and>
      workspace_access T' ''b'' ''w'' False False = None)"
proof -
  obtain T' where T': "remove_organization_member ''a'' ''o'' ''b'' shared_tenants = Inr (True, T')"
    "workspaces T' = workspaces shared_tenants"
    by (simp add: remove_organization_member_def shared_tenants_def managed_def organization_access_def
        role_allows_def org_role_def MANAGE_ROLES_def Let_def)
  have "map_of (workspaces shared_tenants) ''w'' = Some \<lparr>owner_user = ''b'', workspace_org = Some ''o'',
      workspace_name = ''W'', workspace_role = ''Fund'', workspace_created = 3\<rparr>"
    by (simp add: shared_tenants_def)
  with removed_member_locked_out [OF T'(1), of False False] T' have "workspace_access T' ''b'' ''w'' False False = None"
    by simp
  moreover have "workspace_access shared_tenants ''b'' ''w'' True False \<noteq> None"
    by (simp add: workspace_access_def shared_tenants_def in_organization_def org_role_def role_allows_def
        WRITE_ROLES_def Let_def)
  ultimately show ?thesis using T'(1) by blast
qed

lemma listed_iff_accessible_witness:
  "\<exists>T v. tenancy_reach T \<and> v \<in> set (list_workspaces T ''a'') \<and> view_id v = ''w''"
proof -
  obtain T v where T: "create_workspace ''w'' 2 ''a'' ''W'' ''Fund'' (Some ''o'') sample_tenants = Inr (v, T)"
    by (simp add: create_workspace_def sample_tenants_def create_organization_def no_tenants_def
        in_organization_def organization_access_def role_allows_def org_role_def WRITE_ROLES_def Let_def)
  have "map_of (workspaces sample_tenants) ''w'' = None"
    by (simp add: sample_tenants_def create_organization_def no_tenants_def)
  from tenancy_reach.workspace [OF sample_tenants_reach this T] have r: "tenancy_reach T" .
  have row: "map_of (workspaces T) ''w'' = Some \<lparr>owner_user = ''a'', workspace_org = Some ''o'',
      workspace_name = ''W'', workspace_role = ''Fund'', workspace_created = 2\<rparr>"
    and role: "org_role T ''a'' ''o'' = Some ''OWNER''"
    using T by (auto simp: create_workspace_def sample_tenants_def create_organization_def no_tenants_def
        org_role_def Let_def split: if_split_asm)
  then obtain u where "workspace_access T ''a'' ''w'' False False = Some u"
    by (simp add: workspace_access_def in_organization_def role_allows_def Let_def)
  with listed_iff_accessible [OF r row, of "''a''" u] r show ?thesis by auto
qed

text \<open>
  A workspace that was created with the empty text as its organization is a personal one for the
  access checks, but is never listed: the list wants the organization to be absent.
\<close>

lemma empty_organization_hidden:
  assumes "tenancy_reach T" and "map_of (workspaces T) wid = None"
    and "create_workspace wid now uid name role (Some []) T = Inr (v, T')"
  shows "workspace_access T' uid wid True True \<noteq> None \<and>
    (\<forall>u. \<forall>w \<in> set (list_workspaces T' u). view_id w \<noteq> wid)"
proof -
  obtain row where T': "T' = T\<lparr>workspaces := workspaces T @ [(wid, row)]\<rparr>" "owner_user row = uid"
    "workspace_org row = Some []"
    using assms(3) by (auto simp: create_workspace_def Let_def split: if_split_asm)
  have "map_of (memberships_of T u) [] = None" for u
  proof -
    have ok: "memberships_ok T" using assms(1) by (rule reach_ok)
    then have "map_of (memberships T) ([], u) = None"
      unfolding memberships_ok_def by (metis option.exhaust)
    then show ?thesis using ok by (simp add: map_of_memberships_of memberships_ok_def)
  qed
  then have hidden: "listing_role T' u row = None" for u
    by (simp add: listing_role_def T' memberships_of_def)
  have new: "wid \<notin> fst ` set (workspaces T)" using assms(2) by (simp add: map_of_eq_None_iff)
  have "view_id w \<noteq> wid" if listed: "w \<in> set (list_workspaces T' u)" for u w
  proof
    assume id: "view_id w = wid"
    from listed obtain i row' where w: "(i, row') \<in> set (workspaces T')"
      "owner_user row' = u \<and> workspace_org row' = None \<or> listing_role T' u row' \<noteq> None"
      "w = workspace_view_of i row' u (listing_role T' u row')"
      unfolding in_list_workspaces by blast
    with id have "i = wid" by (simp add: workspace_view_of_def)
    with w(1) new have "row' = row" by (force simp: T'(1))
    with w(2) hidden T'(3) show False by simp
  qed
  moreover have "workspace_access T' uid wid True True \<noteq> None"
    using assms(2) T'(2,3) by (simp add: workspace_access_def T'(1) map_add_def in_organization_def
        role_allows_def MANAGE_ROLES_def WRITE_ROLES_def Let_def)
  ultimately show ?thesis by blast
qed

end
