(* ===== verification/Desk.thy ===== *)
theory Desk
  imports Tenancy Decision PyNumber
begin

text \<open>
  The records of the workspaces in \<open>services/store.py\<close>: analyses, decisions, saved analyses,
  portfolios, monitors, reports, reviews, investigations, audit entries and provider events, over
  the tables of \<open>Tenancy\<close>. JSON columns hold the value they encode, results and decisions the
  model they were dumped from, and instants are their number of microseconds (\<open>isoformat\<close> is
  monotone on them). One transaction reads the clock once; identifiers drawn by the database are
  arguments. Rows with the same time keep their order of insertion.
\<close>

section \<open>Tables\<close>

record analysis_row =
  analysis_owner :: "string option"
  analysis_workspace :: "string option"
  analysis_payload :: engine_result
  analysis_created :: int

record decision_row =
  decision_owner :: "string option"
  decision_workspace :: "string option"
  decision_payload :: rivexis_decision
  decision_created :: int

record saved_row =
  saved_user :: string
  saved_workspace :: "string option"
  saved_analysis :: string
  saved_title :: string
  saved_archived :: bool
  saved_created :: int

record portfolio_row =
  portfolio_owner :: string
  portfolio_workspace :: "string option"
  portfolio_name :: string
  portfolio_payload :: pydict

record monitor_row =
  monitor_workspace :: string
  monitor_creator :: string
  monitor_entity :: string
  monitor_chain :: string
  monitor_rules :: "string list"
  monitor_config :: pydict
  monitor_status :: string
  last_snapshot :: "pydict option"
  last_analysis :: "string option"
  last_status :: "string option"
  monitor_created :: int
  monitor_updated :: int

record alert_row =
  alert_workspace :: string
  alert_monitor :: "string option"
  alert_analysis :: "string option"
  alert_severity :: string
  alert_status :: string
  alert_provider :: "string option"
  event_key :: "string option"
  occurrence_count :: int
  first_seen :: int
  last_seen :: int
  delivery_status :: string
  delivery_attempts :: int
  next_delivery :: "int option"
  last_delivery_error :: "string option"
  delivered_at :: "int option"
  dead_lettered_at :: "int option"
  alert_payload :: pydict
  alert_created :: int
  alert_updated :: int

record report_row =
  report_workspace :: string
  report_analysis :: "string option"
  report_decision :: "string option"
  report_type :: "string option"
  report_format :: string
  storage_ref :: "string option"
  report_payload :: "pydict option"
  report_status :: string
  approved_by :: "string option"
  approved_at :: "int option"
  report_creator :: string
  report_created :: int

record audit_row =
  audit_actor :: "string option"
  audit_user :: "string option"
  audit_workspace :: "string option"
  audit_action :: string
  audit_resource :: string
  audit_resource_id :: "string option"
  audit_detail :: pydict
  audit_request :: "string option"
  audit_trace :: "string option"
  audit_span :: "string option"
  audit_created :: int

record request_row =
  request_workspace :: "string option"
  request_source :: string
  request_provider :: string
  request_operation :: string
  request_endpoint :: "string option"
  request_status :: string
  request_latency :: pyfloat
  request_attempts :: int
  request_retries :: int
  request_cost :: pyfloat
  request_error :: "string option"
  request_cached :: bool
  request_external :: "string option"
  request_trace :: "string option"
  request_span :: "string option"
  request_created :: int

record desk =
  tenants :: tenancy
  analyses :: "(string \<times> analysis_row) list"
  stored_decisions :: "(string \<times> decision_row) list"
  saved_analyses :: "(string \<times> saved_row) list"
  portfolios :: "(string \<times> portfolio_row) list"
  monitors :: "(string \<times> monitor_row) list"
  alerts :: "(string \<times> alert_row) list"
  reports :: "(string \<times> report_row) list"
  audits :: "(string \<times> audit_row) list"
  requests :: "(string \<times> request_row) list"
  sources :: "(string \<times> string) list"

definition empty_desk :: desk where
  "empty_desk = \<lparr>tenants = no_tenants, analyses = [], stored_decisions = [], saved_analyses = [],
     portfolios = [], monitors = [], alerts = [], reports = [], audits = [], requests = [], sources = []\<rparr>"

text \<open>The request context that \<open>audit\<close> and the provider events read (\<open>core/context.py\<close>).\<close>

record request_context =
  ctx_request :: "string option"
  ctx_trace :: "string option"
  ctx_span :: "string option"

section \<open>Access to a row\<close>

text \<open>\<open>if not row or not workspace_access(...)\<close>, and \<open>if workspace_id\<close> on an optional identifier.\<close>

definition may_open :: "desk \<Rightarrow> string \<Rightarrow> string \<Rightarrow> bool \<Rightarrow> bool \<Rightarrow> bool" where
  "may_open D uid wid write manage = (workspace_access (tenants D) uid wid write manage \<noteq> None)"

definition given :: "string option \<Rightarrow> bool" where
  "given t = (t \<noteq> None \<and> t \<noteq> Some [])"

definition allowed_workspaces :: "desk \<Rightarrow> string \<Rightarrow> string option \<Rightarrow> string list" where
  "allowed_workspaces D uid wid =
     (let mine = map view_id (list_workspaces (tenants D) uid) in
      if \<not> given wid then mine else if the wid \<in> set mine then [the wid] else [])"

definition newest :: "('r \<Rightarrow> int) \<Rightarrow> (string \<times> 'r) list \<Rightarrow> (string \<times> 'r) list" where
  "newest created rows = latest_first (\<lambda>(i, r). created r) rows"

text \<open>The rule of \<open>analysis_by_id\<close> and \<open>decision_by_id\<close>: no user is an internal read.\<close>

definition record_visible :: "desk \<Rightarrow> string option \<Rightarrow> string option \<Rightarrow> string option \<Rightarrow> bool" where
  "record_visible D user workspace owner =
     (case user of
        None \<Rightarrow> True
      | Some uid \<Rightarrow>
          if given workspace then may_open D uid (the workspace) False False
          else owner \<in> {None, Some uid})"

section \<open>Analyses and decisions\<close>

definition save_engine_result ::
  "int \<Rightarrow> engine_result \<Rightarrow> string option \<Rightarrow> string option \<Rightarrow> desk \<Rightarrow> desk" where
  "save_engine_result now result uid wid D =
     (let created = (case map_of (analyses D) (analysis_id result) of
            Some old \<Rightarrow> analysis_created old | None \<Rightarrow> now) in
      D\<lparr>analyses := AList.update (analysis_id result)
         \<lparr>analysis_owner = uid, analysis_workspace = wid, analysis_payload = result,
          analysis_created = created\<rparr> (analyses D)\<rparr>)"

definition analysis_record :: "desk \<Rightarrow> string \<Rightarrow> analysis_row option" where
  "analysis_record D aid = map_of (analyses D) aid"

definition analysis_by_id :: "desk \<Rightarrow> string \<Rightarrow> string option \<Rightarrow> engine_result option" where
  "analysis_by_id D aid user =
     (case analysis_record D aid of
        None \<Rightarrow> None
      | Some row \<Rightarrow>
          if record_visible D user (analysis_workspace row) (analysis_owner row)
          then Some (analysis_payload row) else None)"

definition save_decision ::
  "int \<Rightarrow> string \<Rightarrow> rivexis_decision \<Rightarrow> string option \<Rightarrow> string option \<Rightarrow> desk \<Rightarrow> desk" where
  "save_decision now did result uid wid D =
     (let created = (case map_of (stored_decisions D) did of
            Some old \<Rightarrow> decision_created old | None \<Rightarrow> now) in
      D\<lparr>stored_decisions := AList.update did
         \<lparr>decision_owner = uid, decision_workspace = wid, decision_payload = result,
          decision_created = created\<rparr> (stored_decisions D)\<rparr>)"

definition decision_record :: "desk \<Rightarrow> string \<Rightarrow> decision_row option" where
  "decision_record D did = map_of (stored_decisions D) did"

definition decision_by_id :: "desk \<Rightarrow> string \<Rightarrow> string option \<Rightarrow> rivexis_decision option" where
  "decision_by_id D did user =
     (case decision_record D did of
        None \<Rightarrow> None
      | Some row \<Rightarrow>
          if record_visible D user (decision_workspace row) (decision_owner row)
          then Some (decision_payload row) else None)"

datatype history_item =
    AnalysisItem string "string option" string bool int
  | DecisionItem string "string option" int

fun item_created :: "history_item \<Rightarrow> int" where
  "item_created (AnalysisItem i w e d created) = created"
| "item_created (DecisionItem i w created) = created"

fun item_workspace :: "history_item \<Rightarrow> string option" where
  "item_workspace (AnalysisItem i w e d created) = w"
| "item_workspace (DecisionItem i w created) = w"

definition in_workspaces :: "string option \<Rightarrow> string list \<Rightarrow> bool" where
  "in_workspaces w ws = (case w of None \<Rightarrow> False | Some i \<Rightarrow> i \<in> set ws)"

definition history :: "desk \<Rightarrow> string \<Rightarrow> nat \<Rightarrow> string option \<Rightarrow> history_item list" where
  "history D uid limit wid =
     (let allowed = allowed_workspaces D uid wid;
          as = take limit (newest analysis_created
                 (filter (\<lambda>(i, r). in_workspaces (analysis_workspace r) allowed) (analyses D)));
          ds = take limit (newest decision_created
                 (filter (\<lambda>(i, r). in_workspaces (decision_workspace r) allowed) (stored_decisions D)));
          items = map (\<lambda>(i, r). AnalysisItem i (analysis_workspace r)
                     (engine_value (result_engine (analysis_payload r)))
                     (result_demo (analysis_payload r)) (analysis_created r)) as
               @ map (\<lambda>(i, r). DecisionItem i (decision_workspace r) (decision_created r)) ds
      in if allowed = [] then [] else take limit (latest_first item_created items))"

section \<open>Saved analyses and portfolios\<close>

type_synonym saved_view = "string \<times> saved_row"

definition saved_pair :: "desk \<Rightarrow> string \<Rightarrow> string \<Rightarrow> saved_view option" where
  "saved_pair D uid aid = find (\<lambda>(i, r). saved_user r = uid \<and> saved_analysis r = aid) (saved_analyses D)"

definition create_saved_analysis ::
  "string \<Rightarrow> int \<Rightarrow> string \<Rightarrow> string option \<Rightarrow> string \<Rightarrow> string \<Rightarrow> desk \<Rightarrow> saved_view \<times> desk" where
  "create_saved_analysis sid now uid wid aid title D =
     (case saved_pair D uid aid of
        Some (i, r) \<Rightarrow>
          let row = r\<lparr>saved_title := title, saved_archived := False, saved_workspace := wid\<rparr> in
          ((i, row), D\<lparr>saved_analyses := AList.update i row (saved_analyses D)\<rparr>)
      | None \<Rightarrow>
          let row = \<lparr>saved_user = uid, saved_workspace = wid, saved_analysis = aid, saved_title = title,
            saved_archived = False, saved_created = now\<rparr> in
          ((sid, row), D\<lparr>saved_analyses := saved_analyses D @ [(sid, row)]\<rparr>))"

definition list_saved_analyses :: "desk \<Rightarrow> string \<Rightarrow> bool \<Rightarrow> string option \<Rightarrow> saved_view list" where
  "list_saved_analyses D uid include_archived wid =
     newest saved_created (filter (\<lambda>(i, r). saved_user r = uid \<and>
       (given wid \<longrightarrow> saved_workspace r = wid) \<and> (\<not> include_archived \<longrightarrow> \<not> saved_archived r))
       (saved_analyses D))"

definition own_saved :: "desk \<Rightarrow> string \<Rightarrow> string \<Rightarrow> saved_row option" where
  "own_saved D uid sid =
     (case map_of (saved_analyses D) sid of
        None \<Rightarrow> None
      | Some r \<Rightarrow> if saved_user r = uid then Some r else None)"

definition set_saved_analysis_archived :: "string \<Rightarrow> string \<Rightarrow> bool \<Rightarrow> desk \<Rightarrow> saved_view option \<times> desk" where
  "set_saved_analysis_archived uid sid archived D =
     (case own_saved D uid sid of
        None \<Rightarrow> (None, D)
      | Some r \<Rightarrow> (Some (sid, r\<lparr>saved_archived := archived\<rparr>),
          D\<lparr>saved_analyses := AList.update sid (r\<lparr>saved_archived := archived\<rparr>) (saved_analyses D)\<rparr>))"

definition delete_saved_analysis :: "string \<Rightarrow> string \<Rightarrow> desk \<Rightarrow> bool \<times> desk" where
  "delete_saved_analysis uid sid D =
     (case own_saved D uid sid of
        None \<Rightarrow> (False, D)
      | Some r \<Rightarrow> (True, D\<lparr>saved_analyses := AList.delete sid (saved_analyses D)\<rparr>))"

text \<open>\<open>{"id": ..., "workspace_id": ..., "name": ..., **payload}\<close>.\<close>

definition optional :: "string option \<Rightarrow> pyval" where
  "optional t = (case t of None \<Rightarrow> VNone | Some s \<Rightarrow> VStr s)"

definition portfolio_view :: "string \<Rightarrow> portfolio_row \<Rightarrow> pydict" where
  "portfolio_view i r =
     fold (\<lambda>(k, v) d. dict_set k v d) (portfolio_payload r)
       [(''id'', VStr i), (''workspace_id'', optional (portfolio_workspace r)), (''name'', VStr (portfolio_name r))]"

definition create_portfolio ::
  "string \<Rightarrow> string \<Rightarrow> string option \<Rightarrow> string \<Rightarrow> pydict \<Rightarrow> desk \<Rightarrow> pydict \<times> desk" where
  "create_portfolio i uid wid name payload D =
     (let row = \<lparr>portfolio_owner = uid, portfolio_workspace = wid, portfolio_name = name,
        portfolio_payload = payload\<rparr> in
      (portfolio_view i row, D\<lparr>portfolios := portfolios D @ [(i, row)]\<rparr>))"

definition portfolio_by_id :: "desk \<Rightarrow> string \<Rightarrow> string \<Rightarrow> pydict option" where
  "portfolio_by_id D uid i =
     (case map_of (portfolios D) i of
        None \<Rightarrow> None
      | Some r \<Rightarrow>
          if given (portfolio_workspace r) \<and> \<not> may_open D uid (the (portfolio_workspace r)) False False \<or>
             \<not> given (portfolio_workspace r) \<and> portfolio_owner r \<noteq> uid
          then None else Some (portfolio_view i r))"

section \<open>Monitors\<close>

type_synonym monitor_view = "string \<times> monitor_row"

definition create_monitor ::
  "string \<Rightarrow> int \<Rightarrow> string \<Rightarrow> string \<Rightarrow> string \<Rightarrow> string \<Rightarrow> string list \<Rightarrow> pydict \<Rightarrow> desk \<Rightarrow> monitor_view \<times> desk"
where
  "create_monitor i now uid wid entity chain rules config D =
     (let row = \<lparr>monitor_workspace = wid, monitor_creator = uid, monitor_entity = entity,
        monitor_chain = chain, monitor_rules = rules, monitor_config = config,
        monitor_status = ''configured_manual_polling'', last_snapshot = None, last_analysis = None,
        last_status = None, monitor_created = now, monitor_updated = now\<rparr> in
      ((i, row), D\<lparr>monitors := monitors D @ [(i, row)]\<rparr>))"

definition list_monitors :: "desk \<Rightarrow> string \<Rightarrow> string option \<Rightarrow> monitor_view list" where
  "list_monitors D uid wid =
     newest monitor_created
       (filter (\<lambda>(i, r). monitor_workspace r \<in> set (allowed_workspaces D uid wid)) (monitors D))"

definition get_monitor :: "desk \<Rightarrow> string \<Rightarrow> string \<Rightarrow> bool \<Rightarrow> monitor_view option" where
  "get_monitor D uid i write =
     (case map_of (monitors D) i of
        None \<Rightarrow> None
      | Some r \<Rightarrow> if may_open D uid (monitor_workspace r) write False then Some (i, r) else None)"

definition get_monitor_internal :: "desk \<Rightarrow> string \<Rightarrow> monitor_view option" where
  "get_monitor_internal D i = map_option (Pair i) (map_of (monitors D) i)"

text \<open>The keyword arguments of \<open>update_monitor\<close>; \<open>None\<close> leaves the column alone.\<close>

record monitor_patch =
  patch_entity :: "string option"
  patch_chain :: "string option"
  patch_rules :: "string list option"
  patch_config :: "pydict option"
  patch_snapshot :: "pydict option"
  patch_analysis :: "string option"
  patch_status :: "string option"

definition or_keep :: "'a option \<Rightarrow> 'a \<Rightarrow> 'a" where
  "or_keep new old = (case new of None \<Rightarrow> old | Some x \<Rightarrow> x)"

definition patched :: "monitor_patch \<Rightarrow> monitor_row \<Rightarrow> monitor_row" where
  "patched p r = r\<lparr>monitor_entity := or_keep (patch_entity p) (monitor_entity r),
     monitor_chain := or_keep (patch_chain p) (monitor_chain r),
     monitor_rules := or_keep (patch_rules p) (monitor_rules r),
     monitor_config := or_keep (patch_config p) (monitor_config r),
     last_snapshot := (case patch_snapshot p of None \<Rightarrow> last_snapshot r | s \<Rightarrow> s),
     last_analysis := (case patch_analysis p of None \<Rightarrow> last_analysis r | s \<Rightarrow> s),
     last_status := (case patch_status p of None \<Rightarrow> last_status r | s \<Rightarrow> s)\<rparr>"

text \<open>The column \<open>updated_at\<close> changes with any other column (\<open>onupdate=now\<close>).\<close>

definition update_monitor :: "int \<Rightarrow> string \<Rightarrow> string \<Rightarrow> monitor_patch \<Rightarrow> desk \<Rightarrow> monitor_view option \<times> desk" where
  "update_monitor now uid i p D =
     (case get_monitor D uid i True of
        None \<Rightarrow> (None, D)
      | Some (_, r) \<Rightarrow>
          let r' = patched p r; row = (if r' = r then r else r'\<lparr>monitor_updated := now\<rparr>) in
          (Some (i, row), D\<lparr>monitors := AList.update i row (monitors D)\<rparr>))"

text \<open>The alerts of a monitor go with it (\<open>ondelete="CASCADE"\<close>).\<close>

definition delete_monitor :: "string \<Rightarrow> string \<Rightarrow> desk \<Rightarrow> bool \<times> desk" where
  "delete_monitor uid i D =
     (case get_monitor D uid i True of
        None \<Rightarrow> (False, D)
      | Some _ \<Rightarrow> (True, D\<lparr>monitors := AList.delete i (monitors D),
          alerts := filter (\<lambda>(a, r). alert_monitor r \<noteq> Some i) (alerts D)\<rparr>))"

section \<open>Reports, reviews and investigations\<close>

text \<open>
  A view of a report shows its payload only when asked to; the columns \<open>id\<close> and the others are
  shown in both cases.
\<close>

type_synonym report_view = "string \<times> report_row"

definition report_view :: "bool \<Rightarrow> string \<Rightarrow> report_row \<Rightarrow> report_view" where
  "report_view include_payload i r = (i, if include_payload then r else r\<lparr>report_payload := None\<rparr>)"

definition new_report :: "int \<Rightarrow> string \<Rightarrow> string \<Rightarrow> string \<Rightarrow> string \<Rightarrow> string \<Rightarrow> report_row" where
  "new_report now uid wid kind fmt state =
     \<lparr>report_workspace = wid, report_analysis = None, report_decision = None, report_type = Some kind,
      report_format = fmt, storage_ref = None, report_payload = None, report_status = state,
      approved_by = None, approved_at = None, report_creator = uid, report_created = now\<rparr>"

definition create_report ::
  "string \<Rightarrow> int \<Rightarrow> string \<Rightarrow> string \<Rightarrow> string \<Rightarrow> string \<Rightarrow> desk \<Rightarrow> report_view \<times> desk" where
  "create_report i now uid wid did fmt D =
     (let row = (new_report now uid wid ''decision'' fmt ''generated'')\<lparr>report_decision := Some did\<rparr> in
      (report_view False i row, D\<lparr>reports := reports D @ [(i, row)]\<rparr>))"

definition get_report :: "desk \<Rightarrow> string \<Rightarrow> string \<Rightarrow> bool \<Rightarrow> report_view option" where
  "get_report D uid i include_payload =
     (case map_of (reports D) i of
        None \<Rightarrow> None
      | Some r \<Rightarrow>
          if may_open D uid (report_workspace r) False False
          then Some (report_view include_payload i r) else None)"

definition REVIEW :: string where
  "REVIEW = ''protocol_configuration_review''"

definition CASE :: string where
  "CASE = ''protocol_investigation_case''"

definition create_protocol_review ::
  "string \<Rightarrow> int \<Rightarrow> string \<Rightarrow> string \<Rightarrow> pydict \<Rightarrow> string \<Rightarrow> desk \<Rightarrow> report_view \<times> desk" where
  "create_protocol_review i now uid wid payload fmt D =
     (let row = (new_report now uid wid REVIEW fmt ''draft'')\<lparr>report_payload := Some payload\<rparr> in
      (report_view True i row, D\<lparr>reports := reports D @ [(i, row)]\<rparr>))"

text \<open>A report of one kind that the user may open with the required permission.\<close>

definition open_report :: "desk \<Rightarrow> string \<Rightarrow> string \<Rightarrow> string \<Rightarrow> bool \<Rightarrow> bool \<Rightarrow> report_row option" where
  "open_report D uid i kind write manage =
     (case map_of (reports D) i of
        None \<Rightarrow> None
      | Some r \<Rightarrow>
          if report_type r = Some kind \<and> may_open D uid (report_workspace r) write manage
          then Some r else None)"

definition approve_protocol_review :: "int \<Rightarrow> string \<Rightarrow> string \<Rightarrow> desk \<Rightarrow> report_view option \<times> desk" where
  "approve_protocol_review now uid i D =
     (case open_report D uid i REVIEW False True of
        None \<Rightarrow> (None, D)
      | Some r \<Rightarrow>
          let row = r\<lparr>report_status := ''approved'', approved_by := Some uid, approved_at := Some now\<rparr> in
          (Some (report_view True i row), D\<lparr>reports := AList.update i row (reports D)\<rparr>))"

definition INVESTIGATION_STATUSES :: "string list" where
  "INVESTIGATION_STATUSES = [''open'', ''in_review'', ''closed'']"

definition history_entry :: "string \<Rightarrow> string \<Rightarrow> string \<Rightarrow> pyval" where
  "history_entry state clock_text uid =
     VDict [(''status'', VStr state), (''at'', VStr clock_text), (''actor_user_id'', VStr uid)]"

definition create_protocol_investigation ::
  "string \<Rightarrow> int \<Rightarrow> string \<Rightarrow> string \<Rightarrow> string \<Rightarrow> string \<Rightarrow> pydict \<Rightarrow> pydict \<Rightarrow> string \<Rightarrow> desk \<Rightarrow>
   report_view \<times> desk" where
  "create_protocol_investigation i now clock_text uid wid title inputs timeline notes D =
     (let payload = [(''title'', VStr title), (''input'', VDict inputs), (''timeline'', VDict timeline),
            (''review_ids'', VList []), (''disposition'', VNone), (''notes'', VStr notes),
            (''status_history'', VList [history_entry ''open'' clock_text uid])];
          row = (new_report now uid wid CASE ''json'' ''open'')\<lparr>report_payload := Some payload\<rparr>
      in (report_view True i row, D\<lparr>reports := reports D @ [(i, row)]\<rparr>))"

definition get_protocol_investigation :: "desk \<Rightarrow> string \<Rightarrow> string \<Rightarrow> report_view option" where
  "get_protocol_investigation D uid i = map_option (report_view True i) (open_report D uid i CASE False False)"

definition list_protocol_investigations :: "desk \<Rightarrow> string \<Rightarrow> string \<Rightarrow> report_view list option" where
  "list_protocol_investigations D uid wid =
     (if \<not> may_open D uid wid False False then None
      else Some (map (\<lambda>(i, r). report_view True i r) (newest report_created
        (filter (\<lambda>(i, r). report_workspace r = wid \<and> report_type r = Some CASE) (reports D)))))"

definition payload_of :: "report_row \<Rightarrow> pydict" where
  "payload_of r = (case report_payload r of None \<Rightarrow> [] | Some p \<Rightarrow> p)"

definition listed :: "pydict \<Rightarrow> string \<Rightarrow> pyval list stored" where
  "listed payload key =
     (case py_list (py_or (dict_get payload key) (VList [])) of Inl e \<Rightarrow> Inl (Escaped e) | Inr xs \<Rightarrow> Inr xs)"

text \<open>The change of status: the requested one must be known, and closing needs a disposition.\<close>

definition case_status ::
  "string \<Rightarrow> string \<Rightarrow> string option \<Rightarrow> string option \<Rightarrow> string \<Rightarrow> pydict \<Rightarrow> (string \<times> pydict) stored" where
  "case_status clock_text uid state disposition old payload =
     (case state of
        None \<Rightarrow> Inr (old, payload)
      | Some s \<Rightarrow>
          if s \<notin> set INVESTIGATION_STATUSES then Inl (BadValue ''Invalid investigation status'')
          else if s = ''closed'' \<and> \<not> given disposition \<and> \<not> truthy (dict_get payload ''disposition'')
          then Inl (BadValue ''A disposition is required before closing an investigation'')
          else if old = s then Inr (s, payload)
          else rbind (listed payload ''status_history'') (\<lambda>entries.
            Inr (s, dict_set ''status_history'' (VList (entries @ [history_entry s clock_text uid])) payload)))"

definition update_protocol_investigation ::
  "string \<Rightarrow> string \<Rightarrow> string \<Rightarrow> string option \<Rightarrow> string option \<Rightarrow> string option \<Rightarrow> desk \<Rightarrow>
   (report_view option \<times> desk) stored" where
  "update_protocol_investigation clock_text uid i state disposition notes D =
     (case open_report D uid i CASE True False of
        None \<Rightarrow> Inr (None, D)
      | Some r \<Rightarrow> rbind (case_status clock_text uid state disposition (report_status r) (payload_of r))
          (\<lambda>(s, p1).
            let p2 = (case disposition of None \<Rightarrow> p1
                  | Some d \<Rightarrow> dict_set ''disposition''
                      (if py_strip d = [] then VNone else VStr (py_strip d)) p1);
                p3 = (case notes of None \<Rightarrow> p2 | Some n \<Rightarrow> dict_set ''notes'' (VStr n) p2);
                row = r\<lparr>report_status := s, report_payload := Some p3\<rparr>
            in Inr (Some (report_view True i row), D\<lparr>reports := AList.update i row (reports D)\<rparr>)))"

definition attach_protocol_review_to_investigation ::
  "string \<Rightarrow> string \<Rightarrow> string \<Rightarrow> desk \<Rightarrow> (report_view option \<times> desk) stored" where
  "attach_protocol_review_to_investigation uid i review D =
     (case open_report D uid i CASE True False of
        None \<Rightarrow> Inr (None, D)
      | Some r \<Rightarrow>
          (case map_of (reports D) review of
             None \<Rightarrow> Inr (None, D)
           | Some v \<Rightarrow>
               if report_type v \<noteq> Some REVIEW \<or> report_workspace v \<noteq> report_workspace r
               then Inr (None, D)
               else rbind (listed (payload_of r) ''review_ids'') (\<lambda>ids.
                 let ids' = (if VStr review \<in> set ids then ids else ids @ [VStr review]);
                     row = r\<lparr>report_payload := Some (dict_set ''review_ids'' (VList ids') (payload_of r))\<rparr>
                 in Inr (Some (report_view True i row), D\<lparr>reports := AList.update i row (reports D)\<rparr>))))"

section \<open>Audit entries and provider events\<close>

definition audit ::
  "string \<Rightarrow> int \<Rightarrow> request_context \<Rightarrow> string \<Rightarrow> string \<Rightarrow> string option \<Rightarrow> string option \<Rightarrow> string option \<Rightarrow>
   string option \<Rightarrow> pydict \<Rightarrow> desk \<Rightarrow> desk" where
  "audit i now c action resource resource_id actor uid wid detail D =
     D\<lparr>audits := audits D @ [(i, \<lparr>audit_actor = actor, audit_user = uid, audit_workspace = wid,
       audit_action = action, audit_resource = resource, audit_resource_id = resource_id,
       audit_detail = detail, audit_request = ctx_request c, audit_trace = ctx_trace c,
       audit_span = ctx_span c, audit_created = now\<rparr>)]\<rparr>"

definition list_audit_logs :: "desk \<Rightarrow> string \<Rightarrow> string \<Rightarrow> nat \<Rightarrow> (string \<times> audit_row) list option" where
  "list_audit_logs D uid wid limit =
     (if \<not> may_open D uid wid False True then None
      else Some (take limit (newest audit_created
        (filter (\<lambda>(i, r). audit_workspace r = Some wid) (audits D)))))"

definition source_of :: "string \<Rightarrow> string \<Rightarrow> desk \<Rightarrow> string \<times> desk" where
  "source_of fresh key D =
     (case find (\<lambda>(i, p). p = key) (sources D) of
        Some (i, _) \<Rightarrow> (i, D)
      | None \<Rightarrow> (fresh, D\<lparr>sources := sources D @ [(fresh, key)]\<rparr>))"

record provider_event =
  event_workspace :: "string option"
  event_provider :: string
  event_operation :: string
  event_endpoint :: string
  event_status :: string
  event_latency :: pyfloat
  event_attempts :: int
  event_retries :: int
  event_cost :: pyfloat
  event_error :: "string option"
  event_cached :: bool

definition record_provider_request_event ::
  "string \<Rightarrow> string \<Rightarrow> int \<Rightarrow> request_context \<Rightarrow> provider_event \<Rightarrow> desk \<Rightarrow> string \<times> desk" where
  "record_provider_request_event fresh i now c e D =
     (case source_of fresh (event_provider e) D of (source, D') \<Rightarrow>
       (i, D'\<lparr>requests := requests D' @ [(i,
         \<lparr>request_workspace = event_workspace e, request_source = source,
          request_provider = event_provider e, request_operation = event_operation e,
          request_endpoint = (if event_endpoint e = [] then None else Some (event_endpoint e)),
          request_status = event_status e, request_latency = event_latency e,
          request_attempts = event_attempts e, request_retries = event_retries e,
          request_cost = event_cost e, request_error = event_error e, request_cached = event_cached e,
          request_external = ctx_request c, request_trace = ctx_trace c, request_span = ctx_span c,
          request_created = now\<rparr>)]\<rparr>))"

definition list_provider_request_events ::
  "desk \<Rightarrow> string \<Rightarrow> string \<Rightarrow> nat \<Rightarrow> (string \<times> request_row) list option" where
  "list_provider_request_events D uid wid limit =
     (if \<not> may_open D uid wid False False then None
      else Some (take limit (newest request_created
        (filter (\<lambda>(i, r). request_workspace r = Some wid) (requests D)))))"

text \<open>\<open>round(x, digits)\<close>; the averages and sums of the database are arguments.\<close>

fun fround :: "nat \<Rightarrow> pyfloat \<Rightarrow> pyfloat" where
  "fround digits (Fin r) = Fin (rnd (of_int (round_even (r * 10 ^ digits)) / 10 ^ digits))"
| "fround digits x = x"

record usage_item =
  used_provider :: string
  logical_events :: nat
  success_events :: nat
  failure_events :: nat
  used_cache_hits :: nat
  used_attempts :: int
  used_retries :: int
  average_latency :: pyfloat
  used_cost :: pyfloat

definition usage_of ::
  "(pyfloat list \<Rightarrow> pyfloat) \<Rightarrow> (pyfloat list \<Rightarrow> pyfloat) \<Rightarrow> string \<Rightarrow> request_row list \<Rightarrow> usage_item" where
  "usage_of db_avg db_sum key rs =
     \<lparr>used_provider = key, logical_events = length rs,
      success_events = length (filter (\<lambda>r. request_status r \<in> {''SUCCESS'', ''CACHE_HIT''}) rs),
      failure_events = length (filter (\<lambda>r. request_status r \<in>
        {''FAILED'', ''CIRCUIT_OPEN'', ''LOCAL_RATE_LIMIT''}) rs),
      used_cache_hits = length (filter request_cached rs),
      used_attempts = sum_list (map request_attempts rs),
      used_retries = sum_list (map request_retries rs),
      average_latency = fround 2 (db_avg (map request_latency rs)),
      used_cost = fround 8 (db_sum (map request_cost rs))\<rparr>"

definition HOUR :: int where
  "HOUR = 3600 * 1000000"

definition provider_usage_summary ::
  "(pyfloat list \<Rightarrow> pyfloat) \<Rightarrow> (pyfloat list \<Rightarrow> pyfloat) \<Rightarrow> desk \<Rightarrow> int \<Rightarrow> string \<Rightarrow> string \<Rightarrow> int \<Rightarrow>
   (int \<times> int \<times> usage_item list) option" where
  "provider_usage_summary db_avg db_sum D now uid wid hours =
     (let window = max 1 (min hours (24 * 90)); cutoff = now - window * HOUR;
          rs = filter (\<lambda>r. request_workspace r = Some wid \<and> cutoff \<le> request_created r) (map snd (requests D))
      in if \<not> may_open D uid wid False False then None
         else Some (window, cutoff, map (\<lambda>key. usage_of db_avg db_sum key
           (filter (\<lambda>r. request_provider r = key) rs)) (sorted_set (map request_provider rs))))"

definition trace_id_ok :: "string \<Rightarrow> bool" where
  "trace_id_ok t = (length t = 32 \<and> list_all (\<lambda>c. c \<in> set ''0123456789abcdef'') t)"

definition trace_correlation ::
  "desk \<Rightarrow> string \<Rightarrow> string \<Rightarrow> string option \<Rightarrow> int \<Rightarrow>
   (string \<times> (string \<times> request_row) list \<times> (string \<times> audit_row) list) option stored" where
  "trace_correlation D uid wid trace limit =
     (let t = py_lower (py_strip (case trace of None \<Rightarrow> [] | Some s \<Rightarrow> s)); n = nat (max 1 (min limit 500)) in
      if \<not> may_open D uid wid False False then Inr None
      else if \<not> trace_id_ok t then Inl (BadValue ''trace_id must be 32 lowercase hexadecimal characters'')
      else Inr (Some (t,
        take n (sort_key (\<lambda>(i, r). request_created r)
          (filter (\<lambda>(i, r). request_workspace r = Some wid \<and> request_trace r = Some t) (requests D))),
        take n (sort_key (\<lambda>(i, r). audit_created r)
          (filter (\<lambda>(i, r). audit_workspace r = Some wid \<and> audit_trace r = Some t) (audits D))))))"

end
