(* ===== verification/RuntimeConfig.thy ===== *)
theory RuntimeConfig
  imports Endpoints
begin

text \<open>
  Settings and the start-up check of \<open>core/config.py\<close>, and the outbound webhook check of
  \<open>services/alert_delivery.py\<close>. Both look at the parts of a URL as \<open>urllib.parse.urlsplit\<close>
  gives them; \<open>Endpoints\<close> has scheme and network location, here are path, query, fragment and
  user information.
\<close>

section \<open>The parts of a URL\<close>

record url_parts =
  url_scheme :: string
  url_location :: string
  url_path :: string
  url_query :: string
  url_fragment :: string

definition split_url :: "(string \<Rightarrow> bool) \<Rightarrow> string \<Rightarrow> url_parts option" where
  "split_url bracket_ok raw =
     (case urlsplit bracket_ok raw of
        None \<Rightarrow> None
      | Some (scheme, netloc) \<Rightarrow>
          let url = filter (\<lambda>c. code c \<notin> {9, 10, 13}) (dropWhile (\<lambda>c. code c \<le> 32) raw);
              rest = snd (split_scheme url);
              tail = (if starts_with ''//'' rest then drop (2 + length netloc) rest else rest);
              before = before_first (CHR ''#'') tail
          in Some \<lparr>url_scheme = scheme, url_location = netloc,
               url_path = before_first (CHR ''?'') before, url_query = after_first (CHR ''?'') before,
               url_fragment = after_first (CHR ''#'') tail\<rparr>)"

text \<open>\<open>username\<close>, \<open>password\<close> and \<open>hostname\<close> of the result.\<close>

definition url_username :: "url_parts \<Rightarrow> string option" where
  "url_username u =
     (if CHR ''@'' \<in> set (url_location u)
      then Some (before_first (CHR '':'') (before_last (CHR ''@'') (url_location u))) else None)"

definition url_password :: "url_parts \<Rightarrow> string option" where
  "url_password u =
     (let info = before_last (CHR ''@'') (url_location u) in
      if CHR ''@'' \<in> set (url_location u) \<and> CHR '':'' \<in> set info
      then Some (after_first (CHR '':'') info) else None)"

definition url_host :: "url_parts \<Rightarrow> string" where
  "url_host u = host_of (url_location u)"

section \<open>Settings\<close>

record settings =
  environment :: string
  auth_secret :: string
  database_url :: string
  allowed_origins :: "string list"
  enable_demo_adapter :: bool
  token_ttl_seconds :: int
  session_cookie_name :: string
  session_cookie_samesite :: string
  allow_direct_org_member_add :: bool
  membership_claim_ttl_seconds :: int
  auth_rate_limit_backend :: string
  auth_login_attempts_per_minute :: int
  auth_global_attempts_per_minute :: int
  redis_url :: string
  provider_control_backend :: string

type_synonym os_environ = "string \<Rightarrow> string option"

definition getenv :: "os_environ \<Rightarrow> string \<Rightarrow> string \<Rightarrow> string" where
  "getenv env name fallback = (case env name of None \<Rightarrow> fallback | Some text \<Rightarrow> text)"

definition TRUE_TEXTS :: "string list" where
  "TRUE_TEXTS = [''1'', ''true'', ''yes'', ''on'']"

definition env_bool :: "os_environ \<Rightarrow> string \<Rightarrow> bool \<Rightarrow> bool" where
  "env_bool env name fallback =
     (py_lower (getenv env name (if fallback then ''True'' else ''False'')) \<in> set TRUE_TEXTS)"

definition env_number :: "os_environ \<Rightarrow> string \<Rightarrow> string \<Rightarrow> int py" where
  "env_number env name fallback =
     (case py_int 10 (getenv env name fallback) of None \<Rightarrow> Inl ValueError | Some n \<Rightarrow> Inr n)"

text \<open>\<open>text.split(",")\<close>.\<close>

fun split_on :: "char \<Rightarrow> string \<Rightarrow> string list" where
  "split_on sep [] = [[]]"
| "split_on sep (c # cs) =
     (if c = sep then [] # split_on sep cs
      else (case split_on sep cs of [] \<Rightarrow> [[c]] | part # parts \<Rightarrow> (c # part) # parts))"

definition settings_of :: "os_environ \<Rightarrow> settings py" where
  "settings_of env =
     rbind (env_number env ''RIVEXIS_TOKEN_TTL_SECONDS'' ''28800'') (\<lambda>ttl.
     rbind (env_number env ''RIVEXIS_MEMBERSHIP_CLAIM_TTL_SECONDS'' ''900'') (\<lambda>claim_ttl.
     rbind (env_number env ''RIVEXIS_AUTH_LOGIN_ATTEMPTS_PER_MINUTE'' ''20'') (\<lambda>login.
     rbind (env_number env ''RIVEXIS_AUTH_GLOBAL_ATTEMPTS_PER_MINUTE'' ''300'') (\<lambda>total.
     Inr \<lparr>environment = getenv env ''RIVEXIS_ENV'' ''development'',
       auth_secret = getenv env ''RIVEXIS_AUTH_SECRET'' ''development-only-change-me'',
       database_url = getenv env ''DATABASE_URL'' ''sqlite:///./rivexis.db'',
       allowed_origins = filter (\<lambda>t. t \<noteq> []) (map py_strip
         (split_on (CHR '','') (getenv env ''RIVEXIS_ALLOWED_ORIGINS'' ''http://localhost:3000''))),
       enable_demo_adapter = env_bool env ''ENABLE_DEMO_ADAPTER'' True,
       token_ttl_seconds = ttl,
       session_cookie_name = getenv env ''RIVEXIS_SESSION_COOKIE_NAME'' ''rivexis_session'',
       session_cookie_samesite =
         py_lower (py_strip (getenv env ''RIVEXIS_SESSION_COOKIE_SAMESITE'' ''lax'')),
       allow_direct_org_member_add = env_bool env ''RIVEXIS_ALLOW_DIRECT_ORG_MEMBER_ADD'' True,
       membership_claim_ttl_seconds = claim_ttl,
       auth_rate_limit_backend =
         py_lower (py_strip (getenv env ''RIVEXIS_AUTH_RATE_LIMIT_BACKEND'' ''memory'')),
       auth_login_attempts_per_minute = login,
       auth_global_attempts_per_minute = total,
       redis_url = getenv env ''REDIS_URL'' [],
       provider_control_backend =
         py_lower (py_strip (getenv env ''RIVEXIS_PROVIDER_CONTROL_BACKEND'' ''memory''))\<rparr>))))"

section \<open>The start-up check\<close>

datatype config_error = Unsafe string | Crashed py_exn

definition PRODUCTION_ENVIRONMENTS :: "string list" where
  "PRODUCTION_ENVIRONMENTS = [''production'', ''prod'']"

definition KNOWN_INSECURE_AUTH_SECRETS :: "string list" where
  "KNOWN_INSECURE_AUTH_SECRETS = [[], ''development-only-change-me'',
     ''local-compose-secret-change-me'', ''replace-with-a-long-random-secret'']"

definition refuse_when :: "bool \<Rightarrow> string \<Rightarrow> 'a \<Rightarrow> config_error + 'a" where
  "refuse_when bad message x = (if bad then Inl (Unsafe message) else Inr x)"

text \<open>An optional text as a condition: neither absent nor empty.\<close>

definition present :: "string option \<Rightarrow> bool" where
  "present t = (t \<noteq> None \<and> t \<noteq> Some [])"

fun check_origins :: "(string \<Rightarrow> bool) \<Rightarrow> string list \<Rightarrow> config_error + bool" where
  "check_origins bracket_ok [] = Inr True"
| "check_origins bracket_ok (origin # origins) =
     (case split_url bracket_ok origin of
        None \<Rightarrow> Inl (Crashed ValueError)
      | Some u \<Rightarrow>
          if url_scheme u \<noteq> ''https'' \<or> url_location u = [] \<or> present (url_username u) \<or>
             present (url_password u) \<or> url_query u \<noteq> [] \<or> url_fragment u \<noteq> [] \<or>
             url_path u \<notin> {[], ''/''}
          then Inl (Unsafe ''RIVEXIS_ALLOWED_ORIGINS must contain exact HTTPS origins only in production'')
          else if CHR ''*'' \<in> set origin
          then Inl (Unsafe ''RIVEXIS_ALLOWED_ORIGINS must not contain wildcards in production'')
          else check_origins bracket_ok origins)"

definition is_production :: "settings \<Rightarrow> bool" where
  "is_production cfg = (py_lower (py_strip (environment cfg)) \<in> set PRODUCTION_ENVIRONMENTS)"

definition backend_of :: "string \<Rightarrow> string" where
  "backend_of text = py_lower (py_strip text)"

definition check_production :: "(string \<Rightarrow> bool) \<Rightarrow> settings \<Rightarrow> config_error + bool" where
  "check_production bracket_ok cfg =
     (let secret = py_strip (auth_secret cfg);
          auth = backend_of (auth_rate_limit_backend cfg);
          plane = backend_of (provider_control_backend cfg);
          db = py_lower (py_strip (database_url cfg))
      in
      rbind (refuse_when (secret \<in> set KNOWN_INSECURE_AUTH_SECRETS \<or> length secret < 32)
        ''RIVEXIS_AUTH_SECRET must be a non-placeholder secret of at least 32 characters in production'' True) (\<lambda>_.
      rbind (refuse_when (enable_demo_adapter cfg) ''ENABLE_DEMO_ADAPTER must be false in production'' True) (\<lambda>_.
      rbind (refuse_when (allow_direct_org_member_add cfg)
        ''RIVEXIS_ALLOW_DIRECT_ORG_MEMBER_ADD must be false in production'' True) (\<lambda>_.
      rbind (refuse_when (auth \<notin> {''postgres'', ''redis''})
        ''RIVEXIS_AUTH_RATE_LIMIT_BACKEND must be postgres or redis in production'' True) (\<lambda>_.
      rbind (refuse_when (plane \<notin> {''postgres'', ''redis''})
        ''RIVEXIS_PROVIDER_CONTROL_BACKEND must be postgres or redis in production'' True) (\<lambda>_.
      rbind (refuse_when (''redis'' \<in> {auth, plane} \<and> py_strip (redis_url cfg) = [])
        ''REDIS_URL is required when a production distributed-control backend uses redis'' True) (\<lambda>_.
      rbind (refuse_when (\<not> starts_with ''postgresql://'' db \<and> \<not> starts_with ''postgresql+'' db)
        ''DATABASE_URL must use PostgreSQL in production so tenant RLS is enforceable'' True) (\<lambda>_.
      rbind (refuse_when (auth_login_attempts_per_minute cfg < 1 \<or> 100 < auth_login_attempts_per_minute cfg)
        ''RIVEXIS_AUTH_LOGIN_ATTEMPTS_PER_MINUTE must be between 1 and 100 in production'' True) (\<lambda>_.
      rbind (refuse_when (auth_global_attempts_per_minute cfg < 10 \<or> 10000 < auth_global_attempts_per_minute cfg)
        ''RIVEXIS_AUTH_GLOBAL_ATTEMPTS_PER_MINUTE must be between 10 and 10000 in production'' True) (\<lambda>_.
      rbind (refuse_when (allowed_origins cfg = [])
        ''RIVEXIS_ALLOWED_ORIGINS must contain at least one HTTPS origin in production'' True) (\<lambda>_.
      check_origins bracket_ok (allowed_origins cfg))))))))))))"

record posture =
  shown_environment :: string
  shown_production :: bool
  shown_demo :: bool
  shown_secret :: bool
  shown_direct_add :: bool
  shown_samesite :: string
  shown_auth_backend :: string
  shown_provider_backend :: string
  shown_database :: string

definition validate_runtime_security :: "(string \<Rightarrow> bool) \<Rightarrow> settings \<Rightarrow> config_error + posture" where
  "validate_runtime_security bracket_ok cfg =
     (let env = py_lower (py_strip (environment cfg)) in
      rbind (if is_production cfg then check_production bracket_ok cfg else Inr True) (\<lambda>_.
      rbind (refuse_when (session_cookie_samesite cfg \<notin> {''lax'', ''strict'', ''none''})
        ''RIVEXIS_SESSION_COOKIE_SAMESITE must be lax, strict, or none'' True) (\<lambda>_.
      Inr \<lparr>shown_environment = (if env = [] then ''development'' else env),
        shown_production = is_production cfg, shown_demo = enable_demo_adapter cfg,
        shown_secret = (py_strip (auth_secret cfg) \<noteq> []),
        shown_direct_add = allow_direct_org_member_add cfg,
        shown_samesite = session_cookie_samesite cfg,
        shown_auth_backend = auth_rate_limit_backend cfg,
        shown_provider_backend = provider_control_backend cfg,
        shown_database = (if starts_with ''postgresql'' (py_lower (database_url cfg))
          then ''postgresql'' else ''other'')\<rparr>)))"

section \<open>The outbound webhook\<close>

record webhook_settings =
  hook_url :: string
  hook_secret :: string
  hook_scope :: string
  hook_attempts :: int
  hook_retry_base :: int
  hook_timeout :: pyfloat
  hook_environment :: string

definition webhook_settings_of :: "os_environ \<Rightarrow> webhook_settings py" where
  "webhook_settings_of env =
     rbind (env_number env ''RIVEXIS_ALERT_MAX_ATTEMPTS'' ''5'') (\<lambda>attempts.
     rbind (env_number env ''RIVEXIS_ALERT_RETRY_BASE_SECONDS'' ''30'') (\<lambda>retry_base.
     case float_of_text (getenv env ''RIVEXIS_ALERT_WEBHOOK_TIMEOUT_SECONDS'' ''8'') of
       None \<Rightarrow> Inl ValueError
     | Some timeout \<Rightarrow> Inr
         \<lparr>hook_url = py_strip (getenv env ''RIVEXIS_ALERT_WEBHOOK_URL'' []),
          hook_secret = py_strip (getenv env ''RIVEXIS_ALERT_WEBHOOK_SECRET'' []),
          hook_scope = py_lower (py_strip (getenv env ''RIVEXIS_ALERT_WEBHOOK_SCOPE'' [])),
          hook_attempts = attempts, hook_retry_base = retry_base, hook_timeout = timeout,
          hook_environment = py_lower (py_strip (getenv env ''RIVEXIS_ENV'' ''development''))\<rparr>))"

text \<open>The code of the configuration error, or the settings.\<close>

definition validate_alert_webhook_configuration ::
  "(string \<Rightarrow> bool) \<Rightarrow> webhook_settings \<Rightarrow> string + webhook_settings" where
  "validate_alert_webhook_configuration bracket_ok cfg =
     (let url = py_strip (hook_url cfg);
          production = py_lower (hook_environment cfg) \<in> set PRODUCTION_ENVIRONMENTS in
      if url = [] then Inr cfg
      else case split_url bracket_ok url of
        None \<Rightarrow> Inl ''webhook_url_invalid''
      | Some u \<Rightarrow>
          if url_scheme u \<notin> {''http'', ''https''} \<or> url_host u = [] then Inl ''webhook_url_invalid''
          else if url_username u \<noteq> None \<or> url_password u \<noteq> None then Inl ''webhook_url_userinfo_forbidden''
          else if url_fragment u \<noteq> [] then Inl ''webhook_url_fragment_forbidden''
          else if url_query u \<noteq> [] then Inl ''webhook_url_query_forbidden''
          else if production \<and> url_scheme u \<noteq> ''https'' then Inl ''production_webhook_requires_https''
          else if production \<and> hook_secret cfg = [] then Inl ''production_webhook_requires_hmac_secret''
          else if production \<and> py_lower (py_strip (hook_scope cfg)) \<noteq> ''internal_gateway''
          then Inl ''production_webhook_requires_internal_gateway_scope''
          else Inr cfg)"

section \<open>What the start-up check guarantees\<close>

text \<open>The text that \<open>urlsplit\<close> looks at.\<close>

definition seen_text :: "string \<Rightarrow> string" where
  "seen_text raw = filter (\<lambda>c. code c \<notin> {9, 10, 13}) (dropWhile (\<lambda>c. code c \<le> 32) raw)"

lemma first_parts: "c \<in> set s \<Longrightarrow> s = before_first c s @ c # after_first c s"
  unfolding before_first_def after_first_def
  by (induction s) auto

lemma before_first_all: "c \<notin> set s \<Longrightarrow> before_first c s = s"
  by (simp add: before_first_def takeWhile_eq_all_conv) metis

lemma parts_or_all: "s = before_first c s @ (if c \<in> set s then c # after_first c s else [])"
  using first_parts [of c s] before_first_all [of c s] by auto

lemma split_scheme_parts:
  assumes "fst (split_scheme url) \<noteq> []"
  shows "\<exists>scheme. url = scheme @ '':'' @ snd (split_scheme url) \<and> fst (split_scheme url) = py_lower scheme"
proof -
  let ?pre = "before_first (CHR '':'') url"
  have c: "?pre \<noteq> [] \<and> ?pre \<noteq> url \<and> ascii_alpha (hd ?pre) \<and> list_all scheme_char ?pre"
    using assms by (auto simp: split_scheme_def Let_def split: if_splits)
  then have "CHR '':'' \<in> set url" using before_first_all by metis
  from first_parts [OF this] c show ?thesis
    by (intro exI [of _ ?pre]) (simp add: split_scheme_def Let_def)
qed

lemma location_parts:
  assumes "url_netloc rest \<noteq> []"
  shows "rest = ''//'' @ url_netloc rest @ drop (2 + length (url_netloc rest)) rest"
proof -
  have s: "starts_with ''//'' rest" using assms by (auto simp: url_netloc_def split: if_splits)
  then have "take 2 rest = ''//''" by (simp add: starts_with_def numeral_2_eq_2)
  then have r: "rest = ''//'' @ drop 2 rest" using append_take_drop_id [of 2 rest] by simp
  have n: "url_netloc rest = takeWhile (\<lambda>c. c \<notin> set ''/?#'') (drop 2 rest)"
    using s by (simp only: url_netloc_def if_True)
  have "drop 2 rest = url_netloc rest @ drop (length (url_netloc rest)) (drop 2 rest)"
    unfolding n by (simp only: dropWhile_eq_drop [symmetric] takeWhile_dropWhile_id)
  also have "drop (length (url_netloc rest)) (drop 2 rest) = drop (2 + length (url_netloc rest)) rest"
    by (simp only: drop_drop add.commute)
  finally show ?thesis using r by simp
qed

lemma split_url_parts:
  assumes u: "split_url b raw = Some u" and "url_scheme u \<noteq> []" and "url_location u \<noteq> []"
  shows "\<exists>scheme q f. seen_text raw = scheme @ ''://'' @ url_location u @ url_path u @ q @ f \<and>
    py_lower scheme = url_scheme u \<and> q \<in> {[], CHR ''?'' # url_query u} \<and>
    f \<in> {[], CHR ''#'' # url_fragment u}"
proof -
  let ?url = "seen_text raw"
  let ?rest = "snd (split_scheme ?url)"
  let ?n = "url_netloc ?rest"
  let ?tail = "drop (2 + length ?n) ?rest"
  let ?front = "before_first (CHR ''#'') ?tail"
  obtain s n where sn: "urlsplit b raw = Some (s, n)" using u by (cases "urlsplit b raw") (auto simp: split_url_def)
  then have sn': "s = fst (split_scheme ?url)" "n = ?n"
    unfolding seen_text_def by (simp_all add: urlsplit_def Let_def split: if_splits)
  have uu: "u = \<lparr>url_scheme = s, url_location = n,
      url_path = before_first (CHR ''?'') (before_first (CHR ''#'') (if starts_with ''//'' ?rest then drop (2 + length n) ?rest else ?rest)),
      url_query = after_first (CHR ''?'') (before_first (CHR ''#'') (if starts_with ''//'' ?rest then drop (2 + length n) ?rest else ?rest)),
      url_fragment = after_first (CHR ''#'') (if starts_with ''//'' ?rest then drop (2 + length n) ?rest else ?rest)\<rparr>"
    using u unfolding split_url_def sn seen_text_def by (simp only: option.case prod.case Let_def option.inject)
  have us: "url_scheme u = fst (split_scheme ?url)" "url_location u = ?n" unfolding uu using sn' by simp_all
  have r: "?rest = ''//'' @ ?n @ ?tail" using location_parts [of ?rest] assms(3) us(2) by simp
  have "starts_with ''//'' ?rest"
    using assms(3) us(2) by (auto simp: url_netloc_def split: if_splits)
  then have up: "url_path u = before_first (CHR ''?'') ?front" "url_query u = after_first (CHR ''?'') ?front"
    "url_fragment u = after_first (CHR ''#'') ?tail"
    unfolding uu sn'(2) by (simp_all only: if_True url_parts.simps)
  obtain scheme where s: "?url = scheme @ '':'' @ ?rest" "url_scheme u = py_lower scheme"
    using split_scheme_parts [of ?url] assms(2) us(1) by auto
  obtain tail front where tf: "tail = ?tail" "front = before_first (CHR ''#'') tail" by blast
  obtain f where f: "f = (if CHR ''#'' \<in> set tail then CHR ''#'' # after_first (CHR ''#'') tail else [])" by blast
  obtain q where q: "q = (if CHR ''?'' \<in> set front then CHR ''?'' # after_first (CHR ''?'') front else [])" by blast
  have up': "url_path u = before_first (CHR ''?'') front" "url_query u = after_first (CHR ''?'') front"
    "url_fragment u = after_first (CHR ''#'') tail" using up by (simp_all only: tf)
  have "tail = front @ f" using parts_or_all [of tail "CHR ''#''"] by (simp only: f tf(2))
  moreover have "front = url_path u @ q" using parts_or_all [of front "CHR ''?''"] by (simp only: q up'(1))
  ultimately have "tail = url_path u @ q @ f" by simp
  moreover have "?url = scheme @ ''://'' @ url_location u @ tail"
  proof -
    have "?rest = ''//'' @ url_location u @ tail" using r by (simp only: us(2) tf(1))
    with s(1) show ?thesis by (metis append_Cons append_Nil)
  qed
  ultimately have "?url = scheme @ ''://'' @ url_location u @ url_path u @ q @ f" by simp
  moreover have "q \<in> {[], CHR ''?'' # url_query u}" "f \<in> {[], CHR ''#'' # url_fragment u}"
    unfolding q f up'(2,3) by simp_all
  ultimately show ?thesis using s(2) [symmetric]
    by (intro exI [of _ scheme] exI [of _ q] exI [of _ f] conjI)
qed

lemma starts_with_part: "starts_with (p @ q) s \<Longrightarrow> starts_with p s"
proof -
  assume "starts_with (p @ q) s"
  then have "take (length p) (take (length (p @ q)) s) = p" by (simp add: starts_with_def)
  then show ?thesis by (simp add: starts_with_def)
qed

lemma rbind_refuse: "rbind (refuse_when bad m x) f = Inr y \<Longrightarrow> \<not> bad \<and> f x = Inr y"
  by (simp add: refuse_when_def split: if_splits)

lemma checked_production:
  assumes "check_production b cfg = Inr ok"
  shows "32 \<le> length (py_strip (auth_secret cfg))"
    and "py_strip (auth_secret cfg) \<notin> set KNOWN_INSECURE_AUTH_SECRETS"
    and "\<not> enable_demo_adapter cfg" and "\<not> allow_direct_org_member_add cfg"
    and "backend_of (auth_rate_limit_backend cfg) \<in> {''postgres'', ''redis''}"
    and "backend_of (provider_control_backend cfg) \<in> {''postgres'', ''redis''}"
    and "starts_with ''postgresql'' (py_lower (py_strip (database_url cfg)))"
    and "1 \<le> auth_login_attempts_per_minute cfg" and "auth_login_attempts_per_minute cfg \<le> 100"
    and "10 \<le> auth_global_attempts_per_minute cfg" and "auth_global_attempts_per_minute cfg \<le> 10000"
    and "allowed_origins cfg \<noteq> []" and "check_origins b (allowed_origins cfg) = Inr ok"
proof -
  note c = assms [unfolded check_production_def Let_def]
  note c1 = rbind_refuse [OF c]
  note c2 = rbind_refuse [OF conjunct2 [OF c1]]
  note c3 = rbind_refuse [OF conjunct2 [OF c2]]
  note c4 = rbind_refuse [OF conjunct2 [OF c3]]
  note c5 = rbind_refuse [OF conjunct2 [OF c4]]
  note c6 = rbind_refuse [OF conjunct2 [OF c5]]
  note c7 = rbind_refuse [OF conjunct2 [OF c6]]
  note c8 = rbind_refuse [OF conjunct2 [OF c7]]
  note c9 = rbind_refuse [OF conjunct2 [OF c8]]
  note c10 = rbind_refuse [OF conjunct2 [OF c9]]
  show "32 \<le> length (py_strip (auth_secret cfg))"
    "py_strip (auth_secret cfg) \<notin> set KNOWN_INSECURE_AUTH_SECRETS" using conjunct1 [OF c1] by (simp_all add: not_less)
  show "\<not> enable_demo_adapter cfg" by (rule conjunct1 [OF c2])
  show "\<not> allow_direct_org_member_add cfg" by (rule conjunct1 [OF c3])
  show "backend_of (auth_rate_limit_backend cfg) \<in> {''postgres'', ''redis''}" using conjunct1 [OF c4] by blast
  show "backend_of (provider_control_backend cfg) \<in> {''postgres'', ''redis''}" using conjunct1 [OF c5] by blast
  show "starts_with ''postgresql'' (py_lower (py_strip (database_url cfg)))"
    using conjunct1 [OF c7] starts_with_part [of "''postgresql''" "''://''"] starts_with_part [of "''postgresql''" "''+''"]
    by (metis append_Cons append_Nil)
  show "1 \<le> auth_login_attempts_per_minute cfg" "auth_login_attempts_per_minute cfg \<le> 100"
    using conjunct1 [OF c8] by simp_all
  show "10 \<le> auth_global_attempts_per_minute cfg" "auth_global_attempts_per_minute cfg \<le> 10000"
    using conjunct1 [OF c9] by simp_all
  show "allowed_origins cfg \<noteq> []" "check_origins b (allowed_origins cfg) = Inr ok" using c10 by simp_all
qed

definition exact_origin :: "string \<Rightarrow> bool" where
  "exact_origin origin = (\<exists>scheme location path q f. seen_text origin = scheme @ ''://'' @ location @ path @ q @ f \<and>
     py_lower scheme = ''https'' \<and> location \<noteq> [] \<and> path \<in> {[], ''/''} \<and> q \<in> {[], ''?''} \<and> f \<in> {[], ''#''})"

lemma checked_origins:
  "check_origins b origins = Inr ok \<Longrightarrow> origin \<in> set origins \<Longrightarrow>
   exact_origin origin \<and> CHR ''*'' \<notin> set origin"
proof (induction origins)
  case (Cons x xs)
  obtain u where u: "split_url b x = Some u" using Cons.prems(1) by (cases "split_url b x") simp_all
  have ok: "url_scheme u = ''https''" "url_location u \<noteq> []" "url_query u = []" "url_fragment u = []"
    "url_path u \<in> {[], ''/''}" "CHR ''*'' \<notin> set x" "check_origins b xs = Inr ok"
    using Cons.prems(1) u by (auto split: if_splits)
  have "exact_origin x" unfolding exact_origin_def
    using split_url_parts [OF u _ ok(2)] ok(1,2,5) unfolding ok(3,4) by (metis list.distinct(1))
  with Cons.IH [OF ok(7)] Cons.prems(2) ok(6) show ?case by auto
qed simp

text \<open>
  C39: a process that starts in production has a secret of at least 32 characters that is no known
  placeholder, no demonstration adapter, shared stores for both rate limits, PostgreSQL, sane login
  limits, and allows only origins that are https, a host and at most a slash, with no wildcard.
\<close>

theorem production_startup_safe:
  assumes "validate_runtime_security b cfg = Inr p" and "is_production cfg"
  shows "32 \<le> length (py_strip (auth_secret cfg)) \<and>
    py_strip (auth_secret cfg) \<notin> set KNOWN_INSECURE_AUTH_SECRETS \<and>
    \<not> enable_demo_adapter cfg \<and> \<not> allow_direct_org_member_add cfg \<and>
    backend_of (auth_rate_limit_backend cfg) \<in> {''postgres'', ''redis''} \<and>
    backend_of (provider_control_backend cfg) \<in> {''postgres'', ''redis''} \<and>
    starts_with ''postgresql'' (py_lower (py_strip (database_url cfg))) \<and>
    1 \<le> auth_login_attempts_per_minute cfg \<and> auth_login_attempts_per_minute cfg \<le> 100 \<and>
    10 \<le> auth_global_attempts_per_minute cfg \<and> auth_global_attempts_per_minute cfg \<le> 10000 \<and>
    session_cookie_samesite cfg \<in> {''lax'', ''strict'', ''none''} \<and> allowed_origins cfg \<noteq> [] \<and>
    (\<forall>origin \<in> set (allowed_origins cfg). exact_origin origin \<and> CHR ''*'' \<notin> set origin)"
proof -
  obtain ok where ok: "check_production b cfg = Inr ok" and s: "session_cookie_samesite cfg \<in> {''lax'', ''strict'', ''none''}"
    using assms by (auto simp: validate_runtime_security_def refuse_when_def Let_def rbind_eq_Inr split: if_splits)
  show ?thesis using checked_production [OF ok] s checked_origins [OF checked_production(13) [OF ok]] by blast
qed

definition sample_settings :: settings where
  "sample_settings = \<lparr>environment = '' Production'', auth_secret = ''0123456789abcdef0123456789abcdef'',
     database_url = ''postgresql+psycopg://db/rivexis'', allowed_origins = [''https://app.rivexis.io''],
     enable_demo_adapter = False, token_ttl_seconds = 28800, session_cookie_name = ''rivexis_session'',
     session_cookie_samesite = ''lax'', allow_direct_org_member_add = False,
     membership_claim_ttl_seconds = 900, auth_rate_limit_backend = ''postgres'',
     auth_login_attempts_per_minute = 20, auth_global_attempts_per_minute = 300, redis_url = [],
     provider_control_backend = ''redis''\<rparr>"

lemma production_startup_safe_witness:
  "\<not> enable_demo_adapter (sample_settings\<lparr>redis_url := ''redis://cache''\<rparr>)"
proof -
  obtain cfg where cfg: "cfg = sample_settings\<lparr>redis_url := ''redis://cache''\<rparr>" by blast
  have "case validate_runtime_security (\<lambda>_. True) cfg of Inl e \<Rightarrow> False | Inr p \<Rightarrow> True"
    unfolding cfg by code_simp
  then obtain p where p: "validate_runtime_security (\<lambda>_. True) cfg = Inr p"
    by (cases "validate_runtime_security (\<lambda>_. True) cfg") simp_all
  have "is_production cfg" unfolding cfg by code_simp
  from production_startup_safe [OF p this] show ?thesis unfolding cfg by blast
qed

text \<open>
  An empty query, fragment or user passes the test for an exact origin, and a browser never sends
  such an origin.
\<close>

lemma inexact_origin_accepted:
  "check_origins (\<lambda>_. True) [''https://@app.rivexis.io/?#''] = Inr True"
  by code_simp

end
