(* ===== verification/AlertQueue.thy ===== *)
theory AlertQueue
  imports Desk RuntimeConfig
begin

text \<open>
  Alerts: their rows in \<open>services/store.py\<close> and their delivery in \<open>services/alert_delivery.py\<close>
  and \<open>workers/alerts.py\<close>. A sending is an argument that gives the outcome of each alert, so the
  webhook, its signature and the clock of the transport are outside. \<open>create_alert\<close> takes the
  tables at its look-up and at its commit, since another transaction may insert the same event in
  between; the unique constraint of the migrations decides then.
\<close>

section \<open>Rows\<close>

type_synonym alert_view = "string \<times> alert_row"

definition same_event :: "string \<Rightarrow> string option \<Rightarrow> string option \<Rightarrow> alert_row \<Rightarrow> bool" where
  "same_event wid provider_id key r =
     (alert_workspace r = wid \<and> provider_id \<noteq> None \<and> key \<noteq> None \<and>
      alert_provider r = provider_id \<and> event_key r = key)"

definition find_event ::
  "string \<Rightarrow> string option \<Rightarrow> string option \<Rightarrow> (string \<times> alert_row) list \<Rightarrow> alert_view option" where
  "find_event wid provider_id key rows = find (\<lambda>(i, r). same_event wid provider_id key r) rows"

definition or_one :: "int \<Rightarrow> int" where
  "or_one n = (if n = 0 then 1 else n)"

definition new_alert ::
  "int \<Rightarrow> string \<Rightarrow> string option \<Rightarrow> string option \<Rightarrow> string \<Rightarrow> pydict \<Rightarrow> string option \<Rightarrow> string option \<Rightarrow> alert_row"
where
  "new_alert now wid monitor analysis level payload provider_id key =
     \<lparr>alert_workspace = wid, alert_monitor = monitor, alert_analysis = analysis, alert_severity = level,
      alert_status = ''open'', alert_provider = provider_id, event_key = key, occurrence_count = 1,
      first_seen = now, last_seen = now, delivery_status = ''pending'', delivery_attempts = 0,
      next_delivery = None, last_delivery_error = None, delivered_at = None, dead_lettered_at = None,
      alert_payload = payload, alert_created = now, alert_updated = now\<rparr>"

text \<open>No result is the violated constraint raised again.\<close>

definition insert_alert ::
  "string \<Rightarrow> string \<Rightarrow> string option \<Rightarrow> string option \<Rightarrow> alert_row \<Rightarrow> desk \<Rightarrow> ((alert_view \<times> bool) \<times> desk) option"
where
  "insert_alert i wid provider_id key row D =
     (case find_event wid provider_id key (alerts D) of
        None \<Rightarrow> Some (((i, row), False), D\<lparr>alerts := alerts D @ [(i, row)]\<rparr>)
      | Some v \<Rightarrow> if given provider_id \<and> given key then Some ((v, True), D) else None)"

definition create_alert ::
  "string \<Rightarrow> int \<Rightarrow> string \<Rightarrow> string option \<Rightarrow> string option \<Rightarrow> string \<Rightarrow> pydict \<Rightarrow> string option \<Rightarrow>
   string option \<Rightarrow> desk \<Rightarrow> desk \<Rightarrow> ((alert_view \<times> bool) \<times> desk) option" where
  "create_alert i now wid monitor analysis level payload provider_id key D commit =
     (let row = new_alert now wid monitor analysis level payload provider_id key;
          existing = (if given provider_id \<and> given key
            then find_event wid provider_id key (alerts D) else None)
      in case existing of
           Some (j, r) \<Rightarrow>
             let r' = r\<lparr>occurrence_count := or_one (occurrence_count r) + 1, last_seen := now,
               alert_updated := now\<rparr>
             in Some (((j, r'), True), D\<lparr>alerts := AList.update j r' (alerts D)\<rparr>)
         | None \<Rightarrow> insert_alert i wid provider_id key row commit)"

definition list_alerts :: "desk \<Rightarrow> string \<Rightarrow> string option \<Rightarrow> alert_view list" where
  "list_alerts D uid wid =
     newest alert_created
       (filter (\<lambda>(i, r). alert_workspace r \<in> set (allowed_workspaces D uid wid)) (alerts D))"

definition ALERT_STATUSES :: "string list" where
  "ALERT_STATUSES = [''open'', ''acknowledged'', ''resolved'']"

definition put_alert :: "int \<Rightarrow> string \<Rightarrow> alert_row \<Rightarrow> alert_row \<Rightarrow> desk \<Rightarrow> alert_view \<times> desk" where
  "put_alert now i old new D =
     (let row = (if new = old then old else new\<lparr>alert_updated := now\<rparr>) in
      ((i, row), D\<lparr>alerts := AList.update i row (alerts D)\<rparr>))"

definition open_alert :: "desk \<Rightarrow> string \<Rightarrow> string \<Rightarrow> bool \<Rightarrow> bool \<Rightarrow> alert_row option" where
  "open_alert D uid i write manage =
     (case map_of (alerts D) i of
        None \<Rightarrow> None
      | Some r \<Rightarrow> if may_open D uid (alert_workspace r) write manage then Some r else None)"

definition update_alert_status ::
  "int \<Rightarrow> string \<Rightarrow> string \<Rightarrow> string \<Rightarrow> desk \<Rightarrow> (alert_view option \<times> desk) stored" where
  "update_alert_status now uid i state D =
     (if state \<notin> set ALERT_STATUSES then Inl (BadValue ''Invalid alert status'')
      else case open_alert D uid i True False of
        None \<Rightarrow> Inr (None, D)
      | Some r \<Rightarrow> Inr (map_prod Some id (put_alert now i r (r\<lparr>alert_status := state\<rparr>) D)))"

section \<open>The delivery queue\<close>

definition is_due :: "int \<Rightarrow> alert_row \<Rightarrow> bool" where
  "is_due now r = (delivery_status r \<in> {''pending'', ''retry''} \<and>
     (case next_delivery r of None \<Rightarrow> True | Some t \<Rightarrow> t \<le> now))"

definition due_alerts :: "desk \<Rightarrow> int \<Rightarrow> string \<Rightarrow> int \<Rightarrow> alert_view list" where
  "due_alerts D now wid limit =
     take (nat (max 1 (min limit 200))) (sort_key (\<lambda>(i, r). alert_created r)
       (filter (\<lambda>(i, r). alert_workspace r = wid \<and> is_due now r) (alerts D)))"

fun first_occurrences :: "string list \<Rightarrow> string list" where
  "first_occurrences [] = []"
| "first_occurrences (x # xs) = x # filter (\<lambda>y. y \<noteq> x) (first_occurrences xs)"

definition due_alert_workspace_ids :: "desk \<Rightarrow> int \<Rightarrow> int \<Rightarrow> string list" where
  "due_alert_workspace_ids D now limit =
     filter (\<lambda>w. w \<noteq> []) (take (nat (max 1 (min limit 1000)))
       (first_occurrences (map (\<lambda>(i, r). alert_workspace r) (filter (\<lambda>(i, r). is_due now r) (alerts D)))))"

definition SECOND :: int where
  "SECOND = 1000000"

definition retry_delay :: "int \<Rightarrow> int \<Rightarrow> int" where
  "retry_delay retry_base attempts = min (max 1 retry_base * 2 ^ nat (max 0 (attempts - 1))) 86400"

definition delivered :: "int \<Rightarrow> alert_row \<Rightarrow> alert_row" where
  "delivered now r = r\<lparr>delivery_attempts := delivery_attempts r + 1, delivery_status := ''delivered'',
     delivered_at := Some now, next_delivery := None, last_delivery_error := None, alert_updated := now\<rparr>"

definition failed :: "int \<Rightarrow> string option \<Rightarrow> int \<Rightarrow> int \<Rightarrow> alert_row \<Rightarrow> alert_row" where
  "failed now err max_attempts retry_base r =
     (let n = delivery_attempts r + 1;
          text = (case err of None \<Rightarrow> ''delivery failed'' | Some e \<Rightarrow> if e = [] then ''delivery failed'' else e);
          r1 = r\<lparr>delivery_attempts := n, last_delivery_error := Some (take 2000 text), alert_updated := now\<rparr>
      in if max 1 max_attempts \<le> n
         then r1\<lparr>delivery_status := ''dead_letter'', dead_lettered_at := Some now, next_delivery := None\<rparr>
         else r1\<lparr>delivery_status := ''retry'',
           next_delivery := Some (now + retry_delay retry_base n * SECOND)\<rparr>)"

definition mark_alert_delivery ::
  "int \<Rightarrow> string \<Rightarrow> bool \<Rightarrow> string option \<Rightarrow> int \<Rightarrow> int \<Rightarrow> desk \<Rightarrow> alert_view option \<times> desk" where
  "mark_alert_delivery now i success err max_attempts retry_base D =
     (case map_of (alerts D) i of
        None \<Rightarrow> (None, D)
      | Some r \<Rightarrow>
          let row = (if success then delivered now r else failed now err max_attempts retry_base r) in
          (Some (i, row), D\<lparr>alerts := AList.update i row (alerts D)\<rparr>))"

definition requeue_alert :: "int \<Rightarrow> string \<Rightarrow> string \<Rightarrow> desk \<Rightarrow> alert_view option \<times> desk" where
  "requeue_alert now uid i D =
     (case open_alert D uid i False True of
        None \<Rightarrow> (None, D)
      | Some r \<Rightarrow> map_prod Some id (put_alert now i r
          (r\<lparr>delivery_status := ''pending'', delivery_attempts := 0, next_delivery := None,
             last_delivery_error := None, dead_lettered_at := None\<rparr>) D))"

text \<open>
  The metrics of one day. Differences of instants are exact seconds, rounded to a float once.
\<close>

record delivery_metrics =
  metric_slo :: int
  metric_total :: nat
  metric_pending :: nat
  metric_delivered :: nat
  metric_dead :: nat
  oldest_pending :: rat
  within_slo :: "rat option"

definition seconds_between :: "int \<Rightarrow> int \<Rightarrow> rat" where
  "seconds_between later earlier = rnd (of_int (later - earlier) / of_int SECOND)"

definition round_digits :: "nat \<Rightarrow> rat \<Rightarrow> rat" where
  "round_digits digits r = rnd (of_int (round_even (r * 10 ^ digits)) / 10 ^ digits)"

definition alert_delivery_metrics :: "desk \<Rightarrow> int \<Rightarrow> string \<Rightarrow> string \<Rightarrow> int \<Rightarrow> delivery_metrics option" where
  "alert_delivery_metrics D now uid wid slo_seconds =
     (let slo = max 1 slo_seconds;
          rows = filter (\<lambda>r. alert_workspace r = wid \<and> now - 24 * HOUR \<le> alert_created r) (map snd (alerts D));
          pending = filter (\<lambda>r. delivery_status r \<in> {''pending'', ''retry''}) rows;
          sent = filter (\<lambda>r. delivery_status r = ''delivered'' \<and> delivered_at r \<noteq> None) rows;
          timely = length (filter (\<lambda>r. seconds_between (the (delivered_at r)) (alert_created r) \<le> of_int slo) sent);
          ages = map (\<lambda>r. seconds_between now (alert_created r)) pending
      in if \<not> may_open D uid wid False False then None
         else Some \<lparr>metric_slo = slo, metric_total = length rows, metric_pending = length pending,
           metric_delivered = length sent,
           metric_dead = length (filter (\<lambda>r. delivery_status r = ''dead_letter'') rows),
           oldest_pending = round_digits 3 (if ages = [] then 0 else fold max (tl ages) (hd ages)),
           within_slo = (if sent = [] then None
             else Some (round_digits 2 (rnd (rnd (of_nat timely / of_nat (length sent)) * 100))))\<rparr>)"

section \<open>Delivery\<close>

datatype delivery_exn = Misconfigured string | NotConfigured | WebhookFailed string | TimedOut
  | TransportFailed | OtherFailure string

text \<open>\<open>isalnum\<close> of a character below code point 256.\<close>

definition alnum_char :: "char \<Rightarrow> bool" where
  "alnum_char c = (let n = code c in 48 \<le> n \<and> n \<le> 57 \<or> 65 \<le> n \<and> n \<le> 90 \<or> 97 \<le> n \<and> n \<le> 122 \<or>
     n \<in> {170, 178, 179, 181, 185, 186, 188, 189, 190} \<or> 192 \<le> n \<and> n \<noteq> 215 \<and> n \<noteq> 247)"

definition delivery_failure_code :: "delivery_exn \<Rightarrow> string" where
  "delivery_failure_code e =
     (case e of
        Misconfigured c \<Rightarrow> c
      | WebhookFailed c \<Rightarrow> c
      | NotConfigured \<Rightarrow> ''delivery_not_configured''
      | TimedOut \<Rightarrow> ''webhook_timeout''
      | TransportFailed \<Rightarrow> ''webhook_transport_error''
      | OtherFailure name \<Rightarrow>
          let safe = take 80 (filter (\<lambda>c. alnum_char c \<or> c = CHR ''_'') name) in
          ''delivery_error_'' @ (if safe = [] then ''Exception'' else safe))"

definition not_configured :: "delivery_exn \<Rightarrow> bool" where
  "not_configured e = (e = NotConfigured \<or> (\<exists>c. e = Misconfigured c))"

lemma not_configured_code [code]:
  "not_configured e = (case e of NotConfigured \<Rightarrow> True | Misconfigured c \<Rightarrow> True | _ \<Rightarrow> False)"
  by (cases e) (simp_all add: not_configured_def)

record delivery_item =
  item_id :: string
  item_result :: string
  item_error :: "string option"

record delivery_result =
  result_workspace :: string
  processed :: nat
  skipped :: nat
  reason :: "string option"
  delivery_items :: "delivery_item list"

text \<open>
  One sending: the outcome, and the clock when the result is stored. The loop stops at the first
  alert that finds the delivery unconfigured.
\<close>

type_synonym sender = "alert_view \<Rightarrow> (delivery_exn option \<times> int)"

fun deliver_all ::
  "sender \<Rightarrow> int \<Rightarrow> int \<Rightarrow> alert_view list \<Rightarrow> delivery_item list \<Rightarrow> desk \<Rightarrow>
   (delivery_item list \<times> string option) py \<times> desk" where
  "deliver_all send max_attempts retry_base [] done_items D = (Inr (done_items, None), D)"
| "deliver_all send max_attempts retry_base (v # vs) done_items D =
     (case send v of
        (None, now) \<Rightarrow>
          (case mark_alert_delivery now (fst v) True None max_attempts retry_base D of (updated, D') \<Rightarrow>
            deliver_all send max_attempts retry_base vs
              (done_items @ [\<lparr>item_id = fst v, item_result = ''delivered'', item_error = None\<rparr>]) D')
      | (Some e, now) \<Rightarrow>
          if not_configured e then (Inr (done_items, Some (delivery_failure_code e)), D)
          else (case mark_alert_delivery now (fst v) False (Some (delivery_failure_code e))
                       max_attempts retry_base D of
              (None, D') \<Rightarrow> (Inl TypeError, D')
            | (Some (i, row), D') \<Rightarrow>
                deliver_all send max_attempts retry_base vs
                  (done_items @ [\<lparr>item_id = fst v, item_result = delivery_status row,
                     item_error = Some (delivery_failure_code e)\<rparr>]) D'))"

definition process_alerts ::
  "sender \<Rightarrow> webhook_settings \<Rightarrow> string \<Rightarrow> alert_view list \<Rightarrow> desk \<Rightarrow> delivery_result py \<times> desk" where
  "process_alerts send cfg wid due D =
     map_prod (map_sum id (\<lambda>(items, stop).
         \<lparr>result_workspace = wid, processed = length items,
          skipped = (if stop = None then 0 else length due - length items),
          reason = stop, delivery_items = items\<rparr>)) id
       (deliver_all send (hook_attempts cfg) (hook_retry_base cfg) due [] D)"

text \<open>With the webhook as the sender, its configuration is checked first.\<close>

definition process_due_alerts ::
  "(string \<Rightarrow> bool) \<Rightarrow> webhook_settings \<Rightarrow> sender \<Rightarrow> bool \<Rightarrow> int \<Rightarrow> string \<Rightarrow> int \<Rightarrow> desk \<Rightarrow>
   delivery_result py \<times> desk" where
  "process_due_alerts bracket_ok cfg send is_webhook now wid limit D =
     (let due = due_alerts D now wid limit;
          refused = (\<lambda>why. (Inr \<lparr>result_workspace = wid, processed = 0, skipped = length due,
            reason = Some why, delivery_items = []\<rparr>, D))
      in if is_webhook \<and> hook_url cfg = [] then refused ''delivery_not_configured''
         else case (if is_webhook then validate_alert_webhook_configuration bracket_ok cfg else Inr cfg) of
           Inl c \<Rightarrow> refused c
         | Inr _ \<Rightarrow> process_alerts send cfg wid due D)"

section \<open>The worker\<close>

fun run_workspaces ::
  "(string \<Rightarrow> bool) \<Rightarrow> webhook_settings \<Rightarrow> sender \<Rightarrow> int \<Rightarrow> int \<Rightarrow> string list \<Rightarrow> desk \<Rightarrow>
   delivery_result list py \<times> desk" where
  "run_workspaces bracket_ok cfg send now batch [] D = (Inr [], D)"
| "run_workspaces bracket_ok cfg send now batch (w # ws) D =
     (case process_due_alerts bracket_ok cfg send True now w batch D of
        (Inl e, D1) \<Rightarrow> (Inl e, D1)
      | (Inr r, D1) \<Rightarrow> map_prod (map_sum id (Cons r)) id (run_workspaces bracket_ok cfg send now batch ws D1))"

definition run_once ::
  "(string \<Rightarrow> bool) \<Rightarrow> webhook_settings \<Rightarrow> sender \<Rightarrow> int \<Rightarrow> int \<Rightarrow> int \<Rightarrow> desk \<Rightarrow>
   delivery_result list py \<times> desk" where
  "run_once bracket_ok cfg send now limit batch D =
     run_workspaces bracket_ok cfg send now batch (due_alert_workspace_ids D now limit) D"

record log_summary =
  workspace_count :: nat
  log_processed :: nat
  log_skipped :: nat
  log_delivered :: nat
  log_retry :: nat
  log_dead :: nat
  log_degraded :: bool

definition outcomes :: "delivery_result list \<Rightarrow> string list" where
  "outcomes rs = concat (map (\<lambda>r. map (\<lambda>i. py_strip (item_result i)) (delivery_items r)) rs)"

definition delivery_log_summary :: "delivery_result list \<Rightarrow> log_summary" where
  "delivery_log_summary rs =
     \<lparr>workspace_count = length rs, log_processed = sum_list (map processed rs),
      log_skipped = sum_list (map skipped rs),
      log_delivered = length (filter (\<lambda>x. x = ''delivered'') (outcomes rs)),
      log_retry = length (filter (\<lambda>x. x = ''retry'') (outcomes rs)),
      log_dead = length (filter (\<lambda>x. x = ''dead_letter'') (outcomes rs)),
      log_degraded = list_ex (\<lambda>r. present (reason r)) rs\<rparr>"

section \<open>The invariant of the queue\<close>

definition row_ok :: "int \<Rightarrow> alert_row \<Rightarrow> bool" where
  "row_ok M r =
     (alert_status r \<in> set ALERT_STATUSES \<and> 1 \<le> occurrence_count r \<and>
      (delivery_status r = ''pending'' \<and> delivery_attempts r = 0 \<and> next_delivery r = None \<or>
       delivery_status r = ''retry'' \<and> 1 \<le> delivery_attempts r \<and> delivery_attempts r < max 1 M \<and>
         next_delivery r \<noteq> None \<and> last_delivery_error r \<noteq> None \<or>
       delivery_status r = ''delivered'' \<and> 1 \<le> delivery_attempts r \<and> delivery_attempts r \<le> max 1 M \<and>
         next_delivery r = None \<and> delivered_at r \<noteq> None \<and> last_delivery_error r = None \<or>
       delivery_status r = ''dead_letter'' \<and> 1 \<le> delivery_attempts r \<and> delivery_attempts r \<le> max 1 M \<and>
         next_delivery r = None \<and> dead_lettered_at r \<noteq> None \<and> last_delivery_error r \<noteq> None))"

definition same_origin :: "alert_row \<Rightarrow> alert_row \<Rightarrow> bool" where
  "same_origin r s = (alert_workspace r = alert_workspace s \<and> alert_provider r = alert_provider s \<and>
     event_key r = event_key s \<and> alert_monitor r = alert_monitor s)"

definition queue_ok :: "int \<Rightarrow> (string \<times> alert_row) list \<Rightarrow> bool" where
  "queue_ok M rows =
     (distinct (map fst rows) \<and> (\<forall>i r. map_of rows i = Some r \<longrightarrow> row_ok M r) \<and>
      (\<forall>i r j s. map_of rows i = Some r \<longrightarrow> map_of rows j = Some s \<longrightarrow>
         same_event (alert_workspace s) (alert_provider s) (event_key s) r \<longrightarrow> i = j))"

lemma queue_Nil [simp]: "queue_ok M []"
  by (simp add: queue_ok_def)

lemma queue_okD:
  assumes "queue_ok M rows"
  shows "distinct (map fst rows)" and "map_of rows i = Some r \<Longrightarrow> row_ok M r"
  using assms unfolding queue_ok_def by blast+

lemma queue_unique:
  assumes "queue_ok M rows" and "map_of rows i = Some r" and "map_of rows j = Some s"
    and "same_event (alert_workspace s) (alert_provider s) (event_key s) r"
  shows "i = j"
  using assms unfolding queue_ok_def by blast

lemma queue_put:
  assumes q: "queue_ok M rows" and r: "map_of rows i = Some r"
    and ok: "row_ok M r'" and same: "same_origin r' r"
  shows "queue_ok M (AList.update i r' rows)"
proof -
  have other: "\<exists>s. map_of rows j = Some s \<and> same_origin t s"
    if "map_of (AList.update i r' rows) j = Some t" for j t
    using that r same by (cases "j = i") (auto simp: update_conv' same_origin_def)
  have "j = k" if j: "map_of (AList.update i r' rows) j = Some t" and k: "map_of (AList.update i r' rows) k = Some u"
    and e: "same_event (alert_workspace u) (alert_provider u) (event_key u) t" for j k t u
  proof -
    obtain t' where t': "map_of rows j = Some t'" "same_origin t t'" using other [OF j] by blast
    obtain u' where u': "map_of rows k = Some u'" "same_origin u u'" using other [OF k] by blast
    have "same_event (alert_workspace u') (alert_provider u') (event_key u') t'"
      using e t'(2) u'(2) by (simp add: same_event_def same_origin_def)
    with queue_unique [OF q t'(1) u'(1)] show ?thesis .
  qed
  moreover have "row_ok M t" if "map_of (AList.update i r' rows) j = Some t" for j t
    using that ok queue_okD(2) [OF q, of j t] by (cases "j = i") (simp_all add: update_conv')
  moreover have "distinct (map fst (AList.update i r' rows))"
    using queue_okD(1) [OF q] by (rule distinct_update)
  ultimately show ?thesis unfolding queue_ok_def by blast
qed

lemma queue_filter:
  assumes "queue_ok M rows"
  shows "queue_ok M (filter P rows)"
proof -
  have sub: "map_of rows i = Some r" if "map_of (filter P rows) i = Some r" for i r
    using that map_of_SomeD [OF that] queue_okD(1) [OF assms] by auto
  then show ?thesis
    using assms distinct_map_filter [OF queue_okD(1) [OF assms]] unfolding queue_ok_def by blast
qed

lemma queue_append:
  assumes q: "queue_ok M rows" and i: "map_of rows i = None" and ok: "row_ok M r"
    and none: "find_event (alert_workspace r) (alert_provider r) (event_key r) rows = None"
  shows "queue_ok M (rows @ [(i, r)])"
proof -
  have look: "map_of (rows @ [(i, r)]) j = (if j = i then Some r else map_of rows j)" for j
    using i by (auto simp: map_add_def split: option.split)
  have fresh: "\<not> same_event (alert_workspace r) (alert_provider r) (event_key r) s"
    "\<not> same_event (alert_workspace s) (alert_provider s) (event_key s) r" if "map_of rows j = Some s" for j s
    using none map_of_SomeD [OF that] by (auto simp: find_event_def find_None_iff same_event_def)
  have "j = k" if "map_of (rows @ [(i, r)]) j = Some t" "map_of (rows @ [(i, r)]) k = Some u"
    and e: "same_event (alert_workspace u) (alert_provider u) (event_key u) t" for j k t u
  proof (cases "j = i"; cases "k = i")
    assume "j \<noteq> i" "k \<noteq> i"
    with that look have "map_of rows j = Some t" "map_of rows k = Some u" by (simp_all only: if_False)
    then show ?thesis using queue_unique [OF q _ _ e] by blast
  qed (use that look fresh e in \<open>auto split: if_splits\<close>)
  moreover have "row_ok M t" if "map_of (rows @ [(i, r)]) j = Some t" for j t
    using that ok look queue_okD(2) [OF q, of j t] by (cases "j = i") simp_all
  moreover have "distinct (map fst (rows @ [(i, r)]))"
    using queue_okD(1) [OF q] i by (simp add: map_of_eq_None_iff)
  ultimately show ?thesis unfolding queue_ok_def by blast
qed

lemma new_alert_ok: "row_ok M (new_alert now wid m a l p pr k)"
  by (simp add: row_ok_def new_alert_def ALERT_STATUSES_def)

lemma insert_ok:
  assumes "queue_ok M (alerts D)" and "map_of (alerts D) i = None"
    and "insert_alert i wid pr k (new_alert now wid m a l p pr k) D = Some (v, D')"
  shows "queue_ok M (alerts D')"
proof (cases "find_event wid pr k (alerts D)")
  case None
  with assms(3) have D': "alerts D' = alerts D @ [(i, new_alert now wid m a l p pr k)]"
    by (auto simp: insert_alert_def)
  show ?thesis unfolding D' using None
    by (intro queue_append assms new_alert_ok) (simp add: new_alert_def)
next
  case (Some w)
  with assms show ?thesis by (auto simp: insert_alert_def split: if_splits)
qed

lemma found_in: "find P xs = Some x \<Longrightarrow> x \<in> set xs \<and> P x"
  by (induction xs) (auto split: if_splits)

lemma found_event:
  assumes "queue_ok M (alerts D)" and "find_event wid pr k (alerts D) = Some (j, r)"
  shows "map_of (alerts D) j = Some r"
proof -
  have "(j, r) \<in> set (alerts D)" using found_in [OF assms(2) [unfolded find_event_def]] by blast
  with queue_okD(1) [OF assms(1)] show ?thesis by simp
qed

lemma repeated_ok: "row_ok M r \<Longrightarrow>
   row_ok M (r\<lparr>occurrence_count := or_one (occurrence_count r) + 1, last_seen := now, alert_updated := now\<rparr>)"
  by (auto simp: row_ok_def or_one_def)

lemma create_ok:
  assumes q: "queue_ok M (alerts D)" and i: "map_of (alerts D) i = None"
    and c: "create_alert i now wid m a l p pr k D D = Some (v, D')"
  shows "queue_ok M (alerts D')"
proof (cases "given pr \<and> given k \<and> find_event wid pr k (alerts D) \<noteq> None")
  case True
  then obtain j r where f: "find_event wid pr k (alerts D) = Some (j, r)" by auto
  note r = found_event [OF q f]
  from c f True have "alerts D' = AList.update j (r\<lparr>occurrence_count := or_one (occurrence_count r) + 1,
      last_seen := now, alert_updated := now\<rparr>) (alerts D)"
    by (auto simp: create_alert_def Let_def)
  with queue_put [OF q r repeated_ok [OF queue_okD(2) [OF q r]]] show ?thesis by (simp add: same_origin_def)
next
  case False
  with c have "insert_alert i wid pr k (new_alert now wid m a l p pr k) D = Some (v, D')"
    by (cases "find_event wid pr k (alerts D)") (auto simp: create_alert_def Let_def split: if_splits)
  with q i show ?thesis by (rule insert_ok)
qed

lemma touched: "row_ok M (r\<lparr>alert_updated := now\<rparr>) = row_ok M r"
  by (simp add: row_ok_def)

lemma put_alert_rows:
  "\<exists>row. alerts (snd (put_alert now i old new D)) = AList.update i row (alerts D) \<and>
     row \<in> {old, new\<lparr>alert_updated := now\<rparr>}"
  by (auto simp: put_alert_def Let_def)

lemma put_alert_ok:
  assumes q: "queue_ok M (alerts D)" and r: "map_of (alerts D) i = Some r"
    and ok: "row_ok M new" and same: "same_origin new r"
  shows "queue_ok M (alerts (snd (put_alert now i r new D)))"
proof -
  obtain row where row: "alerts (snd (put_alert now i r new D)) = AList.update i row (alerts D)"
    "row \<in> {r, new\<lparr>alert_updated := now\<rparr>}" using put_alert_rows by blast
  have "row_ok M row" using row(2) ok queue_okD(2) [OF q r] by (elim insertE) (simp_all add: touched)
  moreover have "same_origin row r" using row(2) same by (elim insertE) (simp_all add: same_origin_def)
  ultimately show ?thesis using queue_put [OF q r] row(1) by simp
qed

lemma opened_alert: "open_alert D uid i w m = Some r \<Longrightarrow> map_of (alerts D) i = Some r"
  by (auto simp: open_alert_def split: option.split_asm if_split_asm)

lemma status_ok:
  assumes "queue_ok M (alerts D)" and "update_alert_status now uid i state D = Inr (v, D')"
  shows "queue_ok M (alerts D')"
proof (cases "open_alert D uid i True False")
  case None
  with assms show ?thesis by (auto simp: update_alert_status_def split: if_splits)
next
  case (Some r)
  with assms(2) have s: "state \<in> set ALERT_STATUSES"
    and D': "alerts D' = alerts (snd (put_alert now i r (r\<lparr>alert_status := state\<rparr>) D))"
    by (auto simp: update_alert_status_def map_prod_def split: if_splits prod.splits)
  note r = opened_alert [OF Some]
  show ?thesis unfolding D' using s queue_okD(2) [OF assms(1) r]
    by (intro put_alert_ok assms r) (simp_all add: row_ok_def same_origin_def)
qed

lemma requeue_ok:
  assumes "queue_ok M (alerts D)"
  shows "queue_ok M (alerts (snd (requeue_alert now uid i D)))"
proof (cases "open_alert D uid i False True")
  case None
  with assms show ?thesis by (simp add: requeue_alert_def)
next
  case (Some r)
  note r = opened_alert [OF Some]
  from Some show ?thesis unfolding requeue_alert_def
    using queue_okD(2) [OF assms r]
    by (simp only: option.case snd_map_prod id_apply)
      (rule put_alert_ok [OF assms r], simp_all add: row_ok_def same_origin_def)
qed

section \<open>One delivery\<close>

lemma max_one: "max 1 (m :: int) \<le> n \<Longrightarrow> 1 \<le> n"
  by simp

lemma mark_row_ok:
  assumes "row_ok M r" and "delivery_status r \<in> {''pending'', ''retry''}"
  shows "row_ok M (if success then delivered now r else failed now err M base r)"
  using assms by (auto simp: row_ok_def delivered_def failed_def Let_def)

lemma mark_same_origin: "same_origin (if success then delivered now r else failed now err M base r) r"
  by (simp add: same_origin_def delivered_def failed_def Let_def)

lemma marked:
  assumes "map_of (alerts D) i = Some r"
  shows "mark_alert_delivery now i success err M base D =
    (Some (i, if success then delivered now r else failed now err M base r),
     D\<lparr>alerts := AList.update i (if success then delivered now r else failed now err M base r) (alerts D)\<rparr>)"
  using assms by (simp add: mark_alert_delivery_def Let_def)

text \<open>The alerts still to be sent are rows of the table that wait for delivery.\<close>

definition waiting :: "alert_view list \<Rightarrow> (string \<times> alert_row) list \<Rightarrow> bool" where
  "waiting vs rows = (distinct (map fst vs) \<and>
     (\<forall>v \<in> set vs. map_of rows (fst v) = Some (snd v) \<and> delivery_status (snd v) \<in> {''pending'', ''retry''}))"

lemma waiting_Cons:
  assumes "waiting (v # vs) rows"
  shows "map_of rows (fst v) = Some (snd v)" and "delivery_status (snd v) \<in> {''pending'', ''retry''}"
    and "waiting vs (AList.update (fst v) r rows)"
proof -
  show "map_of rows (fst v) = Some (snd v)" "delivery_status (snd v) \<in> {''pending'', ''retry''}"
    using assms unfolding waiting_def by simp_all
  have "fst v \<notin> fst ` set vs" using assms by (simp add: waiting_def)
  then have "fst u \<noteq> fst v" if "u \<in> set vs" for u using that by (metis image_eqI)
  then show "waiting vs (AList.update (fst v) r rows)"
    using assms unfolding waiting_def by (simp add: update_conv')
qed

lemma deliver_all_ok:
  assumes "queue_ok M (alerts D)" and "waiting vs (alerts D)"
  shows "queue_ok M (alerts (snd (deliver_all send M base vs items D)))"
  using assms
proof (induction vs arbitrary: items D)
  case (Cons v vs)
  obtain e now where s: "send v = (e, now)" by (cases "send v")
  note w = waiting_Cons [OF Cons.prems(2)]
  have step: "queue_ok M (AList.update (fst v) (if b then delivered now (snd v) else failed now err M base (snd v)) (alerts D))"
    for b err
    by (intro queue_put [OF Cons.prems(1) w(1)] mark_row_ok queue_okD(2) [OF Cons.prems(1) w(1)] w(2) mark_same_origin)
  show ?case
  proof (cases e)
    case None
    with s marked [OF w(1), of now True None M base] show ?thesis
      using Cons.IH [of "D\<lparr>alerts := AList.update (fst v) (delivered now (snd v)) (alerts D)\<rparr>"]
        step [of True] w(3) by simp
  next
    case (Some x)
    with s marked [OF w(1), of now False "Some (delivery_failure_code x)" M base] show ?thesis
      using Cons.IH [of "D\<lparr>alerts := AList.update (fst v)
          (failed now (Some (delivery_failure_code x)) M base (snd v)) (alerts D)\<rparr>"]
        step [of False "Some (delivery_failure_code x)"] w(3) Cons.prems(1) by simp
  qed
qed simp

lemma due_waiting:
  assumes "distinct (map fst (alerts D))"
  shows "waiting (due_alerts D now wid limit) (alerts D)"
proof -
  have "distinct (map fst (due_alerts D now wid limit))"
  proof -
    have d: "distinct (map fst (filter P (alerts D)))" for P using assms by (rule distinct_map_filter)
    have "mset (map fst (sort_key f xs)) = mset (map fst xs)" for f :: "string \<times> alert_row \<Rightarrow> int" and xs
      by simp
    then have "distinct (map fst (sort_key f (filter P (alerts D))))" for f :: "string \<times> alert_row \<Rightarrow> int" and P
      using d mset_eq_imp_distinct_iff by metis
    then show ?thesis unfolding due_alerts_def take_map [symmetric] by (rule distinct_take)
  qed
  moreover have "map_of (alerts D) (fst v) = Some (snd v) \<and> delivery_status (snd v) \<in> {''pending'', ''retry''}"
    if "v \<in> set (due_alerts D now wid limit)" for v
  proof -
    have "v \<in> set (filter (\<lambda>(i, r). alert_workspace r = wid \<and> is_due now r) (alerts D))"
      using in_set_takeD [OF that [unfolded due_alerts_def]] by (simp only: set_sort)
    then have v: "(fst v, snd v) \<in> set (alerts D)" "is_due now (snd v)"
      by (simp_all only: set_filter mem_Collect_eq case_prod_beta prod.collapse)
    then show ?thesis using map_of_is_SomeI [OF assms v(1)] by (simp add: is_due_def)
  qed
  ultimately show ?thesis unfolding waiting_def by blast
qed

lemma process_rows:
  "snd (process_due_alerts b cfg send hook now wid limit D) = D \<or>
   snd (process_due_alerts b cfg send hook now wid limit D) =
     snd (deliver_all send (hook_attempts cfg) (hook_retry_base cfg) (due_alerts D now wid limit) [] D)"
  by (auto simp: process_due_alerts_def process_alerts_def Let_def split: sum.split)

lemma process_ok:
  assumes "queue_ok M (alerts D)" and "hook_attempts cfg = M"
  shows "queue_ok M (alerts (snd (process_due_alerts b cfg send hook now wid limit D)))"
  using process_rows [of b cfg send hook now wid limit D]
    deliver_all_ok [OF assms(1) due_waiting [OF queue_okD(1) [OF assms(1)]], of send] assms
  by (metis (no_types, lifting))

section \<open>What a processing does\<close>

text \<open>
  The specification of one delivery: whether the sending finds the delivery configured, and the row
  that is promised after it.
\<close>

definition configured :: "sender \<Rightarrow> alert_view \<Rightarrow> bool" where
  "configured send v =
     (case fst (send v) of Some NotConfigured \<Rightarrow> False | Some (Misconfigured c) \<Rightarrow> False | _ \<Rightarrow> True)"

lemma configured_failure: "fst (send v) = Some e \<Longrightarrow> configured send v \<longleftrightarrow> \<not> not_configured e"
  by (cases e) (simp_all add: configured_def not_configured_def)

lemma configured_success: "fst (send v) = None \<Longrightarrow> configured send v"
  by (simp add: configured_def)

definition promised_row :: "delivery_exn option \<Rightarrow> int \<Rightarrow> int \<Rightarrow> int \<Rightarrow> alert_row \<Rightarrow> alert_row" where
  "promised_row err now M retry_base r =
     (let n = delivery_attempts r + 1; again = (err \<noteq> None \<and> n < max 1 M) in
      r\<lparr>delivery_attempts := n, alert_updated := now,
        delivery_status := (if err = None then ''delivered'' else if again then ''retry'' else ''dead_letter''),
        delivered_at := (if err = None then Some now else delivered_at r),
        dead_lettered_at := (if err = None \<or> again then dead_lettered_at r else Some now),
        next_delivery := (if again
          then Some (now + min (max 1 retry_base * 2 ^ nat (n - 1)) 86400 * SECOND) else None),
        last_delivery_error := map_option (\<lambda>e. take 2000
          (if delivery_failure_code e = [] then ''delivery failed'' else delivery_failure_code e)) err\<rparr>)"

definition outcome :: "sender \<Rightarrow> int \<Rightarrow> int \<Rightarrow> alert_view \<Rightarrow> alert_row" where
  "outcome send M retry_base v =
     (case send v of
        (None, now) \<Rightarrow> delivered now (snd v)
      | (Some e, now) \<Rightarrow> failed now (Some (delivery_failure_code e)) M retry_base (snd v))"

lemma outcome_promised:
  "outcome send M retry_base v = promised_row (fst (send v)) (snd (send v)) M retry_base (snd v)"
  by (cases "send v" rule: prod.exhaust; cases "fst (send v)")
    (auto simp: outcome_def promised_row_def delivered_def failed_def retry_delay_def Let_def max_def)

definition reported :: "sender \<Rightarrow> int \<Rightarrow> int \<Rightarrow> alert_view \<Rightarrow> delivery_item" where
  "reported send M retry_base v =
     \<lparr>item_id = fst v, item_result = delivery_status (outcome send M retry_base v),
      item_error = map_option delivery_failure_code (fst (send v))\<rparr>"

definition put_all :: "(alert_view \<Rightarrow> alert_row) \<Rightarrow> alert_view list \<Rightarrow> (string \<times> alert_row) list \<Rightarrow> (string \<times> alert_row) list"
where
  "put_all f vs rows = fold (\<lambda>v. AList.update (fst v) (f v)) vs rows"

lemma put_all_simps [simp]:
  "put_all f [] rows = rows"
  "put_all f (v # vs) rows = put_all f vs (AList.update (fst v) (f v) rows)"
  by (simp_all add: put_all_def)

lemma map_of_put_all:
  assumes "distinct (map fst vs)"
  shows "map_of (put_all f vs rows) i =
    (case map_of vs i of None \<Rightarrow> map_of rows i | Some r \<Rightarrow> Some (f (i, r)))"
  using assms
proof (induction vs arbitrary: rows)
  case (Cons v vs)
  obtain j s where v: "v = (j, s)" by (cases v)
  show ?case
  proof (cases "j = i")
    case True
    with Cons.prems v have "map_of vs i = None" by (simp add: map_of_eq_None_iff)
    with Cons v True show ?thesis by (simp add: update_conv')
  next
    case False
    with Cons v show ?thesis by (simp add: update_conv' split: option.split)
  qed
qed simp

text \<open>The alerts are sent in order up to the first that finds the delivery unconfigured.\<close>

lemma deliver_all_exact:
  assumes "waiting vs (alerts D)"
  shows "deliver_all send M base vs items D =
    (Inr (items @ map (reported send M base) (takeWhile (configured send) vs),
       case dropWhile (configured send) vs of [] \<Rightarrow> None
         | v # rest \<Rightarrow> map_option delivery_failure_code (fst (send v))),
     D\<lparr>alerts := put_all (outcome send M base) (takeWhile (configured send) vs) (alerts D)\<rparr>)"
  using assms
proof (induction vs arbitrary: items D)
  case (Cons v vs)
  obtain e now where s: "send v = (e, now)" by (cases "send v")
  note w = waiting_Cons [OF Cons.prems]
  show ?case
  proof (cases e)
    case None
    with s have o: "outcome send M base v = delivered now (snd v)" and c: "configured send v"
      by (simp_all add: outcome_def configured_success)
    have rep: "\<lparr>item_id = fst v, item_result = ''delivered'', item_error = None\<rparr> = reported send M base v"
      using None s by (simp add: reported_def o delivered_def)
    have "deliver_all send M base (v # vs) items D =
        deliver_all send M base vs (items @ [reported send M base v])
          (D\<lparr>alerts := AList.update (fst v) (delivered now (snd v)) (alerts D)\<rparr>)"
      using None s marked [OF w(1), of now True None M base] by (simp add: rep)
    with Cons.IH [of "D\<lparr>alerts := AList.update (fst v) (delivered now (snd v)) (alerts D)\<rparr>"] w(3) c o
    show ?thesis by simp
  next
    case (Some x)
    show ?thesis
    proof (cases "not_configured x")
      case True
      with Some s show ?thesis by (simp add: configured_failure)
    next
      case False
      with s Some have o: "outcome send M base v =
          failed now (Some (delivery_failure_code x)) M base (snd v)" and c: "configured send v"
        by (simp_all add: outcome_def configured_failure)
      have rep: "\<lparr>item_id = fst v,
          item_result = delivery_status (failed now (Some (delivery_failure_code x)) M base (snd v)),
          item_error = Some (delivery_failure_code x)\<rparr> = reported send M base v"
        using Some s by (simp add: reported_def o)
      have "deliver_all send M base (v # vs) items D =
          deliver_all send M base vs (items @ [reported send M base v])
            (D\<lparr>alerts := AList.update (fst v) (outcome send M base v) (alerts D)\<rparr>)"
        using Some False s marked [OF w(1), of now False "Some (delivery_failure_code x)" M base]
        by (simp add: rep o)
      with Cons.IH [of "D\<lparr>alerts := AList.update (fst v) (outcome send M base v) (alerts D)\<rparr>"] w(3) c
      show ?thesis by simp
    qed
  qed
qed simp

lemma due_props:
  assumes "v \<in> set (due_alerts D now wid limit)"
  shows "v \<in> set (alerts D)" and "is_due now (snd v)" and "alert_workspace (snd v) = wid"
proof -
  have "v \<in> set (filter (\<lambda>(i, r). alert_workspace r = wid \<and> is_due now r) (alerts D))"
    using in_set_takeD [OF assms [unfolded due_alerts_def]] by (simp only: set_sort)
  then show "v \<in> set (alerts D)" "is_due now (snd v)" "alert_workspace (snd v) = wid"
    by (simp_all only: set_filter mem_Collect_eq case_prod_beta)
qed

lemma deliver_due:
  assumes "distinct (map fst (alerts D))"
  shows "deliver_all send M base (due_alerts D now wid limit) [] D =
    (Inr (map (reported send M base) (takeWhile (configured send) (due_alerts D now wid limit)),
       case dropWhile (configured send) (due_alerts D now wid limit) of [] \<Rightarrow> None
         | v # rest \<Rightarrow> map_option delivery_failure_code (fst (send v))),
     D\<lparr>alerts := put_all (outcome send M base)
       (takeWhile (configured send) (due_alerts D now wid limit)) (alerts D)\<rparr>)"
  using deliver_all_exact [OF due_waiting [OF assms], of send M base] by simp

lemma unconfigured_has_code: "\<not> configured send v \<Longrightarrow> fst (send v) \<noteq> None"
  by (cases "fst (send v)") (simp_all add: configured_def)

text \<open>The check of the webhook before anything is sent, and the first failure of the unsent alerts.\<close>

definition webhook_refusal :: "(string \<Rightarrow> bool) \<Rightarrow> webhook_settings \<Rightarrow> string option" where
  "webhook_refusal bracket_ok cfg =
     (if hook_url cfg = [] then Some ''delivery_not_configured''
      else case validate_alert_webhook_configuration bracket_ok cfg of Inl c \<Rightarrow> Some c | Inr _ \<Rightarrow> None)"

definition first_failure :: "sender \<Rightarrow> alert_view list \<Rightarrow> delivery_exn option" where
  "first_failure send rest = (case rest of [] \<Rightarrow> None | v # vs \<Rightarrow> fst (send v))"

lemma first_unconfigured:
  "first_failure send (dropWhile (configured send) vs) = None \<longleftrightarrow> dropWhile (configured send) vs = []"
proof (cases "dropWhile (configured send) vs")
  case (Cons v rest)
  then have "\<not> configured send v" by (metis hd_dropWhile list.distinct(1) list.sel(1))
  with Cons show ?thesis by (simp add: first_failure_def unconfigured_has_code)
next
  case Nil
  then show ?thesis by (simp only: first_failure_def list.case simp_thms)
qed

lemma refused_result:
  assumes "(if hook then webhook_refusal b cfg else None) = Some c"
  shows "process_due_alerts b cfg send hook now wid limit D =
    (Inr \<lparr>result_workspace = wid, processed = 0, skipped = length (due_alerts D now wid limit),
       reason = Some c, delivery_items = []\<rparr>, D)"
  using assms
  by (auto simp: process_due_alerts_def webhook_refusal_def Let_def split: if_split_asm sum.split_asm)

lemma accepted_result:
  assumes "distinct (map fst (alerts D))" and "(if hook then webhook_refusal b cfg else None) = None"
  shows "process_due_alerts b cfg send hook now wid limit D =
    (Inr \<lparr>result_workspace = wid, processed = length (takeWhile (configured send) (due_alerts D now wid limit)),
       skipped = length (dropWhile (configured send) (due_alerts D now wid limit)),
       reason = map_option delivery_failure_code
         (first_failure send (dropWhile (configured send) (due_alerts D now wid limit))),
       delivery_items = map (reported send (hook_attempts cfg) (hook_retry_base cfg))
         (takeWhile (configured send) (due_alerts D now wid limit))\<rparr>,
     D\<lparr>alerts := put_all (outcome send (hook_attempts cfg) (hook_retry_base cfg))
       (takeWhile (configured send) (due_alerts D now wid limit)) (alerts D)\<rparr>)"
proof -
  define sent where "sent = takeWhile (configured send) (due_alerts D now wid limit)"
  define rest where "rest = dropWhile (configured send) (due_alerts D now wid limit)"
  have "process_due_alerts b cfg send hook now wid limit D =
      process_alerts send cfg wid (due_alerts D now wid limit) D"
    using assms(2)
    by (auto simp: process_due_alerts_def webhook_refusal_def Let_def split: if_split_asm sum.split_asm)
  moreover have "length (due_alerts D now wid limit) - length sent = length rest"
    unfolding sent_def rest_def by (metis add_diff_cancel_left' length_append takeWhile_dropWhile_id)
  moreover have "first_failure send rest = None \<longleftrightarrow> rest = []"
    unfolding rest_def by (rule first_unconfigured)
  moreover have "(case rest of [] \<Rightarrow> None | v # vs \<Rightarrow> map_option delivery_failure_code (fst (send v))) =
      map_option delivery_failure_code (first_failure send rest)"
    by (simp add: first_failure_def split: list.split)
  ultimately show ?thesis
    unfolding process_alerts_def deliver_due [OF assms(1)] sent_def [symmetric] rest_def [symmetric]
    by simp
qed

text \<open>
  Every processing ends with a result. The due alerts are split in order of their age into those
  sent and those left; each sent one gets the outcome of its sending, and no other row changes.
\<close>

lemma process_exact:
  assumes "distinct (map fst (alerts D))"
  obtains sent rest res where
    "due_alerts D now wid limit = sent @ rest"
    "fst (process_due_alerts b cfg send hook now wid limit D) = Inr res"
    "processed res = length sent" "skipped res = length rest" "reason res = None \<longrightarrow> rest = []"
    "delivery_items res = map (reported send (hook_attempts cfg) (hook_retry_base cfg)) sent"
    "snd (process_due_alerts b cfg send hook now wid limit D) =
       D\<lparr>alerts := put_all (outcome send (hook_attempts cfg) (hook_retry_base cfg)) sent (alerts D)\<rparr>"
    "\<not> hook \<Longrightarrow> list_all (configured send) (due_alerts D now wid limit) \<Longrightarrow> rest = []"
proof (cases "if hook then webhook_refusal b cfg else None")
  case (Some c)
  from Some have "hook" by (simp split: if_split_asm)
  note refused = refused_result [OF Some, of send now wid limit D]
  show thesis
    by (rule that [of "[]" "due_alerts D now wid limit", OF _ trans [OF arg_cong [OF refused, of fst] fst_conv]])
      (use refused \<open>hook\<close> in simp_all)
next
  case None
  let ?due = "due_alerts D now wid limit"
  have all: "list_all (configured send) ?due \<Longrightarrow> dropWhile (configured send) ?due = []"
    by (metis dropWhile_eq_Nil_conv list_all_iff)
  show thesis
    by (rule that [of "takeWhile (configured send) ?due" "dropWhile (configured send) ?due",
      OF _ trans [OF arg_cong [OF accepted_result [OF assms None], of fst] fst_conv]])
      (simp_all add: accepted_result [OF assms None] first_unconfigured all del: dropWhile_eq_Nil_conv)
qed

section \<open>Reachable queues\<close>

text \<open>
  The steps of the queue for a fixed number of attempts \<open>M\<close>. An insertion may follow a look-up on
  earlier tables (\<open>insert\<close>); everything else of the store leaves the alerts alone (\<open>other\<close>).
\<close>

inductive alert_reach :: "int \<Rightarrow> desk \<Rightarrow> bool" for M where
  start: "alerts D = [] \<Longrightarrow> alert_reach M D"
| create: "alert_reach M D \<Longrightarrow> map_of (alerts D) i = None \<Longrightarrow>
    create_alert i now wid monitor analysis level payload provider_id key D D = Some (v, D') \<Longrightarrow> alert_reach M D'"
| insert: "alert_reach M D \<Longrightarrow> map_of (alerts D) i = None \<Longrightarrow>
    insert_alert i wid provider_id key
      (new_alert now wid monitor analysis level payload provider_id key) D = Some (v, D') \<Longrightarrow> alert_reach M D'"
| acknowledge: "alert_reach M D \<Longrightarrow> update_alert_status now uid i state D = Inr (v, D') \<Longrightarrow> alert_reach M D'"
| requeue: "alert_reach M D \<Longrightarrow> alert_reach M (snd (requeue_alert now uid i D))"
| deliver: "alert_reach M D \<Longrightarrow> hook_attempts cfg = M \<Longrightarrow>
    alert_reach M (snd (process_due_alerts b cfg send hook now wid limit D))"
| forget: "alert_reach M D \<Longrightarrow> alert_reach M (snd (delete_monitor uid m D))"
| other: "alert_reach M D \<Longrightarrow> alerts D' = alerts D \<Longrightarrow> alert_reach M D'"

lemma delete_monitor_alerts: "\<exists>P. alerts (snd (delete_monitor uid m D)) = filter P (alerts D)"
proof (cases "get_monitor D uid m True")
  case None
  then have "alerts (snd (delete_monitor uid m D)) = filter (\<lambda>_. True) (alerts D)"
    by (simp add: delete_monitor_def)
  then show ?thesis by blast
next
  case (Some v)
  then have "alerts (snd (delete_monitor uid m D)) = filter (\<lambda>(a, r). alert_monitor r \<noteq> Some m) (alerts D)"
    by (simp add: delete_monitor_def)
  then show ?thesis by blast
qed

lemma reach_queue: "alert_reach M D \<Longrightarrow> queue_ok M (alerts D)"
proof (induction rule: alert_reach.induct)
  case (forget D uid m)
  obtain P where "alerts (snd (delete_monitor uid m D)) = filter P (alerts D)"
    using delete_monitor_alerts by blast
  then show ?case using queue_filter [OF forget.IH] by simp
next
  case (start D)
  then show ?case by simp
next
  case (create D i now wid monitor analysis level payload provider_id key v D')
  show ?case by (rule create_ok [OF create.IH create.hyps(2,3)])
next
  case (insert D i wid provider_id key now monitor analysis level payload v D')
  show ?case by (rule insert_ok [OF insert.IH insert.hyps(2,3)])
next
  case (acknowledge D now uid i state v D')
  show ?case by (rule status_ok [OF acknowledge.IH acknowledge.hyps(2)])
next
  case (requeue D now uid i)
  show ?case by (rule requeue_ok [OF requeue.IH])
next
  case (deliver D cfg b send hook now wid limit)
  show ?case by (rule process_ok [OF deliver.IH deliver.hyps(2)])
next
  case (other D D')
  then show ?case by simp
qed

text \<open>
  C25: in every reachable state of the alert queue, whatever is created, delivered, requeued or
  deleted, an alert was attempted at most as often as configured; it waits for a retry exactly
  while attempts are left, is dead-lettered with an error, and carries no error once delivered; and
  a workspace has at most one row for an event of a provider.
\<close>

theorem alert_queue_invariant:
  assumes "alert_reach M D" and "map_of (alerts D) i = Some r"
  shows "0 \<le> delivery_attempts r \<and> delivery_attempts r \<le> max 1 M \<and> 1 \<le> occurrence_count r \<and>
    delivery_status r \<in> {''pending'', ''retry'', ''delivered'', ''dead_letter''} \<and>
    (next_delivery r \<noteq> None \<longleftrightarrow> delivery_status r = ''retry'') \<and>
    (delivery_status r = ''retry'' \<longrightarrow> delivery_attempts r < max 1 M) \<and>
    (delivery_status r = ''delivered'' \<longrightarrow> delivered_at r \<noteq> None \<and> last_delivery_error r = None) \<and>
    (delivery_status r = ''dead_letter'' \<longrightarrow> dead_lettered_at r \<noteq> None \<and> last_delivery_error r \<noteq> None) \<and>
    (\<forall>j s. map_of (alerts D) j = Some s \<and> alert_workspace s = alert_workspace r \<and>
       alert_provider s = alert_provider r \<and> alert_provider r \<noteq> None \<and>
       event_key s = event_key r \<and> event_key r \<noteq> None \<longrightarrow> j = i)"
proof -
  have q: "queue_ok M (alerts D)" using assms(1) by (rule reach_queue)
  have "row_ok M r" using q assms(2) by (rule queue_okD)
  then have ok: "0 \<le> delivery_attempts r" "delivery_attempts r \<le> max 1 M" "1 \<le> occurrence_count r"
    "delivery_status r \<in> {''pending'', ''retry'', ''delivered'', ''dead_letter''}"
    "next_delivery r \<noteq> None \<longleftrightarrow> delivery_status r = ''retry''"
    "delivery_status r = ''retry'' \<longrightarrow> delivery_attempts r < max 1 M"
    "delivery_status r = ''delivered'' \<longrightarrow> delivered_at r \<noteq> None \<and> last_delivery_error r = None"
    "delivery_status r = ''dead_letter'' \<longrightarrow> dead_lettered_at r \<noteq> None \<and> last_delivery_error r \<noteq> None"
    unfolding row_ok_def by (elim conjE disjE; simp)+
  have "j = i" if "map_of (alerts D) j = Some s" "alert_workspace s = alert_workspace r"
    "alert_provider s = alert_provider r" "alert_provider r \<noteq> None"
    "event_key s = event_key r" "event_key r \<noteq> None" for j s
    using queue_unique [OF q that(1) assms(2)] that(2-) unfolding same_event_def by blast
  with ok show ?thesis by blast
qed

definition sample_hook :: webhook_settings where
  "sample_hook = \<lparr>hook_url = ''https://gateway.internal/alerts'', hook_secret = ''s3cret'',
     hook_scope = ''internal_gateway'', hook_attempts = 2, hook_retry_base = 30, hook_timeout = Fin 8,
     hook_environment = ''production''\<rparr>"

definition sample_alert :: alert_row where
  "sample_alert = new_alert 5 ''w1'' None None ''high'' [] (Some ''hypernative'') (Some ''e1'')"

definition refusing :: sender where
  "refusing v = (Some (WebhookFailed ''webhook_http_503''), 10)"

lemma alert_queue_invariant_witness:
  "delivery_attempts (failed 10 (Some ''webhook_http_503'') 2 30 sample_alert) \<le> max 1 2"
proof -
  obtain D0 :: desk where D0: "D0 = empty_desk" by blast
  obtain D1 where D1: "D1 = D0\<lparr>alerts := [(''a1'', sample_alert)]\<rparr>" by blast
  have n0: "alerts D0 = []" by (simp add: D0 empty_desk_def)
  have r0: "alert_reach 2 D0" using n0 by (rule alert_reach.start)
  have "insert_alert ''a1'' ''w1'' (Some ''hypernative'') (Some ''e1'') sample_alert D0 =
      Some (((''a1'', sample_alert), False), D1)"
    by (simp add: insert_alert_def find_event_def n0 D1)
  then have r1: "alert_reach 2 D1"
    using alert_reach.insert [OF r0, of "''a1''"] n0 by (simp add: sample_alert_def)
  have a1: "alerts D1 = [(''a1'', sample_alert)]" by (simp add: D1)
  have due: "due_alerts D1 9 ''w1'' 50 = [(''a1'', sample_alert)]"
    by (simp add: due_alerts_def a1 is_due_def sample_alert_def new_alert_def)
  have "map_of (alerts (snd (process_due_alerts (\<lambda>_. True) sample_hook refusing False 9 ''w1'' 50 D1))) ''a1'' =
      Some (failed 10 (Some ''webhook_http_503'') 2 30 sample_alert)"
    by (simp add: process_due_alerts_def process_alerts_def due refusing_def not_configured_def
        mark_alert_delivery_def a1 sample_hook_def delivery_failure_code_def Let_def)
  moreover have "alert_reach 2 (snd (process_due_alerts (\<lambda>_. True) sample_hook refusing False 9 ''w1'' 50 D1))"
    by (rule alert_reach.deliver [OF r1]) (simp add: sample_hook_def)
  ultimately show ?thesis using alert_queue_invariant by blast
qed

section \<open>Every alert is settled\<close>

definition settled :: "alert_row \<Rightarrow> bool" where
  "settled r = (delivery_status r \<in> {''delivered'', ''dead_letter''})"

text \<open>
  Rounds of processing one workspace: when a round starts, when its last result is stored, and
  the sending. Each round starts a day after the previous one ended, the longest delay of a retry.
\<close>

type_synonym round = "int \<times> int \<times> sender"

fun run_rounds :: "webhook_settings \<Rightarrow> string \<Rightarrow> round list \<Rightarrow> desk \<Rightarrow> desk" where
  "run_rounds cfg wid [] D = D"
| "run_rounds cfg wid ((now, ends, send) # rs) D =
     run_rounds cfg wid rs (snd (process_due_alerts (\<lambda>_. True) cfg send False now wid 200 D))"

fun spaced :: "int \<Rightarrow> round list \<Rightarrow> bool" where
  "spaced t [] = True"
| "spaced t ((now, ends, send) # rs) =
     (t \<le> now \<and> (\<forall>v. snd (send v) \<le> ends \<and> configured send v) \<and> spaced (ends + 86400 * SECOND) rs)"

lemma retry_delay_bound: "retry_delay retry_base n \<le> 86400"
  by (simp add: retry_delay_def)

lemma outcome_cases:
  assumes "row_ok M r" and "delivery_status r \<in> {''pending'', ''retry''}" and "snd (send (i, r)) \<le> ends"
  shows "settled (outcome send M retry_base (i, r)) \<or>
    delivery_status (outcome send M retry_base (i, r)) = ''retry'' \<and>
    delivery_attempts (outcome send M retry_base (i, r)) = delivery_attempts r + 1 \<and>
    (\<exists>t. next_delivery (outcome send M retry_base (i, r)) = Some t \<and> t \<le> ends + 86400 * SECOND)"
proof -
  obtain e now where s: "send (i, r) = (e, now)" by (cases "send (i, r)")
  have "now + retry_delay retry_base n * SECOND \<le> ends + 86400 * SECOND" for n
    using retry_delay_bound [of retry_base n] assms(3) s by (simp add: SECOND_def)
  with s show ?thesis
    by (cases e) (auto simp: outcome_def settled_def delivered_def failed_def Let_def)
qed

lemma outcome_workspace: "alert_workspace (outcome send M b v) = alert_workspace (snd v)"
  by (simp add: outcome_def delivered_def failed_def Let_def split: prod.split option.split)

definition places :: "(string \<times> alert_row) list \<Rightarrow> (string \<times> string) list" where
  "places rows = map (\<lambda>(i, r). (i, alert_workspace r)) rows"

lemma update_places:
  "map_of rows i = Some r \<Longrightarrow> alert_workspace s = alert_workspace r \<Longrightarrow>
   places (AList.update i s rows) = places rows"
  by (induction rows) (auto simp: places_def split: if_splits)

lemma put_all_places:
  assumes "distinct (map fst vs)" and "\<And>v. v \<in> set vs \<Longrightarrow> map_of rows (fst v) = Some (snd v)"
    and "\<And>v. alert_workspace (f v) = alert_workspace (snd v)"
  shows "places (put_all f vs rows) = places rows"
  using assms(1, 2)
proof (induction vs arbitrary: rows)
  case (Cons v vs)
  have ne: "fst u \<noteq> fst v" if "u \<in> set vs" for u
    using that Cons.prems(1) by (metis distinct.simps(2) image_eqI list.map(2) list.set_map)
  have "places (put_all f vs (AList.update (fst v) (f v) rows)) = places (AList.update (fst v) (f v) rows)"
    by (rule Cons.IH) (use Cons.prems ne in \<open>simp_all add: update_conv'\<close>)
  also have "\<dots> = places rows" using Cons.prems(2) [of v] assms(3) by (intro update_places) simp_all
  finally show ?case by simp
qed simp

lemma count_places: "length (filter (\<lambda>(i, r). alert_workspace r = wid) rows) =
    length (filter (\<lambda>(i, w). w = wid) (places rows))"
  by (induction rows) (auto simp: places_def)

text \<open>When at most 200 alerts are in the workspace, no due alert is left out of a round.\<close>

lemma due_all:
  assumes "length (filter (\<lambda>(i, r). alert_workspace r = wid) (alerts D)) \<le> 200"
  shows "set (due_alerts D now wid 200) = {v \<in> set (alerts D). alert_workspace (snd v) = wid \<and> is_due now (snd v)}"
proof -
  have "length (filter (\<lambda>(i, r). alert_workspace r = wid \<and> is_due now r) rows)
      \<le> length (filter (\<lambda>(i, r). alert_workspace r = wid) rows)" for rows
    by (induction rows) auto
  then have "length (filter (\<lambda>(i, r). alert_workspace r = wid \<and> is_due now r) (alerts D)) \<le> 200"
    using assms by (rule order_trans)
  then show ?thesis by (auto simp: due_alerts_def)
qed

lemma one_round:
  assumes q: "queue_ok (hook_attempts cfg) (alerts D)"
    and few: "length (filter (\<lambda>(i, r). alert_workspace r = wid) (alerts D)) \<le> 200"
    and all: "\<forall>v. configured send v"
  shows "\<exists>D'. snd (process_due_alerts (\<lambda>_. True) cfg send False now wid 200 D) = D' \<and>
    queue_ok (hook_attempts cfg) (alerts D') \<and>
    length (filter (\<lambda>(i, r). alert_workspace r = wid) (alerts D')) \<le> 200 \<and>
    (\<forall>i r. map_of (alerts D) i = Some r \<longrightarrow> map_of (alerts D') i =
       Some (if alert_workspace r = wid \<and> is_due now r
         then outcome send (hook_attempts cfg) (hook_retry_base cfg) (i, r) else r))"
proof -
  let ?f = "outcome send (hook_attempts cfg) (hook_retry_base cfg)"
  note d = queue_okD(1) [OF q]
  obtain sent rest where due: "due_alerts D now wid 200 = sent @ rest"
    and D': "snd (process_due_alerts (\<lambda>_. True) cfg send False now wid 200 D) =
      D\<lparr>alerts := put_all ?f sent (alerts D)\<rparr>"
    and rest: "list_all (configured send) (due_alerts D now wid 200) \<Longrightarrow> rest = []"
    by (rule process_exact [OF d, of now wid 200 "\<lambda>_. True" cfg send False]) blast
  have sent: "sent = due_alerts D now wid 200" using due rest all by (simp add: list_all_iff)
  have w: "waiting sent (alerts D)" unfolding sent by (rule due_waiting [OF d])
  then have ds: "distinct (map fst sent)" and ms: "\<And>v. v \<in> set sent \<Longrightarrow> map_of (alerts D) (fst v) = Some (snd v)"
    unfolding waiting_def by blast+
  have look: "map_of sent i = (if alert_workspace r = wid \<and> is_due now r then Some r else None)"
    if r: "map_of (alerts D) i = Some r" for i r
  proof (cases "(i, r) \<in> set sent")
    case True
    then have "alert_workspace r = wid \<and> is_due now r" using due_props [of "(i, r)"] sent by simp
    moreover have "map_of sent i = Some r" using ds True by (rule map_of_is_SomeI)
    ultimately show ?thesis by simp
  next
    case False
    then have "\<not> (alert_workspace r = wid \<and> is_due now r)"
      using due_all [OF few, of now] map_of_SomeD [OF r] sent by auto
    moreover have "map_of sent i = None"
    proof (rule ccontr)
      assume "map_of sent i \<noteq> None"
      then obtain s where "(i, s) \<in> set sent" by (auto dest: map_of_SomeD)
      with ms [of "(i, s)"] r False show False by simp
    qed
    ultimately show ?thesis by simp
  qed
  have "queue_ok (hook_attempts cfg) (alerts (D\<lparr>alerts := put_all ?f sent (alerts D)\<rparr>))"
    using process_ok [OF q, of cfg "\<lambda>_. True" send False now wid 200] unfolding D' by simp
  moreover have "length (filter (\<lambda>(i, r). alert_workspace r = wid) (put_all ?f sent (alerts D))) \<le> 200"
    using few put_all_places [of sent "alerts D" ?f, OF ds ms outcome_workspace] by (simp only: count_places)
  ultimately show ?thesis unfolding D'
    by (intro exI [of _ "D\<lparr>alerts := put_all ?f sent (alerts D)\<rparr>"])
      (simp add: map_of_put_all [OF ds] look)
qed

lemma rounds_settle:
  assumes "queue_ok (hook_attempts cfg) (alerts D)"
    and "length (filter (\<lambda>(i, r). alert_workspace r = wid) (alerts D)) \<le> 200"
    and "spaced t rounds" and "map_of (alerts D) i = Some r" and "alert_workspace r = wid"
    and "settled r \<or> delivery_status r \<in> {''pending'', ''retry''} \<and>
      (\<forall>u. next_delivery r = Some u \<longrightarrow> u \<le> t) \<and> max 1 (hook_attempts cfg) \<le> delivery_attempts r + int (length rounds)"
    and "delivery_attempts r < max 1 (hook_attempts cfg) \<or> settled r"
  shows "\<exists>s. map_of (alerts (run_rounds cfg wid rounds D)) i = Some s \<and> settled s"
  using assms
proof (induction rounds arbitrary: D t r)
  case Nil
  then show ?case by auto
next
  case (Cons round rounds)
  obtain now ends send where round: "round = (now, ends, send)" by (cases round)
  from Cons.prems(3) have sp: "t \<le> now" "\<forall>v. snd (send v) \<le> ends" "\<forall>v. configured send v"
    "spaced (ends + 86400 * SECOND) rounds" unfolding round by simp_all
  obtain D' where D': "snd (process_due_alerts (\<lambda>_. True) cfg send False now wid 200 D) = D'"
    and q: "queue_ok (hook_attempts cfg) (alerts D')"
    and few: "length (filter (\<lambda>(i, r). alert_workspace r = wid) (alerts D')) \<le> 200"
    and look: "map_of (alerts D') i = Some (if alert_workspace r = wid \<and> is_due now r
         then outcome send (hook_attempts cfg) (hook_retry_base cfg) (i, r) else r)"
    using one_round [OF Cons.prems(1, 2) sp(3), of now] Cons.prems(4) by blast
  have run: "run_rounds cfg wid (round # rounds) D = run_rounds cfg wid rounds D'"
    unfolding round by (simp add: D')
  show ?case
  proof (cases "settled r")
    case True
    then have "\<not> is_due now r" by (auto simp: settled_def is_due_def)
    with look have "map_of (alerts D') i = Some r" by simp
    with True show ?thesis unfolding run
      by (intro Cons.IH [OF q few sp(4) _ Cons.prems(5)]) simp_all
  next
    case False
    with Cons.prems(6) have w: "delivery_status r \<in> {''pending'', ''retry''}"
      "\<forall>u. next_delivery r = Some u \<longrightarrow> u \<le> t"
      "max 1 (hook_attempts cfg) \<le> delivery_attempts r + 1 + int (length rounds)" by simp_all
    then have due: "is_due now r" using sp(1) by (auto simp: is_due_def split: option.split)
    define s where "s = outcome send (hook_attempts cfg) (hook_retry_base cfg) (i, r)"
    have s: "map_of (alerts D') i = Some s" using look due Cons.prems(5) by (simp add: s_def)
    have ws: "alert_workspace s = wid" using Cons.prems(5) by (simp add: s_def outcome_workspace)
    have ok: "row_ok (hook_attempts cfg) r" "row_ok (hook_attempts cfg) s"
      using queue_okD(2) [OF Cons.prems(1) Cons.prems(4)] queue_okD(2) [OF q s] .
    have c: "settled s \<or> delivery_status s = ''retry'' \<and> delivery_attempts s = delivery_attempts r + 1 \<and>
        (\<exists>t. next_delivery s = Some t \<and> t \<le> ends + 86400 * SECOND)"
      unfolding s_def using sp(2) by (intro outcome_cases [OF ok(1) w(1)]) blast
    have "delivery_status s = ''retry'' \<longrightarrow> delivery_attempts s < max 1 (hook_attempts cfg)"
      using ok(2) unfolding row_ok_def by (elim conjE disjE; simp)
    with c have "delivery_attempts s < max 1 (hook_attempts cfg) \<or> settled s" by blast
    moreover from c w(3) have "settled s \<or> delivery_status s \<in> {''pending'', ''retry''} \<and>
        (\<forall>u. next_delivery s = Some u \<longrightarrow> u \<le> ends + 86400 * SECOND) \<and>
        max 1 (hook_attempts cfg) \<le> delivery_attempts s + int (length rounds)" by auto
    ultimately show ?thesis unfolding run by (intro Cons.IH [OF q few sp(4) s ws])
  qed
qed

text \<open>
  C37: an alert that is due is delivered or dead-lettered after at most as many rounds of processing
  its workspace as attempts are configured, whatever each sending answers, provided that the
  workspace has at most 200 alerts, that each round takes a batch of 200 through a sender other than
  the webhook's own (whose configuration is checked first) and never finds the delivery
  unconfigured, and that a round starts at least a day after the last result of the previous one.
\<close>

theorem alerts_settle:
  assumes "alert_reach M D" and "hook_attempts cfg = M"
    and "map_of (alerts D) i = Some r" and "is_due t r"
    and "length (filter (\<lambda>(j, s). alert_workspace s = alert_workspace r) (alerts D)) \<le> 200"
    and "spaced t rounds" and "M \<le> int (length rounds)" and "rounds \<noteq> []"
  shows "\<exists>s. map_of (alerts (run_rounds cfg (alert_workspace r) rounds D)) i = Some s \<and>
    (delivery_status s = ''delivered'' \<or> delivery_status s = ''dead_letter'')"
proof -
  have q: "queue_ok (hook_attempts cfg) (alerts D)" using reach_queue [OF assms(1)] assms(2) by simp
  have ok: "row_ok (hook_attempts cfg) r" using q assms(3) by (rule queue_okD)
  have st: "delivery_status r \<in> {''pending'', ''retry''}" "\<forall>u. next_delivery r = Some u \<longrightarrow> u \<le> t"
    using assms(4) by (auto simp: is_due_def split: option.splits)
  have tries: "0 \<le> delivery_attempts r" "delivery_attempts r < max 1 (hook_attempts cfg)"
    using ok st(1) unfolding row_ok_def by (elim conjE disjE; simp)+
  have "1 \<le> int (length rounds)" using assms(8) by (cases rounds) simp_all
  then have "max 1 (hook_attempts cfg) \<le> delivery_attempts r + int (length rounds)"
    using assms(2, 7) tries(1) by simp
  with st tries(2) have "\<exists>s. map_of (alerts (run_rounds cfg (alert_workspace r) rounds D)) i = Some s \<and> settled s"
    by (intro rounds_settle [OF q assms(5) assms(6) assms(3) refl]) blast+
  then show ?thesis by (simp add: settled_def)
qed

definition queued_desk :: desk where
  "queued_desk = empty_desk\<lparr>alerts := [(''a1'', sample_alert)]\<rparr>"

lemma queued_reach: "alert_reach 2 queued_desk"
proof -
  have n: "alerts empty_desk = []" by (simp add: empty_desk_def)
  have "insert_alert ''a1'' ''w1'' (Some ''hypernative'') (Some ''e1'') sample_alert empty_desk =
      Some (((''a1'', sample_alert), False), queued_desk)"
    by (simp add: insert_alert_def find_event_def n queued_desk_def)
  then show ?thesis
    using alert_reach.insert [OF alert_reach.start [OF n], of "''a1''"] n by (simp add: sample_alert_def)
qed

lemma alerts_settle_witness:
  "\<exists>s. map_of (alerts (run_rounds sample_hook ''w1''
       [(20, 30, refusing), (200000000000, 200000000000, refusing)] queued_desk)) ''a1'' = Some s \<and>
    (delivery_status s = ''delivered'' \<or> delivery_status s = ''dead_letter'')"
proof -
  have ws: "alert_workspace sample_alert = ''w1''" by (simp add: sample_alert_def new_alert_def)
  have sp: "spaced 10 [(20, 30, refusing), (200000000000, 200000000000, refusing)]"
    by (simp add: refusing_def SECOND_def configured_def not_configured_def)
  have "\<exists>s. map_of (alerts (run_rounds sample_hook (alert_workspace sample_alert)
       [(20, 30, refusing), (200000000000, 200000000000, refusing)] queued_desk)) ''a1'' = Some s \<and>
    (delivery_status s = ''delivered'' \<or> delivery_status s = ''dead_letter'')"
    by (rule alerts_settle [OF queued_reach _ _ _ _ sp])
      (simp_all add: sample_hook_def queued_desk_def is_due_def sample_alert_def new_alert_def)
  then show ?thesis unfolding ws .
qed

text \<open>
  C16: processing a workspace always returns a result. Nothing is sent when the webhook is to be used
  and its configuration is refused; otherwise the due alerts are sent, oldest first, up to the first
  that finds the delivery unconfigured. The result counts and lists exactly the alerts sent, with
  their new states and errors, and names why the rest was skipped. Each alert sent has exactly the
  row promised for the outcome of its sending (delivered, a retry after the doubled delay, or dead
  letter after the last attempt); no other row changes.
\<close>

theorem delivery_exact:
  assumes "alert_reach M D"
  shows "let due = due_alerts D now wid limit;
      refusal = (if hook then webhook_refusal b cfg else None);
      sent = (if refusal = None then takeWhile (configured send) due else []);
      rest = (if refusal = None then dropWhile (configured send) due else due)
    in fst (process_due_alerts b cfg send hook now wid limit D) =
        Inr \<lparr>result_workspace = wid, processed = length sent, skipped = length rest,
          reason = (if refusal = None then map_option delivery_failure_code (first_failure send rest) else refusal),
          delivery_items = map (\<lambda>(i, r). \<lparr>item_id = i,
            item_result = delivery_status (promised_row (fst (send (i, r))) (snd (send (i, r)))
              (hook_attempts cfg) (hook_retry_base cfg) r),
            item_error = map_option delivery_failure_code (fst (send (i, r)))\<rparr>) sent\<rparr> \<and>
      list_all (\<lambda>(i, r). alert_workspace r = wid \<and> is_due now r \<and> map_of (alerts D) i = Some r) sent \<and>
      (\<forall>i. map_of (alerts (snd (process_due_alerts b cfg send hook now wid limit D))) i =
        (case map_of sent i of
           None \<Rightarrow> map_of (alerts D) i
         | Some r \<Rightarrow> Some (promised_row (fst (send (i, r))) (snd (send (i, r)))
             (hook_attempts cfg) (hook_retry_base cfg) r)))"
proof -
  note d = queue_okD(1) [OF reach_queue [OF assms]]
  let ?due = "due_alerts D now wid limit"
  have distinct_due: "distinct (map fst ?due)"
    using due_waiting [OF d, of now wid limit] unfolding waiting_def by simp
  have item: "(\<lambda>(i, r). \<lparr>item_id = i, item_result = delivery_status (promised_row (fst (send (i, r)))
      (snd (send (i, r))) (hook_attempts cfg) (hook_retry_base cfg) r),
      item_error = map_option delivery_failure_code (fst (send (i, r)))\<rparr>) =
    reported send (hook_attempts cfg) (hook_retry_base cfg)"
    by (simp add: fun_eq_iff reported_def outcome_promised)
  have rows: "alert_workspace (snd v) = wid \<and> is_due now (snd v) \<and> map_of (alerts D) (fst v) = Some (snd v)"
    if "v \<in> set ?due" for v
    using due_props [OF that] map_of_is_SomeI [OF d, of "fst v" "snd v"] by simp
  show ?thesis
  proof (cases "if hook then webhook_refusal b cfg else None")
    case (Some c)
    then show ?thesis using refused_result [of hook b cfg c] by simp
  next
    case None
    let ?sent = "takeWhile (configured send) ?due"
    have ds: "distinct (map fst ?sent)"
      using distinct_due by (metis append_take_drop_id distinct_append map_append takeWhile_eq_take)
    have "list_all (\<lambda>(i, r). alert_workspace r = wid \<and> is_due now r \<and> map_of (alerts D) i = Some r) ?sent"
      using rows set_takeWhileD [of _ "configured send" ?due] by (fastforce simp: list_all_iff)
    then show ?thesis
      unfolding Let_def None item accepted_result [OF d None]
      by (simp add: map_of_put_all [OF ds] outcome_promised cong: option.case_cong)
  qed
qed

lemma delivery_exact_witness:
  "fst (process_due_alerts (\<lambda>_. True) sample_hook refusing False 9 ''w1'' 50 queued_desk) =
     Inr \<lparr>result_workspace = ''w1'', processed = 1, skipped = 0, reason = None,
       delivery_items = [\<lparr>item_id = ''a1'', item_result = ''retry'', item_error = Some ''webhook_http_503''\<rparr>]\<rparr>"
proof -
  have due: "due_alerts queued_desk 9 ''w1'' 50 = [(''a1'', sample_alert)]"
    by (simp add: due_alerts_def queued_desk_def is_due_def sample_alert_def new_alert_def)
  show ?thesis
    using delivery_exact [OF queued_reach, of 9 "''w1''" 50 False "\<lambda>_. True" sample_hook refusing,
        unfolded Let_def due, THEN conjunct1]
    by (simp add: configured_def refusing_def first_failure_def promised_row_def sample_hook_def
        sample_alert_def new_alert_def delivery_failure_code_def)
qed

section \<open>The counters of the worker\<close>

lemma outcome_status:
  "delivery_status (outcome send M b v) \<in> {''delivered'', ''retry'', ''dead_letter''}"
  by (simp add: outcome_def delivered_def failed_def Let_def split: prod.split option.split)

lemma strip_status:
  "s \<in> {''delivered'', ''retry'', ''dead_letter''} \<Longrightarrow> py_strip s = s"
  by (elim insertE; simp; code_simp)

lemma counted_statuses:
  assumes "\<forall>x \<in> set xs. x \<in> {''delivered'', ''retry'', ''dead_letter''}"
  shows "length (filter (\<lambda>x. x = ''delivered'') xs) + length (filter (\<lambda>x. x = ''retry'') xs) +
    length (filter (\<lambda>x. x = ''dead_letter'') xs) = length xs"
  using assms by (induction xs) auto

definition reported_ok :: "delivery_result \<Rightarrow> bool" where
  "reported_ok r = (processed r = length (delivery_items r) \<and>
     (\<forall>i \<in> set (delivery_items r). item_result i \<in> {''delivered'', ''retry'', ''dead_letter''}))"

lemma process_reported:
  assumes "queue_ok M (alerts D)"
  shows "\<exists>res. fst (process_due_alerts b cfg send hook now wid limit D) = Inr res \<and> reported_ok res"
proof -
  obtain sent rest res where p: "fst (process_due_alerts b cfg send hook now wid limit D) = Inr res"
    "processed res = length sent"
    "delivery_items res = map (reported send (hook_attempts cfg) (hook_retry_base cfg)) sent"
    by (rule process_exact [OF queue_okD(1) [OF assms], of now wid limit b cfg send hook]) blast
  then have "reported_ok res" unfolding reported_ok_def using outcome_status
    by (simp add: reported_def)
  with p(1) show ?thesis by blast
qed

lemma run_workspaces_reported:
  assumes "queue_ok M (alerts D)" and "hook_attempts cfg = M"
  shows "\<exists>rs. fst (run_workspaces b cfg send now batch ws D) = Inr rs \<and> length rs = length ws \<and>
    list_all reported_ok rs"
  using assms(1)
proof (induction ws arbitrary: D)
  case (Cons w ws)
  obtain r where r: "fst (process_due_alerts b cfg send True now w batch D) = Inr r" "reported_ok r"
    using process_reported [OF Cons.prems] by blast
  obtain D1 where D1: "process_due_alerts b cfg send True now w batch D = (Inr r, D1)"
    using r(1) by (metis prod.collapse)
  have "queue_ok M (alerts D1)" using process_ok [OF Cons.prems assms(2), of b send True now w batch] D1 by simp
  from Cons.IH [OF this] r(2) show ?case by (auto simp: D1)
qed simp

lemma outcomes_known:
  "list_all reported_ok rs \<Longrightarrow> length (outcomes rs) = sum_list (map processed rs) \<and>
   (\<forall>x \<in> set (outcomes rs). x \<in> {''delivered'', ''retry'', ''dead_letter''})"
proof (induction rs)
  case (Cons r rs)
  have "outcomes (r # rs) = map (\<lambda>i. py_strip (item_result i)) (delivery_items r) @ outcomes rs"
    by (simp add: outcomes_def)
  moreover have "py_strip (item_result i) \<in> {''delivered'', ''retry'', ''dead_letter''}"
    if "i \<in> set (delivery_items r)" for i
  proof -
    have "item_result i \<in> {''delivered'', ''retry'', ''dead_letter''}"
      using Cons.prems that by (simp add: reported_ok_def)
    with strip_status [OF this] show ?thesis by metis
  qed
  ultimately show ?case using Cons by (auto simp: reported_ok_def)
qed (simp add: outcomes_def)

text \<open>
  C38: one cycle of the worker always returns one result per workspace with a due alert, and in the
  summary it logs every processed alert is counted exactly once, as delivered, retried or dead.
\<close>

theorem worker_cycle_counted:
  assumes "alert_reach M D" and "hook_attempts cfg = M"
  shows "\<exists>rs. fst (run_once b cfg send now limit batch D) = Inr rs \<and>
    workspace_count (delivery_log_summary rs) = length (due_alert_workspace_ids D now limit) \<and>
    log_delivered (delivery_log_summary rs) + log_retry (delivery_log_summary rs) +
      log_dead (delivery_log_summary rs) = log_processed (delivery_log_summary rs)"
proof -
  obtain rs where rs: "fst (run_once b cfg send now limit batch D) = Inr rs"
    "length rs = length (due_alert_workspace_ids D now limit)" "list_all reported_ok rs"
    using run_workspaces_reported [OF reach_queue [OF assms(1)] assms(2)] unfolding run_once_def by blast
  have "length (outcomes rs) = sum_list (map processed rs)"
    "\<forall>x \<in> set (outcomes rs). x \<in> {''delivered'', ''retry'', ''dead_letter''}"
    using outcomes_known [OF rs(3)] by blast+
  then have "log_delivered (delivery_log_summary rs) + log_retry (delivery_log_summary rs) +
      log_dead (delivery_log_summary rs) = log_processed (delivery_log_summary rs)"
    using counted_statuses [of "outcomes rs"] by (simp add: delivery_log_summary_def)
  with rs show ?thesis by (auto simp: delivery_log_summary_def)
qed

lemma worker_cycle_counted_witness:
  "\<exists>rs. fst (run_once (\<lambda>_. True) sample_hook refusing 9 100 50 queued_desk) = Inr rs"
proof -
  have "hook_attempts sample_hook = 2" by (simp add: sample_hook_def)
  then show ?thesis using worker_cycle_counted [OF queued_reach] by blast
qed

section \<open>Two deliveries of one event at once\<close>

text \<open>
  A repetition that the look-up finds is counted. When both transactions look up before either
  commits, the second one is answered as a duplicate and its occurrence is lost.
\<close>

lemma raced_duplicate_uncounted:
  assumes "given pr" and "given k" and "find_event wid pr k (alerts D) = None"
    and "find_event wid pr k (alerts E) = Some (j, r)"
  shows "create_alert i now wid m a l p pr k D E = Some (((j, r), True), E)"
    and "create_alert i now wid m a l p pr k E E = Some (((j, r\<lparr>occurrence_count := or_one (occurrence_count r) + 1,
      last_seen := now, alert_updated := now\<rparr>), True),
      E\<lparr>alerts := AList.update j (r\<lparr>occurrence_count := or_one (occurrence_count r) + 1,
        last_seen := now, alert_updated := now\<rparr>) (alerts E)\<rparr>)"
  using assms by (simp_all add: create_alert_def insert_alert_def Let_def)

end
