(* ===== verification/Json.thy ===== *)
theory Json
  imports ReleaseBase
begin

text \<open>
  The JSON of Python's \<open>json\<close> module as the services use it: \<open>loads\<close> on texts and on the bytes of a
  token, and \<open>dumps\<close> with compact separators and sorted keys, with and without escaping of
  characters outside ASCII. A text that could name a code point above 255, and bytes that are not
  plain ASCII, go to the parameter \<open>wide\<close>, which stands for \<open>loads\<close> itself there. The limit of the
  interpreter on nesting is not modelled.
\<close>

section \<open>Scanning\<close>

definition json_ws :: "char \<Rightarrow> bool" where
  "json_ws c = (code c \<in> {9, 10, 13, 32})"

definition skip :: "string \<Rightarrow> string" where
  "skip s = dropWhile json_ws s"

definition unescape :: "char \<Rightarrow> char option" where
  "unescape e =
     (let n = code e in
      if n \<in> {34, 92, 47} then Some e
      else if n = 98 then Some (char_of (8 :: nat))
      else if n = 102 then Some (char_of (12 :: nat))
      else if n = 110 then Some (char_of (10 :: nat))
      else if n = 114 then Some (char_of (13 :: nat))
      else if n = 116 then Some (char_of (9 :: nat))
      else None)"

text \<open>The rest of a string literal behind its opening quote.\<close>

function scan_string :: "string \<Rightarrow> (string \<times> string) option" where
  "scan_string [] = None"
| "scan_string (c # cs) =
     (if code c = 34 then Some ([], cs)
      else if code c = 92 then
        (case cs of
           [] \<Rightarrow> None
         | e # r \<Rightarrow>
             if e = CHR ''u'' then
               (if length r < 4 \<or> \<not> is_hex (take 4 r) \<or> 256 \<le> hex_value (take 4 r) then None
                else map_option (apfst (Cons (char_of (hex_value (take 4 r))))) (scan_string (drop 4 r)))
             else (case unescape e of
                 None \<Rightarrow> None
               | Some x \<Rightarrow> map_option (apfst (Cons x)) (scan_string r)))
      else if code c < 32 then None
      else map_option (apfst (Cons c)) (scan_string cs))"
  by pat_completeness auto
termination by (relation "measure length") auto

text \<open>An optional fraction and an optional exponent, and the text behind them.\<close>

definition scan_fraction :: "string \<Rightarrow> string \<times> string" where
  "scan_fraction s =
     (case s of
        [] \<Rightarrow> ([], [])
      | c # cs \<Rightarrow>
          if c = CHR ''.'' \<and> takeWhile ascii_digit cs \<noteq> []
          then (c # takeWhile ascii_digit cs, dropWhile ascii_digit cs) else ([], s))"

definition scan_exponent :: "string \<Rightarrow> string \<times> string" where
  "scan_exponent s =
     (case s of
        [] \<Rightarrow> ([], [])
      | c # cs \<Rightarrow>
          let sign = (case cs of [] \<Rightarrow> [] | g # _ \<Rightarrow> if g = CHR ''+'' \<or> g = CHR ''-'' then [g] else []);
              ds = takeWhile ascii_digit (drop (length sign) cs)
          in if (c = CHR ''e'' \<or> c = CHR ''E'') \<and> ds \<noteq> []
             then (c # sign @ ds, drop (length sign + length ds) cs) else ([], s))"

definition scan_integer :: "string \<Rightarrow> string \<times> string" where
  "scan_integer s =
     (case s of
        [] \<Rightarrow> ([], [])
      | c # cs \<Rightarrow> if c = CHR ''0'' then ([c], cs) else (takeWhile ascii_digit s, dropWhile ascii_digit s))"

definition number_value :: "bool \<Rightarrow> string \<Rightarrow> string \<Rightarrow> string \<Rightarrow> pyval option" where
  "number_value neg ints fracs expo =
     (if fracs = [] \<and> expo = [] then
        (if int_max_str_digits < length ints then None
         else Some (VInt (if neg then - int (dec_value ints) else int (dec_value ints))))
      else map_option (\<lambda>r. VFloat (fl (if neg then - r else r))) (decimal_of (ints @ fracs @ expo)))"

definition scan_number :: "string \<Rightarrow> (pyval \<times> string) option" where
  "scan_number s =
     (let neg = starts_with ''-'' s; body = (if neg then drop 1 s else s);
          (ints, r1) = scan_integer body; (fracs, r2) = scan_fraction r1; (expo, r3) = scan_exponent r2
      in if ints = [] then None
         else map_option (\<lambda>v. (v, r3)) (number_value neg ints fracs expo))"

definition JSON_WORDS :: "(string \<times> pyval) list" where
  "JSON_WORDS = [(''null'', VNone), (''true'', VBool True), (''false'', VBool False),
     (''NaN'', VFloat NaN), (''Infinity'', VFloat PosInf), (''-Infinity'', VFloat NegInf)]"

definition scan_atom :: "string \<Rightarrow> (pyval \<times> string) option" where
  "scan_atom s =
     (case find (\<lambda>(w, v). starts_with w s) JSON_WORDS of
        Some (w, v) \<Rightarrow> Some (v, drop (length w) s)
      | None \<Rightarrow> scan_number s)"

text \<open>Each call is on a shorter text, or reads a value in front of an item, so that two units of fuel per
  character are enough.\<close>

fun scan_value :: "nat \<Rightarrow> string \<Rightarrow> (pyval \<times> string) option"
  and scan_members :: "nat \<Rightarrow> pydict \<Rightarrow> string \<Rightarrow> (pyval \<times> string) option"
  and scan_items :: "nat \<Rightarrow> pyval list \<Rightarrow> string \<Rightarrow> (pyval \<times> string) option" where
  "scan_value 0 s = None"
| "scan_value (Suc n) s =
     (case s of
        [] \<Rightarrow> None
      | c # cs \<Rightarrow>
          if code c = 34 then map_option (apfst VStr) (scan_string cs)
          else if c = CHR 0x7B then
            (case skip cs of
               [] \<Rightarrow> None
             | e # r \<Rightarrow> if e = CHR 0x7D then Some (VDict [], r) else scan_members n [] (e # r))
          else if c = CHR ''['' then
            (case skip cs of
               [] \<Rightarrow> None
             | e # r \<Rightarrow> if e = CHR '']'' then Some (VList [], r) else scan_items n [] (e # r))
          else scan_atom (c # cs))"
| "scan_members 0 d s = None"
| "scan_members (Suc n) d s =
     (case s of
        [] \<Rightarrow> None
      | q # cs \<Rightarrow>
          if code q \<noteq> 34 then None
          else (case scan_string cs of
              None \<Rightarrow> None
            | Some (k, r) \<Rightarrow>
                (case skip r of
                   [] \<Rightarrow> None
                 | e # r1 \<Rightarrow>
                     if e \<noteq> CHR '':'' then None
                     else (case scan_value n (skip r1) of
                         None \<Rightarrow> None
                       | Some (v, r2) \<Rightarrow>
                           (case skip r2 of
                              [] \<Rightarrow> None
                            | e2 # r3 \<Rightarrow>
                                if e2 = CHR '','' then scan_members n (dict_set k v d) (skip r3)
                                else if e2 = CHR 0x7D then Some (VDict (dict_set k v d), r3)
                                else None)))))"
| "scan_items 0 xs s = None"
| "scan_items (Suc n) xs s =
     (case scan_value n s of
        None \<Rightarrow> None
      | Some (v, r) \<Rightarrow>
          (case skip r of
             [] \<Rightarrow> None
           | e # r1 \<Rightarrow>
               if e = CHR '','' then scan_items n (xs @ [v]) (skip r1)
               else if e = CHR '']'' then Some (VList (xs @ [v]), r1)
               else None))"

definition parse_json :: "string \<Rightarrow> pyval py" where
  "parse_json s =
     (case scan_value (Suc (2 * length s)) (skip s) of
        None \<Rightarrow> Inl ValueError
      | Some (v, r) \<Rightarrow> if skip r = [] then Inr v else Inl ValueError)"

text \<open>Every escape \<open>u\<close> is followed by two zeros.\<close>

function narrow_escapes :: "string \<Rightarrow> bool" where
  "narrow_escapes [] = True"
| "narrow_escapes (c # cs) =
     (if code c \<noteq> 92 then narrow_escapes cs
      else (case cs of
          [] \<Rightarrow> True
        | e # r \<Rightarrow> (e = CHR ''u'' \<longrightarrow> starts_with ''00'' r) \<and> narrow_escapes r))"
  by pat_completeness auto
termination by (relation "measure length") auto

definition json_loads :: "(string \<Rightarrow> pyval py) \<Rightarrow> string \<Rightarrow> pyval py" where
  "json_loads wide s = (if narrow_escapes s then parse_json s else wide s)"

text \<open>\<open>loads\<close> of bytes, given as the text of their code points.\<close>

definition json_loads_bytes :: "(string \<Rightarrow> pyval py) \<Rightarrow> string \<Rightarrow> pyval py" where
  "json_loads_bytes wide b =
     (if list_all (\<lambda>c. 0 < code c \<and> code c < 128) b \<and> narrow_escapes b then parse_json b else wide b)"

section \<open>Dumping\<close>

text \<open>\<open>ensure_ascii=True\<close>.\<close>

definition json_char_ascii :: "char \<Rightarrow> string" where
  "json_char_ascii c =
     (if 126 < code c then CHR 0x5C # CHR ''u'' # hexw 4 (code c) else json_char c)"

definition quoted :: "(char \<Rightarrow> string) \<Rightarrow> string \<Rightarrow> string" where
  "quoted jc s = CHR 0x22 # concat (map jc s) @ [CHR 0x22]"

fun dumps_with :: "(char \<Rightarrow> string) \<Rightarrow> (pyfloat \<Rightarrow> string) \<Rightarrow> pyval \<Rightarrow> string" where
  "dumps_with jc frep VNone = ''null''"
| "dumps_with jc frep (VBool b) = (if b then ''true'' else ''false'')"
| "dumps_with jc frep (VInt n) = int_text n"
| "dumps_with jc frep (VFloat x) = frep x"
| "dumps_with jc frep (VStr s) = quoted jc s"
| "dumps_with jc frep (VList vs) = CHR ''['' # join '','' (map (dumps_with jc frep) vs) @ [CHR '']'']"
| "dumps_with jc frep (VDict d) = CHR 0x7B #
     join '','' (map (\<lambda>(k, t). quoted jc k @ CHR '':'' # t)
       (sort_key fst (map (\<lambda>p. (fst p, dumps_with jc frep (snd p))) d))) @ [CHR 0x7D]"

definition ascii_json :: "(pyfloat \<Rightarrow> string) \<Rightarrow> pydict \<Rightarrow> string" where
  "ascii_json frep d = dumps_with json_char_ascii frep (VDict d)"

lemma json_text_dumps: "json_text frep v = dumps_with json_char frep v"
proof (induction v rule: json_text.induct [of _ frep])
  case (6 frep vs)
  have eq: "map (json_text frep) vs = map (dumps_with json_char frep) vs" using 6 by (rule map_cong [OF refl])
  show ?case by (simp only: json_text.simps dumps_with.simps eq)
next
  case (7 frep d)
  have eq: "map (\<lambda>p. (fst p, json_text frep (snd p))) d = map (\<lambda>p. (fst p, dumps_with json_char frep (snd p))) d"
    using 7 by (intro map_cong refl) simp
  show ?case by (simp only: json_text.simps dumps_with.simps eq json_string_def quoted_def)
qed (simp_all add: json_string_def quoted_def)

section \<open>Fuel\<close>

lemma length_skip: "length (skip s) \<le> length s"
  by (simp add: skip_def length_dropWhile_le)

lemma skip_shorter: "skip s = c # r \<Longrightarrow> length r < length s"
  using length_skip [of s] by simp

lemma scan_string_shorter: "scan_string s = Some (k, r) \<Longrightarrow> length r < length s"
proof (induction s arbitrary: k r rule: scan_string.induct)
  case (2 c cs)
  show ?case
  proof (cases "code c = 34")
    case True
    with 2(4) show ?thesis by simp
  next
    case q: False
    show ?thesis
    proof (cases "code c = 92")
      case True
      then obtain e u where cs: "cs = e # u" using 2(4) by (cases cs) simp_all
      show ?thesis
      proof (cases "e = CHR ''u''")
        case e: True
        with 2(4) True cs have big: "\<not> (length u < 4 \<or> \<not> is_hex (take 4 u) \<or> 256 \<le> hex_value (take 4 u))"
          by (auto split: if_splits)
        with 2(4) True e cs obtain k' where "scan_string (drop 4 u) = Some (k', r)" by (auto split: if_splits)
        with 2(1) [OF q True cs e big] show ?thesis by (simp add: cs)
      next
        case e: False
        then obtain x where x: "unescape e = Some x" using 2(4) True cs by (cases "unescape e") simp_all
        with 2(4) True e cs obtain k' where "scan_string u = Some (k', r)" by auto
        with 2(2) [OF q True cs e x] show ?thesis by (simp add: cs)
      qed
    next
      case b: False
      with 2(4) q have w: "\<not> code c < 32" by auto
      with 2(4) q b obtain k' where "scan_string cs = Some (k', r)" by auto
      with 2(3) [OF q b w] show ?thesis by simp
    qed
  qed
qed simp

lemma scan_integer_split: "scan_integer s = (i, r) \<Longrightarrow> s = i @ r"
  by (cases s) (auto simp: scan_integer_def split: if_splits)

lemma scan_fraction_split: "scan_fraction s = (i, r) \<Longrightarrow> s = i @ r"
  by (cases s) (auto simp: scan_fraction_def split: if_splits)

lemma scan_exponent_length: "scan_exponent s = (i, r) \<Longrightarrow> length r \<le> length s"
  by (cases s) (auto simp: scan_exponent_def Let_def split: if_splits)

lemma scan_number_shorter: "scan_number s = Some (v, r) \<Longrightarrow> length r < length s"
proof -
  assume n: "scan_number s = Some (v, r)"
  obtain body where body: "body = (if starts_with ''-'' s then drop 1 s else s)" by blast
  obtain ints r1 where i: "scan_integer body = (ints, r1)" by (cases "scan_integer body")
  obtain fracs r2 where f: "scan_fraction r1 = (fracs, r2)" by (cases "scan_fraction r1")
  obtain expo r3 where e: "scan_exponent r2 = (expo, r3)" by (cases "scan_exponent r2")
  from n i f e have "ints \<noteq> []" "r = r3"
    unfolding scan_number_def Let_def body [symmetric] by (auto split: if_splits)
  moreover have "length body \<le> length s" by (simp add: body)
  ultimately show ?thesis using scan_integer_split [OF i] scan_fraction_split [OF f] scan_exponent_length [OF e]
    by (cases ints) simp_all
qed

lemma scan_atom_shorter:
  assumes "scan_atom s = Some (v, r)"
  shows "length r < length s"
proof (cases "find (\<lambda>(w, v). starts_with w s) JSON_WORDS")
  case None
  with assms scan_number_shorter show ?thesis by (simp add: scan_atom_def)
next
  case (Some p)
  obtain w x where p: "p = (w, x)" by (cases p)
  have w: "(w, x) \<in> set JSON_WORDS" "starts_with w s"
    using Some by (auto simp: p find_Some_iff dest: nth_mem)
  from w(1) have "w \<noteq> []" by (auto simp: JSON_WORDS_def)
  moreover from w(2) have "length w \<le> length s"
    by (simp add: starts_with_def) (metis length_take min.cobounded1)
  moreover have "r = drop (length w) s" using assms Some by (simp add: scan_atom_def p)
  ultimately show ?thesis by (cases w) auto
qed

lemma scan_shorter:
  "scan_value n s = Some (v, r) \<Longrightarrow> length r < length s"
  "scan_members n d s = Some (v, r) \<Longrightarrow> length r < length s"
  "scan_items n xs s = Some (v, r) \<Longrightarrow> length r < length s"
proof (induction n s and n d s and n xs s arbitrary: v r and v r and v r
    rule: scan_value_scan_members_scan_items.induct)
  case (2 n s)
  then obtain c cs where s: "s = c # cs" by (cases s) simp_all
  from 2(3) consider
      k where "scan_string cs = Some (k, r)"
    | e where "skip cs = e # r"
    | e u where "c = CHR 0x7B" "code c \<noteq> 34" "skip cs = e # u" "e \<noteq> CHR 0x7D" "scan_members n [] (e # u) = Some (v, r)"
    | e u where "c = CHR ''[''" "code c \<noteq> 34" "skip cs = e # u" "e \<noteq> CHR '']''" "scan_items n [] (e # u) = Some (v, r)"
    | "scan_atom s = Some (v, r)"
    by (auto simp: s split: if_splits list.splits)
  then show ?case
  proof cases
    case 1
    with scan_string_shorter show ?thesis by (simp add: s less_SucI)
  next
    case 2
    with skip_shorter show ?thesis by (simp add: s less_SucI)
  next
    case (3 e u)
    then have "length r < length (e # u)" using 2(1) [OF s] by auto
    with length_skip [of cs] 3(3) show ?thesis by (simp add: s)
  next
    case (4 e u)
    then have "length r < length (e # u)" using 2(2) [OF s] by auto
    with length_skip [of cs] 4(3) show ?thesis by (simp add: s)
  next
    case 5
    with scan_atom_shorter show ?thesis by blast
  qed
next
  case (4 n d s)
  from 4(3) obtain q cs k r0 r1 x r2 e r3 where s: "s = q # cs" "code q = 34" "scan_string cs = Some (k, r0)"
    "skip r0 = CHR '':'' # r1" "scan_value n (skip r1) = Some (x, r2)" "skip r2 = e # r3"
    and last: "e = CHR '','' \<and> scan_members n (dict_set k x d) (skip r3) = Some (v, r) \<or>
       e \<noteq> CHR '','' \<and> r = r3"
    by (auto split: list.split_asm if_split_asm option.split_asm)
  have "length r2 < length (skip r1)" using 4(1) s by auto
  moreover have "e = CHR '','' \<Longrightarrow> length r < length (skip r3)" using 4(2) s last by auto
  ultimately show ?case
    using last scan_string_shorter [OF s(3)] skip_shorter [OF s(4)] skip_shorter [OF s(6)] length_skip [of r1]
      length_skip [of r3] s(1) by auto
next
  case (6 n xs s)
  from 6(3) obtain x r2 e r3 where s: "scan_value n s = Some (x, r2)" "skip r2 = e # r3"
    and last: "e = CHR '','' \<and> scan_items n (xs @ [x]) (skip r3) = Some (v, r) \<or> e \<noteq> CHR '','' \<and> r = r3"
    by (auto split: list.split_asm if_split_asm option.split_asm)
  have "length r2 < length s" using 6(1) s by auto
  moreover have "e = CHR '','' \<Longrightarrow> length r < length (skip r3)" using 6(2) s last by auto
  ultimately show ?case using last skip_shorter [OF s(2)] length_skip [of r3] by auto
qed simp_all

text \<open>More fuel than twice the length of the text changes nothing.\<close>

lemma scan_fuel:
  "2 * length s < n \<Longrightarrow> 2 * length s < m \<Longrightarrow> scan_value n s = scan_value m s"
  "2 * length s < n \<Longrightarrow> 2 * length s < m \<Longrightarrow> scan_members n d s = scan_members m d s"
  "2 * length s + 1 < n \<Longrightarrow> 2 * length s + 1 < m \<Longrightarrow> scan_items n xs s = scan_items m xs s"
proof (induction n s and n d s and n xs s arbitrary: m and m and m
    rule: scan_value_scan_members_scan_items.induct)
  case (2 n s)
  obtain k where m: "m = Suc k" using 2(4) by (cases m) simp_all
  have sub: "2 * length (e # u) + 1 < n \<and> 2 * length (e # u) + 1 < k" if "s = c # cs" "skip cs = e # u" for c cs e u
    using that 2(3,4) length_skip [of cs] m by simp
  show ?case
  proof (cases s)
    case Nil
    then show ?thesis by (simp add: m)
  next
    case (Cons c cs)
    have a: "scan_members n [] (e # u) = scan_members k [] (e # u)"
      if "code c \<noteq> 34" "c = CHR 0x7B" "skip cs = e # u" "e \<noteq> CHR 0x7D" for e u
      using sub [OF Cons that(3)] by (intro 2(1) [OF Cons that]) simp_all
    have b: "scan_items n [] (e # u) = scan_items k [] (e # u)"
      if "code c \<noteq> 34" "c \<noteq> CHR 0x7B" "c = CHR ''[''" "skip cs = e # u" "e \<noteq> CHR '']''" for e u
      using sub [OF Cons that(4)] by (intro 2(2) [OF Cons that]) simp_all
    show ?thesis
    proof (cases "skip cs")
      case Nil
      then show ?thesis by (simp add: m Cons)
    next
      case e: (Cons e u)
      from a [OF _ _ e] b [OF _ _ _ e] show ?thesis by (auto simp: m Cons e)
    qed
  qed
next
  case (4 n d s)
  obtain k where m: "m = Suc k" using 4(4) by (cases m) simp_all
  show ?case
  proof (cases s)
    case Nil
    then show ?thesis by (simp add: m)
  next
    case s: (Cons q cs)
    show ?thesis
    proof (cases "code q = 34 \<and> scan_string cs \<noteq> None")
      case False
      then show ?thesis by (cases "scan_string cs") (simp_all add: m s)
    next
      case True
      then obtain x r0 where x: "code q = 34" "scan_string cs = Some (x, r0)" by auto
      show ?thesis
      proof (cases "\<exists>r1. skip r0 = CHR '':'' # r1")
        case False
        then show ?thesis by (cases "skip r0") (auto simp: m s x)
      next
        case True
        then obtain r1 where r1: "skip r0 = CHR '':'' # r1" by blast
        have l: "2 * length (skip r1) < n" "2 * length (skip r1) < k"
          using scan_string_shorter [OF x(2)] skip_shorter [OF r1] length_skip [of r1] 4(3,4) s m by auto
        have v: "scan_value n (skip r1) = scan_value k (skip r1)"
          by (rule 4(1) [OF s _ x(2) refl r1 _ l]) (simp_all add: x)
        show ?thesis
        proof (cases "scan_value k (skip r1)")
          case None
          then show ?thesis by (simp add: m s x r1 v)
        next
          case (Some p)
          then obtain y r2 where y: "scan_value k (skip r1) = Some (y, r2)" by (cases p) simp
          show ?thesis
          proof (cases "\<exists>r3. skip r2 = CHR '','' # r3")
            case False
            then show ?thesis by (cases "skip r2") (auto simp: m s x r1 v y)
          next
            case True
            then obtain r3 where r3: "skip r2 = CHR '','' # r3" by blast
            have "2 * length (skip r3) < n" "2 * length (skip r3) < k"
              using scan_shorter(1) [OF y] skip_shorter [OF r3] length_skip [of r3] l by auto
            then have "scan_members n (dict_set x y d) (skip r3) = scan_members k (dict_set x y d) (skip r3)"
              by (intro 4(2) [OF s _ x(2) refl r1 _ _ refl r3]) (simp_all add: x v y)
            then show ?thesis by (simp add: m s x r1 v y r3)
          qed
        qed
      qed
    qed
  qed
next
  case (6 n xs s)
  obtain k where m: "m = Suc k" using 6(4) by (cases m) simp_all
  have v: "scan_value n s = scan_value k s" using 6(3,4) m by (intro 6(1)) simp_all
  show ?case
  proof (cases "scan_value k s")
    case None
    then show ?thesis by (simp add: m v)
  next
    case (Some p)
    then obtain y r2 where y: "scan_value k s = Some (y, r2)" by (cases p) simp
    show ?thesis
    proof (cases "\<exists>r3. skip r2 = CHR '','' # r3")
      case False
      then show ?thesis by (cases "skip r2") (auto simp: m v y)
    next
      case True
      then obtain r3 where r3: "skip r2 = CHR '','' # r3" by blast
      have "2 * length (skip r3) + 1 < n" "2 * length (skip r3) + 1 < k"
        using scan_shorter(1) [OF y] skip_shorter [OF r3] length_skip [of r3] 6(3,4) m by auto
      then have "scan_items n (xs @ [y]) (skip r3) = scan_items k (xs @ [y]) (skip r3)"
        by (intro 6(2) [OF _ refl r3]) (simp_all add: v y)
      then show ?thesis by (simp add: m v y r3)
    qed
  qed
qed simp_all

section \<open>Escapes\<close>

text \<open>What a way of escaping must satisfy to be undone by the scanner.\<close>

locale json_escape =
  fixes jc :: "char \<Rightarrow> string"
  assumes scan_escape: "scan_string (jc c @ t) = map_option (apfst (Cons c)) (scan_string t)"
    and narrow_escape: "narrow_escapes (jc c @ t) = narrow_escapes t"
begin

lemma scan_quoted: "scan_string (concat (map jc s) @ CHR 0x22 # t) = Some (s, t)"
proof (induction s)
  case Nil
  then show ?case by (simp add: code_def)
next
  case (Cons c s)
  then show ?case by (simp add: scan_escape)
qed

lemma narrow_quoted: "narrow_escapes (quoted jc s @ t) = narrow_escapes t"
proof -
  have "narrow_escapes (concat (map jc s) @ CHR 0x22 # t) = narrow_escapes t"
    by (induction s) (simp_all add: narrow_escape code_def)
  then show ?thesis by (simp add: quoted_def code_def)
qed

end

lemma narrow_plain: "list_all (\<lambda>c. code c \<noteq> 92) s \<Longrightarrow> narrow_escapes (s @ t) = narrow_escapes t"
  by (induction s) simp_all

lemma hexw_zeros: "n < 256 \<Longrightarrow> hexw 4 n = ''00'' @ hexw 2 n"
proof -
  assume n: "n < 256"
  from n have "n div 16 div 16 = 0" by simp
  then have "hexw 2 (n div 16 div 16) = ''00''" by (simp only: hexw_zero) (simp add: numeral_2_eq_2)
  moreover have "hexw 4 n = hexw 2 (n div 16 div 16) @ hexw 2 n"
    using hexw_add [of 2 2 n] by (simp add: div_mult2_eq [of n 16 16, simplified])
  ultimately show ?thesis by (simp only:)
qed

lemma code_special: "code (CHR 0x5C) = 92" "code (CHR 0x22) = 34" "code (CHR ''b'') = 98"
  "code (CHR ''t'') = 116" "code (CHR ''n'') = 110" "code (CHR ''f'') = 102" "code (CHR ''r'') = 114"
  by (simp_all add: code_def)

lemma unicode_escape:
  "scan_string (CHR 0x5C # CHR ''u'' # hexw 4 (code c) @ t) = map_option (apfst (Cons c)) (scan_string t)"
  "narrow_escapes (CHR 0x5C # CHR ''u'' # hexw 4 (code c) @ t) = narrow_escapes t"
proof -
  have h: "hex_value (hexw 4 (code c)) = code c"
    unfolding hex_value_hexw by (rule mod_less) (use order_less_trans [OF code_less [of c], of 65536] in simp)
  obtain w where w: "w = hexw 4 (code c)" by blast
  have p: "length w = 4" "is_hex w" "hex_value w = code c" unfolding w by (simp_all add: h del: hex_value_hexw)
  have "scan_string (CHR 0x5C # CHR ''u'' # w @ t) = map_option (apfst (Cons c)) (scan_string t)"
    using p not_le [THEN iffD2, OF code_less [of c]] by (simp only: scan_string.simps code_special) (simp add: p)
  then show "scan_string (CHR 0x5C # CHR ''u'' # hexw 4 (code c) @ t) = map_option (apfst (Cons c)) (scan_string t)"
    unfolding w .
  obtain v where v: "v = hexw 2 (code c)" by blast
  have "is_hex v" by (simp add: v)
  then have "list_all (\<lambda>c. code c \<noteq> 92) v"
    by (auto simp: is_hex_def list_all_iff is_digit_def digit_val_def split: if_splits)
  then have "narrow_escapes (CHR 0x5C # CHR ''u'' # ''00'' @ v @ t) = narrow_escapes t"
    using narrow_plain [of v t] by (simp add: starts_with_def code_special code_def)
  then show "narrow_escapes (CHR 0x5C # CHR ''u'' # hexw 4 (code c) @ t) = narrow_escapes t"
    using code_less [of c] by (simp only: hexw_zeros v append_assoc)
qed

text \<open>Both ways of escaping do.\<close>

lemma char_is: "code c = code d \<Longrightarrow> c = d"
  by (simp only: code_eq_iff)

lemma json_char_cases:
  obtains (short) e where "json_char c = [CHR 0x5C, e]" "e \<noteq> CHR ''u''" "unescape e = Some c"
  | (unicode) "json_char c = CHR 0x5C # CHR ''u'' # hexw 4 (code c)"
  | (plain) "json_char c = [c]" "code c \<noteq> 34" "code c \<noteq> 92" "32 \<le> code c"
proof -
  have c: "char_of (code c) = c" by simp
  consider "code c = 34" | "code c = 92" | "code c = 8" | "code c = 9" | "code c = 10" | "code c = 12"
    | "code c = 13" | "code c \<notin> {34, 92, 8, 9, 10, 12, 13}" "code c < 32"
    | "code c \<notin> {34, 92}" "32 \<le> code c" by fastforce
  then show thesis
  proof cases
    case 1
    then have "c = CHR 0x22" by (intro char_is) (simp add: code_special)
    with 1 show ?thesis by (intro short [of "CHR 0x22"]) (simp_all add: json_char_def unescape_def code_special)
  next
    case 2
    then have "c = CHR 0x5C" by (intro char_is) (simp add: code_special)
    with 2 show ?thesis by (intro short [of "CHR 0x5C"]) (simp_all add: json_char_def unescape_def code_special)
  next
    case 3
    with c show ?thesis by (intro short [of "CHR ''b''"]) (simp_all add: json_char_def unescape_def code_special)
  next
    case 4
    with c show ?thesis by (intro short [of "CHR ''t''"]) (simp_all add: json_char_def unescape_def code_special)
  next
    case 5
    with c show ?thesis by (intro short [of "CHR ''n''"]) (simp_all add: json_char_def unescape_def code_special)
  next
    case 6
    with c show ?thesis by (intro short [of "CHR ''f''"]) (simp_all add: json_char_def unescape_def code_special)
  next
    case 7
    with c show ?thesis by (intro short [of "CHR ''r''"]) (simp_all add: json_char_def unescape_def code_special)
  next
    case 8
    then show ?thesis by (intro unicode) (simp add: json_char_def)
  next
    case 9
    then show ?thesis by (intro plain) (simp_all add: json_char_def)
  qed
qed

lemma json_char_laws:
  "scan_string (json_char c @ t) = map_option (apfst (Cons c)) (scan_string t)"
  "narrow_escapes (json_char c @ t) = narrow_escapes t"
proof -
  have "scan_string (json_char c @ t) = map_option (apfst (Cons c)) (scan_string t) \<and>
    narrow_escapes (json_char c @ t) = narrow_escapes t"
  proof (cases c rule: json_char_cases)
    case (short e)
    then show ?thesis by (simp add: code_special)
  next
    case unicode
    then show ?thesis using unicode_escape [of c t] by (simp only: append.simps)
  next
    case plain
    then show ?thesis by simp
  qed
  then show "scan_string (json_char c @ t) = map_option (apfst (Cons c)) (scan_string t)"
    "narrow_escapes (json_char c @ t) = narrow_escapes t" by blast+
qed

interpretation full: json_escape json_char
  by unfold_locales (rule json_char_laws)+

lemma json_char_ascii_laws:
  "scan_string (json_char_ascii c @ t) = map_option (apfst (Cons c)) (scan_string t)"
  "narrow_escapes (json_char_ascii c @ t) = narrow_escapes t"
  using unicode_escape [of c t] json_char_laws [of c t]
  by (cases "126 < code c"; simp only: json_char_ascii_def append.simps if_True if_False)+

interpretation ascii: json_escape json_char_ascii
  by unfold_locales (rule json_char_ascii_laws)+

section \<open>Reading what was dumped\<close>

text \<open>What may follow a value inside a text.\<close>

definition stops :: "string \<Rightarrow> bool" where
  "stops t = (t = [] \<or> hd t \<in> {CHR '','', CHR '']'', CHR 0x7D})"

definition opens :: "string \<Rightarrow> bool" where
  "opens s = (s \<noteq> [] \<and> \<not> json_ws (hd s) \<and> hd s \<noteq> CHR '']'' \<and> hd s \<noteq> CHR 0x7D)"

lemma opens_skip: "opens s \<Longrightarrow> skip (s @ t) = s @ t"
  by (cases s) (simp_all add: opens_def skip_def)

fun wf_json :: "pyval \<Rightarrow> bool" where
  "wf_json (VInt n) = (length (dec_text (nat \<bar>n\<bar>)) \<le> int_max_str_digits)"
| "wf_json (VFloat x) = False"
| "wf_json (VList vs) = list_all wf_json vs"
| "wf_json (VDict d) = (distinct (map fst d) \<and> list_all (\<lambda>p. wf_json (snd p)) d)"
| "wf_json v = True"

text \<open>A value with the keys of its dictionaries sorted.\<close>

fun sorted_val :: "pyval \<Rightarrow> pyval" where
  "sorted_val (VList vs) = VList (map sorted_val vs)"
| "sorted_val (VDict d) = VDict (sort_key fst (map (\<lambda>p. (fst p, sorted_val (snd p))) d))"
| "sorted_val v = v"

definition reads :: "string \<Rightarrow> pyval \<Rightarrow> string \<Rightarrow> bool" where
  "reads s v t = (\<forall>n. 2 * length s < n \<longrightarrow> scan_value n s = Some (v, t))"

definition reads_members :: "pydict \<Rightarrow> string \<Rightarrow> pyval \<Rightarrow> string \<Rightarrow> bool" where
  "reads_members d s v t = (\<forall>n. 2 * length s < n \<longrightarrow> scan_members n d s = Some (v, t))"

definition reads_items :: "pyval list \<Rightarrow> string \<Rightarrow> pyval \<Rightarrow> string \<Rightarrow> bool" where
  "reads_items xs s v t = (\<forall>n. 2 * length s + 1 < n \<longrightarrow> scan_items n xs s = Some (v, t))"

lemma fuel_Suc: "(k :: nat) < n \<Longrightarrow> \<exists>m. n = Suc m \<and> k \<le> m"
  by (cases n) simp_all

lemma reads_shorter: "reads s v t \<Longrightarrow> length t < length s"
proof -
  assume "reads s v t"
  then have "scan_value (Suc (2 * length s)) s = Some (v, t)" unfolding reads_def by blast
  then show ?thesis by (rule scan_shorter(1))
qed

lemma reads_string: "scan_string cs = Some (k, t) \<Longrightarrow> reads (CHR 0x22 # cs) (VStr k) t"
  by (auto simp: reads_def code_special dest!: fuel_Suc)

lemma reads_atom:
  assumes "scan_atom (c # cs) = Some (v, t)" and "code c \<noteq> 34" and "c \<noteq> CHR 0x7B" and "c \<noteq> CHR ''[''"
  shows "reads (c # cs) v t"
  using assms by (auto simp: reads_def dest!: fuel_Suc)

lemma reads_empty: "reads (CHR ''['' # CHR '']'' # t) (VList []) t" "reads (CHR 0x7B # CHR 0x7D # t) (VDict []) t"
  by (auto simp: reads_def skip_def json_ws_def code_def dest!: fuel_Suc)

lemma reads_list:
  assumes "opens s" and "reads_items [] (s @ t) v u"
  shows "reads (CHR ''['' # s @ t) v u"
proof -
  obtain c r where s: "s = c # r" "c \<noteq> CHR '']''" using assms(1) by (cases s) (auto simp: opens_def)
  show ?thesis unfolding reads_def
  proof (intro allI impI)
    fix n assume "2 * length (CHR ''['' # s @ t) < n"
    then obtain m where m: "n = Suc m" "2 * length (s @ t) + 1 < m" by (cases n) simp_all
    then have "scan_items m [] (s @ t) = Some (v, u)" using assms(2) unfolding reads_items_def by blast
    then show "scan_value n (CHR ''['' # s @ t) = Some (v, u)"
      using opens_skip [OF assms(1), of t] s m(1) by (simp add: code_def)
  qed
qed

lemma reads_dict:
  assumes "opens s" and "reads_members [] (s @ t) v u"
  shows "reads (CHR 0x7B # s @ t) v u"
proof -
  obtain c r where s: "s = c # r" "c \<noteq> CHR 0x7D" using assms(1) by (cases s) (auto simp: opens_def)
  show ?thesis unfolding reads_def
  proof (intro allI impI)
    fix n assume "2 * length (CHR 0x7B # s @ t) < n"
    then obtain m where m: "n = Suc m" "2 * length (s @ t) < m" by (cases n) simp_all
    then have "scan_members m [] (s @ t) = Some (v, u)" using assms(2) unfolding reads_members_def by blast
    then show "scan_value n (CHR 0x7B # s @ t) = Some (v, u)"
      using opens_skip [OF assms(1), of t] s m(1) by (simp add: code_def)
  qed
qed

lemma skip_mark: "skip (CHR '','' # t) = CHR '','' # t" "skip (CHR '']'' # t) = CHR '']'' # t"
  "skip (CHR 0x7D # t) = CHR 0x7D # t" "skip (CHR '':'' # t) = CHR '':'' # t"
  by (simp_all add: skip_def json_ws_def code_def)

lemma items_last: "reads s v (CHR '']'' # t) \<Longrightarrow> reads_items xs s (VList (xs @ [v])) t"
  unfolding reads_items_def reads_def by (auto simp: skip_mark dest!: fuel_Suc)

lemma items_more:
  assumes r: "reads s v (CHR '','' # u @ w)" and o: "opens u" and i: "reads_items (xs @ [v]) (u @ w) x t"
  shows "reads_items xs s x t"
  unfolding reads_items_def
proof (intro allI impI)
  fix n assume "2 * length s + 1 < n"
  then obtain m where m: "n = Suc m" "2 * length s < m" by (cases n) simp_all
  then have "scan_value m s = Some (v, CHR '','' # u @ w)" using r unfolding reads_def by blast
  moreover have "2 * length (u @ w) + 1 < m" using reads_shorter [OF r] m(2) by simp
  then have "scan_items m (xs @ [v]) (u @ w) = Some (x, t)" using i unfolding reads_items_def by blast
  ultimately show "scan_items n xs s = Some (x, t)" by (simp add: m(1) skip_mark opens_skip [OF o])
qed

lemma member_value:
  assumes k: "scan_string cs = Some (k, CHR '':'' # s)" and o: "skip s = s" and r: "reads s v t"
    and n: "2 * length (CHR 0x22 # cs) < Suc m"
  shows "scan_members (Suc m) d (CHR 0x22 # cs) = (case skip t of
      [] \<Rightarrow> None
    | e2 # r3 \<Rightarrow>
        if e2 = CHR '','' then scan_members m (dict_set k v d) (skip r3)
        else if e2 = CHR 0x7D then Some (VDict (dict_set k v d), r3) else None)"
proof -
  have "2 * length s < m" using scan_string_shorter [OF k] n by simp
  then have "scan_value m s = Some (v, t)" using r unfolding reads_def by blast
  then show ?thesis using k o by (simp add: skip_mark code_special)
qed

lemma members_last:
  assumes "scan_string cs = Some (k, CHR '':'' # s)" and "skip s = s" and "reads s v (CHR 0x7D # t)"
  shows "reads_members d (CHR 0x22 # cs) (VDict (dict_set k v d)) t"
  unfolding reads_members_def
proof (intro allI impI)
  fix n assume n: "2 * length (CHR 0x22 # cs) < n"
  then obtain m where m: "n = Suc m" by (cases n) simp_all
  show "scan_members n d (CHR 0x22 # cs) = Some (VDict (dict_set k v d), t)"
    unfolding m using member_value [OF assms n [unfolded m]] by (simp add: skip_mark del: scan_members.simps)
qed

lemma members_more:
  assumes k: "scan_string cs = Some (k, CHR '':'' # s)" and s: "skip s = s" and r: "reads s v (CHR '','' # u @ w)"
    and o: "opens u" and i: "reads_members (dict_set k v d) (u @ w) x t"
  shows "reads_members d (CHR 0x22 # cs) x t"
  unfolding reads_members_def
proof (intro allI impI)
  fix n assume n: "2 * length (CHR 0x22 # cs) < n"
  then obtain m where m: "n = Suc m" by (cases n) simp_all
  have "2 * length (u @ w) < m" using reads_shorter [OF r] scan_string_shorter [OF k] n m by simp
  then have "scan_members m (dict_set k v d) (u @ w) = Some (x, t)" using i unfolding reads_members_def by blast
  then show "scan_members n d (CHR 0x22 # cs) = Some (x, t)"
    unfolding m using member_value [OF k s r n [unfolded m], of d] opens_skip [OF o, of w]
    by (simp add: skip_mark del: scan_members.simps)
qed

text \<open>Numbers.\<close>

lemma dec_text_digits: "c \<in> set (dec_text n) \<Longrightarrow> ascii_digit c"
  by (drule dec_text_chars) (auto simp: ascii_digit_def code_dec_digit)

lemma dec_value_snoc: "dec_value (s @ [c]) = dec_value s * 10 + digit_of c"
  by (simp add: dec_value_def)

lemma digit_of_dec_digit: "n < 10 \<Longrightarrow> digit_of (dec_digit n) = n"
  using dec_digit_is_digit(1) [of n] by (simp add: digit_of_def)

lemma dec_value_text: "dec_value (dec_text n) = n"
proof (induction n rule: dec_text.induct)
  case (1 n)
  show ?case
  proof (cases "n < 10")
    case True
    then have "dec_text n = [dec_digit n]" by (subst dec_text.simps) simp
    then show ?thesis using digit_of_dec_digit [OF True] by (simp add: dec_value_def)
  next
    case False
    then have "dec_text n = dec_text (n div 10) @ [dec_digit (n mod 10)]" by (subst dec_text.simps) simp
    with 1 False show ?thesis by (simp add: dec_value_snoc digit_of_dec_digit)
  qed
qed

lemma dec_text_zero: "hd (dec_text n) = CHR ''0'' \<Longrightarrow> dec_text n = ''0''"
proof (induction n rule: dec_text.induct)
  case (1 n)
  have d: "m < 10 \<Longrightarrow> dec_digit m = CHR ''0'' \<Longrightarrow> m = 0" for m
    using code_dec_digit [of m] by (auto simp: code_def)
  show ?case
  proof (cases "n < 10")
    case True
    then have "dec_text n = [dec_digit n]" by (subst dec_text.simps) simp
    with 1(2) show ?thesis by simp
  next
    case False
    then have t: "dec_text n = dec_text (n div 10) @ [dec_digit (n mod 10)]" by (subst dec_text.simps) simp
    with 1(2) have "dec_text (n div 10) = ''0''" using 1(1) [OF False] by simp
    then have "n div 10 = 0" using dec_value_text [of "n div 10"] by (simp add: dec_value_def digit_of_def digit_val_def code_def)
    with False show ?thesis by simp
  qed
qed

lemma stops_digit: "stops t \<Longrightarrow> takeWhile ascii_digit t = [] \<and> dropWhile ascii_digit t = t"
  by (cases t) (auto simp: stops_def ascii_digit_def code_def)

lemma stops_plain: "stops t \<Longrightarrow> scan_fraction t = ([], t) \<and> scan_exponent t = ([], t)"
  by (cases t) (auto simp: stops_def scan_fraction_def scan_exponent_def Let_def)

lemma scan_integer_text:
  assumes "stops t"
  shows "scan_integer (dec_text n @ t) = (dec_text n, t)"
proof (cases "hd (dec_text n) = CHR ''0''")
  case True
  then have z: "dec_text n = ''0''" by (rule dec_text_zero)
  show ?thesis unfolding z by (simp add: scan_integer_def)
next
  case False
  obtain c cs where c: "dec_text n = c # cs" by (cases "dec_text n") simp_all
  have "\<forall>x \<in> set (dec_text n). ascii_digit x" using dec_text_digits by blast
  then have "takeWhile ascii_digit (dec_text n @ t) = dec_text n" "dropWhile ascii_digit (dec_text n @ t) = t"
    using stops_digit [OF assms] by simp_all
  with False c show ?thesis by (simp add: scan_integer_def)
qed

lemma scan_number_text:
  assumes "stops t" and "length (dec_text (nat \<bar>n\<bar>)) \<le> int_max_str_digits"
  shows "scan_number (int_text n @ t) = Some (VInt n, t)"
proof -
  obtain c cs where c: "dec_text (nat n) = c # cs" by (cases "dec_text (nat n)") simp_all
  then have "c \<noteq> CHR ''-''" using dec_text_digits [of c "nat n"] by (auto simp: ascii_digit_def code_def)
  then have pos: "\<not> starts_with ''-'' (dec_text (nat n) @ t)" using c by (simp add: starts_with_def)
  have neg: "starts_with ''-'' (CHR ''-'' # s)" for s by (simp add: starts_with_def)
  show ?thesis
    using assms pos neg by (cases "n < 0")
      (simp_all add: int_text_def scan_number_def Let_def scan_integer_text stops_plain number_value_def dec_value_text not_less)
qed

lemma number_head:
  obtains c cs where "int_text n @ t = c # cs"
    "ascii_digit c \<or> c = CHR ''-'' \<and> cs \<noteq> [] \<and> ascii_digit (hd cs)"
proof -
  obtain d ds where d: "dec_text (nat \<bar>n\<bar>) = d # ds" by (cases "dec_text (nat \<bar>n\<bar>)") simp_all
  then have "ascii_digit d" using dec_text_digits [of d "nat \<bar>n\<bar>"] by simp
  then show thesis using d that by (cases "n < 0") (auto simp: int_text_def)
qed

lemma not_digit: "\<not> ascii_digit (CHR ''n'')" "\<not> ascii_digit (CHR ''t'')" "\<not> ascii_digit (CHR ''f'')"
  "\<not> ascii_digit (CHR ''N'')" "\<not> ascii_digit (CHR ''I'')" "\<not> ascii_digit (CHR ''-'')"
  "\<not> ascii_digit (CHR 0x7B)" "\<not> ascii_digit (CHR ''['')" "\<not> ascii_digit (CHR 0x22)" "\<not> ascii_digit (CHR '']'')"
  "\<not> ascii_digit (CHR 0x7D)"
  by (simp_all add: ascii_digit_def code_def)

lemma no_word:
  assumes "ascii_digit c \<or> c = CHR ''-'' \<and> cs \<noteq> [] \<and> ascii_digit (hd cs)"
  shows "find (\<lambda>(w, v). starts_with w (c # cs)) JSON_WORDS = None"
  using assms not_digit by (cases cs) (auto simp: JSON_WORDS_def starts_with_def)

lemma reads_number:
  assumes "stops t" and "length (dec_text (nat \<bar>n\<bar>)) \<le> int_max_str_digits"
  shows "reads (int_text n @ t) (VInt n) t"
proof -
  obtain c cs where c: "int_text n @ t = c # cs"
    "ascii_digit c \<or> c = CHR ''-'' \<and> cs \<noteq> [] \<and> ascii_digit (hd cs)" by (rule number_head)
  have "scan_atom (c # cs) = Some (VInt n, t)"
    using scan_number_text [OF assms] no_word [OF c(2)] by (simp add: scan_atom_def c(1))
  then show ?thesis unfolding c(1)
    by (rule reads_atom) (use c(2) not_digit in \<open>auto simp: ascii_digit_def code_def\<close>)
qed

lemma reads_words:
  "reads (''null'' @ t) VNone t" "reads (''true'' @ t) (VBool True) t" "reads (''false'' @ t) (VBool False) t"
  by (simp only: append.simps; rule reads_atom; simp add: scan_atom_def JSON_WORDS_def starts_with_def code_def)+

lemma opens_number: "opens (int_text n @ t)"
proof -
  obtain c cs where c: "int_text n @ t = c # cs"
    "ascii_digit c \<or> c = CHR ''-'' \<and> cs \<noteq> [] \<and> ascii_digit (hd cs)" by (rule number_head)
  then show ?thesis using not_digit by (auto simp: opens_def json_ws_def ascii_digit_def code_def)
qed


text \<open>Lists, dictionaries and all values.\<close>

lemma join_simps [simp]:
  "join sep [] = []" "join sep [x] = x" "join sep (x # y # zs) = x @ sep @ join sep (y # zs)"
  by (simp_all add: join_def)

lemma insort_key_map:
  "insort_key fst (fst p, g (snd p)) (map (\<lambda>p. (fst p, g (snd p))) d) =
   map (\<lambda>p. (fst p, g (snd p))) (insort_key fst p d)"
  by (induction d) auto

lemma sort_key_map:
  "sort_key fst (map (\<lambda>p. (fst p, g (snd p))) d) = map (\<lambda>p. (fst p, g (snd p))) (sort_key fst d)"
proof (induction d)
  case (Cons p d)
  then show ?case using insort_key_map [of p g "sort_key fst d"] by simp
qed simp

lemma dict_set_fresh: "k \<notin> fst ` set d \<Longrightarrow> dict_set k v d = d @ [(k, v)]"
  by (induction d) (auto simp: dict_set_def)

lemma stops_marks: "stops (CHR '','' # t)" "stops (CHR '']'' # t)" "stops (CHR 0x7D # t)"
  by (simp_all add: stops_def)

lemma opens_append: "opens s \<Longrightarrow> opens (s @ t)"
  by (cases s) (simp_all add: opens_def)

text \<open>One member of a dictionary, and the texts that carry no wide escape.\<close>

definition member_text :: "(char \<Rightarrow> string) \<Rightarrow> (pyfloat \<Rightarrow> string) \<Rightarrow> string \<times> pyval \<Rightarrow> string" where
  "member_text jc frep p = quoted jc (fst p) @ CHR '':'' # dumps_with jc frep (snd p)"

lemma dumps_dict:
  "dumps_with jc frep (VDict d) = CHR 0x7B # join '','' (map (member_text jc frep) (sort_key fst d)) @ [CHR 0x7D]"
proof -
  have "map (\<lambda>(k, t). quoted jc k @ CHR '':'' # t) (map (\<lambda>p. (fst p, dumps_with jc frep (snd p))) ps) =
    map (member_text jc frep) ps" for ps
    by (simp add: member_text_def comp_def)
  then show ?thesis by (simp only: dumps_with.simps sort_key_map)
qed

definition neutral :: "string \<Rightarrow> bool" where
  "neutral s = (\<forall>t. narrow_escapes (s @ t) = narrow_escapes t)"

lemma neutral_nil [simp]: "neutral []"
  by (simp add: neutral_def)

lemma neutral_append [simp]: "neutral s \<Longrightarrow> neutral u \<Longrightarrow> neutral (s @ u)"
  by (simp add: neutral_def)

lemma neutral_Cons [simp]: "code c \<noteq> 92 \<Longrightarrow> neutral s \<Longrightarrow> neutral (c # s)"
  by (simp add: neutral_def)

lemma neutral_join: "list_all neutral xs \<Longrightarrow> neutral (join '','' xs)"
proof (induction xs)
  case (Cons x xs)
  then show ?case by (cases xs) (simp_all add: code_def)
qed simp

lemma neutral_number: "neutral (int_text n)"
proof -
  have "list_all (\<lambda>c. code c \<noteq> 92) (dec_text m)" for m
    using dec_text_digits [of _ m] by (fastforce simp: list_all_iff ascii_digit_def)
  then have "neutral (dec_text m)" for m using narrow_plain by (simp add: neutral_def)
  then show ?thesis by (simp add: int_text_def code_def)
qed

context json_escape
begin

lemma opens_dumped: "wf_json v \<Longrightarrow> opens (dumps_with jc frep v)"
  using opens_number [of _ "[]"] by (cases v) (auto simp: opens_def json_ws_def code_def quoted_def)

lemma items_dumped:
  assumes "vs \<noteq> []" and "\<And>v t. v \<in> set vs \<Longrightarrow> stops t \<Longrightarrow> reads (dumps_with jc frep v @ t) (sorted_val v) t"
    and "\<And>v. v \<in> set vs \<Longrightarrow> wf_json v"
  shows "reads_items xs (join '','' (map (dumps_with jc frep) vs) @ CHR '']'' # t) (VList (xs @ map sorted_val vs)) t"
  using assms
proof (induction vs arbitrary: xs)
  case (Cons v vs)
  show ?case
  proof (cases vs)
    case Nil
    show ?thesis using items_last [OF Cons.prems(2) [OF _ stops_marks(2)], of v] Nil by simp
  next
    case (Cons w ws)
    let ?r = "join '','' (map (dumps_with jc frep) vs)"
    have "reads (dumps_with jc frep v @ CHR '','' # ?r @ CHR '']'' # t) (sorted_val v) (CHR '','' # ?r @ CHR '']'' # t)"
      by (rule Cons.prems(2)) (simp_all add: stops_marks)
    moreover have "opens ?r"
      using opens_dumped [OF Cons.prems(3), of w frep] Cons by (cases ws) (auto intro: opens_append)
    moreover have "reads_items (xs @ [sorted_val v]) (?r @ CHR '']'' # t)
        (VList ((xs @ [sorted_val v]) @ map sorted_val vs)) t"
      by (rule Cons.IH) (use Cons.prems Cons in simp_all)
    ultimately have "reads_items xs (dumps_with jc frep v @ CHR '','' # ?r @ CHR '']'' # t)
        (VList ((xs @ [sorted_val v]) @ map sorted_val vs)) t" by (rule items_more)
    then show ?thesis by (simp add: Cons)
  qed
qed simp

lemma opens_member: "opens (member_text jc frep p @ t)"
  by (simp add: member_text_def quoted_def opens_def json_ws_def code_def)

lemma members_dumped:
  assumes "ps \<noteq> []" and "\<And>p t. p \<in> set ps \<Longrightarrow> stops t \<Longrightarrow> reads (dumps_with jc frep (snd p) @ t) (sorted_val (snd p)) t"
    and "\<And>p. p \<in> set ps \<Longrightarrow> wf_json (snd p)" and "distinct (map fst d @ map fst ps)"
  shows "reads_members d (join '','' (map (member_text jc frep) ps) @ CHR 0x7D # t)
    (VDict (d @ map (\<lambda>p. (fst p, sorted_val (snd p))) ps)) t"
  using assms
proof (induction ps arbitrary: d)
  case (Cons p ps)
  let ?v = "dumps_with jc frep (snd p)"
  have new: "dict_set (fst p) (sorted_val (snd p)) d = d @ [(fst p, sorted_val (snd p))]"
    using Cons.prems(4) by (intro dict_set_fresh) auto
  have head: "member_text jc frep p @ u = CHR 0x22 # (concat (map jc (fst p)) @ CHR 0x22 # CHR '':'' # ?v @ u)" for u
    by (simp add: member_text_def quoted_def)
  note k = scan_quoted [of "fst p"]
  have o: "skip (?v @ u) = ?v @ u" for u using opens_skip [OF opens_dumped [OF Cons.prems(3)]] by simp
  show ?case
  proof (cases ps)
    case Nil
    have "reads (?v @ CHR 0x7D # t) (sorted_val (snd p)) (CHR 0x7D # t)"
      by (rule Cons.prems(2)) (simp_all add: stops_marks)
    from members_last [OF k o this, of d] show ?thesis by (simp add: Nil head new)
  next
    case (Cons q qs)
    let ?r = "join '','' (map (member_text jc frep) ps)"
    have r: "reads (?v @ CHR '','' # ?r @ CHR 0x7D # t) (sorted_val (snd p)) (CHR '','' # ?r @ CHR 0x7D # t)"
      by (rule Cons.prems(2)) (simp_all add: stops_marks)
    have "opens ?r" using opens_member [of frep q] opens_member [of frep q "[]"] Cons by (cases qs) simp_all
    moreover have "reads_members (dict_set (fst p) (sorted_val (snd p)) d) (?r @ CHR 0x7D # t)
        (VDict ((d @ [(fst p, sorted_val (snd p))]) @ map (\<lambda>p. (fst p, sorted_val (snd p))) ps)) t"
      unfolding new by (rule Cons.IH) (use Cons.prems Cons in simp_all)
    ultimately show ?thesis using members_more [OF k o r, of d] by (simp add: Cons head)
  qed
qed simp

theorem reads_dumped:
  "wf_json v \<Longrightarrow> stops t \<Longrightarrow> reads (dumps_with jc frep v @ t) (sorted_val v) t"
proof (induction v arbitrary: t rule: wf_json.induct)
  case (1 n)
  then show ?case by (simp add: reads_number)
next
  case (3 vs)
  show ?case
  proof (cases "vs = []")
    case True
    then show ?thesis using reads_empty(1) by simp
  next
    case False
    have wf: "\<And>v. v \<in> set vs \<Longrightarrow> wf_json v" using 3(2) by (simp add: list_all_iff)
    let ?r = "join '','' (map (dumps_with jc frep) vs)"
    have "reads_items [] (?r @ CHR '']'' # t) (VList ([] @ map sorted_val vs)) t"
      using False wf by (intro items_dumped) (simp_all add: 3(1))
    moreover have "opens ?r"
      using False opens_dumped [OF wf, of _ frep] by (cases vs; cases "tl vs") (auto intro: opens_append)
    ultimately show ?thesis using reads_list [of ?r "CHR '']'' # t"] by simp
  qed
next
  case (4 d)
  let ?ps = "sort_key fst d"
  show ?case
  proof (cases "d = []")
    case True
    then show ?thesis using reads_empty(2) by simp
  next
    case False
    have wf: "\<And>p. p \<in> set ?ps \<Longrightarrow> wf_json (snd p)" using 4(2) by (simp add: list_all_iff)
    have "mset (map fst ?ps) = mset (map fst d)" by simp
    then have ds: "distinct (map fst ?ps)" using 4(2) by (metis mset_eq_imp_distinct_iff wf_json.simps(4))
    have ne: "?ps \<noteq> []" using False by (metis length_0_conv length_sort)
    let ?r = "join '','' (map (member_text jc frep) ?ps)"
    have "reads_members [] (?r @ CHR 0x7D # t) (VDict ([] @ map (\<lambda>p. (fst p, sorted_val (snd p))) ?ps)) t"
      using ne wf ds by (intro members_dumped) (simp_all add: 4(1))
    moreover have "opens ?r"
    proof -
      obtain q qs where q: "?ps = q # qs" using ne by (cases ?ps) simp_all
      show ?thesis unfolding q using opens_member [of frep q] opens_member [of frep q "[]"] by (cases qs) simp_all
    qed
    ultimately show ?thesis using reads_dict [of ?r "CHR 0x7D # t"]
      unfolding dumps_dict by (simp add: sort_key_map)
  qed
qed (use reads_words in \<open>auto simp: quoted_def intro!: reads_string scan_quoted\<close>)

lemma neutral_dumped: "wf_json v \<Longrightarrow> neutral (dumps_with jc frep v)"
proof (induction v rule: wf_json.induct)
  case (3 vs)
  then have "list_all neutral (map (dumps_with jc frep) vs)" by (simp add: list_all_iff)
  then have "neutral (join '','' (map (dumps_with jc frep) vs))" by (rule neutral_join)
  then show ?case by (simp add: code_def)
next
  case (4 d)
  have "neutral (member_text jc frep p)" if p: "p \<in> set d" for p
  proof -
    have "neutral (dumps_with jc frep (snd p))" using 4 p by (simp add: list_all_iff)
    then show ?thesis using narrow_quoted by (simp add: member_text_def neutral_def code_def)
  qed
  then have "list_all neutral (map (member_text jc frep) (sort_key fst d))" by (simp add: list_all_iff)
  then have "neutral (join '','' (map (member_text jc frep) (sort_key fst d)))" by (rule neutral_join)
  then show ?case by (simp add: dumps_dict code_def del: dumps_with.simps)
qed (use neutral_number narrow_quoted in \<open>simp_all add: neutral_def code_def\<close>)

text \<open>Reading a dumped value gives it back, its dictionaries sorted.\<close>

theorem parse_dumped:
  assumes "wf_json v"
  shows "json_loads wide (dumps_with jc frep v) = Inr (sorted_val v)"
proof -
  let ?s = "dumps_with jc frep v"
  have n: "narrow_escapes ?s" using neutral_dumped [OF assms, of frep] unfolding neutral_def
    by (metis append_Nil2 narrow_escapes.simps(1))
  have "skip ?s = ?s" using opens_skip [OF opens_dumped [OF assms], of frep "[]"] by simp
  moreover have "reads ?s (sorted_val v) []"
    using reads_dumped [OF assms, of "[]" frep] by (simp add: stops_def)
  ultimately show ?thesis using n by (simp add: json_loads_def parse_json_def reads_def skip_def del: scan_value.simps)
qed

end

section \<open>ASCII texts\<close>

definition plain_text :: "string \<Rightarrow> bool" where
  "plain_text s = list_all (\<lambda>c. 0 < code c \<and> code c < 128) s"

lemma plain_simps [simp]: "plain_text []" "plain_text (s @ t) = (plain_text s \<and> plain_text t)"
  "plain_text (c # s) = (0 < code c \<and> code c < 128 \<and> plain_text s)"
  by (simp_all add: plain_text_def conj_ac)

lemma plain_join: "list_all plain_text xs \<Longrightarrow> plain_text (join '','' xs)"
proof (induction xs)
  case (Cons x xs)
  then show ?case by (cases xs) (simp_all add: code_def)
qed simp

lemma plain_concat: "list_all plain_text xs \<Longrightarrow> plain_text (concat xs)"
  by (induction xs) simp_all

lemma plain_hex: "plain_text (hexw w n)"
proof -
  have "is_hex (hexw w n)" by simp
  then show ?thesis
    unfolding plain_text_def is_hex_def list_all_iff by (auto dest!: is_digit_imp)
qed

lemma plain_escape: "plain_text (json_char_ascii c)"
proof (cases "126 < code c")
  case True
  then show ?thesis using plain_hex [of 4 "code c"] by (simp add: json_char_ascii_def code_def del: hexw.simps)
next
  case False
  then show ?thesis
  proof (cases c rule: json_char_cases)
    case (short e)
    then show ?thesis using False by (auto simp: json_char_ascii_def json_char_def Let_def code_def split: if_splits)
  next
    case unicode
    then show ?thesis using False plain_hex [of 4 "code c"] by (simp add: json_char_ascii_def code_def del: hexw.simps)
  next
    case plain
    then show ?thesis using False by (simp add: json_char_ascii_def)
  qed
qed

lemma plain_quoted: "plain_text (quoted json_char_ascii s)"
  using plain_concat [of "map json_char_ascii s"] plain_escape by (simp add: quoted_def list_all_iff code_def)

lemma plain_number: "plain_text (int_text n)"
proof -
  have "plain_text (dec_text m)" for m
    using dec_text_digits [of _ m] by (fastforce simp: plain_text_def list_all_iff ascii_digit_def)
  then show ?thesis by (simp add: int_text_def code_def)
qed

lemma plain_dumped: "wf_json v \<Longrightarrow> plain_text (dumps_with json_char_ascii frep v)"
proof (induction v rule: wf_json.induct)
  case (3 vs)
  then have "list_all plain_text (map (dumps_with json_char_ascii frep) vs)" by (simp add: list_all_iff)
  then have "plain_text (join '','' (map (dumps_with json_char_ascii frep) vs))" by (rule plain_join)
  then show ?case by (simp add: code_def)
next
  case (4 d)
  have "plain_text (member_text json_char_ascii frep p)" if p: "p \<in> set d" for p
  proof -
    have "plain_text (dumps_with json_char_ascii frep (snd p))" using 4 p by (simp add: list_all_iff)
    then show ?thesis using plain_quoted by (simp add: member_text_def code_def)
  qed
  then have "list_all plain_text (map (member_text json_char_ascii frep) (sort_key fst d))" by (simp add: list_all_iff)
  then have "plain_text (join '','' (map (member_text json_char_ascii frep) (sort_key fst d)))" by (rule plain_join)
  then show ?case by (simp add: dumps_dict code_def del: dumps_with.simps)
qed (use plain_number plain_quoted in \<open>simp_all add: code_def\<close>)

text \<open>Reading the bytes of an ASCII text.\<close>

lemma loads_ascii:
  assumes "wf_json (VDict d)"
  shows "json_loads_bytes wide (ascii_json frep d) = Inr (sorted_val (VDict d))"
proof -
  have "json_loads (\<lambda>s. Inl ValueError) (ascii_json frep d) = Inr (sorted_val (VDict d))"
    using ascii.parse_dumped [OF assms] by (simp only: ascii_json_def)
  then have "narrow_escapes (ascii_json frep d)" "parse_json (ascii_json frep d) = Inr (sorted_val (VDict d))"
    by (auto simp: json_loads_def split: if_splits)
  then show ?thesis using plain_dumped [OF assms, of frep]
    by (simp add: json_loads_bytes_def ascii_json_def plain_text_def)
qed

lemma map_of_sorted:
  assumes "distinct (map fst d)"
  shows "map_of (sort_key fst d) = map_of d"
proof (rule map_of_eqI)
  show "set (map fst (sort_key fst d)) = set (map fst d)" by simp
next
  have "mset (map fst (sort_key fst d)) = mset (map fst d)" by simp
  then have d: "distinct (map fst (sort_key fst d))" using assms by (metis mset_eq_imp_distinct_iff)
  show "\<forall>k\<in>set (map fst (sort_key fst d)). map_of (sort_key fst d) k = map_of d k"
  proof
    fix k assume "k \<in> set (map fst (sort_key fst d))"
    then obtain v where v: "(k, v) \<in> set d" by auto
    then have "map_of d k = Some v" using assms by (rule map_of_is_SomeI [rotated])
    moreover have "map_of (sort_key fst d) k = Some v" using v d by (intro map_of_is_SomeI) simp_all
    ultimately show "map_of (sort_key fst d) k = map_of d k" by simp
  qed
qed

lemma sorted_dict:
  assumes "wf_json (VDict d)"
  obtains d' where "sorted_val (VDict d) = VDict d'" and "\<And>k. map_of d' k = map_option sorted_val (map_of d k)"
proof -
  let ?e = "map (\<lambda>p. (fst p, sorted_val (snd p))) d"
  have "map fst ?e = map fst d" by simp
  then have "distinct (map fst ?e)" using assms by (simp only: wf_json.simps)
  then have "map_of (sort_key fst ?e) = map_of ?e" by (rule map_of_sorted)
  moreover have "map_of ?e k = map_option sorted_val (map_of d k)" for k by (induction d) auto
  ultimately show thesis using that [of "sort_key fst ?e"] by simp
qed

end
