(* ===== verification/Sessions.thy ===== *)
theory Sessions
  imports Json Desk RuntimeConfig
begin

text \<open>
  Passwords, signed tokens and the user of a request: \<open>core/security.py\<close> and \<open>api/deps.py\<close>.
  Bytes are characters. The keyed hash, the password derivation, random bytes and the clock (in
  seconds) are arguments; a hash is given the text whose UTF-8 encoding the code hashes.
\<close>

section \<open>URL-safe base64\<close>

definition b64_char :: "nat \<Rightarrow> char" where
  "b64_char n = (if n < 26 then char_of (n + 65) else if n < 52 then char_of (n + 71)
     else if n < 62 then char_of (n - 4) else if n = 62 then CHR ''-'' else CHR ''_'')"

definition b64_value :: "char \<Rightarrow> nat option" where
  "b64_value c = (let n = code c in
     if 65 \<le> n \<and> n \<le> 90 then Some (n - 65)
     else if 97 \<le> n \<and> n \<le> 122 then Some (n - 71)
     else if 48 \<le> n \<and> n \<le> 57 then Some (n + 4)
     else if c = CHR ''-'' \<or> c = CHR ''+'' then Some 62
     else if c = CHR ''_'' \<or> c = CHR ''/'' then Some 63 else None)"

fun urlsafe_b64encode :: "string \<Rightarrow> string" where
  "urlsafe_b64encode [] = []"
| "urlsafe_b64encode [a] = [b64_char (code a div 4), b64_char (code a mod 4 * 16), CHR ''='', CHR ''='']"
| "urlsafe_b64encode [a, b] =
     [b64_char (code a div 4), b64_char (code a mod 4 * 16 + code b div 16),
      b64_char (code b mod 16 * 4), CHR ''='']"
| "urlsafe_b64encode (a # b # c # cs) =
     b64_char (code a div 4) # b64_char (code a mod 4 * 16 + code b div 16) #
     b64_char (code b mod 16 * 4 + code c div 64) # b64_char (code c mod 64) # urlsafe_b64encode cs"

text \<open>
  Decoding is lenient: characters outside the alphabet are skipped, and a padding that completes a
  group ends the text. The arguments are the position in the group, the bits left over and the
  paddings seen.
\<close>

fun a2b :: "nat \<Rightarrow> nat \<Rightarrow> nat \<Rightarrow> string \<Rightarrow> string py" where
  "a2b quad left pads [] = (if quad = 0 then Inr [] else Inl ValueError)"
| "a2b quad left pads (c # cs) =
     (if c = CHR ''='' then
        (if 2 \<le> quad \<and> 4 \<le> quad + (pads + 1) then Inr []
         else a2b quad left (if 2 \<le> quad then pads + 1 else pads) cs)
      else case b64_value c of
          None \<Rightarrow> a2b quad left pads cs
        | Some v \<Rightarrow>
            if quad = 0 then a2b 1 v 0 cs
            else if quad = 1 then map_sum id (Cons (char_of (left * 4 + v div 16))) (a2b 2 (v mod 16) 0 cs)
            else if quad = 2 then map_sum id (Cons (char_of (left * 16 + v div 4))) (a2b 3 (v mod 4) 0 cs)
            else map_sum id (Cons (char_of (left * 64 + v))) (a2b 0 0 0 cs))"

definition is_ascii :: "string \<Rightarrow> bool" where
  "is_ascii s = list_all (\<lambda>c. code c < 128) s"

definition urlsafe_b64decode :: "string \<Rightarrow> string py" where
  "urlsafe_b64decode s = (if is_ascii s then a2b 0 0 0 s else Inl ValueError)"

definition rstrip_char :: "char \<Rightarrow> string \<Rightarrow> string" where
  "rstrip_char c s = rev (dropWhile (\<lambda>x. x = c) (rev s))"

definition b64 :: "string \<Rightarrow> string" where
  "b64 data = rstrip_char (CHR ''='') (urlsafe_b64encode data)"

definition unb64 :: "string \<Rightarrow> string py" where
  "unb64 data = urlsafe_b64decode (data @ replicate (nat (- int (length data) mod 4)) (CHR ''=''))"

section \<open>Passwords\<close>

type_synonym scrypt = "string \<Rightarrow> string \<Rightarrow> nat \<Rightarrow> string py"

definition hash_password :: "scrypt \<Rightarrow> string \<Rightarrow> string \<Rightarrow> string py" where
  "hash_password scrypt salt password =
     (if length password < 8 then Inl ValueError
      else map_sum id (\<lambda>key. ''scrypt$'' @ urlsafe_b64encode salt @ ''$'' @ urlsafe_b64encode key)
        (scrypt password salt 32))"

text \<open>\<open>encoded.split("$", 2)\<close> into three parts.\<close>

definition password_parts :: "string \<Rightarrow> (string \<times> string \<times> string) py" where
  "password_parts encoded =
     (let rest = after_first (CHR ''$'') encoded in
      if CHR ''$'' \<notin> set encoded \<or> CHR ''$'' \<notin> set rest then Inl ValueError
      else Inr (before_first (CHR ''$'') encoded, before_first (CHR ''$'') rest, after_first (CHR ''$'') rest))"

definition verify_password :: "scrypt \<Rightarrow> string \<Rightarrow> string \<Rightarrow> bool" where
  "verify_password scrypt password encoded =
     (case rbind (password_parts encoded) (\<lambda>(algorithm, salt_b64, key_b64).
          if algorithm \<noteq> ''scrypt'' then Inr False
          else rbind (urlsafe_b64decode salt_b64) (\<lambda>salt.
            rbind (urlsafe_b64decode key_b64) (\<lambda>expected.
            rbind (scrypt password salt (length expected)) (\<lambda>actual. Inr (actual = expected))))) of
        Inl e \<Rightarrow> False
      | Inr ok \<Rightarrow> ok)"

section \<open>Signed tokens\<close>

text \<open>The keyed hash, of a key and a text.\<close>

type_synonym mac = "string \<Rightarrow> string \<Rightarrow> string"

text \<open>\<open>hmac.compare_digest\<close> of two texts.\<close>

definition compare_texts :: "string \<Rightarrow> string \<Rightarrow> bool py" where
  "compare_texts a b = (if is_ascii a \<and> is_ascii b then Inr (a = b) else Inl TypeError)"

text \<open>\<open>int\<close> of a value of a decoded text.\<close>

fun int_value :: "pyval \<Rightarrow> int py" where
  "int_value (VBool b) = Inr (if b then 1 else 0)"
| "int_value (VInt n) = Inr n"
| "int_value (VFloat x) =
     (case x of Fin r \<Rightarrow> Inr (if 0 \<le> r then \<lfloor>r\<rfloor> else \<lceil>r\<rceil>) | NaN \<Rightarrow> Inl ValueError | _ \<Rightarrow> Inl OverflowError)"
| "int_value (VStr s) = (case py_int 10 s of None \<Rightarrow> Inl ValueError | Some n \<Rightarrow> Inr n)"
| "int_value v = Inl TypeError"

definition encode_signed_payload :: "mac \<Rightarrow> (pyfloat \<Rightarrow> string) \<Rightarrow> string \<Rightarrow> pydict \<Rightarrow> string" where
  "encode_signed_payload mac frep secret payload =
     (let body = b64 (ascii_json frep payload) in body @ CHR ''.'' # b64 (mac secret body))"

definition decode_signed_payload ::
  "mac \<Rightarrow> (string \<Rightarrow> pyval py) \<Rightarrow> string \<Rightarrow> int \<Rightarrow> string \<Rightarrow> pydict py" where
  "decode_signed_payload mac wide secret now token =
     (let body = before_first (CHR ''.'') token; supplied = after_first (CHR ''.'') token in
      if CHR ''.'' \<notin> set token then Inl ValueError
      else rbind (compare_texts supplied (b64 (mac secret body))) (\<lambda>same.
        if \<not> same then Inl ValueError
        else rbind (unb64 body) (\<lambda>raw. rbind (json_loads_bytes wide raw) (\<lambda>v. case v of
            VDict payload \<Rightarrow> (case map_of payload ''exp'' of
                None \<Rightarrow> Inl KeyError
              | Some e \<Rightarrow> rbind (int_value e) (\<lambda>n. if n < now then Inl ValueError else Inr payload))
          | _ \<Rightarrow> Inl TypeError))))"

definition SESSION :: string where
  "SESSION = ''session''"

definition CLAIM :: string where
  "CLAIM = ''organization_membership_claim''"

text \<open>The clock is read once for the issue and once for the expiry.\<close>

definition session_payload :: "int \<Rightarrow> int \<Rightarrow> int \<Rightarrow> string \<Rightarrow> string \<Rightarrow> int \<Rightarrow> pydict" where
  "session_payload ttl issued now email role version =
     [(''typ'', VStr SESSION), (''sub'', VStr (py_lower email)), (''role'', VStr role), (''ver'', VInt version),
      (''iat'', VInt issued), (''exp'', VInt (now + ttl))]"

definition create_token ::
  "mac \<Rightarrow> (pyfloat \<Rightarrow> string) \<Rightarrow> settings \<Rightarrow> int \<Rightarrow> int \<Rightarrow> string \<Rightarrow> string \<Rightarrow> int \<Rightarrow> string" where
  "create_token mac frep cfg issued now email role version =
     encode_signed_payload mac frep (auth_secret cfg)
       (session_payload (token_ttl_seconds cfg) issued now email role version)"

definition decode_token :: "mac \<Rightarrow> (string \<Rightarrow> pyval py) \<Rightarrow> settings \<Rightarrow> int \<Rightarrow> string \<Rightarrow> pydict py" where
  "decode_token mac wide cfg now token =
     (case decode_signed_payload mac wide (auth_secret cfg) now token of
        Inl e \<Rightarrow> Inl ValueError
      | Inr payload \<Rightarrow>
          if dict_get_or payload ''typ'' (VStr SESSION) \<noteq> VStr SESSION then Inl ValueError else Inr payload)"

definition create_csrf_token :: "mac \<Rightarrow> settings \<Rightarrow> string \<Rightarrow> string" where
  "create_csrf_token mac cfg session_token = b64 (mac (auth_secret cfg) (''csrf:'' @ session_token))"

definition verify_csrf_token :: "mac \<Rightarrow> settings \<Rightarrow> string \<Rightarrow> string \<Rightarrow> bool py" where
  "verify_csrf_token mac cfg session_token supplied =
     (if session_token = [] \<or> supplied = [] then Inr False
      else compare_texts (create_csrf_token mac cfg session_token) supplied)"

definition claim_payload :: "int \<Rightarrow> int \<Rightarrow> string \<Rightarrow> string \<Rightarrow> string \<Rightarrow> int \<Rightarrow> pydict" where
  "claim_payload ttl now nonce uid oid version =
     [(''typ'', VStr CLAIM), (''sub'', VStr uid), (''organization_id'', VStr oid), (''ver'', VInt version),
      (''iat'', VInt now), (''exp'', VInt (now + max 60 ttl)), (''nonce'', VStr (b64 nonce))]"

definition create_membership_claim ::
  "mac \<Rightarrow> (pyfloat \<Rightarrow> string) \<Rightarrow> settings \<Rightarrow> int \<Rightarrow> string \<Rightarrow> string \<Rightarrow> string \<Rightarrow> int \<Rightarrow> string" where
  "create_membership_claim mac frep cfg now nonce uid oid version =
     encode_signed_payload mac frep (auth_secret cfg)
       (claim_payload (membership_claim_ttl_seconds cfg) now nonce uid oid version)"

definition decode_membership_claim ::
  "mac \<Rightarrow> (string \<Rightarrow> pyval py) \<Rightarrow> settings \<Rightarrow> int \<Rightarrow> string \<Rightarrow> string \<Rightarrow> pydict py" where
  "decode_membership_claim mac wide cfg now token oid =
     (case decode_signed_payload mac wide (auth_secret cfg) now token of
        Inl e \<Rightarrow> Inl ValueError
      | Inr payload \<Rightarrow>
          if dict_get payload ''typ'' \<noteq> VStr CLAIM \<or> dict_get payload ''organization_id'' \<noteq> VStr oid
          then Inl ValueError else Inr payload)"

section \<open>The user of a request\<close>

text \<open>An answer with an error status, or an exception that no handler catches.\<close>

datatype http_error = Http nat string | Crash py_exn

type_synonym 'a http = "http_error + 'a"

definition sub_text :: "pydict \<Rightarrow> string http" where
  "sub_text payload =
     (case map_of payload ''sub'' of
        None \<Rightarrow> Inl (Crash KeyError)
      | Some (VStr s) \<Rightarrow> Inr s
      | Some _ \<Rightarrow> Inl (Crash AttributeError))"

definition crashing :: "'a py \<Rightarrow> 'a http" where
  "crashing = map_sum Crash id"

record signed_in =
  via_cookie :: bool
  used_token :: string
  user_id :: string
  user_of :: user_row

definition current_user ::
  "mac \<Rightarrow> (string \<Rightarrow> pyval py) \<Rightarrow> settings \<Rightarrow> int \<Rightarrow> string option \<Rightarrow> string \<Rightarrow> tenancy \<Rightarrow> signed_in http" where
  "current_user mac wide cfg now bearer cookie T =
     (let token = (case bearer of Some t \<Rightarrow> t | None \<Rightarrow> cookie) in
      if token = [] then Inl (Http 401 ''Authentication required'')
      else case decode_token mac wide cfg now token of
          Inl e \<Rightarrow> Inl (Http 401 ''Invalid or expired token'')
        | Inr payload \<Rightarrow> rbind (sub_text payload) (\<lambda>email.
            case get_user T email of
              None \<Rightarrow> Inl (Http 401 ''User no longer exists'')
            | Some (uid, u) \<Rightarrow>
                rbind (crashing (int_value (dict_get_or payload ''ver'' (VInt (- 1))))) (\<lambda>version.
                  if version \<noteq> token_version u then Inl (Http 401 ''Session has been revoked'')
                  else Inr \<lparr>via_cookie = (bearer = None), used_token = token, user_id = uid, user_of = u\<rparr>)))"


section \<open>Decoding undoes encoding\<close>

lemma code_b64_char: "n < 64 \<Longrightarrow> code (b64_char n) = (if n < 26 then n + 65 else if n < 52 then n + 71
    else if n < 62 then n - 4 else if n = 62 then 45 else 95)"
  by (simp add: b64_char_def code_def)

lemma b64_value_code: "b64_value c = (let n = code c in
    if 65 \<le> n \<and> n \<le> 90 then Some (n - 65)
    else if 97 \<le> n \<and> n \<le> 122 then Some (n - 71)
    else if 48 \<le> n \<and> n \<le> 57 then Some (n + 4)
    else if n = 45 \<or> n = 43 then Some 62
    else if n = 95 \<or> n = 47 then Some 63 else None)"
  by (simp only: b64_value_def code_eq_iff [symmetric] Let_def) (simp add: code_def)

lemma b64_char_laws:
  assumes "n < 64"
  shows "b64_value (b64_char n) = Some n" and "b64_char n \<noteq> CHR ''=''" and "b64_char n \<noteq> CHR ''.''"
    and "code (b64_char n) < 128"
proof -
  consider "n < 26" | "26 \<le> n" "n < 52" | "52 \<le> n" "n < 62" | "n = 62" | "n = 63" using assms by linarith
  then have "b64_value (b64_char n) = Some n \<and> code (b64_char n) \<notin> {61, 46} \<and> code (b64_char n) < 128"
    by cases (auto simp: b64_value_code code_b64_char Let_def)
  then show "b64_value (b64_char n) = Some n" "b64_char n \<noteq> CHR ''=''" "b64_char n \<noteq> CHR ''.''"
    "code (b64_char n) < 128" by (auto simp: code_def)
qed

lemma six_bits: "code a div 4 < 64" "code a mod 4 * 16 < 64" "code a mod 4 * 16 + code b div 16 < 64"
  "code b mod 16 * 4 < 64" "code b mod 16 * 4 + code c div 64 < 64" "code c mod 64 < 64"
  using code_less [of a] code_less [of b] code_less [of c] by arith+

lemma a2b_char: "n < 64 \<Longrightarrow> a2b quad left pads (b64_char n # cs) =
    (if quad = 0 then a2b 1 n 0 cs
     else if quad = 1 then map_sum id (Cons (char_of (left * 4 + n div 16))) (a2b 2 (n mod 16) 0 cs)
     else if quad = 2 then map_sum id (Cons (char_of (left * 16 + n div 4))) (a2b 3 (n mod 4) 0 cs)
     else map_sum id (Cons (char_of (left * 64 + n))) (a2b 0 0 0 cs))"
  using b64_char_laws [of n] by simp

lemma byte_parts:
  "char_of (code a div 4 * 4 + (code a mod 4 * 16) div 16) = a"
  "char_of (code a div 4 * 4 + (code a mod 4 * 16 + code b div 16) div 16) = a"
  "(code a mod 4 * 16 + code b div 16) mod 16 = code b div 16"
  "char_of (code b div 16 * 16 + (code b mod 16 * 4) div 4) = b"
  "char_of (code b div 16 * 16 + (code b mod 16 * 4 + code c div 64) div 4) = b"
  "(code b mod 16 * 4 + code c div 64) mod 4 = code c div 64"
  "char_of (code c div 64 * 64 + code c mod 64) = c"
proof -
  have b: "code b div 16 < 16" "code c div 64 < 4" using code_less [of b] code_less [of c] by arith+
  note z = div_less [OF b(1)] div_less [OF b(2)] mod_less [OF b(1)] mod_less [OF b(2)]
  have "code a div 4 * 4 + (code a mod 4 * 16) div 16 = code a"
    "code a div 4 * 4 + (code a mod 4 * 16 + code b div 16) div 16 = code a"
    "code b div 16 * 16 + (code b mod 16 * 4) div 4 = code b"
    "code b div 16 * 16 + (code b mod 16 * 4 + code c div 64) div 4 = code b"
    "code c div 64 * 64 + code c mod 64 = code c" by (simp_all add: z del: div_mult2_eq [symmetric])
  then show "char_of (code a div 4 * 4 + (code a mod 4 * 16) div 16) = a"
    "char_of (code a div 4 * 4 + (code a mod 4 * 16 + code b div 16) div 16) = a"
    "char_of (code b div 16 * 16 + (code b mod 16 * 4) div 4) = b"
    "char_of (code b div 16 * 16 + (code b mod 16 * 4 + code c div 64) div 4) = b"
    "char_of (code c div 64 * 64 + code c mod 64) = c" by (simp_all only: char_of_code)
  show "(code a mod 4 * 16 + code b div 16) mod 16 = code b div 16"
    "(code b mod 16 * 4 + code c div 64) mod 4 = code c div 64" using z by simp_all
qed

lemma a2b_pad: "a2b 2 left 0 [CHR ''='', CHR ''=''] = Inr []" "a2b 3 left 0 [CHR ''=''] = Inr []"
  "a2b 0 left pads [] = Inr []"
  by simp_all

lemma quad_cases: "(1 :: nat) = 0 \<longleftrightarrow> False" "(2 :: nat) = 0 \<longleftrightarrow> False" "(3 :: nat) = 0 \<longleftrightarrow> False"
  "(2 :: nat) = 1 \<longleftrightarrow> False" "(3 :: nat) = 1 \<longleftrightarrow> False" "(3 :: nat) = 2 \<longleftrightarrow> False"
  by simp_all

lemma a2b_encoded: "a2b 0 0 0 (urlsafe_b64encode s) = Inr s"
proof (induction s rule: urlsafe_b64encode.induct)
  case (4 a b c cs)
  show ?case
    by (simp only: urlsafe_b64encode.simps a2b_char six_bits byte_parts quad_cases if_True if_False simp_thms
      a2b_pad map_sum.simps 4 id_apply)
qed (simp_all only: urlsafe_b64encode.simps a2b_char six_bits byte_parts quad_cases if_True if_False simp_thms
      a2b_pad map_sum.simps id_apply)

lemma encoded_padding:
  "\<exists>r k. urlsafe_b64encode s = r @ replicate k (CHR ''='') \<and> (r = [] \<or> last r \<noteq> CHR ''='') \<and>
     list_all (\<lambda>c. \<exists>n<64. c = b64_char n) r \<and> k = nat (- int (length r) mod 4)"
proof (induction s rule: urlsafe_b64encode.induct)
  case (2 a)
  show ?case using b64_char_laws(2) [OF six_bits(2)]
    by (intro exI [of _ "[b64_char (code a div 4), b64_char (code a mod 4 * 16)]"] exI [of _ 2])
       (auto simp: numeral_2_eq_2 intro: six_bits)
next
  case (3 a b)
  show ?case using b64_char_laws(2) [OF six_bits(4)]
    by (intro exI [of _ "[b64_char (code a div 4), b64_char (code a mod 4 * 16 + code b div 16),
         b64_char (code b mod 16 * 4)]"] exI [of _ 1]) (auto intro: six_bits)
next
  case (4 a b c cs)
  then obtain r k where r: "urlsafe_b64encode cs = r @ replicate k (CHR ''='')" "r = [] \<or> last r \<noteq> CHR ''=''"
    "list_all (\<lambda>c. \<exists>n<64. c = b64_char n) r" "k = nat (- int (length r) mod 4)" by blast
  let ?q = "[b64_char (code a div 4), b64_char (code a mod 4 * 16 + code b div 16),
    b64_char (code b mod 16 * 4 + code c div 64), b64_char (code c mod 64)]"
  have "(- int (length r + 4)) mod 4 = (- int (length r)) mod 4" by presburger
  then have "k = nat (- int (length (?q @ r)) mod 4)" using r(4) by (simp add: add.commute)
  moreover have "list_all (\<lambda>c. \<exists>n<64. c = b64_char n) (?q @ r)"
    using r(3) by (auto intro: six_bits)
  moreover have "last (?q @ r) \<noteq> CHR ''=''" using r(2) b64_char_laws(2) [OF six_bits(6)] by (cases r) simp_all
  ultimately show ?case using r(1) by (intro exI [of _ "?q @ r"] exI [of _ k]) simp
qed simp

lemma rstrip_replicate: "r = [] \<or> last r \<noteq> c \<Longrightarrow> rstrip_char c (r @ replicate k c) = r"
proof -
  assume r: "r = [] \<or> last r \<noteq> c"
  have "dropWhile (\<lambda>x. x = c) (replicate k c @ rev r) = dropWhile (\<lambda>x. x = c) (rev r)"
    by (induction k) simp_all
  moreover have "dropWhile (\<lambda>x. x = c) (rev r) = rev r" using r by (cases r rule: rev_cases) simp_all
  ultimately show ?thesis by (simp add: rstrip_char_def)
qed

lemma b64_parts:
  obtains r where "b64 s = r" and "urlsafe_b64encode s = r @ replicate (nat (- int (length r) mod 4)) (CHR ''='')"
    and "list_all (\<lambda>c. \<exists>n<64. c = b64_char n) r"
proof -
  obtain r k where r: "urlsafe_b64encode s = r @ replicate k (CHR ''='')" "r = [] \<or> last r \<noteq> CHR ''=''"
    "list_all (\<lambda>c. \<exists>n<64. c = b64_char n) r" "k = nat (- int (length r) mod 4)"
    using encoded_padding [of s] by blast
  have "b64 s = r" unfolding b64_def r(1) by (rule rstrip_replicate [OF r(2)])
  then show thesis using r(1,3) unfolding r(4) by (rule that)
qed

lemma b64_chars: "c \<in> set (b64 s) \<Longrightarrow> code c < 128 \<and> c \<noteq> CHR ''.''"
proof -
  assume c: "c \<in> set (b64 s)"
  obtain r where "b64 s = r" "list_all (\<lambda>c. \<exists>n<64. c = b64_char n) r" by (rule b64_parts [of s])
  with c obtain n where "n < 64" "c = b64_char n" by (auto simp: list_all_iff)
  then show ?thesis using b64_char_laws by simp
qed

lemma b64_ascii: "is_ascii (b64 s)" and b64_no_dot: "CHR ''.'' \<notin> set (b64 s)"
  using b64_chars [of _ s] by (auto simp: is_ascii_def list_all_iff)

lemma unb64_b64: "unb64 (b64 s) = Inr s"
proof -
  obtain r where r: "b64 s = r" "urlsafe_b64encode s = r @ replicate (nat (- int (length r) mod 4)) (CHR ''='')"
    by (rule b64_parts [of s])
  have "is_ascii (replicate k (CHR ''=''))" for k by (simp add: is_ascii_def list_all_iff code_def)
  then have "is_ascii (urlsafe_b64encode s)" unfolding r(2)
    using b64_ascii [of s] by (simp add: r(1) is_ascii_def)
  then show ?thesis using a2b_encoded [of s]
    by (simp add: unb64_def r(1) r(2) [symmetric] urlsafe_b64decode_def)
qed


section \<open>Signed tokens\<close>

text \<open>A number that the decoder reads back: at most 4300 digits.\<close>

definition readable :: "int \<Rightarrow> bool" where
  "readable n = (length (dec_text (nat \<bar>n\<bar>)) \<le> int_max_str_digits)"

lemma readable_small: "\<bar>n\<bar> < 10 ^ 18 \<Longrightarrow> readable n"
proof -
  assume "\<bar>n\<bar> < 10 ^ 18"
  then have "nat \<bar>n\<bar> < 10 ^ 18" by simp
  then have "length (dec_text (nat \<bar>n\<bar>)) \<le> 18" by (rule length_dec_text) simp
  then show ?thesis by (simp add: readable_def int_max_str_digits_def)
qed

lemma token_parts:
  assumes "CHR ''.'' \<notin> set body"
  shows "before_first (CHR ''.'') (body @ CHR ''.'' # s) = body" "after_first (CHR ''.'') (body @ CHR ''.'' # s) = s"
  using assms by (induction body) (auto simp: before_first_def after_first_def)

text \<open>What a token of the server decodes to, until it expires.\<close>

lemma signed_decoded:
  assumes wf: "wf_json (VDict payload)" and e: "map_of payload ''exp'' = Some (VInt e)"
  obtains d where "decode_signed_payload mac wide secret now (encode_signed_payload mac frep secret payload) =
      (if e < now then Inl ValueError else Inr d)"
    and "\<And>k. map_of d k = map_option sorted_val (map_of payload k)"
proof -
  obtain d where d: "sorted_val (VDict payload) = VDict d" "\<And>k. map_of d k = map_option sorted_val (map_of payload k)"
    by (rule sorted_dict [OF wf]) blast
  have "compare_texts (b64 x) (b64 x) = Inr True" for x by (simp add: compare_texts_def b64_ascii)
  then have "decode_signed_payload mac wide secret now (encode_signed_payload mac frep secret payload) =
      (if e < now then Inl ValueError else Inr d)"
    using loads_ascii [OF wf, of wide frep, unfolded d(1)]
    by (simp add: decode_signed_payload_def encode_signed_payload_def Let_def token_parts b64_no_dot unb64_b64 d(2) e)
  then show thesis by (rule that [OF _ d(2)])
qed

text \<open>What is accepted was signed.\<close>

lemma decoded_signed:
  assumes "decode_signed_payload mac wide secret now token = Inr payload"
  obtains body raw where "token = body @ CHR ''.'' # b64 (mac secret body)" and "unb64 body = Inr raw"
    and "json_loads_bytes wide raw = Inr (VDict payload)"
    and "\<exists>e n. map_of payload ''exp'' = Some e \<and> int_value e = Inr n \<and> now \<le> n"
proof -
  let ?body = "before_first (CHR ''.'') token"
  have "CHR ''.'' \<in> set token" using assms by (auto simp: decode_signed_payload_def Let_def split: if_splits)
  then have t: "token = ?body @ CHR ''.'' # after_first (CHR ''.'') token" by (rule first_parts)
  have s: "compare_texts (after_first (CHR ''.'') token) (b64 (mac secret ?body)) = Inr True"
    using assms by (auto simp: decode_signed_payload_def Let_def split: if_splits elim!: rbindE)
  obtain raw where r: "unb64 ?body = Inr raw" "json_loads_bytes wide raw = Inr (VDict payload)"
    "\<exists>e n. map_of payload ''exp'' = Some e \<and> int_value e = Inr n \<and> now \<le> n"
    using assms by (auto simp: decode_signed_payload_def Let_def not_less split: if_splits pyval.splits option.splits elim!: rbindE)
  have "token = ?body @ CHR ''.'' # b64 (mac secret ?body)"
    using s t by (auto simp: compare_texts_def split: if_splits)
  then show thesis using r by (rule that)
qed

lemma session_wf:
  assumes "readable version" and "readable issued" and "readable (now + ttl)"
  shows "wf_json (VDict (session_payload ttl issued now email role version))"
  using assms by (simp add: session_payload_def readable_def)

lemma claim_wf:
  assumes "readable version" and "readable now" and "readable (now + max 60 ttl)"
  shows "wf_json (VDict (claim_payload ttl now nonce uid oid version))"
  using assms by (simp add: claim_payload_def readable_def)

lemma session_decoded:
  assumes "readable version" and "readable issued" and "readable (now + token_ttl_seconds cfg)"
  obtains d where "decode_token mac wide cfg later (create_token mac frep cfg issued now email role version) =
      (if now + token_ttl_seconds cfg < later then Inl ValueError else Inr d)"
    and "map_of d ''sub'' = Some (VStr (py_lower email))" and "map_of d ''ver'' = Some (VInt version)"
proof -
  obtain d where d: "decode_signed_payload mac wide (auth_secret cfg) later
      (create_token mac frep cfg issued now email role version) =
      (if now + token_ttl_seconds cfg < later then Inl ValueError else Inr d)"
    "\<And>k. map_of d k = map_option sorted_val (map_of (session_payload (token_ttl_seconds cfg) issued now email role version) k)"
    unfolding create_token_def
    by (rule signed_decoded [OF session_wf [OF assms, of email role], where mac = mac and wide = wide
      and secret = "auth_secret cfg" and now = later and frep = frep]) (simp add: session_payload_def, blast)
  then show thesis using that [of d]
    by (simp add: decode_token_def session_payload_def dict_get_or_def)
qed

lemma claim_decoded:
  assumes "readable version" and "readable now" and "readable (now + max 60 (membership_claim_ttl_seconds cfg))"
  obtains d where "decode_signed_payload mac wide (auth_secret cfg) later
      (create_membership_claim mac frep cfg now nonce uid oid version) =
      (if now + max 60 (membership_claim_ttl_seconds cfg) < later then Inl ValueError else Inr d)"
    and "map_of d ''typ'' = Some (VStr CLAIM)" and "map_of d ''organization_id'' = Some (VStr oid)"
    and "map_of d ''sub'' = Some (VStr uid)" and "map_of d ''ver'' = Some (VInt version)"
proof -
  obtain d where d: "decode_signed_payload mac wide (auth_secret cfg) later
      (create_membership_claim mac frep cfg now nonce uid oid version) =
      (if now + max 60 (membership_claim_ttl_seconds cfg) < later then Inl ValueError else Inr d)"
    "\<And>k. map_of d k = map_option sorted_val
       (map_of (claim_payload (membership_claim_ttl_seconds cfg) now nonce uid oid version) k)"
    unfolding create_membership_claim_def
    by (rule signed_decoded [OF claim_wf [OF assms, of nonce uid oid], where mac = mac and wide = wide
      and secret = "auth_secret cfg" and now = later and frep = frep]) (simp add: claim_payload_def, blast)
  then show thesis using that [of d] by (simp add: claim_payload_def)
qed

section \<open>Stored e-mail addresses\<close>

lemma lower_space: "py_space (lower_char c) = py_space c"
proof -
  have "code (lower_char c) = (if 65 \<le> code c \<and> code c \<le> 90 \<or> 192 \<le> code c \<and> code c \<le> 222 \<and> code c \<noteq> 215
      then code c + 32 else code c)"
    using code_less [of c] by (auto simp: lower_char_def)
  then show ?thesis by (auto simp: py_space_def c_space_def)
qed

lemma strip_lower: "py_strip (py_lower s) = py_lower (py_strip s)"
  by (simp add: py_strip_def py_lower_def dropWhile_map comp_def lower_space rev_map)

lemma strip_idem: "py_strip (py_strip s) = py_strip s"
proof -
  let ?t = "dropWhile py_space s"
  have "dropWhile py_space (rev (dropWhile py_space (rev ?t))) = rev (dropWhile py_space (rev ?t))"
  proof (cases ?t)
    case (Cons c u)
    then have "\<not> py_space c" by (metis dropWhile_eq_Cons_conv)
    moreover from this Cons have "dropWhile py_space (rev ?t) \<noteq> []" by (auto simp: dropWhile_eq_Nil_conv)
    ultimately obtain v where "rev (dropWhile py_space (rev ?t)) = c # v"
      using Cons by (metis append_self_conv2 dropWhile_append3 rev.simps(2) rev_eq_append_conv rev_rev_ident)
    with \<open>\<not> py_space c\<close> show ?thesis by simp
  next
    case Nil
    show ?thesis unfolding Nil by simp
  qed
  then show ?thesis by (simp add: py_strip_def)
qed

lemma normal_email_idem: "normal_email (normal_email e) = normal_email e"
  by (simp add: normal_email_def strip_lower strip_idem)

lemma normal_email_lower: "normal_email (py_lower e) = normal_email e"
  by (simp add: normal_email_def)


section \<open>The table of users\<close>

definition users_ok :: "tenancy \<Rightarrow> bool" where
  "users_ok T = (distinct (map fst (users T)) \<and> distinct (map (\<lambda>(i, u). user_email u) (users T)) \<and>
     list_all (\<lambda>(i, u). normal_email (user_email u) = user_email u) (users T))"

text \<open>No user is lost, keeps the address, and never goes back to an earlier version.\<close>

definition users_kept :: "tenancy \<Rightarrow> tenancy \<Rightarrow> bool" where
  "users_kept T T' = (\<forall>i u. map_of (users T) i = Some u \<longrightarrow>
     (\<exists>u'. map_of (users T') i = Some u' \<and> user_email u' = user_email u \<and> token_version u \<le> token_version u'))"

lemma users_kept_refl: "users T' = users T \<Longrightarrow> users_kept T T'"
  by (simp add: users_kept_def)

lemma users_kept_trans: "users_kept T U \<Longrightarrow> users_kept U V \<Longrightarrow> users_kept T V"
  unfolding users_kept_def by (metis order_trans)

lemma users_ok_same: "users T' = users T \<Longrightarrow> users_ok T' = users_ok T"
  by (simp add: users_ok_def)

lemma update_in: "map_of xs i = Some u \<Longrightarrow> f v = f u \<Longrightarrow> distinct (map fst xs) \<Longrightarrow>
  map (\<lambda>(j, x). f x) (AList.update i v xs) = map (\<lambda>(j, x). f x) xs"
  by (induction xs) (auto split: if_splits)

lemma update_member: "p \<in> set (AList.update i v xs) \<Longrightarrow> p = (i, v) \<or> p \<in> set xs"
  by (induction xs) (auto split: if_splits)

lemma find_distinct:
  "(i, u) \<in> set xs \<Longrightarrow> distinct (map (\<lambda>(i, u). f u) xs) \<Longrightarrow> find (\<lambda>(j, x). f x = f u) xs = Some (i, u)"
  by (induction xs) (force simp: image_iff)+

lemma update_user_ok:
  assumes "users_ok T" and "map_of (users T) i = Some u" and "user_email v = user_email u"
    and "token_version u \<le> token_version v"
  shows "users_ok (T\<lparr>users := AList.update i v (users T)\<rparr>)"
    and "users_kept T (T\<lparr>users := AList.update i v (users T)\<rparr>)"
proof -
  have d: "distinct (map fst (users T))" using assms(1) by (simp add: users_ok_def)
  have "map (\<lambda>(j, x). user_email x) (AList.update i v (users T)) = map (\<lambda>(j, x). user_email x) (users T)"
    by (rule update_in [OF assms(2,3) d])
  moreover have "(i, u) \<in> set (users T)" using assms(2) by (rule map_of_SomeD)
  then have n: "normal_email (user_email u) = user_email u"
    using assms(1) by (auto simp: users_ok_def list_all_iff)
  have "list_all (\<lambda>(i, u). normal_email (user_email u) = user_email u) (AList.update i v (users T))"
    unfolding list_all_iff
  proof
    fix p assume "p \<in> set (AList.update i v (users T))"
    then have "p = (i, v) \<or> p \<in> set (users T)" by (rule update_member)
    then show "case p of (i, u) \<Rightarrow> normal_email (user_email u) = user_email u"
      using assms(1,3) n by (auto simp: users_ok_def list_all_iff)
  qed
  ultimately show "users_ok (T\<lparr>users := AList.update i v (users T)\<rparr>)"
    using assms(1) by (simp add: users_ok_def distinct_update)
  show "users_kept T (T\<lparr>users := AList.update i v (users T)\<rparr>)"
    using assms(2-4) by (auto simp: users_kept_def update_conv')
qed

lemma create_user_ok:
  assumes "users_ok T" and "map_of (users T) uid = None" and "create_user uid email hash role T = Inr (r, T')"
  shows "users_ok T'" and "users_kept T T'"
proof -
  have n: "user_with_email T (normal_email email) = None"
    using assms(3) by (cases "user_with_email T (normal_email email) = None")
      (simp_all add: create_user_def Let_def del: not_None_eq)
  then have T': "T' = T\<lparr>users := users T @ [(uid, \<lparr>user_email = normal_email email, password_hash = hash,
      user_role = role, token_version = 0\<rparr>)]\<rparr>"
    using assms(3) by (auto simp: create_user_def Let_def)
  have "normal_email email \<notin> set (map (\<lambda>(i, u). user_email u) (users T))"
    using n by (fastforce simp: user_with_email_def find_None_iff)
  then show "users_ok T'" using assms(1,2) unfolding T'
    by (auto simp: users_ok_def normal_email_idem map_of_eq_None_iff)
  show "users_kept T T'" using assms(2) unfolding T' by (auto simp: users_kept_def map_add_def)
qed

lemma bump_ok: "users_ok T \<Longrightarrow> users_ok (snd (bump_user_token_version uid T))"
  and bump_kept: "users_ok T \<Longrightarrow> users_kept T (snd (bump_user_token_version uid T))"
  using update_user_ok [of T uid] users_kept_refl [of T T]
  by (auto simp: bump_user_token_version_def split: option.splits)

lemma persona_ok: "users_ok T \<Longrightarrow> users_ok (snd (update_user_role uid role T))"
  and persona_kept: "users_ok T \<Longrightarrow> users_kept T (snd (update_user_role uid role T))"
  using update_user_ok [of T uid] users_kept_refl [of T T]
  by (auto simp: update_user_role_def split: option.splits)

lemma other_users:
  "users (snd (create_organization oid now uid name T)) = users T"
  "add_organization_member actor oid email role allow now T = Inr (v, T') \<Longrightarrow> users T' = users T"
  "add_organization_member_by_claim actor oid target role now T = Inr (v, T') \<Longrightarrow> users T' = users T"
  "remove_organization_member actor oid target T = Inr (b, T') \<Longrightarrow> users T' = users T"
  "create_workspace wid now uid name role org T = Inr (w, T') \<Longrightarrow> users T' = users T"
  "users (snd (update_workspace uid wid name role T)) = users T"
  by (auto simp: create_organization_def add_organization_member_def add_organization_member_by_claim_def
      remove_organization_member_def create_workspace_def update_workspace_def upsert_organization_member_def
      Let_def split: if_splits option.splits elim!: rbindE)

lemma reach_users: "tenancy_reach T \<Longrightarrow> users_ok T"
proof (induction rule: tenancy_reach.induct)
  case start
  then show ?case by (simp add: users_ok_def no_tenants_def)
next
  case (reset T uid u hash)
  show ?case by (rule update_user_ok(1) [OF reset.IH reset.hyps(2)]) simp_all
qed (auto intro: create_user_ok(1) bump_ok persona_ok simp: other_users users_ok_same [OF other_users(1)]
    users_ok_same [OF other_users(6)] dest!: other_users(2-5) users_ok_same)

lemma user_by_email:
  assumes "users_ok T" and "map_of (users T) i = Some u"
  shows "get_user T (user_email u) = Some (i, u)"
proof -
  have m: "(i, u) \<in> set (users T)" using assms(2) by (rule map_of_SomeD)
  then have n: "normal_email (user_email u) = user_email u" using assms(1) by (auto simp: users_ok_def list_all_iff)
  have d: "distinct (map (\<lambda>(i, u). user_email u) (users T))" using assms(1) by (simp add: users_ok_def)
  show ?thesis using find_distinct [OF m d] n by (simp add: get_user_def user_with_email_def)
qed

lemma user_found:
  assumes "users_ok T" and "get_user T e = Some (i, u)"
  shows "map_of (users T) i = Some u" and "user_email u = normal_email e"
proof -
  have "(i, u) \<in> set (users T) \<and> user_email u = normal_email e"
    using assms(2) by (auto simp: get_user_def user_with_email_def find_Some_iff dest: nth_mem)
  then show "map_of (users T) i = Some u" "user_email u = normal_email e"
    using assms(1) by (auto simp: users_ok_def)
qed


section \<open>What a session is worth\<close>

lemma crashing_Inr [simp]: "crashing m = Inr x \<longleftrightarrow> m = Inr x"
  by (cases m) (simp_all add: crashing_def)

lemma created_token_nonempty: "create_token mac frep cfg issued now email role version \<noteq> []"
  by (simp add: create_token_def encode_signed_payload_def Let_def)

lemma issued_session:
  assumes "users_ok T" and "map_of (users T) uid = Some u"
    and "\<bar>token_version u\<bar> < 10 ^ 18" and "\<bar>issued\<bar> < 10 ^ 18" and "\<bar>now + token_ttl_seconds cfg\<bar> < 10 ^ 18"
    and "later \<le> now + token_ttl_seconds cfg"
    and "token = create_token mac frep cfg issued now (user_email u) role (token_version u)"
    and "token = (case bearer of Some t \<Rightarrow> t | None \<Rightarrow> cookie)"
  shows "current_user mac wide cfg later bearer cookie T =
      Inr \<lparr>via_cookie = (bearer = None), used_token = token, user_id = uid, user_of = u\<rparr>"
proof -
  obtain d where d: "decode_token mac wide cfg later token = Inr d"
    "map_of d ''sub'' = Some (VStr (py_lower (user_email u)))" "map_of d ''ver'' = Some (VInt (token_version u))"
    using session_decoded [OF readable_small [OF assms(3)] readable_small [OF assms(4)] readable_small [OF assms(5)],
        of mac wide later frep "user_email u" role] assms(6,7) by (auto simp: not_less)
  have "get_user T (py_lower (user_email u)) = Some (uid, u)"
    using user_by_email [OF assms(1,2)] by (simp add: get_user_def normal_email_lower)
  moreover have "token \<noteq> []" using created_token_nonempty assms(7) by simp
  ultimately show ?thesis using d unfolding current_user_def assms(8) [symmetric]
    by (simp add: sub_text_def dict_get_or_def crashing_def)
qed

text \<open>
  A token issued to a user of a reachable state is accepted as that user until its lifetime is
  over, as a bearer token and as a cookie, unless the user's token version changes.
\<close>

theorem session_roundtrip:
  assumes "tenancy_reach T" and "map_of (users T) uid = Some u"
    and "\<bar>token_version u\<bar> < 10 ^ 18" and "\<bar>issued\<bar> < 10 ^ 18" and "\<bar>now + token_ttl_seconds cfg\<bar> < 10 ^ 18"
    and "later \<le> now + token_ttl_seconds cfg"
    and "token = create_token mac frep cfg issued now (user_email u) role (token_version u)"
  shows "current_user mac wide cfg later (Some token) cookie T =
      Inr \<lparr>via_cookie = False, used_token = token, user_id = uid, user_of = u\<rparr> \<and>
    current_user mac wide cfg later None token T =
      Inr \<lparr>via_cookie = True, used_token = token, user_id = uid, user_of = u\<rparr>"
  using issued_session [OF reach_users [OF assms(1)] assms(2-7), where bearer = "Some token" and cookie = cookie and wide = wide]
    issued_session [OF reach_users [OF assms(1)] assms(2-7), where bearer = None and cookie = token and wide = wide] by simp

definition toy_mac :: mac where
  "toy_mac key text = take 4 (rev key @ rev text)"

definition toy_user :: user_row where
  "toy_user = \<lparr>user_email = ''a@b'', password_hash = [], user_role = ''Fund'', token_version = 0\<rparr>"

definition toy_token :: string where
  "toy_token = create_token toy_mac (\<lambda>x. []) sample_settings 1000 1000 ''a@b'' ''Fund'' 0"

lemma toy_reach: "tenancy_reach (no_tenants\<lparr>users := [(''u1'', toy_user)]\<rparr>)"
  by (rule tenancy_reach.signup [OF tenancy_reach.start, of "''u1''" "''a@b ''" "[]" "''Fund''" "(''u1'', toy_user)"])
     (simp_all add: no_tenants_def create_user_def user_with_email_def normal_email_def py_strip_def py_lower_def
        lower_char_def py_space_def c_space_def code_def Let_def toy_user_def)

lemma session_roundtrip_witness:
  "current_user toy_mac (\<lambda>s. Inl ValueError) sample_settings 1200 (Some toy_token) []
       (no_tenants\<lparr>users := [(''u1'', toy_user)]\<rparr>) =
     Inr \<lparr>via_cookie = False, used_token = toy_token, user_id = ''u1'', user_of = toy_user\<rparr>"
  using session_roundtrip [OF toy_reach, of "''u1''" toy_user 1000 1000 sample_settings 1200 toy_token toy_mac
      "\<lambda>x. []" "''Fund''" "\<lambda>s. Inl ValueError" "[]"]
  by (simp add: sample_settings_def toy_user_def toy_token_def)

text \<open>
  An accepted request carries a token signed with the secret of the server, of the type of a
  session and not expired, for an existing user whose token version is the one in the token.
\<close>

theorem accepted_session_signed:
  assumes "current_user mac wide cfg now bearer cookie T = Inr s" and "users_ok T"
  shows "\<exists>body raw payload e n v.
    used_token s = body @ CHR ''.'' # b64 (mac (auth_secret cfg) body) \<and>
    unb64 body = Inr raw \<and> json_loads_bytes wide raw = Inr (VDict payload) \<and>
    dict_get_or payload ''typ'' (VStr SESSION) = VStr SESSION \<and>
    map_of payload ''exp'' = Some e \<and> int_value e = Inr n \<and> now \<le> n \<and>
    map_of (users T) (user_id s) = Some (user_of s) \<and>
    int_value (dict_get_or payload ''ver'' (VInt (- 1))) = Inr v \<and> v = token_version (user_of s)"
proof -
  obtain token where t: "token = (case bearer of Some t \<Rightarrow> t | None \<Rightarrow> cookie)" by blast
  have u: "used_token s = token" using assms(1) unfolding t
    by (auto simp: current_user_def Let_def split: if_splits sum.splits option.splits prod.splits elim!: rbindE)
  obtain payload email where p: "decode_token mac wide cfg now token = Inr payload"
    "get_user T email = Some (user_id s, user_of s)"
    "int_value (dict_get_or payload ''ver'' (VInt (- 1))) = Inr (token_version (user_of s))"
    using assms(1) unfolding t
    by (auto simp: current_user_def Let_def split: if_splits sum.splits option.splits prod.splits elim!: rbindE)
  have d: "decode_signed_payload mac wide (auth_secret cfg) now token = Inr payload"
    "dict_get_or payload ''typ'' (VStr SESSION) = VStr SESSION"
    using p(1) by (auto simp: decode_token_def split: sum.splits if_splits)
  obtain body raw where b: "token = body @ CHR ''.'' # b64 (mac (auth_secret cfg) body)" "unb64 body = Inr raw"
    "json_loads_bytes wide raw = Inr (VDict payload)"
    "\<exists>e n. map_of payload ''exp'' = Some e \<and> int_value e = Inr n \<and> now \<le> n"
    by (rule decoded_signed [OF d(1)])
  show ?thesis using u d(2) b p(3) user_found(1) [OF assms(2) p(2)] by blast
qed

lemma accepted_session_signed_witness:
  "\<exists>body. toy_token = body @ CHR ''.'' # b64 (toy_mac (auth_secret sample_settings) body)"
proof -
  have ok: "users_ok (no_tenants\<lparr>users := [(''u1'', toy_user)]\<rparr>)" using toy_reach by (rule reach_users)
  have "current_user toy_mac (\<lambda>s. Inl ValueError) sample_settings 1200 (Some toy_token) []
      (no_tenants\<lparr>users := [(''u1'', toy_user)]\<rparr>) =
    Inr \<lparr>via_cookie = (Some toy_token = None), used_token = toy_token, user_id = ''u1'', user_of = toy_user\<rparr>"
    by (rule issued_session [OF ok, where issued = 1000 and now = 1000 and frep = "\<lambda>x. []" and role = "''Fund''"])
       (simp_all add: sample_settings_def toy_user_def toy_token_def)
  from accepted_session_signed [OF this ok] show ?thesis by auto
qed

text \<open>
  A membership claim never opens a session, a session token is never accepted as a membership
  claim, and a claim for one organization is refused by every other.
\<close>

theorem token_types_separate:
  assumes "\<bar>version\<bar> < 10 ^ 18" and "\<bar>issued\<bar> < 10 ^ 18" and "\<bar>now\<bar> < 10 ^ 18"
    and "\<bar>now + token_ttl_seconds cfg\<bar> < 10 ^ 18" and "\<bar>now + max 60 (membership_claim_ttl_seconds cfg)\<bar> < 10 ^ 18"
  shows "decode_token mac wide cfg later (create_membership_claim mac frep cfg now nonce uid oid version) = Inl ValueError \<and>
    decode_membership_claim mac wide cfg later (create_token mac frep cfg issued now email role version) oid = Inl ValueError \<and>
    (decode_membership_claim mac wide cfg later (create_membership_claim mac frep cfg now nonce uid oid version) oid' =
      Inl ValueError \<longleftrightarrow> oid' \<noteq> oid \<or> now + max 60 (membership_claim_ttl_seconds cfg) < later)"
proof -
  note r = readable_small [OF assms(1)] readable_small [OF assms(3)] readable_small [OF assms(5)]
    readable_small [OF assms(2)] readable_small [OF assms(4)]
  obtain d where d: "decode_signed_payload mac wide (auth_secret cfg) later
      (create_membership_claim mac frep cfg now nonce uid oid version) =
      (if now + max 60 (membership_claim_ttl_seconds cfg) < later then Inl ValueError else Inr d)"
    "map_of d ''typ'' = Some (VStr CLAIM)" "map_of d ''organization_id'' = Some (VStr oid)"
    by (rule claim_decoded [OF r(1-3), of mac wide later frep nonce uid oid])
  obtain e where e: "decode_signed_payload mac wide (auth_secret cfg) later
      (create_token mac frep cfg issued now email role version) =
      (if now + token_ttl_seconds cfg < later then Inl ValueError else Inr e)"
    "\<And>k. map_of e k = map_option sorted_val (map_of (session_payload (token_ttl_seconds cfg) issued now email role version) k)"
    unfolding create_token_def
    by (rule signed_decoded [OF session_wf [OF r(1,4,5), of email role], where mac = mac and wide = wide
      and secret = "auth_secret cfg" and now = later and frep = frep]) (simp add: session_payload_def, blast)
  have "VStr CLAIM \<noteq> VStr SESSION" by (simp add: CLAIM_def SESSION_def)
  then show ?thesis using d e
    by (auto simp: decode_token_def decode_membership_claim_def dict_get_or_def dict_get_def session_payload_def)
qed

lemma token_types_separate_witness:
  "decode_token toy_mac (\<lambda>s. Inl ValueError) sample_settings 1010
     (create_membership_claim toy_mac (\<lambda>x. []) sample_settings 1000 ''nonce'' ''u1'' ''o1'' 3) = Inl ValueError"
  using token_types_separate [of 3 1000 1000 sample_settings toy_mac "\<lambda>s. Inl ValueError" 1010 "\<lambda>x. []" "''nonce''" "''u1''" "''o1''"
      "''a@b''" "''Fund''" "''o2''"]
  by (simp add: sample_settings_def)

section \<open>Passwords\<close>

lemma encoded_chars: "c \<in> set (urlsafe_b64encode s) \<Longrightarrow> code c < 128 \<and> c \<noteq> CHR ''$''"
proof -
  assume c: "c \<in> set (urlsafe_b64encode s)"
  have "b64_char n \<noteq> CHR ''$''" if "n < 64" for n
    using code_b64_char [OF that] by (auto simp: code_def split: if_splits)
  moreover obtain r where "urlsafe_b64encode s = r @ replicate (nat (- int (length r) mod 4)) (CHR ''='')"
    "list_all (\<lambda>c. \<exists>n<64. c = b64_char n) r" by (rule b64_parts [of s])
  then have "c = CHR ''='' \<or> (\<exists>n<64. c = b64_char n)" using c by (auto simp: list_all_iff)
  ultimately show ?thesis using b64_char_laws by (auto simp: code_def)
qed

lemma urlsafe_roundtrip: "urlsafe_b64decode (urlsafe_b64encode s) = Inr s"
  using encoded_chars [of _ s] a2b_encoded [of s] by (simp add: urlsafe_b64decode_def is_ascii_def list_all_iff)

lemma dollar_parts:
  assumes "CHR ''$'' \<notin> set a" and "CHR ''$'' \<notin> set b"
  shows "password_parts (a @ CHR ''$'' # (b @ CHR ''$'' # c)) = Inr (a, b, c)"
proof -
  have "before_first (CHR ''$'') (s @ CHR ''$'' # t) = s \<and> after_first (CHR ''$'') (s @ CHR ''$'' # t) = t"
    if "CHR ''$'' \<notin> set s" for s t
    using that by (induction s) (auto simp: before_first_def after_first_def)
  then show ?thesis using assms by (simp add: password_parts_def)
qed

text \<open>
  A stored password is verified exactly by the texts with the same derived key, and so by the
  password itself.
\<close>

theorem password_verified:
  assumes "hash_password scrypt salt password = Inr encoded" and "scrypt password salt 32 = Inr key" and "length key = 32"
  shows "verify_password scrypt attempt encoded \<longleftrightarrow> scrypt attempt salt 32 = Inr key"
proof -
  have e: "encoded = ''scrypt'' @ CHR ''$'' # (urlsafe_b64encode salt @ CHR ''$'' # urlsafe_b64encode key)"
    using assms(1,2) by (auto simp: hash_password_def split: if_splits)
  have "password_parts encoded = Inr (''scrypt'', urlsafe_b64encode salt, urlsafe_b64encode key)"
    unfolding e by (rule dollar_parts) (use encoded_chars in auto)
  then show ?thesis using assms(3)
    by (cases "scrypt attempt salt 32") (simp_all add: verify_password_def urlsafe_roundtrip)
qed

definition toy_scrypt :: scrypt where
  "toy_scrypt password salt n = Inr (take n (password @ salt @ replicate n (CHR ''x'')))"

lemma password_verified_witness:
  "case hash_password toy_scrypt ''salt'' ''correct horse'' of Inl e \<Rightarrow> False
   | Inr encoded \<Rightarrow> verify_password toy_scrypt ''correct horse'' encoded \<and>
       \<not> verify_password toy_scrypt ''wrong horse'' encoded"
proof -
  obtain encoded where e: "hash_password toy_scrypt ''salt'' ''correct horse'' = Inr encoded"
    by (simp add: hash_password_def toy_scrypt_def)
  obtain key where k: "toy_scrypt ''correct horse'' ''salt'' 32 = Inr key" "length key = 32"
    by (simp add: toy_scrypt_def)
  have "toy_scrypt ''wrong horse'' ''salt'' 32 \<noteq> Inr key" using k(1) by (auto simp: toy_scrypt_def)
  then show ?thesis using password_verified [OF e k] k(1) by (simp add: e)
qed

end
