(* ===== verification/EmailAuth.thy ===== *)
theory EmailAuth
  imports Sessions AuthRateLimit AlertQueue
begin

text \<open>
  Authentication by e-mail: \<open>services/transactional_email.py\<close> and \<open>services/auth_email.py\<close>. The
  table \<open>user_auth_state\<close> is an association list from users to rows. The post to the provider
  is an argument that gives the status and the decoded body, or nothing for a transport error;
  drawn tokens are arguments and have different digests, so the unique constraints do not fire.
\<close>

section \<open>Settings of the provider\<close>

datatype email_exn = EmailConfiguration string | EmailDelivery string | EmailValue string | EmailRuntime string

type_synonym 'a emailed = "email_exn + 'a"

record email_settings =
  mail_provider :: string
  mail_key :: string
  sender_email :: string
  sender_name :: string
  verification_template :: "int option"
  reset_template :: "int option"
  mail_timeout :: pyfloat
  mail_sandbox :: bool

definition positive_int_env :: "os_environ \<Rightarrow> string \<Rightarrow> int option emailed" where
  "positive_int_env env name =
     (let raw = py_strip (getenv env name []) in
      if raw = [] then Inr None
      else case py_int 10 raw of
          None \<Rightarrow> Inl (EmailConfiguration (name @ '' must be a positive integer''))
        | Some n \<Rightarrow> if n < 1 then Inl (EmailConfiguration (name @ '' must be a positive integer'')) else Inr (Some n))"

definition positive_float_env :: "os_environ \<Rightarrow> string \<Rightarrow> string \<Rightarrow> pyfloat emailed" where
  "positive_float_env env name fallback =
     (case float_of_text (py_strip (getenv env name fallback)) of
        None \<Rightarrow> Inl (EmailConfiguration (name @ '' must be a positive number''))
      | Some x \<Rightarrow>
          if num_less (Fin 0) x \<and> num_le x (Fin 30) then Inr x
          else Inl (EmailConfiguration (name @ '' must be greater than 0 and at most 30 seconds'')))"

definition stripped_bool_env :: "os_environ \<Rightarrow> string \<Rightarrow> bool \<Rightarrow> bool" where
  "stripped_bool_env env name fallback =
     (py_lower (py_strip (getenv env name (if fallback then ''True'' else ''False''))) \<in> set TRUE_TEXTS)"

definition email_settings_of :: "os_environ \<Rightarrow> email_settings emailed" where
  "email_settings_of env =
     (let sender = py_strip (getenv env ''RIVEXIS_BREVO_SENDER_NAME'' ''Rivexis'') in
      rbind (positive_int_env env ''RIVEXIS_BREVO_VERIFICATION_TEMPLATE_ID'') (\<lambda>verification.
      rbind (positive_int_env env ''RIVEXIS_BREVO_PASSWORD_RESET_TEMPLATE_ID'') (\<lambda>reset.
      rbind (positive_float_env env ''RIVEXIS_BREVO_TIMEOUT_SECONDS'' ''8.0'') (\<lambda>timeout.
      Inr \<lparr>mail_provider = py_lower (py_strip (getenv env ''RIVEXIS_EMAIL_PROVIDER'' ''disabled'')),
        mail_key = py_strip (getenv env ''BREVO_API_KEY'' []),
        sender_email = py_strip (getenv env ''RIVEXIS_BREVO_SENDER_EMAIL'' []),
        sender_name = (if sender = [] then ''Rivexis'' else sender),
        verification_template = verification, reset_template = reset, mail_timeout = timeout,
        mail_sandbox = stripped_bool_env env ''RIVEXIS_BREVO_SANDBOX'' False\<rparr>))))"

definition valid_email :: "string \<Rightarrow> bool" where
  "valid_email value =
     (let local = before_last (CHR ''@'') value; domain = after_last (CHR ''@'') value in
      value \<noteq> [] \<and> length value \<le> 320 \<and> length (filter (\<lambda>c. c = CHR ''@'') value) = 1 \<and>
      local \<noteq> [] \<and> domain \<noteq> [] \<and> CHR ''.'' \<in> set domain \<and> \<not> list_ex py_space value)"

record mail_status =
  status_provider :: string
  mail_enabled :: bool
  status_sandbox :: bool

definition validate_email_configuration :: "email_settings \<Rightarrow> mail_status emailed" where
  "validate_email_configuration c =
     (let missing = (if mail_key c = [] then [''BREVO_API_KEY''] else []) @
        (if \<not> valid_email (sender_email c) then [''RIVEXIS_BREVO_SENDER_EMAIL''] else [])
      in if mail_provider c = ''disabled''
         then Inr \<lparr>status_provider = ''disabled'', mail_enabled = False, status_sandbox = mail_sandbox c\<rparr>
         else if mail_provider c \<noteq> ''brevo''
         then Inl (EmailConfiguration ''RIVEXIS_EMAIL_PROVIDER must be disabled or brevo'')
         else if missing \<noteq> []
         then Inl (EmailConfiguration (''Brevo transactional email is not configured: '' @ join '', '' missing))
         else Inr \<lparr>status_provider = ''brevo'', mail_enabled = True, status_sandbox = mail_sandbox c\<rparr>)"

section \<open>One e-mail\<close>

definition idempotency_char :: "char \<Rightarrow> bool" where
  "idempotency_char c = (let n = code c in 48 \<le> n \<and> n \<le> 57 \<or> 65 \<le> n \<and> n \<le> 90 \<or> 97 \<le> n \<and> n \<le> 122 \<or>
     c \<in> set ''._:-'')"

definition validate_idempotency_key :: "string \<Rightarrow> string emailed" where
  "validate_idempotency_key value =
     (let key = py_strip value in
      if 8 \<le> length key \<and> length key \<le> 128 \<and> list_all idempotency_char key then Inr key
      else Inl (EmailValue ''Email idempotency key must be 8-128 URL-safe identifier characters''))"

datatype email_kind = Verification | PasswordReset

fun kind_tag :: "email_kind \<Rightarrow> string" where
  "kind_tag Verification = ''rivexis-verification''"
| "kind_tag PasswordReset = ''rivexis-password-reset''"

definition template_id :: "email_kind \<Rightarrow> email_settings \<Rightarrow> int emailed" where
  "template_id kind c =
     (let chosen = (case kind of Verification \<Rightarrow> verification_template c | PasswordReset \<Rightarrow> reset_template c);
          name = (case kind of Verification \<Rightarrow> ''RIVEXIS_BREVO_VERIFICATION_TEMPLATE_ID''
            | PasswordReset \<Rightarrow> ''RIVEXIS_BREVO_PASSWORD_RESET_TEMPLATE_ID'')
      in if chosen = None \<or> chosen = Some 0
         then Inl (EmailConfiguration (name @ '' is required before this email flow can send''))
         else Inr (the chosen))"

record email_post =
  post_key :: string
  post_body :: pydict

type_synonym mailer = "email_post \<Rightarrow> (int \<times> pyval py) option"

definition BRAND_EXPANSION :: string where
  "BRAND_EXPANSION = ''Risk '' @ CHR 0xB7 # '' Value '' @ CHR 0xB7 # '' Execution '' @ CHR 0xB7 # '' Analysis''"

definition email_body :: "email_settings \<Rightarrow> string \<Rightarrow> email_kind \<Rightarrow> int \<Rightarrow> string \<Rightarrow> pydict \<Rightarrow> pydict" where
  "email_body c recipient kind template key params =
     [(''sender'', VDict [(''email'', VStr (sender_email c)), (''name'', VStr (sender_name c))]),
      (''to'', VList [VDict [(''email'', VStr (py_strip recipient))]]),
      (''templateId'', VInt template),
      (''params'', VDict (dict_set ''brand_expansion'' (VStr BRAND_EXPANSION) params)),
      (''headers'', VDict ((''idempotencyKey'', VStr key) #
         (if mail_sandbox c then [(''X-Sib-Sandbox'', VStr ''drop'')] else []))),
      (''tags'', VList [VStr (kind_tag kind)])]"

record acceptance =
  accept_status :: string
  accept_provider :: string
  message_id :: "string option"
  accept_sandbox :: bool

definition message_of :: "pyval py \<Rightarrow> string option" where
  "message_of parsed =
     (case parsed of
        Inr (VDict d) \<Rightarrow> (case dict_get d ''messageId'' of
            VStr s \<Rightarrow> if py_strip s = [] then None else Some (take 512 (py_strip s)) | _ \<Rightarrow> None)
      | _ \<Rightarrow> None)"

definition send_template_email ::
  "os_environ \<Rightarrow> mailer \<Rightarrow> string \<Rightarrow> email_kind \<Rightarrow> pydict \<Rightarrow> string \<Rightarrow> acceptance emailed" where
  "send_template_email env post recipient kind params idempotency =
     rbind (email_settings_of env) (\<lambda>c. rbind (validate_email_configuration c) (\<lambda>st.
       if \<not> mail_enabled st then Inl (EmailConfiguration ''Transactional email provider is disabled'')
       else if \<not> valid_email (py_strip recipient) then Inl (EmailValue ''Recipient email is invalid'')
       else rbind (template_id kind c) (\<lambda>template. rbind (validate_idempotency_key idempotency) (\<lambda>key.
         case post \<lparr>post_key = mail_key c, post_body = email_body c recipient kind template key params\<rparr> of
           None \<Rightarrow> Inl (EmailDelivery ''Brevo transactional email request failed before provider acceptance'')
         | Some (answer, parsed) \<Rightarrow>
             if answer < 200 \<or> 300 \<le> answer
             then Inl (EmailDelivery (''Brevo rejected transactional email request with HTTP '' @ int_text answer))
             else Inr \<lparr>accept_status = (if mail_sandbox c then ''sandbox_accepted'' else ''accepted''),
               accept_provider = ''brevo'', message_id = message_of parsed, accept_sandbox = mail_sandbox c\<rparr>))))"

section \<open>Settings of the flows\<close>

definition flow_ttl :: "os_environ \<Rightarrow> string \<Rightarrow> int emailed" where
  "flow_ttl env name =
     (case py_int 10 (py_strip (getenv env name ''1800'')) of
        None \<Rightarrow> Inl (EmailRuntime (name @ '' must be an integer number of seconds''))
      | Some n \<Rightarrow>
          if 300 \<le> n \<and> n \<le> 86400 then Inr n
          else Inl (EmailRuntime (name @ '' must be between 300 and 86400 seconds'')))"

definition VERIFICATION_TTL :: string where
  "VERIFICATION_TTL = ''RIVEXIS_EMAIL_VERIFICATION_TTL_SECONDS''"

definition RESET_TTL :: string where
  "RESET_TTL = ''RIVEXIS_PASSWORD_RESET_TTL_SECONDS''"

definition email_verification_required :: "os_environ \<Rightarrow> bool" where
  "email_verification_required env = stripped_bool_env env ''RIVEXIS_EMAIL_VERIFICATION_REQUIRED'' False"

definition in_production :: "os_environ \<Rightarrow> settings \<Rightarrow> bool" where
  "in_production env cfg =
     (py_lower (py_strip (getenv env ''RIVEXIS_ENV''
        (if environment cfg = [] then ''development'' else environment cfg))) \<in> {''production'', ''prod''})"

definition public_web_url :: "(string \<Rightarrow> bool) \<Rightarrow> os_environ \<Rightarrow> settings \<Rightarrow> string emailed" where
  "public_web_url bracket_ok env cfg =
     (let raw = rstrip_char (CHR ''/'') (py_strip (getenv env ''RIVEXIS_PUBLIC_WEB_URL'' [])) in
      if raw = [] then Inl (EmailConfiguration ''RIVEXIS_PUBLIC_WEB_URL is required before password-reset email can send'')
      else case split_url bracket_ok raw of
          None \<Rightarrow> Inl (EmailValue ''Invalid URL'')
        | Some p \<Rightarrow>
            if url_scheme p \<notin> (if in_production env cfg then {''https''} else {''http'', ''https''})
            then Inl (EmailConfiguration ''RIVEXIS_PUBLIC_WEB_URL must use an approved scheme'')
            else if url_host p = [] \<or> present (url_username p) \<or> present (url_password p) \<or>
              url_query p \<noteq> [] \<or> url_fragment p \<noteq> []
            then Inl (EmailConfiguration ''RIVEXIS_PUBLIC_WEB_URL must be a clean web origin'')
            else if url_path p \<notin> {[], ''/''}
            then Inl (EmailConfiguration ''RIVEXIS_PUBLIC_WEB_URL must not contain a path'')
            else Inr raw)"

record auth_posture =
  posture_required :: bool
  posture_verification_ttl :: int
  posture_reset_ttl :: int
  posture_provider :: string

definition validate_auth_email_runtime ::
  "(string \<Rightarrow> bool) \<Rightarrow> os_environ \<Rightarrow> settings \<Rightarrow> auth_posture emailed" where
  "validate_auth_email_runtime bracket_ok env cfg =
     (let required = email_verification_required env in
      rbind (flow_ttl env VERIFICATION_TTL) (\<lambda>verification.
      rbind (flow_ttl env RESET_TTL) (\<lambda>reset.
      rbind (email_settings_of env) (\<lambda>c.
      rbind (validate_email_configuration c) (\<lambda>st.
      rbind (if mail_enabled st \<and> reset_template c \<noteq> None
          then map_sum id (\<lambda>url. True) (public_web_url bracket_ok env cfg) else Inr True) (\<lambda>checked.
        let result = \<lparr>posture_required = required, posture_verification_ttl = verification,
          posture_reset_ttl = reset, posture_provider = status_provider st\<rparr> in
        if \<not> required then Inr result
        else if \<not> mail_enabled st \<or> verification_template c = None
        then Inl (EmailConfiguration
          ''Email verification cannot be required until Brevo and the verification template are configured'')
        else Inr result))))))"

section \<open>The rows\<close>

record auth_row =
  verified_at :: "int option"
  verification_digest :: "string option"
  verification_expires :: "int option"
  reset_digest :: "string option"
  reset_expires :: "int option"
  auth_updated :: int

type_synonym auth_table = "(string \<times> auth_row) list"

definition blank_auth :: "int \<Rightarrow> auth_row" where
  "blank_auth now = \<lparr>verified_at = None, verification_digest = None, verification_expires = None,
     reset_digest = None, reset_expires = None, auth_updated = now\<rparr>"

definition hex_text :: "string \<Rightarrow> string" where
  "hex_text bytes = concat (map (\<lambda>c. hexw 2 (code c)) bytes)"

definition token_digest :: "mac \<Rightarrow> settings \<Rightarrow> string \<Rightarrow> string \<Rightarrow> string" where
  "token_digest mac cfg raw purpose =
     hex_text (mac (auth_secret cfg) (''rivexis-auth-email:v1:'' @ purpose @ CHR '':'' # raw))"

definition expiry_minutes :: "int \<Rightarrow> int \<Rightarrow> int" where
  "expiry_minutes expires now = max 1 ((expires - now) div (60 * SECOND))"

definition initialize_user_auth_state :: "int \<Rightarrow> string \<Rightarrow> bool \<Rightarrow> auth_table \<Rightarrow> auth_table" where
  "initialize_user_auth_state now uid verified rows =
     (case map_of rows uid of
        None \<Rightarrow> rows @ [(uid, (blank_auth now)\<lparr>verified_at := if verified then Some now else None\<rparr>)]
      | Some r \<Rightarrow>
          if verified \<and> verified_at r = None
          then AList.update uid (r\<lparr>verified_at := Some now, auth_updated := now\<rparr>) rows else rows)"

definition is_email_verified :: "auth_table \<Rightarrow> string \<Rightarrow> bool" where
  "is_email_verified rows uid = (case map_of rows uid of None \<Rightarrow> False | Some r \<Rightarrow> verified_at r \<noteq> None)"

text \<open>The row of a user, a new one when there is none.\<close>

definition auth_row_of :: "int \<Rightarrow> string \<Rightarrow> auth_table \<Rightarrow> auth_row" where
  "auth_row_of now uid rows = (case map_of rows uid of Some r \<Rightarrow> r | None \<Rightarrow> blank_auth now)"

definition issue_verification_email ::
  "mac \<Rightarrow> settings \<Rightarrow> os_environ \<Rightarrow> mailer \<Rightarrow> string \<Rightarrow> int \<Rightarrow> int \<Rightarrow> string \<Rightarrow> string \<Rightarrow> auth_table \<Rightarrow>
   acceptance emailed \<times> auth_table" where
  "issue_verification_email mac cfg env post raw now sent uid email rows =
     (case flow_ttl env VERIFICATION_TTL of
        Inl e \<Rightarrow> (Inl e, rows)
      | Inr ttl \<Rightarrow>
          let digest = token_digest mac cfg raw ''verification''; expires = now + ttl * SECOND;
              r = auth_row_of now uid rows
          in if verified_at r \<noteq> None
             then (Inr \<lparr>accept_status = ''already_verified'', accept_provider = ''internal'', message_id = None,
               accept_sandbox = False\<rparr>, rows)
             else (send_template_email env post email Verification
                 [(''code'', VStr raw), (''expiry_minutes'', VInt (expiry_minutes expires sent))]
                 (''verify:'' @ take 32 digest),
               AList.update uid (r\<lparr>verification_digest := Some digest, verification_expires := Some expires,
                 auth_updated := now\<rparr>) rows))"

definition utf8 :: "char \<Rightarrow> nat list" where
  "utf8 c = (let n = code c in if n < 128 then [n] else [192 + n div 64, 128 + n mod 64])"

text \<open>\<open>quote(text, safe="")\<close>.\<close>

definition quote_char :: "char \<Rightarrow> string" where
  "quote_char c = (let n = code c in
     if 48 \<le> n \<and> n \<le> 57 \<or> 65 \<le> n \<and> n \<le> 90 \<or> 97 \<le> n \<and> n \<le> 122 \<or> c \<in> set ''_.-~'' then [c]
     else concat (map (\<lambda>b. CHR ''%'' # py_upper (hexw 2 b)) (utf8 c)))"

definition issue_password_reset_email ::
  "(string \<Rightarrow> bool) \<Rightarrow> mac \<Rightarrow> settings \<Rightarrow> os_environ \<Rightarrow> mailer \<Rightarrow> string \<Rightarrow> int \<Rightarrow> int \<Rightarrow> string \<Rightarrow> string \<Rightarrow>
   auth_table \<Rightarrow> acceptance emailed \<times> auth_table" where
  "issue_password_reset_email bracket_ok mac cfg env post raw now sent uid email rows =
     (case rbind (public_web_url bracket_ok env cfg) (\<lambda>base. map_sum id (Pair base) (flow_ttl env RESET_TTL)) of
        Inl e \<Rightarrow> (Inl e, rows)
      | Inr (base, ttl) \<Rightarrow>
          let digest = token_digest mac cfg raw ''password-reset''; expires = now + ttl * SECOND in
          (send_template_email env post email PasswordReset
             [(''reset_url'', VStr (base @ ''/reset-password?token='' @ concat (map quote_char raw))),
              (''expiry_minutes'', VInt (expiry_minutes expires sent))]
             (''reset:'' @ take 32 digest),
           AList.update uid ((auth_row_of now uid rows)\<lparr>reset_digest := Some digest,
             reset_expires := Some expires, auth_updated := now\<rparr>) rows))"

text \<open>The row that holds a digest, unless it has expired.\<close>

definition pending_row ::
  "(auth_row \<Rightarrow> string option) \<Rightarrow> (auth_row \<Rightarrow> int option) \<Rightarrow> string \<Rightarrow> int \<Rightarrow> auth_table \<Rightarrow> (string \<times> auth_row) option"
where
  "pending_row digest_of expires_of digest now rows =
     (case find (\<lambda>(i, r). digest_of r = Some digest) rows of
        None \<Rightarrow> None
      | Some (i, r) \<Rightarrow> (case expires_of r of None \<Rightarrow> None | Some t \<Rightarrow> if t \<le> now then None else Some (i, r)))"

definition consume_verification_token ::
  "mac \<Rightarrow> settings \<Rightarrow> int \<Rightarrow> string \<Rightarrow> tenancy \<Rightarrow> auth_table \<Rightarrow> (string \<times> user_row) option \<times> auth_table" where
  "consume_verification_token mac cfg now raw T rows =
     (case pending_row verification_digest verification_expires (token_digest mac cfg raw ''verification'') now rows of
        None \<Rightarrow> (None, rows)
      | Some (i, r) \<Rightarrow>
          (case map_of (users T) i of
             None \<Rightarrow> (None, rows)
           | Some u \<Rightarrow> (Some (i, u), AList.update i (r\<lparr>verified_at := Some now, verification_digest := None,
               verification_expires := None, auth_updated := now\<rparr>) rows)))"

definition consume_password_reset_token ::
  "mac \<Rightarrow> settings \<Rightarrow> int \<Rightarrow> string \<Rightarrow> string \<Rightarrow> tenancy \<Rightarrow> auth_table \<Rightarrow>
   (string \<times> user_row) option \<times> tenancy \<times> auth_table" where
  "consume_password_reset_token mac cfg now raw hash T rows =
     (case pending_row reset_digest reset_expires (token_digest mac cfg raw ''password-reset'') now rows of
        None \<Rightarrow> (None, T, rows)
      | Some (i, r) \<Rightarrow>
          (case map_of (users T) i of
             None \<Rightarrow> (None, T, rows)
           | Some u \<Rightarrow>
               let u' = u\<lparr>password_hash := hash, token_version := token_version u + 1\<rparr>;
                   r' = r\<lparr>verified_at := (if verified_at r = None then Some now else verified_at r),
                     reset_digest := None, reset_expires := None, auth_updated := now\<rparr>
               in (Some (i, u'), T\<lparr>users := AList.update i u' (users T)\<rparr>, AList.update i r' rows)))"

end
