(* ===== verification/Accounts.thy ===== *)
theory Accounts
  imports EmailAuth Engines
begin

text \<open>
  The HTTP application, first part: the state of the API, its handlers as state transformers that
  keep their effects when they fail, the CSRF gate of the middleware, and the routes for accounts,
  sessions, organizations and workspaces (\<open>main.py\<close>, and the routes of \<open>services/auth_email.py\<close>).
  The settings, the environment and the external functions are a record; the readings of the clock
  (in microseconds) and the texts drawn during a request are functions of their position.
\<close>

section \<open>State and handlers\<close>

record 's api =
  desk_of :: desk
  auth_rows :: auth_table
  login_windows :: "'s limiter"

record 's world =
  cfg :: settings
  env :: os_environ
  keyed_hash :: mac
  derive_key :: scrypt
  dummy_hash :: string
  wide_loads :: "string \<Rightarrow> pyval py"
  float_repr :: "pyfloat \<Rightarrow> string"
  brackets_ok :: "string \<Rightarrow> bool"
  mail_post :: mailer
  redis_of :: "'s redis_ops"
  limiter_outage :: "(py_exn \<times> ('s limiter \<Rightarrow> 's limiter)) option"
  value_repr :: "pyval \<Rightarrow> string"
  live_engines :: live_engine
  alert_sender :: sender
  sha_text :: "string \<Rightarrow> string"
  db_average :: "pyfloat list \<Rightarrow> pyfloat"
  db_sum :: "pyfloat list \<Rightarrow> pyfloat"

record draws =
  reading :: "nat \<Rightarrow> int"
  drawn :: "nat \<Rightarrow> string"
  context_of :: request_context

type_synonym ('s, 'a) handler = "'s api \<Rightarrow> 'a http \<times> 's api"

definition hreturn :: "'a \<Rightarrow> ('s, 'a) handler" where
  "hreturn x A = (Inr x, A)"

definition hfail :: "http_error \<Rightarrow> ('s, 'a) handler" where
  "hfail e A = (Inl e, A)"

definition hbind :: "('s, 'a) handler \<Rightarrow> ('a \<Rightarrow> ('s, 'b) handler) \<Rightarrow> ('s, 'b) handler" where
  "hbind m f A = (case m A of (Inl e, A') \<Rightarrow> (Inl e, A') | (Inr x, A') \<Rightarrow> f x A')"

text \<open>What the state holds, and a change of one part of it.\<close>

definition hasking :: "('s api \<Rightarrow> 'a http) \<Rightarrow> ('s, 'a) handler" where
  "hasking f A = (f A, A)"

definition on_desk :: "(desk \<Rightarrow> 'a \<times> desk) \<Rightarrow> ('s, 'a) handler" where
  "on_desk f A = (case f (desk_of A) of (x, D) \<Rightarrow> (Inr x, A\<lparr>desk_of := D\<rparr>))"

definition try_desk :: "(store_error \<Rightarrow> http_error) \<Rightarrow> (desk \<Rightarrow> ('a \<times> desk) stored) \<Rightarrow> ('s, 'a) handler" where
  "try_desk err f A = (case f (desk_of A) of Inl e \<Rightarrow> (Inl (err e), A) | Inr (x, D) \<Rightarrow> (Inr x, A\<lparr>desk_of := D\<rparr>))"

definition of_tenants :: "(tenancy \<Rightarrow> 'a \<times> tenancy) \<Rightarrow> desk \<Rightarrow> 'a \<times> desk" where
  "of_tenants f D = (case f (tenants D) of (x, T) \<Rightarrow> (x, D\<lparr>tenants := T\<rparr>))"

definition try_tenants :: "(tenancy \<Rightarrow> ('a \<times> tenancy) stored) \<Rightarrow> desk \<Rightarrow> ('a \<times> desk) stored" where
  "try_tenants f D = map_sum id (\<lambda>(x, T). (x, D\<lparr>tenants := T\<rparr>)) (f (tenants D))"

definition must :: "http_error \<Rightarrow> 'a option \<Rightarrow> 'a http" where
  "must e x = (case x of None \<Rightarrow> Inl e | Some y \<Rightarrow> Inr y)"

definition hmust :: "http_error \<Rightarrow> 'a option \<Rightarrow> ('s, 'a) handler" where
  "hmust e x = hasking (\<lambda>A. must e x)"

definition hcheck :: "http_error \<Rightarrow> bool \<Rightarrow> ('s, bool) handler" where
  "hcheck e ok = hasking (\<lambda>A. if ok then Inr True else Inl e)"

text \<open>\<open>PermissionError\<close>, \<open>LookupError\<close> and \<open>ValueError\<close> where the handler maps all three.\<close>

fun member_error :: "store_error \<Rightarrow> http_error" where
  "member_error (PermissionError t) = Http 403 t"
| "member_error (LookupError t) = Http 404 t"
| "member_error (BadValue t) = Http 409 t"
| "member_error (Escaped e) = Crash e"

text \<open>Only \<open>ValueError\<close>; the functions it is used for raise neither of the first two.\<close>

fun value_error :: "store_error \<Rightarrow> http_error" where
  "value_error (BadValue t) = Http 422 t"
| "value_error (Escaped e) = Crash e"
| "value_error e = Crash RuntimeError"

text \<open>One entry of the audit log, at the given reading and draw.\<close>

definition logged ::
  "draws \<Rightarrow> nat \<Rightarrow> string \<Rightarrow> string \<Rightarrow> string \<Rightarrow> string option \<Rightarrow> string option \<Rightarrow> string option \<Rightarrow> pydict \<Rightarrow>
   ('s, bool) handler" where
  "logged m k action kind i actor uid wid detail =
     on_desk (\<lambda>D. (True, audit (drawn m k) (reading m k) (context_of m) action kind (Some i) actor uid wid detail D))"

text \<open>The entry of a signed-in user.\<close>

definition logged_by ::
  "draws \<Rightarrow> nat \<Rightarrow> signed_in \<Rightarrow> string \<Rightarrow> string \<Rightarrow> string \<Rightarrow> string option \<Rightarrow> pydict \<Rightarrow> ('s, bool) handler" where
  "logged_by m k s action kind i wid detail =
     logged m k action kind i (Some (user_email (user_of s))) (Some (user_id s)) wid detail"

section \<open>The gate of the middleware\<close>

definition UNSAFE_METHODS :: "string list" where
  "UNSAFE_METHODS = [''POST'', ''PUT'', ''PATCH'', ''DELETE'']"

definition CSRF_EXEMPT :: "string list" where
  "CSRF_EXEMPT = [''/api/v1/auth/web/signup'', ''/api/v1/auth/web/login'',
     ''/api/v1/auth/email-verification/request'', ''/api/v1/auth/email-verification/confirm'',
     ''/api/v1/auth/password-reset/request'', ''/api/v1/auth/password-reset/confirm'',
     ''/api/v1/integrations/hypernative/events'']"

record http_request =
  http_method :: string
  http_path :: string
  session_cookie :: string
  authorization :: string
  csrf_header :: string

text \<open>No result is a pass; a failing comparison is not caught.\<close>

definition csrf_gate :: "'s world \<Rightarrow> http_request \<Rightarrow> http_error option" where
  "csrf_gate W r =
     (if py_upper (http_method r) \<in> set UNSAFE_METHODS \<and> starts_with ''/api/v1/'' (http_path r) \<and>
         session_cookie r \<noteq> [] \<and> py_strip (authorization r) = [] \<and> http_path r \<notin> set CSRF_EXEMPT
      then (case verify_csrf_token (keyed_hash W) (cfg W) (session_cookie r) (csrf_header r) of
          Inl e \<Rightarrow> Some (Crash e)
        | Inr ok \<Rightarrow> if ok then None else Some (Http 403 ''CSRF validation failed''))
      else None)"

text \<open>The user of a request that passed; the scheme of the header is read by the framework.\<close>

definition request_user ::
  "(string \<Rightarrow> string option) \<Rightarrow> 's world \<Rightarrow> draws \<Rightarrow> http_request \<Rightarrow> ('s, signed_in) handler" where
  "request_user bearer_of W m r =
     (case csrf_gate W r of
        Some e \<Rightarrow> hfail e
      | None \<Rightarrow> hasking (\<lambda>A. current_user (keyed_hash W) (wide_loads W) (cfg W) (reading m 0 div SECOND)
          (bearer_of (authorization r)) (session_cookie r) (tenants (desk_of A))))"

section \<open>Budgets\<close>

definition limiter_backend :: "'s world \<Rightarrow> string" where
  "limiter_backend W = py_lower (py_strip (getenv (env W) ''RIVEXIS_AUTH_RATE_LIMIT_BACKEND'' (auth_rate_limit_backend (cfg W))))"

definition login_digest :: "'s world \<Rightarrow> string \<Rightarrow> string" where
  "login_digest W text = hex_text (keyed_hash W (auth_secret (cfg W)) text)"

text \<open>
  The shared limiters are services that may fail: \<open>limiter_outage\<close> is the exception of a failing one
  and what it leaves of the slots. The limiter in the process does not fail.
\<close>

definition limiter_fails :: "'s world \<Rightarrow> (py_exn \<times> ('s limiter \<Rightarrow> 's limiter)) option" where
  "limiter_fails W = (if limiter_backend W = ''postgres'' \<or> limiter_backend W = ''redis'' then limiter_outage W else None)"

definition budget :: "string \<Rightarrow> 's world \<Rightarrow> draws \<Rightarrow> string \<Rightarrow> ('s, bool) handler" where
  "budget refusal W m identity A =
     (case limiter_fails W of
        Some (e, left) \<Rightarrow> (Inl (Http 503 ''Authentication rate limiter unavailable''), A\<lparr>login_windows := left (login_windows A)\<rparr>)
      | None \<Rightarrow>
     case consume_login_attempt (login_digest W) (redis_of W) (limiter_backend W)
         (login_limit (auth_login_attempts_per_minute (cfg W)) (env W ''RIVEXIS_AUTH_LOGIN_ATTEMPTS_PER_MINUTE''))
         (global_login_limit (auth_global_attempts_per_minute (cfg W)) (env W ''RIVEXIS_AUTH_GLOBAL_ATTEMPTS_PER_MINUTE''))
         identity (of_int (reading m 0) / of_int SECOND) (login_windows A) of
       (ok, L) \<Rightarrow> (if ok then Inr True else Inl (Http 429 refusal), A\<lparr>login_windows := L\<rparr>))"

definition enforce_login_budget :: "'s world \<Rightarrow> draws \<Rightarrow> string \<Rightarrow> ('s, bool) handler" where
  "enforce_login_budget = budget ''Too many login attempts''"

definition cleared_budget :: "'s world \<Rightarrow> string \<Rightarrow> ('s, bool) handler" where
  "cleared_budget W email A =
     (case limiter_fails W of
        Some (e, left) \<Rightarrow> (Inl (Crash e), A\<lparr>login_windows := left (login_windows A)\<rparr>)
      | None \<Rightarrow> (Inr True, A\<lparr>login_windows := clear_login_attempts (login_digest W) (redis_of W) (limiter_backend W) email (login_windows A)\<rparr>))"

definition consume_flow_budget :: "'s world \<Rightarrow> draws \<Rightarrow> string \<Rightarrow> string \<Rightarrow> ('s, bool) handler" where
  "consume_flow_budget W m flow email =
     budget ''Too many authentication requests'' W m (flow @ CHR '':'' # py_lower (py_strip email))"

section \<open>Signing up and in\<close>

definition ROLES :: "string list" where
  "ROLES = [''Individual'', ''Fund'', ''Treasury'', ''Analyst'']"

datatype auth_answer = AwaitingVerification string | Bearer string | CookieSession string string

type_synonym account_view = "string \<times> string \<times> string"

definition account_view :: "string \<Rightarrow> user_row \<Rightarrow> account_view" where
  "account_view uid u = (uid, user_email u, user_row.user_role u)"

definition session_of :: "'s world \<Rightarrow> draws \<Rightarrow> user_row \<Rightarrow> string" where
  "session_of W m u = create_token (keyed_hash W) (float_repr W) (cfg W) (reading m 1 div SECOND)
     (reading m 2 div SECOND) (user_email u) (user_row.user_role u) (token_version u)"

definition answer_of :: "'s world \<Rightarrow> draws \<Rightarrow> bool \<Rightarrow> user_row \<Rightarrow> auth_answer" where
  "answer_of W m web u =
     (let token = session_of W m u in
      if web then CookieSession token (create_csrf_token (keyed_hash W) (cfg W) token) else Bearer token)"

definition on_auth :: "(auth_table \<Rightarrow> 'a http \<times> auth_table) \<Rightarrow> ('s, 'a) handler" where
  "on_auth f A = (case f (auth_rows A) of (x, rows) \<Rightarrow> (x, A\<lparr>auth_rows := rows\<rparr>))"

text \<open>The three exceptions that the code catches; the fourth escapes.\<close>

fun caught_email :: "'a emailed \<Rightarrow> 'a option http" where
  "caught_email (Inr x) = Inr (Some x)"
| "caught_email (Inl (EmailRuntime t)) = Inl (Crash RuntimeError)"
| "caught_email (Inl e) = Inr None"

definition send_verification :: "'s world \<Rightarrow> draws \<Rightarrow> string \<Rightarrow> user_row \<Rightarrow> ('s, acceptance option) handler" where
  "send_verification W m uid u =
     on_auth (\<lambda>rows. map_prod caught_email id (issue_verification_email (keyed_hash W) (cfg W) (env W) (mail_post W)
       (drawn m 3) (reading m 3) (reading m 4) uid (user_email u) rows))"

definition signup_auth_result :: "'s world \<Rightarrow> draws \<Rightarrow> bool \<Rightarrow> string \<Rightarrow> user_row \<Rightarrow> ('s, auth_answer) handler" where
  "signup_auth_result W m web uid u =
     (let required = email_verification_required (env W) in
      hbind (on_auth (\<lambda>rows. (Inr True, initialize_user_auth_state (reading m 5) uid (\<not> required) rows))) (\<lambda>_.
      if required
      then hbind (send_verification W m uid u) (\<lambda>accepted. hreturn (AwaitingVerification
        (case accepted of None \<Rightarrow> ''unavailable'' | Some a \<Rightarrow> accept_status a)))
      else hreturn (answer_of W m web u)))"

definition new_account :: "'s world \<Rightarrow> draws \<Rightarrow> string \<Rightarrow> string \<Rightarrow> string \<Rightarrow> tenancy \<Rightarrow> ((string \<times> user_row) \<times> tenancy) stored" where
  "new_account W m email password role T =
     (case hash_password (derive_key W) (drawn m 1) password of
        Inl ValueError \<Rightarrow> Inl (BadValue ''Password must contain at least 8 characters'')
      | Inl e \<Rightarrow> Inl (Escaped e)
      | Inr hash \<Rightarrow> create_user (drawn m 2) email hash role T)"

fun conflict_error :: "bool \<Rightarrow> store_error \<Rightarrow> http_error" where
  "conflict_error web (BadValue t) = Http 409 (if web then ''Unable to create account with those details'' else t)"
| "conflict_error web e = member_error e"

definition signup_with :: "bool \<Rightarrow> 's world \<Rightarrow> draws \<Rightarrow> string \<Rightarrow> string \<Rightarrow> string \<Rightarrow> ('s, auth_answer \<times> account_view) handler" where
  "signup_with web W m email password role =
     hbind (hcheck (Http 422 ''Invalid role'') (role \<in> set ROLES)) (\<lambda>_.
     hbind (enforce_login_budget W m email) (\<lambda>_.
     hbind (hasking (\<lambda>A. if get_user (tenants (desk_of A)) email \<noteq> None
         then Inl (Http 409 (if web then ''Unable to create account with those details'' else ''Email already registered''))
         else Inr True)) (\<lambda>_.
     hbind (try_desk (conflict_error web) (try_tenants (new_account W m email password role))) (\<lambda>(uid, u).
     hbind (cleared_budget W email) (\<lambda>_.
     hbind (signup_auth_result W m web uid u) (\<lambda>result.
     hbind (logged m 6 ''signup'' ''user'' uid (Some (user_email u)) (Some uid) None
         (let pending = (case result of AwaitingVerification t \<Rightarrow> True | _ \<Rightarrow> False) in
          if web then [(''session'', VStr (if pending then ''pending_verification'' else ''cookie''))]
          else [(''verification_required'', VBool pending)])) (\<lambda>_.
     hreturn (result, account_view uid u))))))))"

definition signup :: "'s world \<Rightarrow> draws \<Rightarrow> string \<Rightarrow> string \<Rightarrow> string \<Rightarrow> ('s, auth_answer \<times> account_view) handler" where
  "signup = signup_with False"

definition web_signup :: "'s world \<Rightarrow> draws \<Rightarrow> string \<Rightarrow> string \<Rightarrow> string \<Rightarrow> ('s, auth_answer \<times> account_view) handler" where
  "web_signup = signup_with True"

definition enforce_verified_email :: "'s world \<Rightarrow> string \<Rightarrow> ('s, bool) handler" where
  "enforce_verified_email W uid =
     hasking (\<lambda>A. if email_verification_required (env W) \<and> \<not> is_email_verified (auth_rows A) uid
       then Inl (Http 403 ''Email verification required'') else Inr True)"

text \<open>The password is checked against a fixed hash when there is no such user.\<close>

definition checked_login :: "'s world \<Rightarrow> string \<Rightarrow> string \<Rightarrow> tenancy \<Rightarrow> (string \<times> user_row) http" where
  "checked_login W email password T =
     (let found = get_user T email;
          valid = verify_password (derive_key W) password
            (case found of None \<Rightarrow> dummy_hash W | Some (uid, u) \<Rightarrow> password_hash u)
      in case found of
           None \<Rightarrow> Inl (Http 401 ''Invalid credentials'')
         | Some p \<Rightarrow> if valid then Inr p else Inl (Http 401 ''Invalid credentials''))"

definition login_with :: "bool \<Rightarrow> 's world \<Rightarrow> draws \<Rightarrow> string \<Rightarrow> string \<Rightarrow> ('s, auth_answer \<times> account_view) handler" where
  "login_with web W m email password =
     hbind (enforce_login_budget W m email) (\<lambda>_.
     hbind (hasking (\<lambda>A. checked_login W email password (tenants (desk_of A)))) (\<lambda>(uid, u).
     hbind (enforce_verified_email W uid) (\<lambda>_.
     hbind (cleared_budget W email) (\<lambda>_.
     hbind (logged m 6 ''login'' ''user'' uid (Some (user_email u)) (Some uid) None
         (if web then [(''session'', VStr ''cookie'')] else [])) (\<lambda>_.
     hreturn (answer_of W m web u, account_view uid u))))))"

definition login :: "'s world \<Rightarrow> draws \<Rightarrow> string \<Rightarrow> string \<Rightarrow> ('s, auth_answer \<times> account_view) handler" where
  "login = login_with False"

definition web_login :: "'s world \<Rightarrow> draws \<Rightarrow> string \<Rightarrow> string \<Rightarrow> ('s, auth_answer \<times> account_view) handler" where
  "web_login = login_with True"

definition web_csrf :: "'s world \<Rightarrow> signed_in \<Rightarrow> ('s, string) handler" where
  "web_csrf W s =
     (if \<not> via_cookie s then hfail (Http 400 ''CSRF token is only available for cookie sessions'')
      else hreturn (create_csrf_token (keyed_hash W) (cfg W) (used_token s)))"

definition logout :: "draws \<Rightarrow> signed_in \<Rightarrow> ('s, bool) handler" where
  "logout m s =
     hbind (logged_by m 1 s ''logout'' ''user'' (user_id s) None []) (\<lambda>_.
     hbind (on_desk (of_tenants (bump_user_token_version (user_id s)))) (\<lambda>_.
     hreturn (via_cookie s)))"

definition me :: "signed_in \<Rightarrow> ('s, account_view \<times> bool) handler" where
  "me s = hasking (\<lambda>A. Inr (account_view (user_id s) (user_of s), is_email_verified (auth_rows A) (user_id s)))"

definition me_role :: "draws \<Rightarrow> signed_in \<Rightarrow> string \<Rightarrow> ('s, account_view) handler" where
  "me_role m s role =
     hbind (hcheck (Http 422 ''Invalid role'') (role \<in> set ROLES)) (\<lambda>_.
     hbind (on_desk (of_tenants (update_user_role (user_id s) role))) (\<lambda>updated.
     hbind (logged_by m 1 s ''user.role.update'' ''user'' (user_id s) None [(''role'', VStr role)]) (\<lambda>_.
     hasking (\<lambda>A. case updated of None \<Rightarrow> Inl (Crash AttributeError) | Some u \<Rightarrow> Inr (account_view (user_id s) u)))))"

section \<open>E-mail flows\<close>

definition request_email_verification :: "'s world \<Rightarrow> draws \<Rightarrow> string \<Rightarrow> ('s, string) handler" where
  "request_email_verification W m email =
     hbind (consume_flow_budget W m ''verify'' email) (\<lambda>_.
     hbind (hasking (\<lambda>A. Inr (case get_user (tenants (desk_of A)) email of None \<Rightarrow> None
         | Some (uid, u) \<Rightarrow> if is_email_verified (auth_rows A) uid then None else Some (uid, u)))) (\<lambda>found.
     case found of
       None \<Rightarrow> hreturn ''accepted''
     | Some (uid, u) \<Rightarrow>
         hbind (send_verification W m uid u) (\<lambda>accepted.
         case accepted of
           None \<Rightarrow> hreturn ''accepted''
         | Some a \<Rightarrow> hbind (logged m 6 ''auth.email_verification.request'' ''user'' uid None (Some uid) None [])
             (\<lambda>_. hreturn ''accepted''))))"

definition confirm_email_verification :: "'s world \<Rightarrow> draws \<Rightarrow> string \<Rightarrow> ('s, string) handler" where
  "confirm_email_verification W m raw =
     hbind (\<lambda>A. case consume_verification_token (keyed_hash W) (cfg W) (reading m 3) raw (tenants (desk_of A)) (auth_rows A) of
         (None, rows) \<Rightarrow> (Inl (Http 400 ''Verification token is invalid or expired''), A)
       | (Some (uid, u), rows) \<Rightarrow> (Inr uid, A\<lparr>auth_rows := rows\<rparr>)) (\<lambda>uid.
     hbind (logged m 6 ''auth.email_verification.confirm'' ''user'' uid None (Some uid) None []) (\<lambda>_.
     hreturn ''verified''))"

definition send_reset :: "'s world \<Rightarrow> draws \<Rightarrow> string \<Rightarrow> user_row \<Rightarrow> ('s, acceptance option) handler" where
  "send_reset W m uid u =
     on_auth (\<lambda>rows. map_prod caught_email id (issue_password_reset_email (brackets_ok W) (keyed_hash W) (cfg W) (env W)
       (mail_post W) (drawn m 3) (reading m 3) (reading m 4) uid (user_email u) rows))"

definition request_password_reset :: "'s world \<Rightarrow> draws \<Rightarrow> string \<Rightarrow> ('s, string) handler" where
  "request_password_reset W m email =
     hbind (consume_flow_budget W m ''reset'' email) (\<lambda>_.
     hbind (hasking (\<lambda>A. Inr (get_user (tenants (desk_of A)) email))) (\<lambda>found.
     case found of
       None \<Rightarrow> hreturn ''accepted''
     | Some (uid, u) \<Rightarrow>
         hbind (send_reset W m uid u) (\<lambda>accepted.
         case accepted of
           None \<Rightarrow> hreturn ''accepted''
         | Some a \<Rightarrow> hbind (logged m 6 ''auth.password_reset.request'' ''user'' uid None (Some uid) None [])
             (\<lambda>_. hreturn ''accepted''))))"

definition confirm_password_reset :: "'s world \<Rightarrow> draws \<Rightarrow> string \<Rightarrow> string \<Rightarrow> ('s, string) handler" where
  "confirm_password_reset W m raw password =
     hbind (hasking (\<lambda>A. crashing (hash_password (derive_key W) (drawn m 1) password))) (\<lambda>hash.
     hbind (\<lambda>A. case consume_password_reset_token (keyed_hash W) (cfg W) (reading m 3) raw hash
           (tenants (desk_of A)) (auth_rows A) of
         (None, T, rows) \<Rightarrow> (Inl (Http 400 ''Password reset token is invalid or expired''), A)
       | (Some (uid, u), T, rows) \<Rightarrow> (Inr uid, A\<lparr>desk_of := (desk_of A)\<lparr>tenants := T\<rparr>, auth_rows := rows\<rparr>)) (\<lambda>uid.
     hbind (logged m 6 ''auth.password_reset.confirm'' ''user'' uid None (Some uid) None []) (\<lambda>_.
     hreturn ''password_reset'')))"

section \<open>Organizations\<close>

definition organization_membership_claim :: "'s world \<Rightarrow> draws \<Rightarrow> signed_in \<Rightarrow> string \<Rightarrow> ('s, string) handler" where
  "organization_membership_claim W m s oid =
     (let token = create_membership_claim (keyed_hash W) (float_repr W) (cfg W) (reading m 1 div SECOND) (drawn m 1)
        (user_id s) oid (token_version (user_of s)) in
      hbind (logged_by m 2 s ''organization.membership_claim.create'' ''organization'' oid None []) (\<lambda>_.
      hreturn token))"

definition organization_list :: "signed_in \<Rightarrow> ('s, org_view list) handler" where
  "organization_list s = hasking (\<lambda>A. Inr (list_organizations (tenants (desk_of A)) (user_id s)))"

definition organization_create :: "draws \<Rightarrow> signed_in \<Rightarrow> string \<Rightarrow> ('s, org_view) handler" where
  "organization_create m s name =
     hbind (on_desk (of_tenants (create_organization (drawn m 1) (reading m 1) (user_id s) name))) (\<lambda>org.
     hbind (logged_by m 2 s ''organization.create'' ''organization'' (view_org org) None [(''name'', VStr name)]) (\<lambda>_.
     hreturn org))"

definition organization_members :: "signed_in \<Rightarrow> string \<Rightarrow> ('s, member_view list) handler" where
  "organization_members s oid = hasking (\<lambda>A. must (Http 404 ''Organization not found'')
     (list_organization_members (tenants (desk_of A)) (user_id s) oid))"

definition member_detail :: "member_view \<Rightarrow> pydict" where
  "member_detail r = [(''target_user_id'', VStr (member_user r)), (''role'', VStr (listed_role r))]"

definition organization_member_add :: "'s world \<Rightarrow> draws \<Rightarrow> signed_in \<Rightarrow> string \<Rightarrow> string \<Rightarrow> string \<Rightarrow> ('s, member_view) handler" where
  "organization_member_add W m s oid email role =
     hbind (hcheck (Http 422 ''Invalid organization role'') (role \<in> set ORG_ROLES)) (\<lambda>_.
     hbind (try_desk member_error (try_tenants (add_organization_member (user_id s) oid email role
         (allow_direct_org_member_add (cfg W)) (reading m 1)))) (\<lambda>r.
     hbind (logged_by m 2 s ''organization.member.upsert'' ''organization'' oid None (member_detail r)) (\<lambda>_.
     hreturn r)))"

text \<open>
  \<open>str(claim["sub"])\<close> and \<open>int(claim.get("ver", -1))\<close> of a decoded claim; a \<open>KeyError\<close> is a
  \<open>LookupError\<close>, and the message of \<open>int\<close> is shortened.
\<close>

definition claimed_user :: "(pyval \<Rightarrow> string) \<Rightarrow> pydict \<Rightarrow> tenancy \<Rightarrow> string stored" where
  "claimed_user rep claim T =
     (case map_of claim ''sub'' of
        None \<Rightarrow> Inl (LookupError (CHR 0x27 # ''sub'' @ [CHR 0x27]))
      | Some v \<Rightarrow>
          let uid = py_str rep v in
          (case get_user_by_id T uid of
             None \<Rightarrow> Inl (BadValue ''Membership claim has been revoked'')
           | Some u \<Rightarrow> (case int_value (dict_get_or claim ''ver'' (VInt (- 1))) of
               Inl ValueError \<Rightarrow> Inl (BadValue ''invalid literal for int()'')
             | Inl e \<Rightarrow> Inl (Escaped e)
             | Inr v \<Rightarrow> if v \<noteq> token_version u then Inl (BadValue ''Membership claim has been revoked'') else Inr uid)))"

definition accept_claim ::
  "'s world \<Rightarrow> draws \<Rightarrow> string \<Rightarrow> string \<Rightarrow> string \<Rightarrow> string \<Rightarrow> tenancy \<Rightarrow> (member_view \<times> tenancy) stored"
where
  "accept_claim W m actor oid token role T =
     (case decode_membership_claim (keyed_hash W) (wide_loads W) (cfg W) (reading m 0 div SECOND) token oid of
        Inl e \<Rightarrow> Inl (BadValue ''Invalid or expired membership claim'')
      | Inr claim \<Rightarrow> rbind (claimed_user (value_repr W) claim T) (\<lambda>uid.
          add_organization_member_by_claim actor oid uid role (reading m 1) T))"

definition organization_member_claim_accept ::
  "'s world \<Rightarrow> draws \<Rightarrow> signed_in \<Rightarrow> string \<Rightarrow> string \<Rightarrow> string \<Rightarrow> ('s, member_view) handler" where
  "organization_member_claim_accept W m s oid token role =
     hbind (hcheck (Http 422 ''Invalid organization role'') (role \<in> set ORG_ROLES)) (\<lambda>_.
     hbind (try_desk member_error (try_tenants (accept_claim W m (user_id s) oid token role))) (\<lambda>r.
     hbind (logged_by m 2 s ''organization.member.claim_accept'' ''organization'' oid None (member_detail r)) (\<lambda>_.
     hreturn r)))"

definition organization_member_delete :: "draws \<Rightarrow> signed_in \<Rightarrow> string \<Rightarrow> string \<Rightarrow> ('s, bool) handler" where
  "organization_member_delete m s oid uid =
     hbind (try_desk member_error (try_tenants (remove_organization_member (user_id s) oid uid))) (\<lambda>ok.
     hbind (hcheck (Http 404 ''Organization member not found'') ok) (\<lambda>_.
     logged_by m 1 s ''organization.member.delete'' ''organization'' oid None [(''target_user_id'', VStr uid)]))"

section \<open>Workspaces\<close>

definition workspace_list :: "signed_in \<Rightarrow> ('s, workspace_view list) handler" where
  "workspace_list s = hasking (\<lambda>A. Inr (list_workspaces (tenants (desk_of A)) (user_id s)))"

definition workspace_create :: "draws \<Rightarrow> signed_in \<Rightarrow> string \<Rightarrow> string \<Rightarrow> string option \<Rightarrow> ('s, workspace_view) handler" where
  "workspace_create m s name role oid =
     hbind (hcheck (Http 422 ''Invalid role'') (role \<in> set ROLES)) (\<lambda>_.
     hbind (try_desk member_error (try_tenants (create_workspace (drawn m 1) (reading m 1) (user_id s) name role oid))) (\<lambda>r.
     hbind (logged_by m 2 s ''workspace.create'' ''workspace'' (view_id r) (Some (view_id r))
         [(''organization_id'', optional (view_workspace_org r))]) (\<lambda>_.
     hreturn r)))"

definition workspace_get :: "signed_in \<Rightarrow> string \<Rightarrow> ('s, workspace_view) handler" where
  "workspace_get s wid = hasking (\<lambda>A. must (Http 404 ''Workspace not found'')
     (workspace_access (tenants (desk_of A)) (user_id s) wid False False))"

definition workspace_patch :: "draws \<Rightarrow> signed_in \<Rightarrow> string \<Rightarrow> string \<Rightarrow> string \<Rightarrow> ('s, workspace_view) handler" where
  "workspace_patch m s wid name role =
     hbind (hcheck (Http 422 ''Invalid role'') (role \<in> set ROLES)) (\<lambda>_.
     hbind (on_desk (of_tenants (update_workspace (user_id s) wid name role))) (\<lambda>updated.
     hbind (hmust (Http 403 ''Workspace administration required'') updated) (\<lambda>r.
     hbind (logged_by m 1 s ''workspace.update'' ''workspace'' wid (Some wid) []) (\<lambda>_.
     hreturn r))))"

definition workspace_audit_logs :: "signed_in \<Rightarrow> string \<Rightarrow> nat \<Rightarrow> ('s, (string \<times> audit_row) list) handler" where
  "workspace_audit_logs s wid limit = hasking (\<lambda>A. must (Http 403 ''Workspace administration required'')
     (list_audit_logs (desk_of A) (user_id s) wid limit))"

end
