(* ===== verification/Routes.thy ===== *)
theory Routes
  imports Accounts
begin

text \<open>
  The HTTP application, second part: the routes of \<open>main.py\<close> for the records of a workspace,
  one handler per route, and the signed events of Hypernative. Rendering a record as HTML or PDF
  and reading a protocol from a chain are arguments.
\<close>

section \<open>Access\<close>

definition workspace_for :: "signed_in \<Rightarrow> string option \<Rightarrow> bool \<Rightarrow> bool \<Rightarrow> ('s, workspace_view) handler" where
  "workspace_for s wid write manage =
     hasking (\<lambda>A. must (Http 403 ''No accessible workspace with the required permission'')
       (if given wid then workspace_access (tenants (desk_of A)) (user_id s) (the wid) write manage
        else default_workspace (tenants (desk_of A)) (user_id s) write))"

definition analysis_for_user :: "signed_in \<Rightarrow> string \<Rightarrow> ('s, engine_result) handler" where
  "analysis_for_user s aid = hasking (\<lambda>A. must (Http 404 ''Analysis not found'')
     (analysis_by_id (desk_of A) aid (Some (user_id s))))"

definition decision_for_user :: "signed_in \<Rightarrow> string \<Rightarrow> ('s, rivexis_decision) handler" where
  "decision_for_user s did = hasking (\<lambda>A. must (Http 404 ''Decision not found'')
     (decision_by_id (desk_of A) did (Some (user_id s))))"

text \<open>\<open>if workspace_id and not workspace_access(...)\<close> before a listing.\<close>

definition listing_allowed :: "signed_in \<Rightarrow> string option \<Rightarrow> ('s, bool) handler" where
  "listing_allowed s wid = hasking (\<lambda>A.
     if given wid \<and> \<not> may_open (desk_of A) (user_id s) (the wid) False False
     then Inl (Http 404 ''Workspace not found'') else Inr True)"

section \<open>Analyses\<close>

fun severity_value :: "severity \<Rightarrow> string" where
  "severity_value LowSeverity = ''low''"
| "severity_value ModerateSeverity = ''moderate''"
| "severity_value HighSeverity = ''high''"
| "severity_value CriticalSeverity = ''critical''"
| "severity_value UnknownSeverity = ''unknown''"

record analysis_request =
  request_input :: pydict
  request_demo :: bool
  request_in :: "string option"

definition engine_ids :: "draws \<Rightarrow> run_ids" where
  "engine_ids m = \<lparr>fresh_analysis = drawn m 1, fresh_run = drawn m 2, fresh_time = reading m 1\<rparr>"

definition run_analysis ::
  "'s world \<Rightarrow> draws \<Rightarrow> engine_id \<Rightarrow> analysis_request \<Rightarrow> signed_in \<Rightarrow> string option \<Rightarrow> ('s, engine_result) handler" where
  "run_analysis W m e req s wid =
     hbind (workspace_for s (if given wid then wid else request_in req) True False) (\<lambda>w.
     hbind (hasking (\<lambda>A. crashing (run_engine (value_repr W) (engine_ids m) (drawn m 3) (live_engines W) e
         (request_input req) (request_demo req)))) (\<lambda>result.
     hbind (on_desk (\<lambda>D. (True, save_engine_result (reading m 2) result (Some (user_id s)) (Some (view_id w)) D))) (\<lambda>_.
     hbind (logged_by m 4 s ''analysis.run'' ''analysis'' (analysis_id result) (Some (view_id w))
         [(''engine'', VStr (engine_value e)), (''demo'', VBool (request_demo req)),
          (''status'', VStr (status_value (status result)))]) (\<lambda>_.
     hreturn result))))"

definition analysis_evidence :: "signed_in \<Rightarrow> string \<Rightarrow> ('s, string \<times> evidence_record list) handler" where
  "analysis_evidence s aid = hbind (analysis_for_user s aid) (\<lambda>r. hreturn (aid, evidence r))"

definition analysis_sources :: "signed_in \<Rightarrow> string \<Rightarrow> ('s, string \<times> pydict list \<times> string list) handler" where
  "analysis_sources s aid = hbind (analysis_for_user s aid) (\<lambda>r.
     hreturn (aid, provider_status r, sorted_set (map provider (evidence r))))"

definition analysis_conflicts :: "signed_in \<Rightarrow> string \<Rightarrow> ('s, string \<times> source_conflict list) handler" where
  "analysis_conflicts s aid = hbind (analysis_for_user s aid) (\<lambda>r. hreturn (aid, provider_conflicts r))"

section \<open>Decisions\<close>

text \<open>The workspace of a submitted result, when the user may read it.\<close>

definition readable_workspace :: "desk \<Rightarrow> string \<Rightarrow> string \<Rightarrow> string option" where
  "readable_workspace D uid aid =
     (case analysis_record D aid of
        None \<Rightarrow> None
      | Some r \<Rightarrow>
          if given (analysis_workspace r) \<and> may_open D uid (the (analysis_workspace r)) False False
          then analysis_workspace r else None)"

fun workspaces_of :: "desk \<Rightarrow> string \<Rightarrow> string list \<Rightarrow> string list option" where
  "workspaces_of D uid [] = Some []"
| "workspaces_of D uid (aid # aids) =
     (case readable_workspace D uid aid of
        None \<Rightarrow> None
      | Some w \<Rightarrow> map_option (Cons w) (workspaces_of D uid aids))"

definition decision_workspace_of :: "string \<Rightarrow> decision_request \<Rightarrow> desk \<Rightarrow> string http" where
  "decision_workspace_of uid req D =
     (case workspaces_of D uid (map analysis_id (engine_results req)) of
        None \<Rightarrow> Inl (Http 404 ''One or more analysis results are unavailable'')
      | Some ws \<Rightarrow>
          (case sorted_set ws of
             [w] \<Rightarrow> if may_open D uid w True False then Inr w else Inl (Http 403 ''Workspace write access required'')
           | _ \<Rightarrow> Inl (Http 409 ''A decision cannot combine analyses from different workspaces'')))"

text \<open>What the decision engine reads of the store.\<close>

definition persisted :: "desk \<Rightarrow> store_lookup" where
  "persisted D aid = map_option (\<lambda>r. Inr (analysis_payload r)) (analysis_record D aid)"

definition decision_analyze :: "draws \<Rightarrow> signed_in \<Rightarrow> decision_request \<Rightarrow> ('s, rivexis_decision) handler" where
  "decision_analyze m s req =
     hbind (hcheck (Http 422 ''At least one persisted engine result is required'') (engine_results req \<noteq> [])) (\<lambda>_.
     hbind (hasking (\<lambda>A. decision_workspace_of (user_id s) req (desk_of A))) (\<lambda>w.
     hbind (hasking (\<lambda>A. crashing (analyze_decision (persisted (desk_of A)) req))) (\<lambda>r.
     hbind (on_desk (\<lambda>D. (True, save_decision (reading m 1) (drawn m 1) r (Some (user_id s)) (Some w) D))) (\<lambda>_.
     hbind (logged_by m 2 s ''decision.analyze'' ''decision'' (drawn m 1) (Some w)
         [(''analysis_ids'', VList (map (\<lambda>x. VStr (analysis_id x)) (engine_results req))),
          (''decision'', VStr (decision_value (decision r)))]) (\<lambda>_.
     hreturn r)))))"

definition history_route :: "signed_in \<Rightarrow> nat \<Rightarrow> string option \<Rightarrow> ('s, history_item list) handler" where
  "history_route s limit wid = hbind (listing_allowed s wid) (\<lambda>_.
     hasking (\<lambda>A. Inr (history (desk_of A) (user_id s) limit wid)))"

text \<open>The restatement of a decision (\<open>services/explanations.py\<close>).\<close>

definition grounded_explanation :: "string \<Rightarrow> rivexis_decision \<Rightarrow> pydict" where
  "grounded_explanation did d =
     (let p = decision_provenance d; texts = (\<lambda>ts. VList (map VStr ts));
          pairs = (\<lambda>ps. VDict (map (\<lambda>(k, v). (k, VStr v)) ps)) in
      [(''decision_id'', VStr did), (''grounded'', VBool True), (''decision'', VStr (decision_value (decision d))),
       (''decision_methodology_version'', VStr DECISION_METHODOLOGY_VERSION),
       (''summary'', VStr (executive_summary d)), (''why'', texts (why d)),
       (''critical_findings'', texts (critical_findings d)), (''recommended_action'', VStr (recommended_action d)),
       (''safer_option'', optional (safer_option d)), (''missing_data'', texts (decision_missing_data d)),
       (''assumptions'', texts (decision_assumptions d)), (''analysis_ids'', texts (p_analysis_ids p)),
       (''engine_versions'', pairs (p_engine_versions p)), (''engine_statuses'', pairs (p_engine_statuses p)),
       (''analysis_framework_versions'', pairs (p_framework_versions p)),
       (''evidence_sources'', texts (p_evidence_sources p)), (''evidence_count'', VInt (int (p_evidence_count p))),
       (''unresolved_conflict_count'', VInt (int (p_conflict_count p))),
       (''canonical_persistence_verified'', VBool (p_canonical p)),
       (''disclaimer'', VStr
         ''This explanation only restates structured Rivexis evidence; it does not generate a new risk score.'')])"

definition decision_explanation :: "signed_in \<Rightarrow> string \<Rightarrow> ('s, pydict) handler" where
  "decision_explanation s did = hbind (decision_for_user s did) (\<lambda>d. hreturn (grounded_explanation did d))"

section \<open>Portfolios and saved analyses\<close>

record portfolio_request =
  asked_name :: string
  asked_wallets :: "string list"
  asked_positions :: "pydict list"
  portfolio_in :: "string option"

definition portfolio_create :: "draws \<Rightarrow> signed_in \<Rightarrow> portfolio_request \<Rightarrow> ('s, pydict) handler" where
  "portfolio_create m s req =
     hbind (workspace_for s (portfolio_in req) True False) (\<lambda>w.
     hbind (on_desk (create_portfolio (drawn m 1) (user_id s) (Some (view_id w)) (asked_name req)
         [(''wallets'', VList (map VStr (asked_wallets req))), (''manual_positions'', VList (map VDict (asked_positions req)))])) (\<lambda>r.
     hbind (logged_by m 2 s ''portfolio.create'' ''portfolio'' (drawn m 1) (Some (view_id w)) []) (\<lambda>_.
     hreturn r)))"

definition portfolio_get :: "signed_in \<Rightarrow> string \<Rightarrow> ('s, pydict) handler" where
  "portfolio_get s i = hasking (\<lambda>A. must (Http 404 ''Portfolio not found'') (portfolio_by_id (desk_of A) (user_id s) i))"

definition saved_list :: "signed_in \<Rightarrow> bool \<Rightarrow> string option \<Rightarrow> ('s, saved_view list) handler" where
  "saved_list s archived wid = hbind (listing_allowed s wid) (\<lambda>_.
     hasking (\<lambda>A. Inr (list_saved_analyses (desk_of A) (user_id s) archived wid)))"

definition saved_create :: "draws \<Rightarrow> signed_in \<Rightarrow> string \<Rightarrow> string \<Rightarrow> ('s, saved_view) handler" where
  "saved_create m s aid title =
     hbind (hasking (\<lambda>A. must (Http 404 ''Analysis not found'') (readable_workspace (desk_of A) (user_id s) aid))) (\<lambda>w.
     hbind (on_desk (create_saved_analysis (drawn m 1) (reading m 1) (user_id s) (Some w) aid title)) (\<lambda>r.
     hbind (logged_by m 2 s ''analysis.save'' ''saved_analysis'' (fst r) (Some w) [(''analysis_id'', VStr aid)]) (\<lambda>_.
     hreturn r)))"

definition saved_archive :: "signed_in \<Rightarrow> string \<Rightarrow> bool \<Rightarrow> ('s, saved_view) handler" where
  "saved_archive s i archived =
     hbind (on_desk (set_saved_analysis_archived (user_id s) i archived)) (hmust (Http 404 ''Saved analysis not found''))"

definition saved_delete :: "signed_in \<Rightarrow> string \<Rightarrow> ('s, bool) handler" where
  "saved_delete s i =
     hbind (on_desk (delete_saved_analysis (user_id s) i)) (hcheck (Http 404 ''Saved analysis not found''))"

section \<open>Monitors\<close>

record monitor_request =
  asked_entity :: string
  asked_chain :: string
  asked_rules :: "string list"
  asked_config :: pydict
  monitor_in :: "string option"

definition monitor_create :: "draws \<Rightarrow> signed_in \<Rightarrow> monitor_request \<Rightarrow> ('s, monitor_view) handler" where
  "monitor_create m s req =
     hbind (workspace_for s (monitor_in req) True False) (\<lambda>w.
     hbind (on_desk (create_monitor (drawn m 1) (reading m 1) (user_id s) (view_id w) (asked_entity req)
         (asked_chain req) (asked_rules req) (asked_config req))) (\<lambda>r.
     hbind (logged_by m 2 s ''monitor.create'' ''monitor'' (fst r) (Some (view_id w)) []) (\<lambda>_.
     hreturn r)))"

definition monitor_list :: "signed_in \<Rightarrow> string option \<Rightarrow> ('s, monitor_view list) handler" where
  "monitor_list s wid = hbind (listing_allowed s wid) (\<lambda>_.
     hasking (\<lambda>A. Inr (list_monitors (desk_of A) (user_id s) wid)))"

definition monitor_get :: "signed_in \<Rightarrow> string \<Rightarrow> ('s, monitor_view) handler" where
  "monitor_get s i = hasking (\<lambda>A. must (Http 404 ''Monitor not found'') (get_monitor (desk_of A) (user_id s) i False))"

text \<open>The input of a check: \<open>{"entity": ..., "chain": ..., **config}\<close> and the last snapshot.\<close>

definition check_input :: "monitor_row \<Rightarrow> pydict" where
  "check_input r =
     (let base = fold (\<lambda>(k, v) d. dict_set k v d) (monitor_config r)
        [(''entity'', VStr (monitor_entity r)), (''chain'', VStr (monitor_chain r))] in
      case last_snapshot r of None \<Rightarrow> base | Some d \<Rightarrow> dict_set ''previous_snapshot'' (VDict d) base)"

definition snapshot_of :: "engine_result \<Rightarrow> pydict option" where
  "snapshot_of r = (case dict_get (metrics r) ''snapshot'' of VDict d \<Rightarrow> Some d | _ \<Rightarrow> None)"

definition alarming :: "engine_result \<Rightarrow> bool" where
  "alarming r = (signals r \<noteq> [] \<or> hard_blockers r \<noteq> [] \<or>
     severity_value (result_severity r) \<in> {''moderate'', ''high'', ''critical''})"

definition alarm :: "draws \<Rightarrow> string \<Rightarrow> string \<Rightarrow> engine_result \<Rightarrow> ('s, bool) handler" where
  "alarm m wid i r A =
     (if \<not> alarming r then (Inr False, A)
      else case create_alert (drawn m 5) (reading m 5) wid (Some i) (Some (analysis_id r))
          (severity_value (result_severity r))
          [(''signals'', VList (map VDict (signals r))), (''hard_blockers'', VList (map VStr (hard_blockers r))),
           (''warnings'', VList (map VStr (warnings r)))] None None (desk_of A) (desk_of A) of
        None \<Rightarrow> (Inl (Crash RuntimeError), A)
      | Some (v, D) \<Rightarrow> (Inr True, A\<lparr>desk_of := D\<rparr>))"

definition no_patch :: monitor_patch where
  "no_patch = \<lparr>patch_entity = None, patch_chain = None, patch_rules = None, patch_config = None,
     patch_snapshot = None, patch_analysis = None, patch_status = None\<rparr>"

definition monitor_check :: "'s world \<Rightarrow> draws \<Rightarrow> signed_in \<Rightarrow> string \<Rightarrow> ('s, engine_result) handler" where
  "monitor_check W m s i =
     hbind (hasking (\<lambda>A. must (Http 404 ''Monitor not found'') (get_monitor (desk_of A) (user_id s) i True))) (\<lambda>(_, r).
     let wid = monitor_workspace r in
     hbind (run_analysis W m B3 \<lparr>request_input = check_input r, request_demo = False, request_in = Some wid\<rparr> s (Some wid)) (\<lambda>result.
     hbind (on_desk (update_monitor (reading m 6) (user_id s) i (no_patch\<lparr>patch_snapshot := snapshot_of result,
         patch_analysis := Some (analysis_id result), patch_status := Some (status_value (status result))\<rparr>))) (\<lambda>_.
     hbind (alarm m wid i result) (\<lambda>_.
     hbind (logged_by m 7 s ''monitor.check'' ''monitor'' i (Some wid)
         [(''analysis_id'', VStr (analysis_id result)), (''status'', VStr (status_value (status result)))]) (\<lambda>_.
     hreturn result)))))"

definition monitor_patch_route :: "draws \<Rightarrow> signed_in \<Rightarrow> string \<Rightarrow> monitor_request \<Rightarrow> ('s, monitor_view) handler" where
  "monitor_patch_route m s i req =
     hbind (on_desk (update_monitor (reading m 1) (user_id s) i (no_patch\<lparr>patch_entity := Some (asked_entity req),
         patch_chain := Some (asked_chain req), patch_rules := Some (asked_rules req),
         patch_config := Some (asked_config req)\<rparr>))) (\<lambda>updated.
     hbind (hmust (Http 404 ''Monitor not found'') updated) (\<lambda>r.
     hbind (logged_by m 2 s ''monitor.update'' ''monitor'' i (Some (monitor_workspace (snd r))) []) (\<lambda>_.
     hreturn r)))"

definition monitor_delete :: "draws \<Rightarrow> signed_in \<Rightarrow> string \<Rightarrow> ('s, bool) handler" where
  "monitor_delete m s i =
     hbind (hasking (\<lambda>A. must (Http 404 ''Monitor not found'') (get_monitor (desk_of A) (user_id s) i True))) (\<lambda>(_, r).
     hbind (on_desk (delete_monitor (user_id s) i)) (\<lambda>ok.
     hbind (hcheck (Http 404 ''Monitor not found'') ok) (\<lambda>_.
     logged_by m 1 s ''monitor.delete'' ''monitor'' i (Some (monitor_workspace r)) [])))"

section \<open>Reports\<close>

text \<open>What is rendered; the documents themselves are outside.\<close>

datatype 'a rendered = AsJson 'a | AsHtml 'a | AsPdf 'a

definition render :: "string \<Rightarrow> string \<Rightarrow> 'a \<Rightarrow> 'a rendered http" where
  "render refusal fmt x =
     (if py_lower fmt = ''json'' then Inr (AsJson x) else if py_lower fmt = ''html'' then Inr (AsHtml x)
      else if py_lower fmt = ''pdf'' then Inr (AsPdf x) else Inl (Http 422 refusal))"

definition report :: "draws \<Rightarrow> signed_in \<Rightarrow> string \<Rightarrow> string \<Rightarrow> ('s, string \<times> rivexis_decision rendered) handler" where
  "report m s did format_text =
     hbind (decision_for_user s did) (\<lambda>d.
     hbind (hasking (\<lambda>A. must (Http 404 ''Decision not found'') (case decision_record (desk_of A) did of
         None \<Rightarrow> None
       | Some r \<Rightarrow> if given (decision_workspace r) \<and> may_open (desk_of A) (user_id s) (the (decision_workspace r)) False False
           then decision_workspace r else None))) (\<lambda>w.
     hbind (hasking (\<lambda>A. render ''MVP supports html, pdf and json'' format_text d)) (\<lambda>document.
     hbind (on_desk (create_report (drawn m 1) (reading m 1) (user_id s) w did (py_lower format_text))) (\<lambda>row.
     hbind (logged_by m 2 s ''report.generate'' ''report'' (fst row) (Some w)
         [(''decision_id'', VStr did), (''format'', VStr (py_lower format_text))]) (\<lambda>_.
     hreturn (fst row, document))))))"

definition report_get :: "signed_in \<Rightarrow> string \<Rightarrow> ('s, report_view) handler" where
  "report_get s i = hasking (\<lambda>A. must (Http 404 ''Report not found'') (get_report (desk_of A) (user_id s) i False))"

text \<open>A read of a protocol: its result, a \<open>ValueError\<close>, or an error of a provider.\<close>

datatype protocol_exn = BadInput string | ProviderFailed string

type_synonym protocol_read = "pydict \<Rightarrow> protocol_exn + pydict"

fun protocol_error :: "protocol_exn \<Rightarrow> http_error" where
  "protocol_error (BadInput t) = Http 422 t"
| "protocol_error (ProviderFailed t) = Http 503 t"

definition protocol_operational_read ::
  "draws \<Rightarrow> signed_in \<Rightarrow> protocol_read \<Rightarrow> string \<Rightarrow> analysis_request \<Rightarrow> ('s, pydict) handler" where
  "protocol_operational_read m s f action req =
     hbind (workspace_for s (request_in req) True False) (\<lambda>w.
     hbind (hasking (\<lambda>A. map_sum protocol_error id (f (request_input req)))) (\<lambda>result.
     hbind (logged_by m 1 s action ''workspace'' (view_id w) (Some (view_id w))
         [(''protocol_adapter'', py_or (dict_get (request_input req) ''protocol_adapter'') (dict_get (request_input req) ''protocol_type''))]) (\<lambda>_.
     hreturn result)))"

definition review_create :: "draws \<Rightarrow> signed_in \<Rightarrow> protocol_read \<Rightarrow> analysis_request \<Rightarrow> ('s, report_view) handler" where
  "review_create m s compare req =
     hbind (workspace_for s (request_in req) True False) (\<lambda>w.
     hbind (hasking (\<lambda>A. map_sum protocol_error id (compare (request_input req)))) (\<lambda>review.
     hbind (on_desk (create_protocol_review (drawn m 1) (reading m 1) (user_id s) (view_id w) review ''json'')) (\<lambda>row.
     hbind (logged_by m 2 s ''protocol.config.review.create'' ''report'' (fst row) (Some (view_id w))
         (map (\<lambda>k. (k, dict_get review k)) [''adapter'', ''from_block'', ''to_block'', ''change_count''])) (\<lambda>_.
     hreturn row))))"

definition the_review :: "signed_in \<Rightarrow> string \<Rightarrow> ('s, report_view) handler" where
  "the_review s i = hasking (\<lambda>A. must (Http 404 ''Protocol configuration review not found'')
     (case get_report (desk_of A) (user_id s) i True of
        None \<Rightarrow> None
      | Some v \<Rightarrow> if report_type (snd v) = Some REVIEW then Some v else None))"

definition review_approve :: "draws \<Rightarrow> signed_in \<Rightarrow> string \<Rightarrow> ('s, report_view) handler" where
  "review_approve m s i =
     hbind (on_desk (approve_protocol_review (reading m 1) (user_id s) i)) (\<lambda>updated.
     hbind (hmust (Http 404 ''Protocol configuration review not found or manager access required'') updated) (\<lambda>row.
     hbind (logged_by m 2 s ''protocol.config.review.approve'' ''report'' i (Some (report_workspace (snd row)))
         [(''status'', VStr ''approved'')]) (\<lambda>_.
     hreturn row)))"

definition review_render :: "signed_in \<Rightarrow> string \<Rightarrow> string \<Rightarrow> ('s, pydict rendered) handler" where
  "review_render s i format_text = hbind (the_review s i) (\<lambda>row.
     hasking (\<lambda>A. render ''Supported render formats are html, pdf and json'' format_text (payload_of (snd row))))"

record investigation_request =
  case_title :: string
  case_input :: pydict
  case_notes :: string
  case_in :: "string option"

definition investigation_create ::
  "draws \<Rightarrow> signed_in \<Rightarrow> protocol_read \<Rightarrow> investigation_request \<Rightarrow> ('s, report_view) handler" where
  "investigation_create m s read_timeline req =
     hbind (workspace_for s (case_in req) True False) (\<lambda>w.
     hbind (hasking (\<lambda>A. map_sum protocol_error id (read_timeline (case_input req)))) (\<lambda>timeline.
     hbind (on_desk (create_protocol_investigation (drawn m 1) (reading m 1) (drawn m 3) (user_id s) (view_id w)
         (case_title req) (case_input req) timeline (case_notes req))) (\<lambda>row.
     hbind (logged_by m 2 s ''protocol.investigation.create'' ''report'' (fst row) (Some (view_id w))
         [(''title'', VStr (case_title req)), (''event_count'', dict_get timeline ''event_count''),
          (''adapter'', dict_get timeline ''adapter'')]) (\<lambda>_.
     hreturn row))))"

definition investigation_list :: "signed_in \<Rightarrow> string option \<Rightarrow> ('s, string \<times> report_view list) handler" where
  "investigation_list s wid =
     hbind (workspace_for s wid False False) (\<lambda>w.
     hasking (\<lambda>A. map_sum id (Pair (view_id w)) (must (Http 403 ''Workspace access required'')
       (list_protocol_investigations (desk_of A) (user_id s) (view_id w)))))"

definition investigation_get :: "signed_in \<Rightarrow> string \<Rightarrow> ('s, report_view) handler" where
  "investigation_get s i = hasking (\<lambda>A. must (Http 404 ''Protocol investigation not found'')
     (get_protocol_investigation (desk_of A) (user_id s) i))"

definition investigation_update ::
  "draws \<Rightarrow> signed_in \<Rightarrow> string \<Rightarrow> string option \<Rightarrow> string option \<Rightarrow> string option \<Rightarrow> ('s, report_view) handler" where
  "investigation_update m s i state disposition notes =
     hbind (try_desk value_error (update_protocol_investigation (drawn m 1) (user_id s) i state disposition notes)) (\<lambda>updated.
     hbind (hmust (Http 404 ''Protocol investigation not found or write access required'') updated) (\<lambda>row.
     hbind (logged_by m 2 s ''protocol.investigation.update'' ''report'' i (Some (report_workspace (snd row)))
         [(''status'', VStr (report_status (snd row))),
          (''has_disposition'', VBool (truthy (dict_get (payload_of (snd row)) ''disposition'')))]) (\<lambda>_.
     hreturn row)))"

definition investigation_attach_review :: "draws \<Rightarrow> signed_in \<Rightarrow> string \<Rightarrow> string \<Rightarrow> ('s, report_view) handler" where
  "investigation_attach_review m s i review =
     hbind (try_desk value_error (attach_protocol_review_to_investigation (user_id s) i review)) (\<lambda>updated.
     hbind (hmust (Http 404 ''Investigation/review not found, cross-workspace reference, or write access required'') updated) (\<lambda>row.
     hbind (logged_by m 1 s ''protocol.investigation.review.attach'' ''report'' i (Some (report_workspace (snd row)))
         [(''review_id'', VStr review)]) (\<lambda>_.
     hreturn row)))"

definition investigation_render :: "signed_in \<Rightarrow> string \<Rightarrow> string \<Rightarrow> ('s, report_view rendered) handler" where
  "investigation_render s i format_text = hbind (investigation_get s i) (\<lambda>row.
     hasking (\<lambda>A. render ''Supported render formats are html, pdf and json'' format_text row))"

section \<open>Providers and traces\<close>

definition guard_provider_deep_probe :: "'s world \<Rightarrow> bool \<Rightarrow> ('s, bool) handler" where
  "guard_provider_deep_probe W deep =
     hcheck (Http 403 ''Deep provider probes are not exposed through the production tenant API'')
       (\<not> (deep \<and> in_production (env W) (cfg W)))"

definition observability_trace ::
  "signed_in \<Rightarrow> string \<Rightarrow> string option \<Rightarrow> int \<Rightarrow>
   ('s, string \<times> (string \<times> request_row) list \<times> (string \<times> audit_row) list) handler" where
  "observability_trace s trace wid limit =
     hbind (workspace_for s wid False False) (\<lambda>w.
     hasking (\<lambda>A. rbind (map_sum value_error id (trace_correlation (desk_of A) (user_id s) (view_id w) (Some trace) limit))
       (must (Http 403 ''Workspace access required''))))"

definition provider_runtime_requests :: "signed_in \<Rightarrow> string option \<Rightarrow> nat \<Rightarrow> ('s, string \<times> (string \<times> request_row) list) handler" where
  "provider_runtime_requests s wid limit =
     hbind (workspace_for s wid False False) (\<lambda>w.
     hasking (\<lambda>A. map_sum id (Pair (view_id w)) (must (Http 403 ''Workspace access required'')
       (list_provider_request_events (desk_of A) (user_id s) (view_id w) limit))))"

definition provider_runtime_usage ::
  "'s world \<Rightarrow> draws \<Rightarrow> signed_in \<Rightarrow> string option \<Rightarrow> int \<Rightarrow> ('s, int \<times> int \<times> usage_item list) handler" where
  "provider_runtime_usage W m s wid hours =
     hbind (workspace_for s wid False False) (\<lambda>w.
     hasking (\<lambda>A. must (Http 403 ''Workspace access required'')
       (provider_usage_summary (db_average W) (db_sum W) (desk_of A) (reading m 1) (user_id s) (view_id w) hours)))"

section \<open>Alerts\<close>

definition alert_list :: "signed_in \<Rightarrow> string option \<Rightarrow> ('s, alert_view list) handler" where
  "alert_list s wid = hbind (listing_allowed s wid) (\<lambda>_.
     hasking (\<lambda>A. Inr (list_alerts (desk_of A) (user_id s) wid)))"

definition alert_patch :: "draws \<Rightarrow> signed_in \<Rightarrow> string \<Rightarrow> string \<Rightarrow> ('s, alert_view) handler" where
  "alert_patch m s i state =
     hbind (try_desk value_error (update_alert_status (reading m 1) (user_id s) i state)) (\<lambda>updated.
     hbind (hmust (Http 404 ''Alert not found'') updated) (\<lambda>r.
     hbind (logged_by m 2 s ''alert.status'' ''alert'' i (Some (alert_workspace (snd r))) [(''status'', VStr state)]) (\<lambda>_.
     hreturn r)))"

definition run_delivery :: "'s world \<Rightarrow> draws \<Rightarrow> string \<Rightarrow> int \<Rightarrow> ('s, delivery_result) handler" where
  "run_delivery W m wid limit A =
     (case webhook_settings_of (env W) of
        Inl e \<Rightarrow> (Inl (Crash e), A)
      | Inr hook \<Rightarrow>
          (case process_due_alerts (brackets_ok W) hook (alert_sender W) True (reading m 1) wid limit (desk_of A) of
             (r, D) \<Rightarrow> (crashing r, A\<lparr>desk_of := D\<rparr>)))"

definition alerts_process_due :: "'s world \<Rightarrow> draws \<Rightarrow> signed_in \<Rightarrow> string \<Rightarrow> int \<Rightarrow> ('s, delivery_result) handler" where
  "alerts_process_due W m s wid limit =
     hbind (hasking (\<lambda>A. if may_open (desk_of A) (user_id s) wid False True then Inr True
         else Inl (Http 403 ''Workspace management access required''))) (\<lambda>_.
     hbind (run_delivery W m wid limit) (\<lambda>r.
     hbind (logged_by m 2 s ''alert.delivery.process'' ''workspace'' wid (Some wid)
         [(''processed'', VInt (int (processed r))), (''skipped'', VInt (int (skipped r))), (''reason'', optional (reason r))]) (\<lambda>_.
     hreturn r)))"

definition alert_requeue :: "draws \<Rightarrow> signed_in \<Rightarrow> string \<Rightarrow> ('s, alert_view) handler" where
  "alert_requeue m s i =
     hbind (on_desk (requeue_alert (reading m 1) (user_id s) i)) (\<lambda>updated.
     hbind (hmust (Http 404 ''Alert not found or management access required'') updated) (\<lambda>r.
     hbind (logged_by m 2 s ''alert.delivery.requeue'' ''alert'' i (Some (alert_workspace (snd r))) []) (\<lambda>_.
     hreturn r)))"

definition alerts_delivery_metrics :: "draws \<Rightarrow> signed_in \<Rightarrow> string \<Rightarrow> int \<Rightarrow> ('s, delivery_metrics) handler" where
  "alerts_delivery_metrics m s wid slo = hasking (\<lambda>A. must (Http 404 ''Workspace not found'')
     (alert_delivery_metrics (desk_of A) (reading m 1) (user_id s) wid slo))"

section \<open>Events of Hypernative\<close>

definition hypernative_monitor_credential :: "mac \<Rightarrow> string \<Rightarrow> string \<Rightarrow> string \<Rightarrow> string" where
  "hypernative_monitor_credential mac secret wid i =
     hex_text (mac secret (''hypernative-monitor:v1:'' @ wid @ CHR '':'' # i))"

definition ingress_root :: "'s world \<Rightarrow> string http" where
  "ingress_root W =
     (let secret = py_strip (getenv (env W) ''HYPERNATIVE_WEBHOOK_SECRET'' []) in
      if secret = [] then Inl (Http 503 ''Hypernative webhook ingress is not configured'')
      else if in_production (env W) (cfg W) \<and> length secret < 32
      then Inl (Http 503 ''Hypernative webhook ingress secret is too weak for production'')
      else Inr secret)"

definition hypernative_webhook_credential :: "'s world \<Rightarrow> signed_in \<Rightarrow> string \<Rightarrow> ('s, string \<times> string) handler" where
  "hypernative_webhook_credential W s i =
     hbind (hasking (\<lambda>A. must (Http 404 ''Monitor not found'') (get_monitor (desk_of A) (user_id s) i False))) (\<lambda>(_, r).
     hbind (hasking (\<lambda>A. if may_open (desk_of A) (user_id s) (monitor_workspace r) False True then Inr True
         else Inl (Http 403 ''Workspace administration required''))) (\<lambda>_.
     hbind (hasking (\<lambda>A. ingress_root W)) (\<lambda>secret.
     hreturn (monitor_workspace r, hypernative_monitor_credential (keyed_hash W) secret (monitor_workspace r) i))))"

record push_request =
  push_workspace :: string
  push_monitor :: string
  push_type :: string
  push_severity :: string
  push_entity :: "string option"
  push_confidence :: "pyfloat option"
  push_observed :: "string option"
  push_payload :: pydict

datatype ingress_mode = SharedSecret | MonitorDerived

text \<open>The supplied secret: a comparison with other than ASCII characters raises.\<close>

definition ingress_authentication :: "'s world \<Rightarrow> string \<Rightarrow> string \<Rightarrow> string \<Rightarrow> ingress_mode http" where
  "ingress_authentication W secret expected supplied =
     rbind (if in_production (env W) (cfg W) \<or> supplied = [] then Inr False
       else crashing (compare_texts supplied secret)) (\<lambda>legacy.
     if supplied = [] then Inl (Http 401 ''Invalid integration secret'')
     else rbind (crashing (compare_texts supplied expected)) (\<lambda>same.
       if \<not> same \<and> \<not> legacy then Inl (Http 401 ''Invalid integration secret'')
       else Inr (if legacy then SharedSecret else MonitorDerived)))"

fun ingress_text :: "ingress_mode \<Rightarrow> string" where
  "ingress_text SharedSecret = ''rivexis_shared_secret''"
| "ingress_text MonitorDerived = ''rivexis_monitor_derived_secret_v1''"

definition encoded_length :: "string \<Rightarrow> nat" where
  "encoded_length t = sum_list (map (\<lambda>c. length (utf8 c)) t)"

definition canonical_severity :: "string \<Rightarrow> string" where
  "canonical_severity t =
     (let s = py_lower (py_strip t) in
      if s \<in> {''low'', ''moderate'', ''high'', ''critical'', ''unknown''} then s else ''unknown'')"

definition event_identifier :: "pyval \<Rightarrow> string option" where
  "event_identifier v =
     (let t = (case v of VStr t \<Rightarrow> py_strip t | VInt n \<Rightarrow> int_text n | VBool b \<Rightarrow> if b then ''True'' else ''False'' | _ \<Rightarrow> []) in
      if t = [] then None else Some (take 200 t))"

definition source_event_id :: "pydict \<Rightarrow> string option" where
  "source_event_id payload =
     (case event_identifier (dict_get payload ''source_event_id'') of
        Some t \<Rightarrow> Some t
      | None \<Rightarrow> (case event_identifier (dict_get payload ''event_id'') of
          Some t \<Rightarrow> Some t
        | None \<Rightarrow> event_identifier (dict_get payload ''id'')))"

definition optional_float :: "pyfloat option \<Rightarrow> pyval" where
  "optional_float x = (case x of None \<Rightarrow> VNone | Some f \<Rightarrow> VFloat f)"

definition canonical_event :: "(pyfloat \<Rightarrow> string) \<Rightarrow> push_request \<Rightarrow> string" where
  "canonical_event frep ev =
     dumps_with json_char frep (VDict
       [(''workspace_id'', VStr (push_workspace ev)), (''monitor_id'', VStr (push_monitor ev)),
        (''event_type'', VStr (push_type ev)), (''severity'', VStr (canonical_severity (push_severity ev))),
        (''affected_entity'', optional (push_entity ev)), (''confidence'', optional_float (push_confidence ev)),
        (''observed_at'', optional (push_observed ev)), (''provider_payload'', VDict (push_payload ev))])"

definition event_key_of :: "'s world \<Rightarrow> push_request \<Rightarrow> string" where
  "event_key_of W ev =
     (case source_event_id (push_payload ev) of
        Some t \<Rightarrow> t | None \<Rightarrow> sha_text W (canonical_event (float_repr W) ev))"

definition event_payload :: "ingress_mode \<Rightarrow> push_request \<Rightarrow> pydict" where
  "event_payload mode ev =
     [(''provider'', VStr ''hypernative''), (''event_type'', VStr (push_type ev)),
      (''affected_entity'', optional (push_entity ev)), (''confidence'', optional_float (push_confidence ev)),
      (''observed_at'', optional (push_observed ev)), (''provider_severity'', VStr (push_severity ev)),
      (''provider_event_id'', optional (source_event_id (push_payload ev))),
      (''provider_payload'', VDict (push_payload ev)), (''ingress_authentication'', VStr (ingress_text mode))]"

text \<open>
  The payload is at most 64 KiB as compact JSON; the order of its keys does not change the length.
\<close>

definition accept_event :: "'s world \<Rightarrow> string \<Rightarrow> push_request \<Rightarrow> desk \<Rightarrow> ingress_mode http" where
  "accept_event W supplied ev D =
     rbind (ingress_root W) (\<lambda>secret.
     case get_monitor_internal D (push_monitor ev) of
       None \<Rightarrow> Inl (Http 404 ''Monitor not found'')
     | Some (_, r) \<Rightarrow>
         if monitor_workspace r \<noteq> push_workspace ev then Inl (Http 404 ''Monitor not found'')
         else rbind (ingress_authentication W secret
             (hypernative_monitor_credential (keyed_hash W) secret (push_workspace ev) (push_monitor ev)) supplied) (\<lambda>mode.
           if 65536 < encoded_length (dumps_with json_char (float_repr W) (VDict (push_payload ev)))
           then Inl (Http 413 ''provider_payload exceeds 64 KiB'') else Inr mode))"

definition hypernative_event :: "'s world \<Rightarrow> draws \<Rightarrow> string \<Rightarrow> push_request \<Rightarrow> ('s, bool \<times> string \<times> ingress_mode) handler" where
  "hypernative_event W m supplied ev =
     hbind (hasking (\<lambda>A. accept_event W supplied ev (desk_of A))) (\<lambda>mode.
     hbind (\<lambda>A. case create_alert (drawn m 1) (reading m 1) (push_workspace ev) (Some (push_monitor ev)) None
           (canonical_severity (push_severity ev)) (event_payload mode ev) (Some ''hypernative'')
           (Some (event_key_of W ev)) (desk_of A) (desk_of A) of
         None \<Rightarrow> (Inl (Crash RuntimeError), A)
       | Some ((v, duplicate), D) \<Rightarrow> (Inr (fst v, duplicate), A\<lparr>desk_of := D\<rparr>)) (\<lambda>(i, duplicate).
     hbind (logged m 2 (if duplicate then ''integration.hypernative.event.duplicate'' else ''integration.hypernative.event'')
         ''alert'' i (Some ''hypernative-forwarder'') None (Some (push_workspace ev))
         [(''monitor_id'', VStr (push_monitor ev)), (''event_type'', VStr (push_type ev)),
          (''severity'', VStr (canonical_severity (push_severity ev))), (''duplicate'', VBool duplicate)]) (\<lambda>_.
     hreturn (duplicate, i, mode))))"

end
