(* ===== verification/HandlerLogic.thy ===== *)
theory HandlerLogic
  imports Routes
begin

text \<open>
  What the requests of signed-in users can do: the invariants of every component hold in every
  state of the application, and a request changes nothing in a workspace its user cannot open.
  Handlers are verified with triples of a precondition, a postcondition of the result, and a
  condition that also holds when they fail.
\<close>

section \<open>Triples\<close>

definition triple ::
  "('s api \<Rightarrow> bool) \<Rightarrow> ('s api \<Rightarrow> bool) \<Rightarrow> ('s, 'a) handler \<Rightarrow> ('a \<Rightarrow> 's api \<Rightarrow> bool) \<Rightarrow> bool" where
  "triple E P h Q = (\<forall>A. P A \<longrightarrow> (case h A of (Inl e, A') \<Rightarrow> E A' | (Inr x, A') \<Rightarrow> Q x A'))"

lemma tripleD: "triple E P h (\<lambda>_. E) \<Longrightarrow> P A \<Longrightarrow> E (snd (h A))"
  by (cases "h A"; cases "fst (h A)") (auto simp: triple_def)

lemma triple_at: "triple E P h Q \<Longrightarrow> P A \<Longrightarrow> (case h A of (Inl e, A') \<Rightarrow> E A' | (Inr x, A') \<Rightarrow> Q x A')"
  unfolding triple_def by (drule spec, drule (1) mp)

lemma tripleI: "(\<And>A. P A \<Longrightarrow> (case h A of (Inl e, A') \<Rightarrow> E A' | (Inr x, A') \<Rightarrow> Q x A')) \<Longrightarrow> triple E P h Q"
  unfolding triple_def by (intro allI impI)

lemma run_asking: "hbind (hasking f) g A = (case f A of Inl e \<Rightarrow> (Inl e, A) | Inr x \<Rightarrow> g x A)"
  by (cases "f A") (simp_all add: hbind_def hasking_def)

lemma run_desk: "hbind (on_desk t) g A = g (fst (t (desk_of A))) (A\<lparr>desk_of := snd (t (desk_of A))\<rparr>)"
  by (cases "t (desk_of A)") (simp add: hbind_def on_desk_def)

lemma run_try: "hbind (try_desk err t) g A =
    (case t (desk_of A) of Inl e \<Rightarrow> (Inl (err e), A) | Inr p \<Rightarrow> g (fst p) (A\<lparr>desk_of := snd p\<rparr>))"
  by (cases "t (desk_of A)") (auto simp: hbind_def try_desk_def)

lemmas run_steps = run_asking run_desk run_try

lemma try_tenants_Inr: "try_tenants f D = Inr (x, D') \<longleftrightarrow> (\<exists>T. f (tenants D) = Inr (x, T) \<and> D' = D\<lparr>tenants := T\<rparr>)"
  by (cases "f (tenants D)") (auto simp: try_tenants_def split: prod.splits)

lemma triple_pre: "triple E P h Q \<Longrightarrow> (\<And>A. P' A \<Longrightarrow> P A) \<Longrightarrow> triple E P' h Q"
  by (auto simp: triple_def)

lemma triple_post: "triple E P h R \<Longrightarrow> (\<And>x A. R x A \<Longrightarrow> Q x A) \<Longrightarrow> triple E P h Q"
  by (fastforce simp: triple_def split: prod.splits sum.splits)

lemma triple_bind: "triple E P m R \<Longrightarrow> (\<And>x. triple E (R x) (f x) Q) \<Longrightarrow> triple E P (hbind m f) Q"
  by (fastforce simp: triple_def hbind_def split: prod.splits sum.splits)

lemma triple_return: "(\<And>A. P A \<Longrightarrow> Q x A) \<Longrightarrow> triple E P (hreturn x) Q"
  by (simp add: triple_def hreturn_def)

lemma triple_fail: "(\<And>A. P A \<Longrightarrow> E A) \<Longrightarrow> triple E P (hfail e) Q"
  by (simp add: triple_def hfail_def)

lemma triple_asking:
  "(\<And>A. P A \<Longrightarrow> E A) \<Longrightarrow> (\<And>A x. P A \<Longrightarrow> f A = Inr x \<Longrightarrow> Q x A) \<Longrightarrow> triple E P (hasking f) Q"
  by (auto simp: triple_def hasking_def split: sum.splits)

lemma triple_check: "(\<And>A. P A \<Longrightarrow> E A) \<Longrightarrow> triple E P (hcheck e ok) (\<lambda>_ A. P A \<and> ok)"
  unfolding hcheck_def by (rule triple_asking) (auto split: if_splits)

lemma triple_must: "(\<And>A. P A \<Longrightarrow> E A) \<Longrightarrow> triple E P (hmust e x) (\<lambda>y A. P A \<and> x = Some y)"
  unfolding hmust_def by (rule triple_asking) (auto simp: must_def split: option.splits)

section \<open>The rows of a workspace\<close>

definition in_workspace :: "('r \<Rightarrow> string option) \<Rightarrow> string \<Rightarrow> (string \<times> 'r) list \<Rightarrow> (string \<times> 'r) list" where
  "in_workspace ws wid rows = filter (\<lambda>(i, r). ws r = Some wid) rows"

lemma in_workspace_append [simp]: "in_workspace ws wid (xs @ ys) = in_workspace ws wid xs @ in_workspace ws wid ys"
  by (simp add: in_workspace_def)

lemma in_workspace_single [simp]: "ws r \<noteq> Some wid \<Longrightarrow> in_workspace ws wid [(i, r)] = []"
  by (simp add: in_workspace_def)

lemma in_workspace_update:
  "(\<And>old. map_of rows i = Some old \<Longrightarrow> ws old \<noteq> Some wid) \<Longrightarrow> ws r \<noteq> Some wid \<Longrightarrow>
   in_workspace ws wid (AList.update i r rows) = in_workspace ws wid rows"
  by (induction rows) (auto simp: in_workspace_def split: if_splits)

lemma in_workspace_delete:
  assumes "distinct (map fst rows)" and "\<And>old. map_of rows i = Some old \<Longrightarrow> ws old \<noteq> Some wid"
  shows "in_workspace ws wid (AList.delete i rows) = in_workspace ws wid rows"
proof -
  have "j \<noteq> i" if "(j, r) \<in> set rows" "ws r = Some wid" for j r
    using assms(2) map_of_is_SomeI [OF assms(1) that(1)] that(2) by blast
  then show ?thesis by (auto simp: in_workspace_def AList.delete_eq intro!: filter_cong)
qed

text \<open>Everything of a workspace: its own row and the rows of the tables that name it.\<close>

definition workspace_rows where
  "workspace_rows wid D =
     (map_of (workspaces (tenants D)) wid, in_workspace analysis_workspace wid (analyses D),
      in_workspace decision_workspace wid (stored_decisions D), in_workspace portfolio_workspace wid (portfolios D),
      in_workspace (\<lambda>r. Some (monitor_workspace r)) wid (monitors D),
      in_workspace (\<lambda>r. Some (alert_workspace r)) wid (alerts D),
      in_workspace (\<lambda>r. Some (report_workspace r)) wid (reports D),
      in_workspace audit_workspace wid (audits D), in_workspace request_workspace wid (requests D))"

text \<open>The saved analyses of the other users.\<close>

definition others_saved :: "string \<Rightarrow> desk \<Rightarrow> (string \<times> saved_row) list" where
  "others_saved uid D = filter (\<lambda>(i, r). saved_user r \<noteq> uid) (saved_analyses D)"

text \<open>A workspace that exists and that the user cannot open.\<close>

definition blocked :: "desk \<Rightarrow> string \<Rightarrow> string \<Rightarrow> bool" where
  "blocked D uid wid = (map_of (workspaces (tenants D)) wid \<noteq> None \<and> \<not> may_open D uid wid False False)"

definition untouched :: "string \<Rightarrow> desk \<Rightarrow> desk \<Rightarrow> bool" where
  "untouched uid D D' = (others_saved uid D' = others_saved uid D \<and>
     (\<forall>wid. blocked D uid wid \<longrightarrow> workspace_rows wid D' = workspace_rows wid D))"

lemma untouched_refl [simp]: "untouched uid D D"
  by (simp add: untouched_def)

lemma may_open_read: "may_open D uid wid w m \<Longrightarrow> may_open D uid wid False False"
  by (auto simp: may_open_def workspace_access_def role_allows_def Let_def split: option.splits if_splits)

lemma may_open_tenants: "tenants D' = tenants D \<Longrightarrow> may_open D' = may_open D"
  by (simp add: may_open_def fun_eq_iff)

section \<open>The invariant\<close>

text \<open>Primary keys, and every alert of a monitor in the workspace of the monitor.\<close>

definition keys_ok :: "desk \<Rightarrow> bool" where
  "keys_ok D = (distinct (map fst (analyses D)) \<and> distinct (map fst (stored_decisions D)) \<and>
     distinct (map fst (saved_analyses D)) \<and> distinct (map fst (portfolios D)) \<and>
     distinct (map fst (monitors D)) \<and> distinct (map fst (reports D)))"

definition links_ok :: "desk \<Rightarrow> bool" where
  "links_ok D = (\<forall>(a, r) \<in> set (alerts D). \<forall>i. alert_monitor r = Some i \<longrightarrow>
     (\<exists>q. map_of (monitors D) i = Some q \<and> monitor_workspace q = alert_workspace r))"

definition desk_ok :: "int \<Rightarrow> desk \<Rightarrow> bool" where
  "desk_ok M D = (tenancy_reach (tenants D) \<and> alert_reach M D \<and> keys_ok D \<and> links_ok D)"

text \<open>The texts drawn during a request are new identifiers.\<close>

definition unused :: "string \<Rightarrow> desk \<Rightarrow> bool" where
  "unused i D = (i \<noteq> [] \<and> map_of (users (tenants D)) i = None \<and> map_of (organizations (tenants D)) i = None \<and>
     map_of (workspaces (tenants D)) i = None \<and> map_of (saved_analyses D) i = None \<and>
     map_of (portfolios D) i = None \<and> map_of (monitors D) i = None \<and>
     map_of (alerts D) i = None \<and> map_of (reports D) i = None)"

definition new_draws :: "'s world \<Rightarrow> draws \<Rightarrow> desk \<Rightarrow> bool" where
  "new_draws W m D = ((\<forall>k. unused (drawn m k) D \<and> map_of (stored_decisions D) (drawn m k) = None) \<and>
     (\<forall>e d demo r. run_engine (value_repr W) (engine_ids m) (drawn m 3) (live_engines W) e d demo = Inr r \<longrightarrow>
        map_of (analyses D) (analysis_id r) = None))"

definition attempts_of :: "'s world \<Rightarrow> int" where
  "attempts_of W = (case webhook_settings_of (env W) of Inl e \<Rightarrow> 0 | Inr hook \<Rightarrow> hook_attempts hook)"

end
