(* ===== verification/StoreEffects.thy ===== *)
theory StoreEffects
  imports HandlerLogic
begin

text \<open>
  What each operation of the store changes: the invariant of all tables, the rows of the workspaces
  that the user cannot open, and the accounts (\<open>services/store.py\<close>, \<open>services/alert_delivery.py\<close>).
\<close>

section \<open>What each operation of the store keeps\<close>

text \<open>
  \<open>good M uid D0 D\<close>: in \<open>D\<close> the invariant holds, and from \<open>D0\<close> to \<open>D\<close> nothing changed that the
  user cannot open in \<open>D0\<close>, and no account was lost or went back to an earlier version.
\<close>

definition good :: "int \<Rightarrow> string \<Rightarrow> desk \<Rightarrow> desk \<Rightarrow> bool" where
  "good M uid D0 D = (desk_ok M D \<and> untouched uid D0 D \<and> users_kept (tenants D0) (tenants D))"

definition same_access :: "desk \<Rightarrow> desk \<Rightarrow> bool" where
  "same_access D0 D = (tenants D = tenants D0)"

lemma opened_free: "may_open D uid w x y \<Longrightarrow> same_access D0 D \<Longrightarrow> \<not> blocked D0 uid w"
  using may_open_read [of D uid w x y] may_open_tenants [of D D0]
  by (auto simp: blocked_def same_access_def)

lemma free_other: "\<not> blocked D0 uid w \<Longrightarrow> blocked D0 uid wid \<Longrightarrow> w \<noteq> wid"
  by auto

lemma other_alerts: "alert_reach M D \<Longrightarrow> alerts D' = alerts D \<Longrightarrow> alert_reach M D'"
  by (rule alert_reach.other)

text \<open>A changed table, all its rows kept outside one workspace.\<close>

lemma good_table:
  assumes "good M uid D0 D" and "tenants D' = tenants D" and "alerts D' = alerts D" and "monitors D' = monitors D"
    and "keys_ok D \<Longrightarrow> keys_ok D'" and "others_saved uid D' = others_saved uid D"
    and "\<And>wid. blocked D0 uid wid \<Longrightarrow> workspace_rows wid D' = workspace_rows wid D"
  shows "good M uid D0 D'"
proof -
  have "links_ok D' = links_ok D" using assms(3,4) by (simp add: links_ok_def)
  then have "desk_ok M D'" using assms(1,2,3,5) other_alerts [of M D D']
    by (simp add: good_def desk_ok_def)
  moreover have "untouched uid D0 D'" using assms(1,6,7) by (simp add: good_def untouched_def)
  ultimately show ?thesis using assms(1,2) by (simp add: good_def)
qed

lemma audit_good:
  assumes "good M uid D0 D" and "\<And>w. wid = Some w \<Longrightarrow> \<not> blocked D0 uid w"
  shows "good M uid D0 (audit i now c action kind rid actor user wid detail D)"
proof (rule good_table [OF assms(1)])
  fix other assume "blocked D0 uid other"
  then have "wid \<noteq> Some other" using assms(2) by blast
  then show "workspace_rows other (audit i now c action kind rid actor user wid detail D) = workspace_rows other D"
    by (simp add: workspace_rows_def audit_def)
qed (simp_all add: keys_ok_def others_saved_def audit_def)

lemma save_engine_result_good:
  assumes "good M uid D0 D" and "map_of (analyses D) (analysis_id r) = None" and "\<not> blocked D0 uid w"
  shows "good M uid D0 (save_engine_result now r user (Some w) D)"
proof (rule good_table [OF assms(1)])
  fix other assume "blocked D0 uid other"
  then have "w \<noteq> other" using assms(3) by blast
  then show "workspace_rows other (save_engine_result now r user (Some w) D) = workspace_rows other D"
    using assms(2) by (auto simp: workspace_rows_def save_engine_result_def intro!: in_workspace_update)
qed (simp_all add: keys_ok_def others_saved_def save_engine_result_def Let_def distinct_update)

lemma save_decision_good:
  assumes "good M uid D0 D" and "map_of (stored_decisions D) did = None" and "\<not> blocked D0 uid w"
  shows "good M uid D0 (save_decision now did r user (Some w) D)"
proof (rule good_table [OF assms(1)])
  fix other assume "blocked D0 uid other"
  then have "w \<noteq> other" using assms(3) by blast
  then show "workspace_rows other (save_decision now did r user (Some w) D) = workspace_rows other D"
    using assms(2) by (auto simp: workspace_rows_def save_decision_def intro!: in_workspace_update)
qed (simp_all add: keys_ok_def others_saved_def save_decision_def Let_def distinct_update)

text \<open>Saved analyses belong to their user.\<close>

lemma saved_update:
  assumes "map_of rows i = Some old" and "saved_user old = uid" and "saved_user r = uid"
  shows "filter (\<lambda>(i, r). saved_user r \<noteq> uid) (AList.update i r rows) = filter (\<lambda>(i, r). saved_user r \<noteq> uid) rows"
  using assms by (induction rows) (auto split: if_splits)

lemma saved_table_good:
  assumes "good M uid D0 D" and "distinct (map fst rows)"
    and "filter (\<lambda>(i, r). saved_user r \<noteq> uid) rows = filter (\<lambda>(i, r). saved_user r \<noteq> uid) (saved_analyses D)"
  shows "good M uid D0 (D\<lparr>saved_analyses := rows\<rparr>)"
  by (rule good_table [OF assms(1)]) (use assms(2,3) in \<open>simp_all add: keys_ok_def others_saved_def workspace_rows_def\<close>)

lemma good_saved_keys: "good M uid D0 D \<Longrightarrow> distinct (map fst (saved_analyses D))"
  by (simp add: good_def desk_ok_def keys_ok_def)

lemma create_saved_good:
  assumes g: "good M uid D0 D" and f: "map_of (saved_analyses D) i = None"
  shows "good M uid D0 (snd (create_saved_analysis i now uid w aid title D))"
proof (cases "saved_pair D uid aid")
  case None
  then show ?thesis using saved_table_good [OF g] good_saved_keys [OF g] f
    by (simp add: create_saved_analysis_def Let_def map_of_eq_None_iff)
next
  case (Some v)
  obtain j r where v: "v = (j, r)" by fastforce
  then have "(j, r) \<in> set (saved_analyses D)" and u: "saved_user r = uid"
    using Some by (auto simp: saved_pair_def find_Some_iff dest: nth_mem)
  then have m: "map_of (saved_analyses D) j = Some r" using good_saved_keys [OF g] by simp
  show ?thesis unfolding create_saved_analysis_def Some v
    by (simp add: Let_def, rule saved_table_good [OF g])
       (simp_all add: distinct_update good_saved_keys [OF g] saved_update [OF m u] u)
qed

lemma archive_saved_good:
  assumes g: "good M uid D0 D"
  shows "good M uid D0 (snd (set_saved_analysis_archived uid i archived D))"
proof (cases "own_saved D uid i")
  case (Some r)
  then have m: "map_of (saved_analyses D) i = Some r" "saved_user r = uid"
    by (auto simp: own_saved_def split: option.splits if_splits)
  show ?thesis unfolding set_saved_analysis_archived_def Some
    by (simp, rule saved_table_good [OF g])
       (simp_all add: distinct_update good_saved_keys [OF g] saved_update [OF m] m)
qed (use g in \<open>simp add: set_saved_analysis_archived_def\<close>)

lemma delete_saved_good:
  assumes g: "good M uid D0 D"
  shows "good M uid D0 (snd (delete_saved_analysis uid i D))"
proof (cases "own_saved D uid i")
  case (Some r)
  then have m: "map_of (saved_analyses D) i = Some r" "saved_user r = uid"
    by (auto simp: own_saved_def split: option.splits if_splits)
  have "j \<noteq> i" if "(j, q) \<in> set (saved_analyses D)" "saved_user q \<noteq> uid" for j q
    using map_of_is_SomeI [OF good_saved_keys [OF g] that(1)] that(2) m by auto
  then have "filter (\<lambda>(i, r). saved_user r \<noteq> uid) (AList.delete i (saved_analyses D)) =
      filter (\<lambda>(i, r). saved_user r \<noteq> uid) (saved_analyses D)"
    by (auto simp: AList.delete_eq intro!: filter_cong)
  then show ?thesis unfolding delete_saved_analysis_def Some
    by (simp, intro saved_table_good [OF g]) (simp_all add: good_saved_keys [OF g] distinct_delete)
qed (use g in \<open>simp add: delete_saved_analysis_def\<close>)

lemma create_portfolio_good:
  assumes "good M uid D0 D" and "map_of (portfolios D) i = None" and "\<not> blocked D0 uid w"
  shows "good M uid D0 (snd (create_portfolio i user (Some w) name payload D))"
proof (rule good_table [OF assms(1)])
  fix other assume "blocked D0 uid other"
  then have "w \<noteq> other" using assms(3) by blast
  then show "workspace_rows other (snd (create_portfolio i user (Some w) name payload D)) = workspace_rows other D"
    by (simp add: workspace_rows_def create_portfolio_def Let_def)
qed (use assms(2) in \<open>simp_all add: keys_ok_def others_saved_def create_portfolio_def Let_def map_of_eq_None_iff\<close>)

text \<open>Reports.\<close>

lemma new_report_good:
  assumes "good M uid D0 D" and "map_of (reports D) i = None" and "\<not> blocked D0 uid (report_workspace r)"
  shows "good M uid D0 (D\<lparr>reports := reports D @ [(i, r)]\<rparr>)"
proof (rule good_table [OF assms(1)])
  fix other assume "blocked D0 uid other"
  then have "report_workspace r \<noteq> other" using assms(3) by blast
  then show "workspace_rows other (D\<lparr>reports := reports D @ [(i, r)]\<rparr>) = workspace_rows other D"
    by (simp add: workspace_rows_def)
qed (use assms(2) in \<open>simp_all add: keys_ok_def others_saved_def map_of_eq_None_iff\<close>)

lemma put_report_good:
  assumes "good M uid D0 D" and "map_of (reports D) i = Some old" and "\<not> blocked D0 uid (report_workspace old)"
    and "report_workspace r = report_workspace old"
  shows "good M uid D0 (D\<lparr>reports := AList.update i r (reports D)\<rparr>)"
proof (rule good_table [OF assms(1)])
  fix other assume "blocked D0 uid other"
  then have "report_workspace old \<noteq> other" using assms(3) by blast
  then show "workspace_rows other (D\<lparr>reports := AList.update i r (reports D)\<rparr>) = workspace_rows other D"
    using assms(2,4) by (auto simp: workspace_rows_def intro!: in_workspace_update)
qed (simp_all add: keys_ok_def others_saved_def distinct_update)

lemma create_reports_good:
  assumes "good M uid D0 D" and "map_of (reports D) i = None" and "\<not> blocked D0 uid w"
  shows "good M uid D0 (snd (create_report i now user w did fmt D))"
    and "good M uid D0 (snd (create_protocol_review i now user w payload fmt D))"
    and "good M uid D0 (snd (create_protocol_investigation i now clock_text user w title inputs timeline notes D))"
  using new_report_good [OF assms(1,2)] assms(3)
  by (simp_all add: create_report_def create_protocol_review_def create_protocol_investigation_def new_report_def Let_def)

lemma opened_report: "open_report D uid i kind w m = Some r \<Longrightarrow>
    map_of (reports D) i = Some r \<and> may_open D uid (report_workspace r) w m"
  by (auto simp: open_report_def split: option.splits if_splits)

lemma approve_good:
  assumes g: "good M uid D0 D" and t: "same_access D0 D" and a: "approve_protocol_review now uid i D = (v, D')"
  shows "good M uid D0 D'" and "same_access D0 D'"
    and "v = Some row \<Longrightarrow> \<not> blocked D0 uid (report_workspace (snd row))"
proof -
  have "good M uid D0 D' \<and> same_access D0 D' \<and> (v = Some row \<longrightarrow> \<not> blocked D0 uid (report_workspace (snd row)))"
  proof (cases "open_report D uid i REVIEW False True")
    case (Some r)
    note o = opened_report [OF Some]
    have b: "\<not> blocked D0 uid (report_workspace r)" by (rule opened_free [OF conjunct2 [OF o] t])
    show ?thesis using a b t put_report_good [OF g conjunct1 [OF o] b]
      by (auto simp: approve_protocol_review_def Some report_view_def same_access_def Let_def)
  qed (use a g t in \<open>simp add: approve_protocol_review_def\<close>)
  then show "good M uid D0 D'" "same_access D0 D'"
    "v = Some row \<Longrightarrow> \<not> blocked D0 uid (report_workspace (snd row))" by blast+
qed

lemma update_case_good:
  assumes g: "good M uid D0 D" and t: "same_access D0 D"
    and a: "update_protocol_investigation clock_text uid i state disposition notes D = Inr (v, D')"
  shows "good M uid D0 D' \<and> same_access D0 D' \<and> (\<forall>row. v = Some row \<longrightarrow> \<not> blocked D0 uid (report_workspace (snd row)))"
proof (cases "open_report D uid i CASE True False")
  case (Some r)
  note o = opened_report [OF Some]
  have b: "\<not> blocked D0 uid (report_workspace r)" by (rule opened_free [OF conjunct2 [OF o] t])
  show ?thesis using a b t put_report_good [OF g conjunct1 [OF o] b]
    by (auto simp: update_protocol_investigation_def Some report_view_def same_access_def Let_def elim!: rbindE split: prod.splits)
qed (use a g t in \<open>simp add: update_protocol_investigation_def\<close>)

lemma attach_review_good:
  assumes g: "good M uid D0 D" and t: "same_access D0 D"
    and a: "attach_protocol_review_to_investigation uid i review D = Inr (v, D')"
  shows "good M uid D0 D' \<and> same_access D0 D' \<and> (\<forall>row. v = Some row \<longrightarrow> \<not> blocked D0 uid (report_workspace (snd row)))"
proof (cases "open_report D uid i CASE True False")
  case (Some r)
  note o = opened_report [OF Some]
  have b: "\<not> blocked D0 uid (report_workspace r)" by (rule opened_free [OF conjunct2 [OF o] t])
  show ?thesis using a b t g put_report_good [OF g conjunct1 [OF o] b]
    by (auto simp: attach_protocol_review_to_investigation_def Some report_view_def same_access_def Let_def
        elim!: rbindE split: option.splits if_splits)
qed (use a g t in \<open>simp add: attach_protocol_review_to_investigation_def\<close>)

text \<open>Monitors and alerts.\<close>

lemma good_links: "good M uid D0 D \<Longrightarrow> (a, r) \<in> set (alerts D) \<Longrightarrow> alert_monitor r = Some i \<Longrightarrow>
    \<exists>q. map_of (monitors D) i = Some q \<and> monitor_workspace q = alert_workspace r"
  by (auto simp: good_def desk_ok_def links_ok_def)

lemma good_monitor_keys: "good M uid D0 D \<Longrightarrow> distinct (map fst (monitors D))"
  by (simp add: good_def desk_ok_def keys_ok_def)

lemma good_alert_keys: "good M uid D0 D \<Longrightarrow> distinct (map fst (alerts D))"
  using reach_queue queue_okD(1) by (auto simp: good_def desk_ok_def)

lemma good_other:
  assumes "good M uid D0 D" and "tenants D' = tenants D" and "alert_reach M D'" and "links_ok D'"
    and "keys_ok D \<Longrightarrow> keys_ok D'" and "others_saved uid D' = others_saved uid D"
    and "\<And>wid. blocked D0 uid wid \<Longrightarrow> workspace_rows wid D' = workspace_rows wid D"
  shows "good M uid D0 D'"
  using assms by (simp add: good_def desk_ok_def untouched_def)

lemma links_kept:
  assumes "good M uid D0 D" and "\<And>a r. (a, r) \<in> set (alerts D') \<Longrightarrow> (a, r) \<in> set (alerts D)"
    and "\<And>a r i q. (a, r) \<in> set (alerts D') \<Longrightarrow> alert_monitor r = Some i \<Longrightarrow> map_of (monitors D) i = Some q \<Longrightarrow>
      \<exists>q'. map_of (monitors D') i = Some q' \<and> monitor_workspace q' = monitor_workspace q"
  shows "links_ok D'"
  unfolding links_ok_def
proof (clarify)
  fix a r i assume a: "(a, r) \<in> set (alerts D')" and i: "alert_monitor r = Some i"
  obtain q where "map_of (monitors D) i = Some q" "monitor_workspace q = alert_workspace r"
    using good_links [OF assms(1) assms(2) [OF a] i] by blast
  then show "\<exists>q. map_of (monitors D') i = Some q \<and> monitor_workspace q = alert_workspace r"
    using assms(3) [OF a i] by metis
qed

lemma create_monitor_good:
  assumes g: "good M uid D0 D" and f: "map_of (monitors D) i = None" and w: "\<not> blocked D0 uid w"
  shows "good M uid D0 (snd (create_monitor i now user w entity chain rules config D))"
proof (rule good_other [OF g])
  let ?D' = "snd (create_monitor i now user w entity chain rules config D)"
  show "alert_reach M ?D'" by (rule other_alerts [of M D]) (use g in \<open>simp_all add: good_def desk_ok_def create_monitor_def Let_def\<close>)
  show "links_ok ?D'"
    by (rule links_kept [OF g]) (simp_all add: create_monitor_def Let_def map_add_find_right)
  fix other assume "blocked D0 uid other"
  then have "w \<noteq> other" using w by blast
  then show "workspace_rows other ?D' = workspace_rows other D"
    by (simp add: workspace_rows_def create_monitor_def Let_def)
qed (use f in \<open>simp_all add: keys_ok_def others_saved_def create_monitor_def Let_def map_of_eq_None_iff\<close>)

lemma patched_workspace [simp]: "monitor_workspace (patched p r) = monitor_workspace r"
  by (simp add: patched_def)

lemma opened_monitor: "get_monitor D uid i w = Some v \<Longrightarrow>
    fst v = i \<and> map_of (monitors D) i = Some (snd v) \<and> may_open D uid (monitor_workspace (snd v)) w False"
  by (auto simp: get_monitor_def split: option.splits if_splits)

lemma update_monitor_good:
  assumes g: "good M uid D0 D" and t: "same_access D0 D" and a: "update_monitor now uid i p D = (v, D')"
  shows "good M uid D0 D' \<and> same_access D0 D' \<and> alerts D' = alerts D \<and>
    (\<forall>row. v = Some row \<longrightarrow> \<not> blocked D0 uid (monitor_workspace (snd row)))"
proof (cases "get_monitor D uid i True")
  case (Some u)
  obtain r where u: "u = (i, r)" using opened_monitor [OF Some] by (cases u) simp
  have m: "map_of (monitors D) i = Some r" and o: "may_open D uid (monitor_workspace r) True False"
    using opened_monitor [OF Some] by (simp_all add: u)
  note b = opened_free [OF o t]
  obtain row where row: "D' = D\<lparr>monitors := AList.update i row (monitors D)\<rparr>" "v = Some (i, row)"
    "monitor_workspace row = monitor_workspace r"
    using a by (auto simp: update_monitor_def Some u Let_def split: if_splits)
  have "good M uid D0 D'"
  proof (rule good_other [OF g])
    show "alert_reach M D'" by (rule other_alerts [of M D]) (use g in \<open>simp_all add: good_def desk_ok_def row\<close>)
    show "links_ok D'"
    proof (rule links_kept [OF g])
      fix j q assume "map_of (monitors D) j = Some q"
      then show "\<exists>q'. map_of (monitors D') j = Some q' \<and> monitor_workspace q' = monitor_workspace q"
        using m row(1,3) by (cases "j = i") (simp_all add: update_conv')
    qed (simp add: row(1))
    fix other assume "blocked D0 uid other"
    then have "monitor_workspace r \<noteq> other" using b by blast
    then show "workspace_rows other D' = workspace_rows other D"
      using m row(3) by (auto simp: workspace_rows_def row(1) intro!: in_workspace_update)
  qed (simp_all add: row keys_ok_def others_saved_def distinct_update)
  then show ?thesis using b t row by (simp add: same_access_def)
qed (use a g t in \<open>simp add: update_monitor_def\<close>)

lemma filter_alerts_rows:
  assumes "\<And>a r. (a, r) \<in> set xs \<Longrightarrow> \<not> P (a, r) \<Longrightarrow> ws r \<noteq> Some wid"
  shows "in_workspace ws wid (filter P xs) = in_workspace ws wid xs"
  using assms by (auto simp: in_workspace_def intro!: filter_cong)

lemma delete_monitor_good:
  assumes g: "good M uid D0 D" and t: "same_access D0 D" and a: "delete_monitor uid i D = (v, D')"
  shows "good M uid D0 D' \<and> same_access D0 D'"
proof (cases "get_monitor D uid i True")
  case (Some u)
  obtain r where u: "u = (i, r)" using opened_monitor [OF Some] by (cases u) simp
  have m: "map_of (monitors D) i = Some r" and o: "may_open D uid (monitor_workspace r) True False"
    using opened_monitor [OF Some] by (simp_all add: u)
  note b = opened_free [OF o t]
  have D': "D' = D\<lparr>monitors := AList.delete i (monitors D),
      alerts := filter (\<lambda>(a, r). alert_monitor r \<noteq> Some i) (alerts D)\<rparr>"
    using a by (simp add: delete_monitor_def Some)
  have "good M uid D0 D'"
  proof (rule good_other [OF g])
    have "alert_reach M D" using g by (simp add: good_def desk_ok_def)
    from alert_reach.forget [OF this, of uid i] show "alert_reach M D'" by (simp add: a)
    show "links_ok D'" by (rule links_kept [OF g]) (auto simp: D' delete_conv' simp del: map_of_eq_Some_iff)
    fix other assume "blocked D0 uid other"
    then have "monitor_workspace r \<noteq> other" using b by blast
    moreover have "alert_workspace q = monitor_workspace r"
      if "(c, q) \<in> set (alerts D)" "alert_monitor q = Some i" for c q
      using good_links [OF g that] m by auto
    ultimately show "workspace_rows other D' = workspace_rows other D"
      using m good_monitor_keys [OF g]
      by (auto simp: workspace_rows_def D' intro!: in_workspace_delete filter_alerts_rows)
  qed (simp_all add: D' keys_ok_def others_saved_def distinct_delete)
  then show ?thesis using t D' by (simp add: same_access_def)
qed (use a g t in \<open>simp add: delete_monitor_def\<close>)

text \<open>A changed table of alerts.\<close>

lemma alerts_good:
  assumes g: "good M uid D0 D" and r: "alert_reach M (D\<lparr>alerts := rows\<rparr>)"
    and "\<And>a r. (a, r) \<in> set rows \<Longrightarrow> (\<exists>b q. (b, q) \<in> set (alerts D) \<and> alert_monitor q = alert_monitor r \<and>
        alert_workspace q = alert_workspace r) \<or>
      (\<forall>i. alert_monitor r = Some i \<longrightarrow> (\<exists>q. map_of (monitors D) i = Some q \<and> monitor_workspace q = alert_workspace r))"
    and "\<And>wid. blocked D0 uid wid \<Longrightarrow> in_workspace (\<lambda>r. Some (alert_workspace r)) wid rows =
      in_workspace (\<lambda>r. Some (alert_workspace r)) wid (alerts D)"
  shows "good M uid D0 (D\<lparr>alerts := rows\<rparr>)"
proof (rule good_other [OF g])
  show "links_ok (D\<lparr>alerts := rows\<rparr>)"
    unfolding links_ok_def
  proof (clarsimp, goal_cases)
    case (1 a r i)
    then show ?case using assms(3) [OF 1(1)] good_links [OF g] by (metis option.inject)
  qed
qed (use assms in \<open>simp_all add: keys_ok_def others_saved_def workspace_rows_def\<close>)

lemma put_alert_good:
  assumes g: "good M uid D0 D" and r: "alert_reach M (D\<lparr>alerts := AList.update i row (alerts D)\<rparr>)"
    and m: "map_of (alerts D) i = Some old" and w: "\<not> blocked D0 uid (alert_workspace old)"
    and s: "alert_workspace row = alert_workspace old" "alert_monitor row = alert_monitor old"
  shows "good M uid D0 (D\<lparr>alerts := AList.update i row (alerts D)\<rparr>)"
proof (rule alerts_good [OF g r])
  fix a q assume "(a, q) \<in> set (AList.update i row (alerts D))"
  then have "(a, q) = (i, row) \<or> (a, q) \<in> set (alerts D)" by (rule update_member)
  then have "\<exists>b p. (b, p) \<in> set (alerts D) \<and> alert_monitor p = alert_monitor q \<and> alert_workspace p = alert_workspace q"
    using map_of_SomeD [OF m] s by (metis prod.inject)
  then show "(\<exists>b p. (b, p) \<in> set (alerts D) \<and> alert_monitor p = alert_monitor q \<and> alert_workspace p = alert_workspace q) \<or>
      (\<forall>i. alert_monitor q = Some i \<longrightarrow> (\<exists>q'. map_of (monitors D) i = Some q' \<and> monitor_workspace q' = alert_workspace q))"
    by (rule disjI1)
next
  fix wid assume "blocked D0 uid wid"
  then have "alert_workspace old \<noteq> wid" using w by blast
  then show "in_workspace (\<lambda>r. Some (alert_workspace r)) wid (AList.update i row (alerts D)) =
      in_workspace (\<lambda>r. Some (alert_workspace r)) wid (alerts D)"
    using m s by (auto intro!: in_workspace_update)
qed

lemma create_alert_good:
  assumes g: "good M uid D0 D" and f: "map_of (alerts D) i = None" and w: "\<not> blocked D0 uid wid"
    and l: "\<And>j. mon = Some j \<Longrightarrow> \<exists>q. map_of (monitors D) j = Some q \<and> monitor_workspace q = wid"
    and c: "create_alert i now wid mon analysis level payload provider_id key D D = Some (v, D')"
  shows "good M uid D0 D' \<and> tenants D' = tenants D"
proof -
  have "alert_reach M D" using g by (simp add: good_def desk_ok_def)
  note r = alert_reach.create [OF this f c]
  let ?found = "if given provider_id \<and> given key then find_event wid provider_id key (alerts D) else None"
  show ?thesis
  proof (cases ?found)
    case (Some u)
    then obtain j q where u: "u = (j, q)" "find_event wid provider_id key (alerts D) = Some (j, q)"
      by (cases u) (simp split: if_splits)
    then have q: "(j, q) \<in> set (alerts D)" "alert_workspace q = wid"
      using found_in by (fastforce simp: find_event_def same_event_def)+
    have m: "map_of (alerts D) j = Some q" using q(1) good_alert_keys [OF g] by simp
    obtain row where row: "D' = D\<lparr>alerts := AList.update j row (alerts D)\<rparr>"
      "alert_workspace row = alert_workspace q" "alert_monitor row = alert_monitor q"
      using c Some by (auto simp: create_alert_def u Let_def)
    show ?thesis using put_alert_good [OF g _ m _ row(2,3)] r w q(2) row(1) by auto
  next
    case None
    then have D': "D' = D\<lparr>alerts := alerts D @ [(i, new_alert now wid mon analysis level payload provider_id key)]\<rparr> \<or> D' = D"
      using c by (auto simp: create_alert_def insert_alert_def Let_def split: option.splits if_splits)
    have "good M uid D0 (D\<lparr>alerts := alerts D @ [(i, new_alert now wid mon analysis level payload provider_id key)]\<rparr>)"
      if "D' \<noteq> D"
    proof (rule alerts_good [OF g])
      show "alert_reach M (D\<lparr>alerts := alerts D @ [(i, new_alert now wid mon analysis level payload provider_id key)]\<rparr>)"
        using r D' that by auto
      fix a q assume "(a, q) \<in> set (alerts D @ [(i, new_alert now wid mon analysis level payload provider_id key)])"
      then show "(\<exists>b p. (b, p) \<in> set (alerts D) \<and> alert_monitor p = alert_monitor q \<and> alert_workspace p = alert_workspace q) \<or>
        (\<forall>i. alert_monitor q = Some i \<longrightarrow> (\<exists>q'. map_of (monitors D) i = Some q' \<and> monitor_workspace q' = alert_workspace q))"
        using l by (auto simp: new_alert_def)
    next
      fix other assume "blocked D0 uid other"
      then have "wid \<noteq> other" using w by blast
      then show "in_workspace (\<lambda>r. Some (alert_workspace r)) other
          (alerts D @ [(i, new_alert now wid mon analysis level payload provider_id key)]) =
        in_workspace (\<lambda>r. Some (alert_workspace r)) other (alerts D)"
        by (simp add: new_alert_def)
    qed
    then show ?thesis using D' g by (cases "D' = D") auto
  qed
qed

lemma opened_alert_access: "open_alert D uid i w x = Some r \<Longrightarrow>
    map_of (alerts D) i = Some r \<and> may_open D uid (alert_workspace r) w x"
  by (auto simp: open_alert_def split: option.splits if_splits)

lemma alert_status_good:
  assumes g: "good M uid D0 D" and t: "same_access D0 D" and a: "update_alert_status now uid i state D = Inr (v, D')"
  shows "good M uid D0 D' \<and> same_access D0 D' \<and> (\<forall>row. v = Some row \<longrightarrow> \<not> blocked D0 uid (alert_workspace (snd row)))"
proof (cases "open_alert D uid i True False")
  case (Some r)
  note o = opened_alert_access [OF Some]
  note b = opened_free [OF conjunct2 [OF o] t]
  have "alert_reach M D" using g by (simp add: good_def desk_ok_def)
  note n = alert_reach.acknowledge [OF this a]
  obtain row where "D' = D\<lparr>alerts := AList.update i row (alerts D)\<rparr>" "v = Some (i, row)"
    "alert_workspace row = alert_workspace r" "alert_monitor row = alert_monitor r"
    using a by (auto simp: update_alert_status_def Some put_alert_def Let_def split: if_splits)
  then show ?thesis using put_alert_good [OF g _ conjunct1 [OF o] b] n b t by (auto simp: same_access_def)
qed (use a g t in \<open>auto simp: update_alert_status_def split: if_splits\<close>)

lemma requeue_good:
  assumes g: "good M uid D0 D" and t: "same_access D0 D" and a: "requeue_alert now uid i D = (v, D')"
  shows "good M uid D0 D' \<and> same_access D0 D' \<and> (\<forall>row. v = Some row \<longrightarrow> \<not> blocked D0 uid (alert_workspace (snd row)))"
proof (cases "open_alert D uid i False True")
  case (Some r)
  note o = opened_alert_access [OF Some]
  note b = opened_free [OF conjunct2 [OF o] t]
  have "alert_reach M D" using g by (simp add: good_def desk_ok_def)
  then have n: "alert_reach M D'" using alert_reach.requeue [of M D now uid i] by (simp add: a)
  obtain row where "D' = D\<lparr>alerts := AList.update i row (alerts D)\<rparr>" "v = Some (i, row)"
    "alert_workspace row = alert_workspace r" "alert_monitor row = alert_monitor r"
    using a by (auto simp: requeue_alert_def Some put_alert_def Let_def split: if_splits)
  then show ?thesis using put_alert_good [OF g _ conjunct1 [OF o] b] n b t by (auto simp: same_access_def)
qed (use a g t in \<open>simp add: requeue_alert_def\<close>)

lemma put_all_monitors:
  "(a, r) \<in> set (put_all (outcome send M base) vs rows) \<Longrightarrow>
   (\<exists>v \<in> set vs \<union> set rows. alert_monitor (snd v) = alert_monitor r \<and> alert_workspace (snd v) = alert_workspace r)"
proof (induction vs arbitrary: rows)
  case Nil
  then show ?case by force
next
  case (Cons v vs)
  have o: "alert_monitor (outcome send M base v) = alert_monitor (snd v)"
    by (auto simp: outcome_def delivered_def failed_def Let_def split: option.splits prod.splits)
  have "\<exists>u \<in> set vs \<union> set (AList.update (fst v) (outcome send M base v) rows).
      alert_monitor (snd u) = alert_monitor r \<and> alert_workspace (snd u) = alert_workspace r"
    by (rule Cons.IH) (use Cons.prems in simp)
  then obtain u where u: "u \<in> set vs \<union> set (AList.update (fst v) (outcome send M base v) rows)"
    "alert_monitor (snd u) = alert_monitor r" "alert_workspace (snd u) = alert_workspace r" by blast
  then have "u \<in> set vs \<union> set rows \<or> u = (fst v, outcome send M base v)" using update_member by fastforce
  then show ?case using u(2,3) o outcome_workspace [of send M base v] by auto
qed

lemma put_all_rows:
  "(\<And>v. v \<in> set vs \<Longrightarrow> alert_workspace (snd v) \<noteq> wid \<and> map_of rows (fst v) = Some (snd v)) \<Longrightarrow> distinct (map fst vs) \<Longrightarrow>
   in_workspace (\<lambda>r. Some (alert_workspace r)) wid (put_all (outcome send M base) vs rows) =
   in_workspace (\<lambda>r. Some (alert_workspace r)) wid rows"
proof (induction vs arbitrary: rows)
  case (Cons v vs)
  let ?rows = "AList.update (fst v) (outcome send M base v) rows"
  have "in_workspace (\<lambda>r. Some (alert_workspace r)) wid (put_all (outcome send M base) vs ?rows) =
      in_workspace (\<lambda>r. Some (alert_workspace r)) wid ?rows"
  proof (rule Cons.IH)
    fix u assume u: "u \<in> set vs"
    then have "fst u \<in> set (map fst vs)" by simp
    moreover have "fst v \<notin> set (map fst vs)" using Cons.prems(2) by simp
    ultimately have "fst u \<noteq> fst v" by metis
    then show "alert_workspace (snd u) \<noteq> wid \<and> map_of ?rows (fst u) = Some (snd u)"
      using Cons.prems(1) [of u] u by (simp add: update_conv')
  qed (use Cons.prems(2) in simp)
  moreover have "in_workspace (\<lambda>r. Some (alert_workspace r)) wid ?rows = in_workspace (\<lambda>r. Some (alert_workspace r)) wid rows"
    using Cons.prems(1) [of v] by (intro in_workspace_update) (auto simp: outcome_workspace)
  ultimately show ?case by simp
qed simp

lemma process_good:
  assumes g: "good M uid D0 D" and w: "\<not> blocked D0 uid wid" and M: "hook_attempts hook = M"
  shows "good M uid D0 (snd (process_due_alerts b hook send h now wid limit D)) \<and>
    tenants (snd (process_due_alerts b hook send h now wid limit D)) = tenants D"
proof -
  let ?D' = "snd (process_due_alerts b hook send h now wid limit D)"
  have "alert_reach M D" using g by (simp add: good_def desk_ok_def)
  note r = alert_reach.deliver [OF this M, of b send h now wid limit]
  note k = good_alert_keys [OF g]
  obtain sent rest where s: "due_alerts D now wid limit = sent @ rest"
    "?D' = D\<lparr>alerts := put_all (outcome send (hook_attempts hook) (hook_retry_base hook)) sent (alerts D)\<rparr>"
    by (rule process_exact [OF k, of now wid limit b hook send h])
  have p: "v \<in> set (alerts D) \<and> alert_workspace (snd v) = wid" if "v \<in> set sent" for v
    using due_props [of v D now wid limit] that s(1) by simp
  have "good M uid D0 (D\<lparr>alerts := put_all (outcome send (hook_attempts hook) (hook_retry_base hook)) sent (alerts D)\<rparr>)"
  proof (rule alerts_good [OF g])
    show "alert_reach M (D\<lparr>alerts := put_all (outcome send (hook_attempts hook) (hook_retry_base hook)) sent (alerts D)\<rparr>)"
      using r s(2) by simp
    fix a q assume "(a, q) \<in> set (put_all (outcome send (hook_attempts hook) (hook_retry_base hook)) sent (alerts D))"
    from put_all_monitors [OF this] obtain v where "v \<in> set sent \<union> set (alerts D)" "alert_monitor (snd v) = alert_monitor q"
      "alert_workspace (snd v) = alert_workspace q" by blast
    then have "v \<in> set (alerts D)" "alert_monitor (snd v) = alert_monitor q" "alert_workspace (snd v) = alert_workspace q"
      using p by blast+
    then show "(\<exists>b p. (b, p) \<in> set (alerts D) \<and> alert_monitor p = alert_monitor q \<and> alert_workspace p = alert_workspace q) \<or>
        (\<forall>i. alert_monitor q = Some i \<longrightarrow> (\<exists>q'. map_of (monitors D) i = Some q' \<and> monitor_workspace q' = alert_workspace q))"
      by (intro disjI1 exI [of _ "fst v"] exI [of _ "snd v"]) simp
  next
    fix other assume "blocked D0 uid other"
    then have "wid \<noteq> other" using w by blast
    moreover have "map_of (alerts D) (fst v) = Some (snd v)" if "v \<in> set sent" for v
      using p [OF that] k by (cases v) simp
    moreover have "distinct (map fst (due_alerts D now wid limit))"
      using due_waiting [OF k] by (simp add: waiting_def)
    then have "distinct (map fst sent)" by (simp add: s(1))
    ultimately show "in_workspace (\<lambda>r. Some (alert_workspace r)) other
        (put_all (outcome send (hook_attempts hook) (hook_retry_base hook)) sent (alerts D)) =
      in_workspace (\<lambda>r. Some (alert_workspace r)) other (alerts D)"
      using p by (intro put_all_rows) auto
  qed
  then show ?thesis using s(2) by simp
qed

end
