(* ===== verification/HandlerEffects.thy ===== *)
theory HandlerEffects
  imports StoreEffects
begin

text \<open>
  The same for the handlers of the routes, step by step: rules for the states before the first
  change, while the access of the user is as at the start, and throughout, and then one lemma for
  every handler that changes state.
\<close>

text \<open>Accounts, organizations and workspaces.\<close>

lemma good_start: "desk_ok M D0 \<Longrightarrow> good M uid D0 D0"
  by (simp add: good_def users_kept_refl)

lemma tenants_good:
  assumes g: "good M uid D0 D" and "tenancy_reach T" and k: "users_kept (tenants D) T"
    and "\<And>wid row. map_of (workspaces (tenants D)) wid = Some row \<Longrightarrow> blocked D0 uid wid \<Longrightarrow> map_of (workspaces T) wid = Some row"
  shows "good M uid D0 (D\<lparr>tenants := T\<rparr>)"
proof -
  have "keys_ok (D\<lparr>tenants := T\<rparr>) = keys_ok D" "links_ok (D\<lparr>tenants := T\<rparr>) = links_ok D"
    by (simp_all add: keys_ok_def links_ok_def)
  then have "desk_ok M (D\<lparr>tenants := T\<rparr>)" using g assms(2) other_alerts [of M D "D\<lparr>tenants := T\<rparr>"]
    by (simp add: good_def desk_ok_def)
  moreover have "map_of (workspaces T) wid = map_of (workspaces (tenants D)) wid" if b: "blocked D0 uid wid" for wid
  proof -
    have "map_of (workspaces (tenants D)) wid = map_of (workspaces (tenants D0)) wid"
      using g b by (auto simp: good_def untouched_def workspace_rows_def)
    then obtain row where "map_of (workspaces (tenants D)) wid = Some row" using b by (auto simp: blocked_def)
    with assms(4) [OF this b] show ?thesis by simp
  qed
  then have "untouched uid D0 (D\<lparr>tenants := T\<rparr>)" using g
    by (simp add: good_def untouched_def workspace_rows_def others_saved_def)
  moreover have "users_kept (tenants D0) T" using g k users_kept_trans by (auto simp: good_def)
  ultimately show ?thesis by (simp add: good_def)
qed

lemma good_tenancy: "good M uid D0 D \<Longrightarrow> tenancy_reach (tenants D)"
  by (simp add: good_def desk_ok_def)

lemma good_users: "good M uid D0 D \<Longrightarrow> users_ok (tenants D)"
  by (rule reach_users [OF good_tenancy])

lemma other_workspaces:
  "workspaces (snd (bump_user_token_version uid T)) = workspaces T"
  "workspaces (snd (update_user_role uid role T)) = workspaces T"
  "workspaces (snd (create_organization oid now uid name T)) = workspaces T"
  "add_organization_member actor oid email role allow now T = Inr (v, T') \<Longrightarrow> workspaces T' = workspaces T"
  "add_organization_member_by_claim actor oid target role now T = Inr (v, T') \<Longrightarrow> workspaces T' = workspaces T"
  "remove_organization_member actor oid target T = Inr (b, T') \<Longrightarrow> workspaces T' = workspaces T"
  by (auto simp: bump_user_token_version_def update_user_role_def create_organization_def add_organization_member_def
      add_organization_member_by_claim_def remove_organization_member_def upsert_organization_member_def
      Let_def split: if_splits option.splits elim!: rbindE)

lemma of_tenants_simps: "snd (of_tenants f D) = D\<lparr>tenants := snd (f (tenants D))\<rparr>" "fst (of_tenants f D) = fst (f (tenants D))"
  by (simp_all add: of_tenants_def split: prod.split)

lemma bump_good: "good M uid D0 D \<Longrightarrow> good M uid D0 (snd (of_tenants (bump_user_token_version i) D))"
  using tenants_good [OF _ tenancy_reach.logout [OF good_tenancy] bump_kept [OF good_users]] by (simp add: of_tenants_simps other_workspaces)

lemma role_good: "good M uid D0 D \<Longrightarrow> good M uid D0 (snd (of_tenants (update_user_role i role) D))"
  using tenants_good [OF _ tenancy_reach.persona [OF good_tenancy] persona_kept [OF good_users]] by (simp add: of_tenants_simps other_workspaces)

lemma found_good: "good M uid D0 D \<Longrightarrow> unused i D \<Longrightarrow> good M uid D0 (snd (of_tenants (create_organization i now u name) D))"
  using tenants_good [OF _ tenancy_reach.found [OF good_tenancy] users_kept_refl [OF other_users(1)]] by (simp add: of_tenants_simps other_workspaces unused_def)

lemma member_add_good:
  "good M uid D0 D \<Longrightarrow> try_tenants (add_organization_member actor oid email role allow now) D = Inr (x, D') \<Longrightarrow> good M uid D0 D'"
  by (auto simp: try_tenants_Inr other_workspaces(4) intro!: tenants_good users_kept_refl intro: tenancy_reach.add good_tenancy other_users(2))

lemma member_delete_good:
  "good M uid D0 D \<Longrightarrow> try_tenants (remove_organization_member actor oid target) D = Inr (x, D') \<Longrightarrow> good M uid D0 D'"
  by (auto simp: try_tenants_Inr other_workspaces(6) intro!: tenants_good users_kept_refl intro: tenancy_reach.remove good_tenancy other_users(4))

lemma accept_claim_adds:
  assumes "accept_claim W m actor oid token role T = Inr (v, T')"
  obtains target where "add_organization_member_by_claim actor oid target role (reading m 1) T = Inr (v, T')"
  using assms by (auto simp: accept_claim_def split: sum.splits elim!: rbindE)

lemma claim_good:
  assumes g: "good M uid D0 D" and a: "try_tenants (accept_claim W m actor oid token role) D = Inr (x, D')"
  shows "good M uid D0 D'"
proof -
  obtain T where T: "accept_claim W m actor oid token role (tenants D) = Inr (x, T)" "D' = D\<lparr>tenants := T\<rparr>"
    using a by (auto simp: try_tenants_Inr)
  obtain target where t: "add_organization_member_by_claim actor oid target role (reading m 1) (tenants D) = Inr (x, T)"
    using T(1) by (rule accept_claim_adds)
  show ?thesis unfolding T(2)
    by (rule tenants_good [OF g tenancy_reach.claim [OF good_tenancy [OF g] t] users_kept_refl [OF other_users(3) [OF t]]]) (simp add: other_workspaces(5) [OF t])
qed

lemma create_workspace_good:
  assumes g: "good M uid D0 D" and f: "unused wid D"
    and a: "try_tenants (create_workspace wid now u name role oid) D = Inr (x, D')"
  shows "good M uid D0 D' \<and> view_id x = wid"
proof -
  obtain T where T: "create_workspace wid now u name role oid (tenants D) = Inr (x, T)" "D' = D\<lparr>tenants := T\<rparr>"
    using a by (auto simp: try_tenants_Inr)
  obtain row where row: "T = (tenants D)\<lparr>workspaces := workspaces (tenants D) @ [(wid, row)]\<rparr>" "view_id x = wid"
    using T(1) by (auto simp: create_workspace_def workspace_view_of_def Let_def split: if_splits)
  have "tenancy_reach T"
    by (rule tenancy_reach.workspace [OF good_tenancy [OF g] _ T(1)]) (use f in \<open>simp add: unused_def\<close>)
  then show ?thesis unfolding T(2)
    by (intro conjI row(2) tenants_good [OF g] users_kept_refl) (simp_all add: row(1) map_add_find_right)
qed

lemma update_workspace_good:
  assumes g: "good M uid D0 D" and t: "same_access D0 D"
    and a: "of_tenants (update_workspace uid wid name role) D = (x, D')"
  shows "good M uid D0 D' \<and> (x \<noteq> None \<longrightarrow> \<not> blocked D0 uid wid)"
proof -
  let ?T = "snd (update_workspace uid wid name role (tenants D))"
  have D': "D' = D\<lparr>tenants := ?T\<rparr>" "x = fst (update_workspace uid wid name role (tenants D))"
    using a by (auto simp: of_tenants_def split: prod.splits)
  have b: "\<not> blocked D0 uid wid" if "workspace_access (tenants D) uid wid False True \<noteq> None"
    using opened_free [of D uid wid False True D0] that t by (auto simp: may_open_def)
  have "map_of (workspaces ?T) i = Some row" if "map_of (workspaces (tenants D)) i = Some row" "blocked D0 uid i" for i row
    using that b by (cases "i = wid") (auto simp: update_workspace_def Let_def update_conv' split: option.splits)
  then have "good M uid D0 D'" unfolding D'
    by (intro tenants_good [OF g] tenancy_reach.rename good_tenancy [OF g] users_kept_refl other_users(6))
  moreover have "x \<noteq> None \<longrightarrow> \<not> blocked D0 uid wid" using b unfolding D'(2)
    by (auto simp: update_workspace_def split: option.splits)
  ultimately show ?thesis by blast
qed

section \<open>Steps of a handler\<close>

text \<open>
  The states of a handler of a signed-in user: \<open>start\<close> before its first change, \<open>quiet\<close> while the
  access of the user is as at the start, \<open>sound\<close> throughout.
\<close>

definition start :: "desk \<Rightarrow> 's api \<Rightarrow> bool" where
  "start D0 A = (desk_of A = D0)"

definition quiet :: "int \<Rightarrow> string \<Rightarrow> desk \<Rightarrow> 's api \<Rightarrow> bool" where
  "quiet M uid D0 A = (good M uid D0 (desk_of A) \<and> same_access D0 (desk_of A))"

definition sound :: "int \<Rightarrow> string \<Rightarrow> desk \<Rightarrow> 's api \<Rightarrow> bool" where
  "sound M uid D0 A = good M uid D0 (desk_of A)"

definition handled :: "int \<Rightarrow> string \<Rightarrow> desk \<Rightarrow> ('s, 'a) handler \<Rightarrow> bool" where
  "handled M uid D0 h = triple (sound M uid D0) (start D0) h (\<lambda>_. sound M uid D0)"

named_theorems steps "the steps of a handler"

lemma start_sound: "desk_ok M D0 \<Longrightarrow> start D0 A \<Longrightarrow> sound M uid D0 A"
  by (simp add: start_def sound_def good_start)

lemma ask_start [steps]:
  assumes "desk_ok M D0" and "\<And>A x. desk_of A = D0 \<Longrightarrow> f A = Inr x \<Longrightarrow> triple (sound M uid D0) (start D0) (g x) Q"
  shows "triple (sound M uid D0) (start D0) (hbind (hasking f) g) Q"
proof (rule tripleI, goal_cases)
  case (1 A)
  note s = 1
  show ?case
  proof (cases "f A")
    case (Inr x)
    then show ?thesis using triple_at [OF assms(2) [OF _ Inr] s] s by (simp add: run_steps start_def)
  qed (use start_sound [OF assms(1) s] in \<open>simp add: run_steps\<close>)
qed

lemma check_start [steps]:
  assumes "desk_ok M D0" and "ok \<Longrightarrow> triple (sound M uid D0) (start D0) (g True) Q"
  shows "triple (sound M uid D0) (start D0) (hbind (hcheck e ok) g) Q"
  unfolding hcheck_def by (rule ask_start [OF assms(1)]) (use assms(2) in \<open>auto split: if_splits\<close>)

lemma desk_start [steps]:
  assumes "good M uid D0 (snd (f D0))" and "same_access D0 (snd (f D0))"
    and "triple (sound M uid D0) (quiet M uid D0) (g (fst (f D0))) Q"
  shows "triple (sound M uid D0) (start D0) (hbind (on_desk f) g) Q"
proof (rule tripleI, goal_cases)
  case (1 A)
  note s = 1
  have "quiet M uid D0 (A\<lparr>desk_of := snd (f D0)\<rparr>)" using assms(1,2) by (simp add: quiet_def)
  from triple_at [OF assms(3) this] s
  show ?case
    unfolding run_steps start_def by simp
qed

lemma tenants_start [steps]:
  assumes "good M uid D0 (snd (of_tenants f D0))"
    and "triple (sound M uid D0) (sound M uid D0) (g (fst (of_tenants f D0))) Q"
  shows "triple (sound M uid D0) (start D0) (hbind (on_desk (of_tenants f)) g) Q"
proof (rule tripleI, goal_cases)
  case (1 A)
  note s = 1
  have "sound M uid D0 (A\<lparr>desk_of := snd (of_tenants f D0)\<rparr>)" using assms(1) by (simp add: sound_def)
  from triple_at [OF assms(2) this] s
  show ?case
    unfolding run_steps start_def by simp
qed

lemma try_start [steps]:
  assumes "desk_ok M D0" and "\<And>x D'. f D0 = Inr (x, D') \<Longrightarrow> good M uid D0 D' \<and> same_access D0 D'"
    and "\<And>x D'. f D0 = Inr (x, D') \<Longrightarrow> triple (sound M uid D0) (quiet M uid D0) (g x) Q"
  shows "triple (sound M uid D0) (start D0) (hbind (try_desk err f) g) Q"
proof (rule tripleI, goal_cases)
  case (1 A)
  note s = 1
  show ?case
  proof (cases "f D0")
    case (Inr p)
    obtain x D' where p: "p = (x, D')" by fastforce
    then have "quiet M uid D0 (A\<lparr>desk_of := D'\<rparr>)" using assms(2) Inr by (simp add: quiet_def)
    from triple_at [OF assms(3) this] Inr s show ?thesis by (simp add: run_steps start_def p)
  qed (use start_sound [OF assms(1) s] s in \<open>simp add: run_steps start_def\<close>)
qed

lemma try_tenants_start [steps]:
  assumes "desk_ok M D0" and "\<And>x D'. try_tenants f D0 = Inr (x, D') \<Longrightarrow> good M uid D0 D'"
    and "\<And>x D'. try_tenants f D0 = Inr (x, D') \<Longrightarrow> triple (sound M uid D0) (sound M uid D0) (g x) Q"
  shows "triple (sound M uid D0) (start D0) (hbind (try_desk err (try_tenants f)) g) Q"
proof (rule tripleI, goal_cases)
  case (1 A)
  note s = 1
  show ?case
  proof (cases "try_tenants f D0")
    case (Inr p)
    obtain x D' where p: "p = (x, D')" by fastforce
    then have "sound M uid D0 (A\<lparr>desk_of := D'\<rparr>)" using assms(2) Inr by (simp add: sound_def)
    from triple_at [OF assms(3) this] Inr s show ?thesis by (simp add: run_steps start_def p)
  qed (use start_sound [OF assms(1) s] s in \<open>simp add: run_steps start_def\<close>)
qed

lemma must_quiet [steps]:
  assumes "\<And>y. x = Some y \<Longrightarrow> triple (sound M uid D0) (quiet M uid D0) (g y) Q"
  shows "triple (sound M uid D0) (quiet M uid D0) (hbind (hmust e x) g) Q"
  using assms by (cases x) (auto simp: triple_def hbind_def hmust_def hasking_def must_def quiet_def sound_def)

lemma must_sound [steps]:
  assumes "\<And>y. x = Some y \<Longrightarrow> triple (sound M uid D0) (sound M uid D0) (g y) Q"
  shows "triple (sound M uid D0) (sound M uid D0) (hbind (hmust e x) g) Q"
  using assms by (cases x) (auto simp: triple_def hbind_def hmust_def hasking_def must_def sound_def)

lemma check_quiet [steps]:
  assumes "triple (sound M uid D0) (quiet M uid D0) (g True) Q"
  shows "triple (sound M uid D0) (quiet M uid D0) (hbind (hcheck e ok) g) Q"
  using assms by (auto simp: triple_def hbind_def hcheck_def hasking_def quiet_def sound_def)

lemma check_sound [steps]:
  assumes "triple (sound M uid D0) (sound M uid D0) (g True) Q"
  shows "triple (sound M uid D0) (sound M uid D0) (hbind (hcheck e ok) g) Q"
  using assms by (auto simp: triple_def hbind_def hcheck_def hasking_def sound_def)

lemma desk_quiet [steps]:
  assumes "\<And>D. good M uid D0 D \<Longrightarrow> same_access D0 D \<Longrightarrow> good M uid D0 (snd (f D)) \<and> same_access D0 (snd (f D))"
    and "\<And>x. triple (sound M uid D0) (quiet M uid D0) (g x) Q"
  shows "triple (sound M uid D0) (quiet M uid D0) (hbind (on_desk f) g) Q"
proof (rule tripleI, goal_cases)
  case (1 A)
  then have "quiet M uid D0 (A\<lparr>desk_of := snd (f (desk_of A))\<rparr>)" using assms(1) by (simp add: quiet_def)
  from triple_at [OF assms(2) this]
  show ?case
    unfolding run_steps .
qed

lemma logged_by_run: "logged_by m k s action kind i wid detail A =
    (Inr True, A\<lparr>desk_of := audit (drawn m k) (reading m k) (context_of m) action kind (Some i)
      (Some (user_email (user_of s))) (Some (user_id s)) wid detail (desk_of A)\<rparr>)"
  by (simp add: logged_by_def logged_def on_desk_def)

lemma logged_by_good:
  assumes "\<And>w. wid = Some w \<Longrightarrow> \<not> blocked D0 uid w"
  shows "triple (sound M uid D0) (quiet M uid D0) (logged_by m k s action kind i wid detail) (\<lambda>_. quiet M uid D0)"
    and "triple (sound M uid D0) (sound M uid D0) (logged_by m k s action kind i wid detail) (\<lambda>_. sound M uid D0)"
  using audit_good [where wid = wid, OF _ assms]
  by (auto simp: triple_def quiet_def sound_def logged_by_run same_access_def, simp add: audit_def)

lemma log_quiet [steps]:
  assumes "\<And>w. wid = Some w \<Longrightarrow> \<not> blocked D0 uid w" and "\<And>x. triple (sound M uid D0) (quiet M uid D0) (g x) Q"
  shows "triple (sound M uid D0) (quiet M uid D0) (hbind (logged_by m k s action kind i wid detail) g) Q"
  by (rule triple_bind [OF logged_by_good(1) [OF assms(1)] assms(2)])

lemma log_sound [steps]:
  assumes "\<And>w. wid = Some w \<Longrightarrow> \<not> blocked D0 uid w" and "\<And>x. triple (sound M uid D0) (sound M uid D0) (g x) Q"
  shows "triple (sound M uid D0) (sound M uid D0) (hbind (logged_by m k s action kind i wid detail) g) Q"
  by (rule triple_bind [OF logged_by_good(2) [OF assms(1)] assms(2)])

lemma log_start [steps]:
  assumes "desk_ok M D0" and "\<And>w. wid = Some w \<Longrightarrow> \<not> blocked D0 uid w"
    and "\<And>x. triple (sound M uid D0) (quiet M uid D0) (g x) Q"
  shows "triple (sound M uid D0) (start D0) (hbind (logged_by m k s action kind i wid detail) g) Q"
proof -
  note t = log_quiet [OF assms(2,3)]
  show ?thesis
    by (rule triple_pre, rule t) (simp_all add: start_def quiet_def good_start [OF assms(1)] same_access_def)
qed

text \<open>The ends.\<close>

lemma ends [steps]:
  "triple (sound M uid D0) (quiet M uid D0) (hreturn x) (\<lambda>_. sound M uid D0)"
  "triple (sound M uid D0) (sound M uid D0) (hreturn x) (\<lambda>_. sound M uid D0)"
  "triple (sound M uid D0) (quiet M uid D0) (hasking f) (\<lambda>_. sound M uid D0)"
  "triple (sound M uid D0) (sound M uid D0) (hasking f) (\<lambda>_. sound M uid D0)"
  "triple (sound M uid D0) (quiet M uid D0) (hmust e v) (\<lambda>_. sound M uid D0)"
  "triple (sound M uid D0) (quiet M uid D0) (hcheck e b) (\<lambda>_. sound M uid D0)"
  by (auto simp: triple_def hreturn_def hasking_def hmust_def hcheck_def quiet_def sound_def split: sum.splits)

lemma log_ends [steps]:
  assumes "\<And>w. wid = Some w \<Longrightarrow> \<not> blocked D0 uid w"
  shows "triple (sound M uid D0) (quiet M uid D0) (logged_by m k s action kind i wid detail) (\<lambda>_. sound M uid D0)"
    and "triple (sound M uid D0) (sound M uid D0) (logged_by m k s action kind i wid detail) (\<lambda>_. sound M uid D0)"
  by (rule triple_post [OF logged_by_good(1) [OF assms]], assumption, simp add: quiet_def sound_def)
    (rule logged_by_good(2) [OF assms], assumption)

text \<open>The workspace of a request, given or by default.\<close>

lemma listed_free:
  assumes "tenancy_reach (tenants D0)" and "v \<in> set (list_workspaces (tenants D0) uid)"
  shows "\<not> blocked D0 uid (view_id v)"
proof -
  obtain row where r: "(view_id v, row) \<in> set (workspaces (tenants D0))"
    "owner_user row = uid \<and> workspace_org row = None \<or> listing_role (tenants D0) uid row \<noteq> None"
    using assms(2) by (auto simp: in_list_workspaces workspace_view_of_def)
  have m: "map_of (workspaces (tenants D0)) (view_id v) = Some row"
    using r(1) reach_workspaces [OF assms(1)] by simp
  have "may_open D0 uid (view_id v) False False"
  proof (cases "workspace_org row")
    case None
    then show ?thesis using r(2) m
      by (auto simp: may_open_def workspace_access_def in_organization_def role_allows_def listing_role_def)
  next
    case (Some oid)
    then obtain role where "map_of (memberships_of (tenants D0) uid) oid = Some role"
      using r(2) by (auto simp: listing_role_def)
    then have "(oid, role) \<in> set (memberships_of (tenants D0) uid)" by (rule map_of_SomeD)
    then obtain mem where mem: "((oid, uid), mem) \<in> set (memberships (tenants D0))" "role = member_role mem"
      by (auto simp: memberships_of_def)
    have ok: "memberships_ok (tenants D0)" by (rule reach_ok [OF assms(1)])
    then have k: "map_of (memberships (tenants D0)) (oid, uid) = Some mem"
      using mem(1) by (simp add: memberships_ok_def)
    then have "oid \<noteq> []" "member_role mem \<noteq> []" using ok unfolding memberships_ok_def ORG_ROLES_def by force+
    then show ?thesis using m k Some
      by (simp add: may_open_def workspace_access_def in_organization_def role_allows_def org_role_def)
  qed
  then show ?thesis by (simp add: blocked_def)
qed

lemma for_start [steps]:
  assumes "desk_ok M D0"
    and "\<And>v. \<not> blocked D0 uid (view_id v) \<Longrightarrow> triple (sound M uid D0) (start D0) (g v) Q" and "user_id s = uid"
  shows "triple (sound M uid D0) (start D0) (hbind (workspace_for s wid w x) g) Q"
  unfolding workspace_for_def
proof (rule ask_start [OF assms(1)])
  fix A :: "'a api" and v
  assume A: "desk_of A = D0" and v: "must (Http 403 ''No accessible workspace with the required permission'')
     (if given wid then workspace_access (tenants (desk_of A)) (user_id s) (the wid) w x
      else default_workspace (tenants (desk_of A)) (user_id s) w) = Inr v"
  have "\<not> blocked D0 uid (view_id v)"
  proof (cases "given wid")
    case True
    then have a: "workspace_access (tenants D0) uid (the wid) w x = Some v" using v A assms(3)
      by (auto simp: must_def split: option.splits)
    then have "view_id v = the wid"
      by (auto simp: workspace_access_def workspace_view_of_def Let_def split: option.splits if_splits)
    then show ?thesis using opened_free [of D0 uid "the wid" w x D0] a by (auto simp: may_open_def same_access_def)
  next
    case False
    then have "default_workspace (tenants D0) uid w = Some v" using v A assms(3)
      by (auto simp: must_def split: option.splits)
    then have "v \<in> set (list_workspaces (tenants D0) uid)" unfolding default_workspace_def using found_in by metis
    then show ?thesis using assms(1) by (intro listed_free) (simp_all add: desk_ok_def)
  qed
  then show "triple (sound M uid D0) (start D0) (g v) Q" by (rule assms(2))
qed

section \<open>The handlers of signed-in users\<close>

lemma fresh_draws:
  assumes "new_draws W m D0"
  shows "unused (drawn m k) D0" "map_of (stored_decisions D0) (drawn m k) = None" "map_of (saved_analyses D0) (drawn m k) = None"
    "map_of (portfolios D0) (drawn m k) = None" "map_of (monitors D0) (drawn m k) = None"
    "map_of (alerts D0) (drawn m k) = None" "map_of (reports D0) (drawn m k) = None"
    "run_engine (value_repr W) (engine_ids m) (drawn m 3) (live_engines W) e d demo = Inr r \<Longrightarrow>
       map_of (analyses D0) (analysis_id r) = None"
  using assms by (auto simp: new_draws_def unused_def)

lemma same_tenants: "same_access D0 D0" "same_access D0 (snd (create_portfolio i uid w name payload D0))"
  "same_access D0 (snd (create_saved_analysis i now uid w aid title D0))"
  "same_access D0 (snd (set_saved_analysis_archived uid i archived D0))"
  "same_access D0 (snd (delete_saved_analysis uid i D0))"
  "same_access D0 (save_engine_result now r user0 w0 D0)"
  "same_access D0 (save_decision now did d user0 w0 D0)"
  by (auto simp: same_access_def create_portfolio_def create_saved_analysis_def set_saved_analysis_archived_def
      delete_saved_analysis_def save_engine_result_def save_decision_def own_saved_def Let_def split: option.splits if_splits)

lemma portfolio_create_handled:
  assumes d: "desk_ok M D0" and n: "new_draws W m D0"
  shows "handled M (user_id s) D0 (portfolio_create m s req)"
  unfolding handled_def portfolio_create_def
  by (intro steps d create_portfolio_good good_start same_tenants fresh_draws [OF n]) auto

lemma case_step [steps]: "(\<And>a b. x = (a, b) \<Longrightarrow> triple E P (f a b) Q) \<Longrightarrow> triple E P (case x of (a, b) \<Rightarrow> f a b) Q"
  by (cases x) simp

lemma desk_sound [steps]:
  assumes "\<And>D. good M uid D0 D \<Longrightarrow> good M uid D0 (snd (f D))"
    and "\<And>x. triple (sound M uid D0) (sound M uid D0) (g x) Q"
  shows "triple (sound M uid D0) (sound M uid D0) (hbind (on_desk f) g) Q"
proof (rule tripleI, goal_cases)
  case (1 A)
  then have "sound M uid D0 (A\<lparr>desk_of := snd (f (desk_of A))\<rparr>)" using assms(1) by (simp add: sound_def)
  from triple_at [OF assms(2) this] show ?case unfolding run_steps .
qed

lemma readable_free:
  assumes "must e (readable_workspace D0 uid aid) = Inr w" shows "\<not> blocked D0 uid w"
  using assms opened_free [of D0 uid w False False D0]
  by (auto simp: must_def readable_workspace_def same_access_def split: option.splits if_splits)

lemma saved_create_handled:
  assumes d: "desk_ok M D0" and n: "new_draws W m D0"
  shows "handled M (user_id s) D0 (saved_create m s aid title)"
  unfolding handled_def saved_create_def
  by (intro steps d create_saved_good good_start same_tenants fresh_draws [OF n]) (auto dest: readable_free)

lemma saved_archive_handled:
  assumes d: "desk_ok M D0"
  shows "handled M (user_id s) D0 (saved_archive s i archived)"
  unfolding handled_def saved_archive_def
  by (intro steps d archive_saved_good good_start same_tenants)

lemma saved_delete_handled:
  assumes d: "desk_ok M D0"
  shows "handled M (user_id s) D0 (saved_delete s i)"
  unfolding handled_def saved_delete_def
  by (intro steps d delete_saved_good good_start same_tenants)

lemma monitor_create_handled:
  assumes d: "desk_ok M D0" and n: "new_draws W m D0"
  shows "handled M (user_id s) D0 (monitor_create m s req)"
  unfolding handled_def monitor_create_def
  by (intro steps d create_monitor_good good_start fresh_draws [OF n])
    (auto simp: same_access_def create_monitor_def Let_def)

lemma monitor_patch_handled:
  assumes d: "desk_ok M D0"
  shows "handled M (user_id s) D0 (monitor_patch_route m s i req)"
proof -
  note a = update_monitor_good [OF good_start [OF d] same_tenants(1) prod.collapse [symmetric]]
  show ?thesis unfolding handled_def monitor_patch_route_def by (intro steps d) (use a in \<open>auto\<close>)
qed

lemma read_monitor_free:
  assumes "must e (get_monitor D0 uid i w) = Inr v" shows "\<not> blocked D0 uid (monitor_workspace (snd v))"
  using assms opened_monitor [of D0 uid i w v] opened_free [of D0 uid _ w False D0]
  by (auto simp: must_def same_access_def split: option.splits)

lemma monitor_delete_handled:
  assumes d: "desk_ok M D0"
  shows "handled M (user_id s) D0 (monitor_delete m s i)"
proof -
  note a = delete_monitor_good [OF good_start [OF d] same_tenants(1) prod.collapse [symmetric]]
  show ?thesis unfolding handled_def monitor_delete_def
    by (intro steps d) (use a in \<open>auto dest: read_monitor_free\<close>)
qed

lemma review_create_handled:
  assumes d: "desk_ok M D0" and n: "new_draws W m D0"
  shows "handled M (user_id s) D0 (review_create m s compare req)"
  unfolding handled_def review_create_def
  by (intro steps d create_reports_good good_start fresh_draws [OF n])
    (auto simp: same_access_def create_protocol_review_def Let_def)

lemma investigation_create_handled:
  assumes d: "desk_ok M D0" and n: "new_draws W m D0"
  shows "handled M (user_id s) D0 (investigation_create m s timeline req)"
  unfolding handled_def investigation_create_def
  by (intro steps d create_reports_good good_start fresh_draws [OF n])
    (auto simp: same_access_def create_protocol_investigation_def Let_def)

lemma operational_read_handled:
  assumes d: "desk_ok M D0"
  shows "handled M (user_id s) D0 (protocol_operational_read m s f action req)"
  unfolding handled_def protocol_operational_read_def by (intro steps d) auto

lemma review_approve_handled:
  assumes d: "desk_ok M D0"
  shows "handled M (user_id s) D0 (review_approve m s i)"
proof -
  note a = approve_good [OF good_start [OF d] same_tenants(1) prod.collapse [symmetric]]
  show ?thesis unfolding handled_def review_approve_def by (intro steps d) (use a in \<open>auto\<close>)
qed

lemma investigation_update_handled:
  assumes d: "desk_ok M D0"
  shows "handled M (user_id s) D0 (investigation_update m s i state disposition notes)"
  unfolding handled_def investigation_update_def
  by (intro steps d) (use update_case_good [OF good_start [OF d] same_tenants(1)] in \<open>blast+\<close>)

lemma investigation_attach_handled:
  assumes d: "desk_ok M D0"
  shows "handled M (user_id s) D0 (investigation_attach_review m s i review)"
  unfolding handled_def investigation_attach_review_def
  by (intro steps d) (use attach_review_good [OF good_start [OF d] same_tenants(1)] in \<open>blast+\<close>)

lemma alert_patch_handled:
  assumes d: "desk_ok M D0"
  shows "handled M (user_id s) D0 (alert_patch m s i state)"
  unfolding handled_def alert_patch_def
  by (intro steps d) (use alert_status_good [OF good_start [OF d] same_tenants(1)] in \<open>blast+\<close>)

lemma alert_requeue_handled:
  assumes d: "desk_ok M D0"
  shows "handled M (user_id s) D0 (alert_requeue m s i)"
proof -
  note a = requeue_good [OF good_start [OF d] same_tenants(1) prod.collapse [symmetric]]
  show ?thesis unfolding handled_def alert_requeue_def by (intro steps d) (use a in \<open>auto\<close>)
qed

lemma report_handled:
  assumes d: "desk_ok M D0" and n: "new_draws W m D0"
  shows "handled M (user_id s) D0 (report m s did fmt)"
proof -
  have w: "\<not> blocked D0 (user_id s) w"
    if "must e (case decision_record D0 did of None \<Rightarrow> None
       | Some r \<Rightarrow> if given (decision_workspace r) \<and> may_open D0 (user_id s) (the (decision_workspace r)) False False
           then decision_workspace r else None) = Inr w" for e w
    using that opened_free [of D0 "user_id s" w False False D0]
    by (auto simp: must_def same_access_def split: option.splits if_splits)
  show ?thesis unfolding handled_def report_def decision_for_user_def
    by (intro steps d create_reports_good good_start fresh_draws [OF n])
      (simp_all add: same_access_def create_report_def Let_def w cong: option.case_cong if_cong conj_cong)
qed

lemma run_analysis_handled:
  assumes d: "desk_ok M D0" and n: "new_draws W m D0"
  shows "handled M (user_id s) D0 (run_analysis W m e req s wid)"
proof -
  have g: "good M (user_id s) D0 (save_engine_result (reading m 2) r (Some (user_id s)) (Some w) D0)"
    if "crashing (run_engine (value_repr W) (engine_ids m) (drawn m 3) (live_engines W) e
         (request_input req) (request_demo req)) = Inr r" "\<not> blocked D0 (user_id s) w" for r w
    using that by (intro save_engine_result_good good_start d) (auto simp: crashing_Inr fresh_draws(8) [OF n])
  show ?thesis unfolding handled_def run_analysis_def
    by (intro steps d) (simp_all add: same_tenants g)
qed

lemma decision_analyze_handled:
  assumes d: "desk_ok M D0" and n: "new_draws W m D0"
  shows "handled M (user_id s) D0 (decision_analyze m s req)"
proof -
  have w: "\<not> blocked D0 (user_id s) w" if "decision_workspace_of (user_id s) req D0 = Inr w" for w
    using that opened_free [of D0 "user_id s" w True False D0]
    by (auto simp: decision_workspace_of_def same_access_def split: option.splits list.splits if_splits)
  have g: "good M (user_id s) D0 (save_decision (reading m j) (drawn m k) r (Some (user_id s)) (Some w) D0)"
    if "decision_workspace_of (user_id s) req D0 = Inr w" for r w j k
    by (intro save_decision_good good_start d fresh_draws [OF n] w [OF that])
  show ?thesis unfolding handled_def decision_analyze_def
    by (intro steps d) (simp_all add: same_tenants w g)
qed

section \<open>Accounts, organizations and workspaces of signed-in users\<close>

lemma claim_handled:
  assumes d: "desk_ok M D0"
  shows "handled M (user_id s) D0 (organization_membership_claim W m s oid)"
  unfolding handled_def organization_membership_claim_def Let_def by (intro steps d) auto

lemma organization_create_handled:
  assumes d: "desk_ok M D0" and n: "new_draws W m D0"
  shows "handled M (user_id s) D0 (organization_create m s name)"
  unfolding handled_def organization_create_def
  by (intro tenants_start found_good good_start d fresh_draws [OF n] steps) auto

lemma member_add_handled:
  assumes d: "desk_ok M D0"
  shows "handled M (user_id s) D0 (organization_member_add W m s oid email role)"
  unfolding handled_def organization_member_add_def
  by (intro check_start try_tenants_start d steps) (auto intro: member_add_good good_start d)

lemma claim_accept_handled:
  assumes d: "desk_ok M D0"
  shows "handled M (user_id s) D0 (organization_member_claim_accept W m s oid token role)"
  unfolding handled_def organization_member_claim_accept_def
  by (intro check_start try_tenants_start d steps) (auto intro: claim_good good_start d)

lemma member_delete_handled:
  assumes d: "desk_ok M D0"
  shows "handled M (user_id s) D0 (organization_member_delete m s oid uid)"
  unfolding handled_def organization_member_delete_def
  by (intro try_tenants_start d steps) (auto intro: member_delete_good good_start d)

lemma unused_free: "unused i D0 \<Longrightarrow> \<not> blocked D0 uid i"
  by (simp add: unused_def blocked_def)

lemma workspace_create_handled:
  assumes d: "desk_ok M D0" and n: "new_draws W m D0"
  shows "handled M (user_id s) D0 (workspace_create m s name role oid)"
  unfolding handled_def workspace_create_def
  by (intro check_start try_tenants_start d steps)
    (use create_workspace_good [OF good_start [OF d] fresh_draws(1) [OF n]] unused_free [OF fresh_draws(1) [OF n]] in \<open>auto\<close>)

lemma workspace_patch_handled:
  assumes d: "desk_ok M D0"
  shows "handled M (user_id s) D0 (workspace_patch m s wid name role)"
proof -
  note a = update_workspace_good [where uid = "user_id s" and wid = wid and name = name and role = role,
    OF good_start [OF d] same_tenants(1) prod.collapse [symmetric]]
  show ?thesis unfolding handled_def workspace_patch_def
    by (intro check_start tenants_start d steps) (use a in \<open>auto\<close>)
qed

lemma logout_handled:
  assumes d: "desk_ok M D0"
  shows "handled M (user_id s) D0 (logout m s)"
  unfolding handled_def logout_def
proof (intro log_start d)
  fix x
  show "triple (sound M (user_id s) D0) (quiet M (user_id s) D0)
      (hbind (on_desk (of_tenants (bump_user_token_version (user_id s)))) (\<lambda>_. hreturn (via_cookie s)))
      (\<lambda>_. sound M (user_id s) D0)"
    by (rule triple_pre [where P = "sound M (user_id s) D0"])
      (intro desk_sound bump_good steps, auto simp: quiet_def sound_def)
qed auto

lemma me_role_handled:
  assumes d: "desk_ok M D0"
  shows "handled M (user_id s) D0 (me_role m s role)"
  unfolding handled_def me_role_def
  by (intro check_start tenants_start d role_good good_start steps) auto

section \<open>Deliveries and checks\<close>

lemma delivery_start:
  assumes d: "desk_ok M D0" and w: "\<not> blocked D0 uid wid" and M: "attempts_of W = M"
    and q: "\<And>x. triple (sound M uid D0) (quiet M uid D0) (g x) Q"
  shows "triple (sound M uid D0) (start D0) (hbind (run_delivery W m wid limit) g) Q"
proof (rule triple_bind [OF _ q], rule tripleI, goal_cases)
  case (1 A)
  then have A: "desk_of A = D0" by (simp add: start_def)
  show ?case
  proof (cases "webhook_settings_of (env W)")
    case (Inl e)
    then show ?thesis using A good_start [OF d] by (simp add: run_delivery_def sound_def)
  next
    case (Inr hook)
    obtain r D where p: "process_due_alerts (brackets_ok W) hook (alert_sender W) True (reading m 1) wid limit D0 = (r, D)"
      by fastforce
    have "hook_attempts hook = M" using M Inr by (simp add: attempts_of_def)
    from process_good [OF good_start [OF d] w this, of "brackets_ok W" "alert_sender W" True "reading m 1" limit] p
    have "good M uid D0 D \<and> same_access D0 D" by (simp add: same_access_def)
    then show ?thesis using A Inr p by (cases r) (simp_all add: run_delivery_def sound_def quiet_def crashing_def)
  qed
qed

lemma process_due_handled:
  assumes d: "desk_ok M D0" and M: "attempts_of W = M"
  shows "handled M (user_id s) D0 (alerts_process_due W m s wid limit)"
proof -
  have w: "\<not> blocked D0 (user_id s) wid" if "may_open D0 (user_id s) wid False True"
    using that opened_free [of D0 "user_id s" wid False True D0] by (simp add: same_access_def)
  show ?thesis unfolding handled_def alerts_process_due_def
    by (intro ask_start delivery_start steps d M) (simp_all add: w split: if_splits)
qed

text \<open>
  A check of a monitor runs the engine, stores the result, and may raise an alert that names the
  monitor; between these steps the alerts are those of the start, and the monitor stays in its
  workspace.
\<close>

definition under_check :: "int \<Rightarrow> string \<Rightarrow> desk \<Rightarrow> string \<Rightarrow> string \<Rightarrow> 's api \<Rightarrow> bool" where
  "under_check M uid D0 i wid A = (quiet M uid D0 A \<and> alerts (desk_of A) = alerts D0 \<and>
     (\<exists>q. map_of (monitors (desk_of A)) i = Some q \<and> monitor_workspace q = wid))"

lemma run_analysis_keeps:
  assumes "run_analysis W m e req s wid A = (Inr r, A')"
  shows "tenants (desk_of A') = tenants (desk_of A)" "alerts (desk_of A') = alerts (desk_of A)"
    "monitors (desk_of A') = monitors (desk_of A)"
  using assms
  by (auto simp: run_analysis_def workspace_for_def run_steps hbind_def [of "logged_by _ _ _ _ _ _ _ _"] logged_by_run
      hreturn_def save_engine_result_def audit_def split: sum.splits)

lemma run_analysis_checks:
  assumes d: "desk_ok M D0" and n: "new_draws W m D0" and q: "map_of (monitors D0) i = Some q" "monitor_workspace q = wid"
  shows "triple (sound M (user_id s) D0) (start D0) (run_analysis W m e req s w) (\<lambda>_. under_check M (user_id s) D0 i wid)"
proof (rule tripleI, goal_cases)
  case (1 A)
  obtain x A' where r: "run_analysis W m e req s w A = (x, A')" by fastforce
  have "sound M (user_id s) D0 A'"
    using triple_at [OF run_analysis_handled [OF d n, of s e req w, unfolded handled_def] 1] by (simp add: r split: sum.splits)
  then show ?case using 1 q run_analysis_keeps [of W m e req s w A _ A']
    by (auto simp: r under_check_def quiet_def sound_def start_def same_access_def split: sum.splits)
qed

lemma update_monitor_keeps:
  assumes "map_of (monitors D) i = Some q"
  shows "\<exists>q'. map_of (monitors (snd (update_monitor now uid i p D))) i = Some q' \<and> monitor_workspace q' = monitor_workspace q"
  using assms by (auto simp: update_monitor_def update_conv' Let_def split: option.splits dest!: opened_monitor)

lemma update_checks:
  assumes q: "\<And>x. triple (sound M uid D0) (under_check M uid D0 i wid) (g x) Q"
  shows "triple (sound M uid D0) (under_check M uid D0 i wid) (hbind (on_desk (update_monitor now uid i p)) g) Q"
proof (rule tripleI, goal_cases)
  case (1 A)
  let ?u = "update_monitor now uid i p (desk_of A)"
  have "good M uid D0 (desk_of A)" "same_access D0 (desk_of A)" using 1 by (auto simp: under_check_def quiet_def)
  from update_monitor_good [OF this prod.collapse [symmetric], of now i p]
  have "under_check M uid D0 i wid (A\<lparr>desk_of := snd ?u\<rparr>)"
    using 1 update_monitor_keeps [of "desk_of A" i _ now uid p] by (auto simp: under_check_def quiet_def)
  from triple_at [OF q this] show ?case unfolding run_steps .
qed

lemma alarm_checks:
  assumes n: "new_draws W m D0" and w: "\<not> blocked D0 uid wid"
    and q: "\<And>x. triple (sound M uid D0) (quiet M uid D0) (g x) Q"
  shows "triple (sound M uid D0) (under_check M uid D0 i wid) (hbind (alarm m wid i r) g) Q"
proof (rule triple_bind [OF _ q], rule tripleI, goal_cases)
  case (1 A)
  then have A: "good M uid D0 (desk_of A)" "same_access D0 (desk_of A)" "map_of (alerts (desk_of A)) (drawn m 5) = None"
    using fresh_draws(6) [OF n] by (auto simp: under_check_def quiet_def)
  have "good M uid D0 D' \<and> tenants D' = tenants (desk_of A)"
    if "create_alert (drawn m 5) (reading m 5) wid (Some i) (Some (analysis_id r)) (severity_value (result_severity r))
      payload None None (desk_of A) (desk_of A) = Some (v, D')" for payload v D'
    by (rule create_alert_good [OF A(1,3) w _ that]) (use 1 in \<open>auto simp: under_check_def\<close>)
  then show ?case using A by (auto simp: alarm_def sound_def quiet_def same_access_def split: option.splits)
qed

lemma monitor_check_handled:
  assumes d: "desk_ok M D0" and n: "new_draws W m D0"
  shows "handled M (user_id s) D0 (monitor_check W m s i)"
  unfolding handled_def monitor_check_def
proof (intro ask_start d case_step)
  fix A :: "'a api" and x j q
  assume A: "desk_of A = D0" and x: "must (Http 404 ''Monitor not found'') (get_monitor (desk_of A) (user_id s) i True) = Inr x"
    and p: "x = (j, q)"
  have w: "\<not> blocked D0 (user_id s) (monitor_workspace q)" using read_monitor_free [of _ D0 "user_id s" i True x] x A p by simp
  have q: "map_of (monitors D0) i = Some q"
    using opened_monitor [of D0 "user_id s" i True x] x A p by (auto simp: must_def split: option.splits)
  show "triple (sound M (user_id s) D0) (start D0) (let wid = monitor_workspace q in
     hbind (run_analysis W m B3 \<lparr>request_input = check_input q, request_demo = False, request_in = Some wid\<rparr> s (Some wid)) (\<lambda>result.
     hbind (on_desk (update_monitor (reading m 6) (user_id s) i (no_patch\<lparr>patch_snapshot := snapshot_of result,
         patch_analysis := Some (analysis_id result), patch_status := Some (status_value (status result))\<rparr>))) (\<lambda>_.
     hbind (alarm m wid i result) (\<lambda>_.
     hbind (logged_by m 7 s ''monitor.check'' ''monitor'' i (Some wid)
         [(''analysis_id'', VStr (analysis_id result)), (''status'', VStr (status_value (status result)))]) (\<lambda>_.
     hreturn result))))) (\<lambda>_. sound M (user_id s) D0)"
    unfolding Let_def
    by (rule triple_bind [OF run_analysis_checks [OF d n q refl]]) (intro update_checks alarm_checks [OF n w] steps, use w in auto)
qed

section \<open>The handlers without a session\<close>

lemma option_step [steps]:
  "(x = None \<Longrightarrow> triple E P f Q) \<Longrightarrow> (\<And>y. x = Some y \<Longrightarrow> triple E P (g y) Q) \<Longrightarrow>
   triple E P (case x of None \<Rightarrow> f | Some y \<Rightarrow> g y) Q"
  by (cases x) simp_all

lemma side_start:
  assumes "\<And>A. desk_of (snd (h A)) = desk_of A" and "desk_ok M D0" and "\<And>x. triple (sound M uid D0) (start D0) (g x) Q"
  shows "triple (sound M uid D0) (start D0) (hbind h g) Q"
proof (rule triple_bind [OF _ assms(3)], rule tripleI, goal_cases)
  case (1 A)
  then show ?case using assms(1) [of A] good_start [OF assms(2)]
    by (cases "h A"; cases "fst (h A)") (auto simp: start_def sound_def)
qed

lemma side_sound:
  assumes "\<And>A. desk_of (snd (h A)) = desk_of A" and "\<And>x. triple (sound M uid D0) (sound M uid D0) (g x) Q"
  shows "triple (sound M uid D0) (sound M uid D0) (hbind h g) Q"
proof (rule triple_bind [OF _ assms(2)], rule tripleI, goal_cases)
  case (1 A)
  then show ?case using assms(1) [of A] by (cases "h A"; cases "fst (h A)") (auto simp: sound_def)
qed

lemma hbind_desk:
  assumes "\<And>A. desk_of (snd (h A)) = desk_of A" and "\<And>x A. desk_of (snd (g x A)) = desk_of A"
  shows "desk_of (snd (hbind h g A)) = desk_of A"
  using assms(1) [of A] assms(2) by (cases "h A"; cases "fst (h A)") (auto simp: hbind_def)

lemma on_auth_desk: "desk_of (snd (on_auth f A)) = desk_of A"
  by (simp add: on_auth_def split_beta)

lemma side_handlers:
  "desk_of (snd (budget refusal W m identity A)) = desk_of A"
  "desk_of (snd (enforce_login_budget W m email A)) = desk_of A"
  "desk_of (snd (consume_flow_budget W m flow email A)) = desk_of A"
  "desk_of (snd (cleared_budget W email A)) = desk_of A"
  "desk_of (snd (send_verification W m i u A)) = desk_of A"
  "desk_of (snd (send_reset W m i u A)) = desk_of A"
  "desk_of (snd (signup_auth_result W m web i u A)) = desk_of A"
  "desk_of (snd (enforce_verified_email W i A)) = desk_of A"
proof -
  show b: "desk_of (snd (budget refusal W m identity A)) = desk_of A" for refusal W m identity A
    by (simp add: budget_def split_beta split: option.split)
  show v: "desk_of (snd (send_verification W m i u A)) = desk_of A" for W m i u A
    by (simp add: send_verification_def on_auth_desk)
  show "desk_of (snd (signup_auth_result W m web i u A)) = desk_of A"
    unfolding signup_auth_result_def Let_def
    by (intro hbind_desk on_auth_desk) (auto intro!: hbind_desk v simp: hreturn_def)
qed (simp_all add: enforce_login_budget_def consume_flow_budget_def budget_def split_beta cleared_budget_def
    send_reset_def on_auth_desk enforce_verified_email_def hasking_def split: option.split)

lemmas side_starts [steps] = side_handlers(2) [THEN side_start] side_handlers(3) [THEN side_start]
  side_handlers(4) [THEN side_start] side_handlers(5) [THEN side_start] side_handlers(6) [THEN side_start]
  side_handlers(8) [THEN side_start]

lemmas side_sounds [steps] = side_handlers(4) [THEN side_sound] side_handlers(7) [THEN side_sound]

lemma logged_run: "logged m k action kind i actor user wid detail A =
    (Inr True, A\<lparr>desk_of := audit (drawn m k) (reading m k) (context_of m) action kind (Some i) actor user wid detail (desk_of A)\<rparr>)"
  by (simp add: logged_def on_desk_def)

lemma logged_good:
  assumes "\<And>w. wid = Some w \<Longrightarrow> \<not> blocked D0 uid w"
  shows "triple (sound M uid D0) (sound M uid D0) (logged m k action kind i actor user wid detail) (\<lambda>_. sound M uid D0)"
  using audit_good [where wid = wid, OF _ assms] by (auto simp: triple_def sound_def logged_run)

lemma logged_sound [steps]:
  assumes "\<And>w. wid = Some w \<Longrightarrow> \<not> blocked D0 uid w" and "\<And>x. triple (sound M uid D0) (sound M uid D0) (g x) Q"
  shows "triple (sound M uid D0) (sound M uid D0) (hbind (logged m k action kind i actor user wid detail) g) Q"
  by (rule triple_bind [OF logged_good [OF assms(1)] assms(2)])

lemma logged_start [steps]:
  assumes "desk_ok M D0" and "\<And>w. wid = Some w \<Longrightarrow> \<not> blocked D0 uid w"
    and "\<And>x. triple (sound M uid D0) (sound M uid D0) (g x) Q"
  shows "triple (sound M uid D0) (start D0) (hbind (logged m k action kind i actor user wid detail) g) Q"
  by (rule triple_pre, rule logged_sound [OF assms(2,3)]) (auto intro: start_sound [OF assms(1)])

lemma end_start [steps]: "desk_ok M D0 \<Longrightarrow> triple (sound M uid D0) (start D0) (hreturn x) (\<lambda>_. sound M uid D0)"
  by (rule triple_return) (rule start_sound)

lemma new_account_good:
  assumes g: "good M uid D0 D" and f: "unused (drawn m 2) D"
    and a: "try_tenants (new_account W m email password role) D = Inr (x, D')"
  shows "good M uid D0 D'"
proof -
  obtain T where T: "new_account W m email password role (tenants D) = Inr (x, T)" "D' = D\<lparr>tenants := T\<rparr>"
    using a by (auto simp: try_tenants_Inr)
  obtain hash where c: "create_user (drawn m 2) email hash role (tenants D) = Inr (x, T)"
    using T(1) by (auto simp: new_account_def split: sum.splits py_exn.splits)
  have w: "workspaces T = workspaces (tenants D)" using c by (auto simp: create_user_def Let_def split: if_splits)
  have n: "map_of (users (tenants D)) (drawn m 2) = None" using f by (simp add: unused_def)
  show ?thesis unfolding T(2)
    by (rule tenants_good [OF g tenancy_reach.signup [OF good_tenancy [OF g] n c] create_user_ok(2) [OF good_users [OF g] n c]])
      (simp add: w)
qed

lemma signup_handled:
  assumes d: "desk_ok M D0" and n: "new_draws W m D0"
  shows "handled M uid D0 (signup_with web W m email password role)"
  unfolding handled_def signup_with_def
  by (intro check_start side_starts ask_start try_tenants_start steps d
      new_account_good [OF good_start [OF d] fresh_draws(1) [OF n]]; (assumption | simp))

lemma login_handled:
  assumes d: "desk_ok M D0"
  shows "handled M uid D0 (login_with web W m email password)"
  unfolding handled_def login_with_def by (intro side_starts steps d) auto

lemma verification_request_handled:
  assumes d: "desk_ok M D0"
  shows "handled M uid D0 (request_email_verification W m email)"
  unfolding handled_def request_email_verification_def by (intro side_starts steps d) auto

lemma reset_request_handled:
  assumes d: "desk_ok M D0"
  shows "handled M uid D0 (request_password_reset W m email)"
  unfolding handled_def request_password_reset_def by (intro side_starts steps d) auto

lemma verification_confirm_handled:
  assumes d: "desk_ok M D0"
  shows "handled M uid D0 (confirm_email_verification W m raw)"
  unfolding handled_def confirm_email_verification_def
proof (rule side_start [OF _ d])
  fix A :: "'a api"
  show "desk_of (snd (case consume_verification_token (keyed_hash W) (cfg W) (reading m 3) raw (tenants (desk_of A)) (auth_rows A) of
         (None, rows) \<Rightarrow> (Inl (Http 400 ''Verification token is invalid or expired''), A)
       | (Some (uid, u), rows) \<Rightarrow> (Inr uid, A\<lparr>auth_rows := rows\<rparr>))) = desk_of A"
    by (simp split: prod.split option.split)
qed (intro steps d, auto)

lemma reset_tenants:
  assumes "consume_password_reset_token mac c now raw hash T rows = (Some (i, u'), T', rows')"
  obtains u where "map_of (users T) i = Some u"
    and "u' = u\<lparr>password_hash := hash, token_version := token_version u + 1\<rparr>"
    and "T' = T\<lparr>users := AList.update i u' (users T)\<rparr>"
  using assms that by (auto simp: consume_password_reset_token_def Let_def split: option.splits prod.splits)

lemma reset_confirm_handled:
  assumes d: "desk_ok M D0"
  shows "handled M uid D0 (confirm_password_reset W m raw password)"
  unfolding handled_def confirm_password_reset_def
proof (intro ask_start d, rule triple_bind [where R = "\<lambda>_. sound M uid D0"], rule tripleI, goal_cases)
  case (1 A0 hash A)
  then have A: "desk_of A = D0" by (simp add: start_def)
  obtain v T rows where c: "consume_password_reset_token (keyed_hash W) (cfg W) (reading m 3) raw hash (tenants D0) (auth_rows A) = (v, T, rows)"
    by (metis prod_cases3)
  have "good M uid D0 (D0\<lparr>tenants := T\<rparr>)" if v: "v = Some p" for p
  proof -
    obtain i u' where "p = (i, u')" by fastforce
    then obtain u where u: "map_of (users (tenants D0)) i = Some u"
      "u' = u\<lparr>password_hash := hash, token_version := token_version u + 1\<rparr>"
      "T = (tenants D0)\<lparr>users := AList.update i u' (users (tenants D0))\<rparr>"
      using c v by (auto elim: reset_tenants)
    note g = good_start [OF d, of uid]
    show ?thesis unfolding u(2,3)
      by (rule tenants_good [OF g tenancy_reach.reset [OF good_tenancy [OF g] u(1)] update_user_ok(2) [OF good_users [OF g] u(1)]])
        simp_all
  qed
  then show ?case using A c good_start [OF d]
    by (auto simp: sound_def split: option.split)
next
  case (2 A0 hash x)
  show ?case by (intro steps) auto
qed

text \<open>A start from which the user could open everything: what remains is the invariant.\<close>

definition unblocked :: "desk \<Rightarrow> desk" where
  "unblocked D = D\<lparr>tenants := (tenants D)\<lparr>workspaces := []\<rparr>\<rparr>"

lemma unblocked_good: "desk_ok M D \<Longrightarrow> good M uid (unblocked D) D"
  by (simp add: good_def untouched_def blocked_def unblocked_def others_saved_def users_kept_def)

lemma pushed_free: "\<not> blocked (unblocked D) uid wid"
  by (simp add: blocked_def unblocked_def)

lemma event_handled:
  assumes d: "good M uid D0 D" and n: "new_draws W m D" and w: "\<not> blocked D0 uid (push_workspace ev)"
  shows "good M uid D0 (desk_of (snd (hypernative_event W m supplied ev (A\<lparr>desk_of := D\<rparr>))))"
proof (cases "accept_event W supplied ev D")
  case (Inl e)
  then show ?thesis using d by (simp add: hypernative_event_def run_steps)
next
  case (Inr mode)
  then obtain q where q: "map_of (monitors D) (push_monitor ev) = Some q" "monitor_workspace q = push_workspace ev"
    by (auto simp: accept_event_def get_monitor_internal_def split: option.splits if_splits elim!: rbindE)
  let ?c = "create_alert (drawn m 1) (reading m 1) (push_workspace ev) (Some (push_monitor ev)) None
    (canonical_severity (push_severity ev)) (event_payload mode ev) (Some ''hypernative'') (Some (event_key_of W ev)) D D"
  show ?thesis
  proof (cases ?c)
    case None
    then show ?thesis using d Inr by (simp add: hypernative_event_def hasking_def hbind_def)
  next
    case (Some r)
    obtain v duplicate D' where r: "r = ((v, duplicate), D')" by (metis prod.exhaust)
    have "good M uid D0 D'" using create_alert_good [OF d fresh_draws(6) [OF n] w _ Some [unfolded r]] q by auto
    then show ?thesis using Inr Some w
      by (auto simp: hypernative_event_def hasking_def hbind_def r logged_run hreturn_def intro!: audit_good)
  qed
qed

end
