(* ===== verification/Refusals.thy ===== *)
theory Refusals
  imports HandlerLogic
begin

text \<open>
  What a refused request leaves: a handler that answers with an error status has changed no record.
  A handler is \<open>reading\<close> when it changes none at all, \<open>sure\<close> when it never answers with an error
  status, and \<open>clean\<close> when it has changed nothing where it does. The rules follow the code: checks
  first, then one operation of the store, then steps that cannot be refused.
\<close>

definition same_records :: "'s api \<Rightarrow> 's api \<Rightarrow> bool" where
  "same_records A A' = (desk_of A' = desk_of A \<and> auth_rows A' = auth_rows A)"

definition reading_only :: "('s, 'a) handler \<Rightarrow> bool" where
  "reading_only h = (\<forall>A. same_records A (snd (h A)))"

definition sure :: "('s, 'a) handler \<Rightarrow> bool" where
  "sure h = (\<forall>A n t. fst (h A) \<noteq> Inl (Http n t))"

definition clean :: "('s, 'a) handler \<Rightarrow> bool" where
  "clean h = (\<forall>A n t. fst (h A) = Inl (Http n t) \<longrightarrow> same_records A (snd (h A)))"

named_theorems clean_steps "checks and changes of a handler that is clean when refused"
named_theorems sure_steps "steps that are never refused"

lemma same_refl [simp]: "same_records A A"
  by (simp add: same_records_def)

lemma hbind_eq: "hbind h g A = (case fst (h A) of Inl e \<Rightarrow> (Inl e, snd (h A)) | Inr x \<Rightarrow> g x (snd (h A)))"
  by (cases "h A"; cases "fst (h A)") (simp_all add: hbind_def)

lemma run_must: "hbind (hmust e u) g A = (case u of None \<Rightarrow> (Inl e, A) | Some x \<Rightarrow> g x A)"
  by (simp add: hbind_eq hmust_def hasking_def must_def split: option.split)

lemma run_check: "hbind (hcheck e ok) g A = (if ok then g True A else (Inl e, A))"
  by (simp add: hbind_eq hcheck_def hasking_def)

lemma clean_after: "reading_only h \<Longrightarrow> (\<And>x. clean (g x)) \<Longrightarrow> clean (hbind h g)"
  by (simp add: clean_def reading_only_def same_records_def hbind_eq split: sum.split)

lemma clean_then: "clean h \<Longrightarrow> (\<And>x. sure (g x)) \<Longrightarrow> clean (hbind h g)"
  by (simp add: clean_def sure_def hbind_eq split: sum.split)

lemma sure_bind [sure_steps]: "sure h \<Longrightarrow> (\<And>x. sure (g x)) \<Longrightarrow> sure (hbind h g)"
  by (auto simp: sure_def hbind_eq split: sum.split)

lemma sure_clean: "sure h \<Longrightarrow> clean h"
  by (simp add: clean_def sure_def)

lemma reading_clean: "reading_only h \<Longrightarrow> clean h"
  by (simp add: clean_def reading_only_def)

lemma readings: "reading_only (hasking f)" "reading_only (hcheck e ok)" "reading_only (hmust e x)" "reading_only (hreturn x)"
  "reading_only (hfail err)" "reading_only (workspace_for s wid w manage)"
  by (simp_all add: reading_only_def hasking_def hcheck_def hmust_def hreturn_def hfail_def workspace_for_def)

lemmas clean_checks [clean_steps] = readings [THEN clean_after] readings [THEN reading_clean]

lemma clean_cases [clean_steps]: "(\<And>a b. x = (a, b) \<Longrightarrow> clean (f a b)) \<Longrightarrow> clean (case x of (a, b) \<Rightarrow> f a b)"
  by (cases x) simp

lemma sure_cases [sure_steps]: "(\<And>a b. x = (a, b) \<Longrightarrow> sure (f a b)) \<Longrightarrow> sure (case x of (a, b) \<Rightarrow> f a b)"
  by (cases x) simp

lemma sure_ends [sure_steps]: "sure (hreturn x)" "sure (on_desk f)" "sure (logged m k action kind i actor uid wid detail)"
  "sure (logged_by m k s action kind i wid detail)" "sure (cleared_budget W email)" "sure (run_delivery W m w limit)"
  "sure (alarm m w i r)"
  by (auto simp: sure_def hreturn_def on_desk_def logged_by_def logged_def cleared_budget_def run_delivery_def alarm_def
      crashing_def map_sum_def split: prod.split sum.split option.split)

lemma clean_desk [clean_steps]: "(\<And>x. sure (g x)) \<Longrightarrow> clean (hbind (on_desk f) g)"
  by (rule clean_then [OF sure_clean]) (rule sure_ends)

lemma clean_try [clean_steps]: "(\<And>x. sure (g x)) \<Longrightarrow> clean (hbind (try_desk err f) g)"
  by (rule clean_then) (auto simp: clean_def try_desk_def split: sum.splits prod.splits)

lemma clean_logged [clean_steps]: "(\<And>x. sure (g x)) \<Longrightarrow> clean (hbind (logged_by m k s action kind i wid detail) g)"
  by (rule clean_then [OF sure_clean]) (rule sure_ends)

text \<open>An operation that finds nothing to change and is refused afterwards.\<close>

lemma clean_found:
  assumes "\<And>D. fst (f D) = None \<Longrightarrow> snd (f D) = D" and "\<And>x. sure (g x)"
  shows "clean (hbind (on_desk f) (\<lambda>u. hbind (hmust e u) g))"
  using assms by (auto simp: clean_def sure_def run_desk run_must split: option.split)

lemma clean_tried:
  assumes "\<And>D D'. f D = Inr (None, D') \<Longrightarrow> D' = D" and "\<And>x. sure (g x)"
  shows "clean (hbind (try_desk err f) (\<lambda>u. hbind (hmust e u) g))"
  using assms(2) by (auto simp: clean_def sure_def run_try run_must same_records_def dest!: assms(1) split: option.split sum.split)

lemma clean_checked:
  assumes "\<And>D D'. f D = Inr (False, D') \<Longrightarrow> D' = D" and "\<And>x. sure (g x)"
  shows "clean (hbind (try_desk err f) (\<lambda>ok. hbind (hcheck e ok) g))"
  using assms(2) by (auto simp: clean_def sure_def run_try run_check same_records_def dest!: assms(1) split: sum.split)

text \<open>The same for operations that always return, with a truth value or the changed row.\<close>

lemma clean_checked_desk:
  assumes "\<And>D. \<not> fst (f D) \<Longrightarrow> snd (f D) = D" and "\<And>x. sure (g x)"
  shows "clean (hbind (on_desk f) (\<lambda>ok. hbind (hcheck e ok) g))"
  using assms by (auto simp: clean_def sure_def run_desk run_check)

lemma hbind_return: "hbind h hreturn = h"
  by (rule ext) (simp add: hbind_def hreturn_def split: prod.split sum.split)

lemma clean_last:
  "(\<And>D. fst (f D) = None \<Longrightarrow> snd (f D) = D) \<Longrightarrow> clean (hbind (on_desk f) (hmust e))"
  "(\<And>D. \<not> fst (k D) \<Longrightarrow> snd (k D) = D) \<Longrightarrow> clean (hbind (on_desk k) (hcheck e))"
  using clean_found [of f hreturn e] clean_checked_desk [of k hreturn e] by (simp_all add: hbind_return sure_ends)

section \<open>The operations that find nothing\<close>

lemma remove_no_member: "remove_organization_member actor oid target T = Inr (False, T') \<Longrightarrow> T' = T"
  by (auto simp: remove_organization_member_def split: option.splits if_splits elim!: rbindE)

lemma nothing_found:
  "fst (set_saved_analysis_archived uid i archived D) = None \<Longrightarrow> snd (set_saved_analysis_archived uid i archived D) = D"
  "\<not> fst (delete_saved_analysis uid i D) \<Longrightarrow> snd (delete_saved_analysis uid i D) = D"
  "fst (update_monitor now uid i p D) = None \<Longrightarrow> snd (update_monitor now uid i p D) = D"
  "\<not> fst (delete_monitor uid i D) \<Longrightarrow> snd (delete_monitor uid i D) = D"
  "fst (approve_protocol_review now uid i D) = None \<Longrightarrow> snd (approve_protocol_review now uid i D) = D"
  "fst (requeue_alert now uid i D) = None \<Longrightarrow> snd (requeue_alert now uid i D) = D"
  "update_alert_status now uid i wanted D = Inr (None, D') \<Longrightarrow> D' = D"
  "update_protocol_investigation clock_text uid i state disposition notes D = Inr (None, D') \<Longrightarrow> D' = D"
  "attach_protocol_review_to_investigation uid i review D = Inr (None, D') \<Longrightarrow> D' = D"
  "fst (of_tenants (update_workspace uid w name role) D) = None \<Longrightarrow> snd (of_tenants (update_workspace uid w name role) D) = D"
  "try_tenants (remove_organization_member actor oid target) D = Inr (False, D') \<Longrightarrow> D' = D"
  by (auto simp: set_saved_analysis_archived_def delete_saved_analysis_def update_monitor_def delete_monitor_def
      approve_protocol_review_def requeue_alert_def update_alert_status_def update_protocol_investigation_def
      attach_protocol_review_to_investigation_def of_tenants_def update_workspace_def try_tenants_Inr
      put_alert_def Let_def dest!: remove_no_member split: option.splits if_splits prod.splits sum.splits elim!: rbindE)

section \<open>The handlers of signed-in users\<close>

named_theorems cleans "the handlers that are clean when refused"

lemma account_cleans [cleans]: "clean (logout m s)" "clean (me_role m s role)"
  "clean (organization_membership_claim W m s oid)" "clean (organization_create m s name)"
  "clean (organization_member_add W m s oid email role)" "clean (organization_member_claim_accept W m s oid token role)"
  "clean (workspace_create m s name role org)"
  unfolding logout_def me_role_def organization_membership_claim_def organization_create_def organization_member_add_def
    organization_member_claim_accept_def workspace_create_def Let_def
  by (intro clean_steps sure_steps; simp add: sure_def hasking_def split: option.split)+

lemma member_delete_clean [cleans]: "clean (organization_member_delete m s oid uid)"
  unfolding organization_member_delete_def by (intro clean_checked nothing_found sure_steps)

lemma workspace_patch_clean [cleans]: "clean (workspace_patch m s w name role)"
  unfolding workspace_patch_def by (intro clean_checks clean_found nothing_found sure_steps)

lemma run_analysis_clean [cleans]: "clean (run_analysis W m e req s w)"
  unfolding run_analysis_def by (intro clean_steps sure_steps)

lemma record_cleans [cleans]: "clean (decision_analyze m s q)" "clean (portfolio_create m s p)" "clean (saved_create m s aid title)"
  "clean (monitor_create m s r)" "clean (report m s did fmt)" "clean (protocol_operational_read m s f action a)"
  "clean (review_create m s compare a)" "clean (investigation_create m s timeline c)"
  unfolding decision_analyze_def portfolio_create_def saved_create_def monitor_create_def report_def decision_for_user_def
    protocol_operational_read_def review_create_def investigation_create_def
  by (intro clean_steps sure_steps)+

lemma found_cleans [cleans]: "clean (saved_archive s i archived)" "clean (saved_delete s i)" "clean (monitor_patch_route m s i r)"
  "clean (review_approve m s i)" "clean (alert_requeue m s i)" "clean (alert_patch m s i wanted)"
  "clean (investigation_update m s i state disposition notes)" "clean (investigation_attach_review m s i review)"
  unfolding saved_archive_def saved_delete_def monitor_patch_route_def review_approve_def alert_requeue_def alert_patch_def
    investigation_update_def investigation_attach_review_def
  by (intro clean_last clean_found clean_tried nothing_found sure_steps; assumption?)+

lemma monitor_delete_clean [cleans]: "clean (monitor_delete m s i)"
  unfolding monitor_delete_def by (intro clean_checks clean_cases clean_checked_desk nothing_found sure_steps)

lemma process_due_clean [cleans]: "clean (alerts_process_due W m s w limit)"
  unfolding alerts_process_due_def by (intro clean_checks sure_clean sure_steps)

lemma monitor_check_clean [cleans]: "clean (monitor_check W m s i)"
  unfolding monitor_check_def Let_def by (intro clean_checks clean_cases clean_then run_analysis_clean sure_steps)

section \<open>The handlers without a session\<close>

lemma limiter_reads: "reading_only (budget refusal W m identity)" "reading_only (enforce_login_budget W m email)"
  "reading_only (consume_flow_budget W m flow email)" "reading_only (cleared_budget W email)" "reading_only (enforce_verified_email W i)"
  by (simp_all add: reading_only_def same_records_def budget_def enforce_login_budget_def consume_flow_budget_def
      cleared_budget_def enforce_verified_email_def hasking_def split_beta split: option.split)

lemma caught_sure: "caught_email x \<noteq> Inl (Http n t)"
  by (cases x rule: caught_email.cases) simp_all

lemma mail_sure [sure_steps]: "sure (send_verification W m i u)" "sure (send_reset W m i u)" "sure (signup_auth_result W m web i u)"
proof -
  show v: "sure (send_verification W m i u)" for i u
    by (simp add: sure_def send_verification_def on_auth_def caught_sure split_beta)
  show "sure (send_reset W m i u)" by (simp add: sure_def send_reset_def on_auth_def caught_sure split_beta)
  have "sure (on_auth (\<lambda>rows. (Inr x, f rows)))" for x f by (simp add: sure_def on_auth_def)
  then show "sure (signup_auth_result W m web i u)" unfolding signup_auth_result_def Let_def
    by (intro sure_bind) (auto intro!: sure_bind v sure_ends)
qed

lemma option_sure [sure_steps]: "sure f \<Longrightarrow> (\<And>y. sure (g y)) \<Longrightarrow> sure (case x of None \<Rightarrow> f | Some y \<Rightarrow> g y)"
  by (cases x) simp_all

lemma signup_clean [cleans]: "clean (signup_with web W m email password role)"
  unfolding signup_with_def
  by (intro clean_checks limiter_reads [THEN clean_after] clean_try sure_steps)

lemma login_clean [cleans]: "clean (login_with web W m email password)"
  unfolding login_with_def
  by (intro clean_checks limiter_reads [THEN clean_after] clean_cases sure_clean sure_steps)

lemma request_cleans [cleans]: "clean (request_email_verification W m email)" "clean (request_password_reset W m email)"
  unfolding request_email_verification_def request_password_reset_def
  by (intro limiter_reads [THEN clean_after] clean_checks sure_clean sure_steps)+

lemma confirm_cleans [cleans]: "clean (confirm_email_verification W m raw)" "clean (confirm_password_reset W m raw password)"
proof -
  show "clean (confirm_email_verification W m raw)" unfolding confirm_email_verification_def
    by (intro clean_then sure_steps) (auto simp: clean_def split: prod.splits option.splits)
  show "clean (confirm_password_reset W m raw password)" unfolding confirm_password_reset_def
    by (intro clean_checks clean_then sure_steps) (auto simp: clean_def split: prod.splits option.splits)
qed

end
