(* ===== verification/Application.thy ===== *)
theory Application
  imports HandlerEffects Refusals
begin

text \<open>
  The application as a state machine of requests, events and deliveries, and what holds in all its
  runs: the invariants, the isolation of tenants, the end of sessions, the gate against forged
  requests, and the single use of reset tokens.
\<close>

section \<open>Steps of the application\<close>

text \<open>What a request leads to: its failure, if any, and the state it leaves.\<close>

definition answered :: "'a http \<times> 's api \<Rightarrow> http_error option \<times> 's api" where
  "answered p = (case fst p of Inl e \<Rightarrow> Some e | Inr x \<Rightarrow> None, snd p)"

lemma snd_answered [simp]: "snd (answered p) = snd p"
  by (simp add: answered_def)


text \<open>The requests of a signed-in user; \<open>reads\<close> stands for the routes that only read.\<close>

inductive signed_request :: "'s world \<Rightarrow> draws \<Rightarrow> signed_in \<Rightarrow> 's api \<Rightarrow> http_error option \<times> 's api \<Rightarrow> bool" for W m s A where
  reads: "signed_request W m s A (e, A)"
| "signed_request W m s A (answered (logout m s A))"
| "signed_request W m s A (answered (me_role m s role A))"
| "signed_request W m s A (answered (organization_membership_claim W m s oid A))"
| "signed_request W m s A (answered (organization_create m s name A))"
| "signed_request W m s A (answered (organization_member_add W m s oid email role A))"
| "signed_request W m s A (answered (organization_member_claim_accept W m s oid token role A))"
| "signed_request W m s A (answered (organization_member_delete m s oid uid A))"
| "signed_request W m s A (answered (workspace_create m s name role org A))"
| "signed_request W m s A (answered (workspace_patch m s wid name role A))"
| "signed_request W m s A (answered (run_analysis W m e analysis s org A))"
| "signed_request W m s A (answered (decision_analyze m s query A))"
| "signed_request W m s A (answered (portfolio_create m s holdings A))"
| "signed_request W m s A (answered (saved_create m s aid title A))"
| "signed_request W m s A (answered (saved_archive s i archived A))"
| "signed_request W m s A (answered (saved_delete s i A))"
| "signed_request W m s A (answered (monitor_create m s watch A))"
| "signed_request W m s A (answered (monitor_check W m s i A))"
| "signed_request W m s A (answered (monitor_patch_route m s i watch A))"
| "signed_request W m s A (answered (monitor_delete m s i A))"
| "signed_request W m s A (answered (report m s did fmt A))"
| "signed_request W m s A (answered (protocol_operational_read m s read action analysis A))"
| "signed_request W m s A (answered (review_create m s read analysis A))"
| "signed_request W m s A (answered (review_approve m s i A))"
| "signed_request W m s A (answered (investigation_create m s read enquiry A))"
| "signed_request W m s A (answered (investigation_update m s i state disposition notes A))"
| "signed_request W m s A (answered (investigation_attach_review m s i review A))"
| "signed_request W m s A (answered (alert_patch m s i state A))"
| "signed_request W m s A (answered (alert_requeue m s i A))"
| "signed_request W m s A (answered (alerts_process_due W m s wid limit A))"

inductive open_request :: "'s world \<Rightarrow> draws \<Rightarrow> 's api \<Rightarrow> http_error option \<times> 's api \<Rightarrow> bool" for W m A where
  "open_request W m A (answered (signup_with web W m email password role A))"
| "open_request W m A (answered (login_with web W m email password A))"
| "open_request W m A (answered (request_email_verification W m email A))"
| "open_request W m A (answered (confirm_email_verification W m raw A))"
| "open_request W m A (answered (request_password_reset W m email A))"
| "open_request W m A (answered (confirm_password_reset W m raw password A))"

text \<open>A step of the application: a request, an event of Hypernative, or a delivery of the worker.\<close>

inductive api_step :: "int \<Rightarrow> 's api \<Rightarrow> 's api \<Rightarrow> bool" for M A where
  signed: "attempts_of W = M \<Longrightarrow> new_draws W m (desk_of A) \<Longrightarrow> request_user bearer_of W m r A = (Inr s, A) \<Longrightarrow>
    signed_request W m s A (e, A') \<Longrightarrow> api_step M A A'"
| anyone: "new_draws W m (desk_of A) \<Longrightarrow> open_request W m A (e, A') \<Longrightarrow> api_step M A A'"
| pushed: "new_draws W m (desk_of A) \<Longrightarrow> api_step M A (snd (hypernative_event W m supplied ev A))"
| worker: "hook_attempts hook = M \<Longrightarrow>
    api_step M A (A\<lparr>desk_of := snd (process_due_alerts b hook send h now wid limit (desk_of A))\<rparr>)"

text \<open>It starts with some accounts, organizations and workspaces, and no other records.\<close>

inductive api_reach :: "int \<Rightarrow> 's api \<Rightarrow> bool" for M where
  start: "tenancy_reach T \<Longrightarrow> desk_of A = empty_desk\<lparr>tenants := T\<rparr> \<Longrightarrow> api_reach M A"
| step: "api_reach M A \<Longrightarrow> api_step M A A' \<Longrightarrow> api_reach M A'"

lemma handled_good:
  assumes "handled M uid (desk_of A) h"
  shows "good M uid (desk_of A) (desk_of (snd (h A)))"
  using tripleD [OF assms [unfolded handled_def], of A] by (simp add: start_def sound_def)

lemma signed_good:
  assumes d: "desk_ok M (desk_of A)" and n: "new_draws W m (desk_of A)" and M: "attempts_of W = M"
    and "signed_request W m s A p"
  shows "good M (user_id s) (desk_of A) (desk_of (snd p))"
  using assms(4)
proof cases
  case reads
  then show ?thesis by (simp add: good_start d)
qed (simp_all, (rule handled_good, (rule logout_handled [OF d] me_role_handled [OF d] claim_handled [OF d] organization_create_handled [OF d n]
  member_add_handled [OF d] claim_accept_handled [OF d] member_delete_handled [OF d] workspace_create_handled [OF d n]
  workspace_patch_handled [OF d] run_analysis_handled [OF d n] decision_analyze_handled [OF d n]
  portfolio_create_handled [OF d n] saved_create_handled [OF d n] saved_archive_handled [OF d] saved_delete_handled [OF d]
  monitor_create_handled [OF d n] monitor_check_handled [OF d n] monitor_patch_handled [OF d] monitor_delete_handled [OF d]
  report_handled [OF d n] operational_read_handled [OF d] review_create_handled [OF d n] review_approve_handled [OF d]
  investigation_create_handled [OF d n] investigation_update_handled [OF d] investigation_attach_handled [OF d]
  alert_patch_handled [OF d] alert_requeue_handled [OF d] process_due_handled [OF d M]))+)

lemma open_good:
  assumes d: "desk_ok M (desk_of A)" and n: "new_draws W m (desk_of A)" and "open_request W m A p"
  shows "good M uid (desk_of A) (desk_of (snd p))"
  using assms(3)
  by cases (simp_all, (rule handled_good, (rule signup_handled [OF d n] login_handled [OF d] verification_request_handled [OF d]
    verification_confirm_handled [OF d] reset_request_handled [OF d] reset_confirm_handled [OF d]))+)

lemma step_kept:
  assumes d: "desk_ok M (desk_of A)" and "api_step M A A'"
  shows "desk_ok M (desk_of A') \<and> users_kept (tenants (desk_of A)) (tenants (desk_of A'))"
  using assms(2)
proof cases
  case (signed W m bearer_of r s)
  then show ?thesis using signed_good [OF d, of W m s] by (force simp: good_def)
next
  case (anyone W m)
  then show ?thesis using open_good [OF d, of W m] by (force simp: good_def)
next
  case (pushed W m supplied ev)
  then show ?thesis
    using event_handled [OF unblocked_good [OF d] _ pushed_free, where A = A and ev = ev and supplied = supplied and W = W and m = m]
    by (simp add: good_def unblocked_def users_kept_def)
next
  case (worker hook b send h now wid limit)
  then show ?thesis
    using process_good [OF unblocked_good [OF d] pushed_free worker(2)] by (simp add: good_def users_kept_refl)
qed

lemma reach_desk_ok: "api_reach M A \<Longrightarrow> desk_ok M (desk_of A)"
proof (induction rule: api_reach.induct)
  case (start T A)
  then show ?case
    by (auto simp: desk_ok_def empty_desk_def keys_ok_def links_ok_def intro: alert_reach.start)
next
  case (step A A')
  then show ?case using step_kept by blast
qed







section \<open>Sessions over time\<close>

lemma session_user:
  assumes "current_user mac wide c now bearer cookie T = Inr s"
  obtains payload email where "decode_token mac wide c now (used_token s) = Inr payload" and "sub_text payload = Inr email"
    and "get_user T email = Some (user_id s, user_of s)"
    and "int_value (dict_get_or payload ''ver'' (VInt (- 1))) = Inr (token_version (user_of s))"
    and "used_token s = (case bearer of Some t \<Rightarrow> t | None \<Rightarrow> cookie)" and "used_token s \<noteq> []"
  using assms that
  by (auto simp: current_user_def Let_def split: if_splits sum.splits option.splits prod.splits elim!: rbindE)

lemma decoded_again: "decode_token mac wide c now token = Inr payload \<Longrightarrow>
    decode_token mac wide c later token = Inr payload \<or> (\<exists>e. decode_token mac wide c later token = Inl e)"
  by (cases "decode_token mac wide c later token")
    (auto simp: decode_token_def decode_signed_payload_def Let_def split: if_splits sum.splits pyval.splits option.splits elim!: rbindE)

lemma bump_higher:
  assumes "users_ok T" and "map_of (users T) i = Some u"
  shows "\<exists>u'. map_of (users (snd (bump_user_token_version i T))) i = Some u' \<and> user_email u' = user_email u \<and>
    token_version u < token_version u'"
  using assms(2) by (auto simp: bump_user_token_version_def update_conv' split: option.splits)

lemma logout_run: "desk_of (snd (logout m s A)) =
    (audit (drawn m 1) (reading m 1) (context_of m) ''logout'' ''user'' (Some (user_id s)) (Some (user_email (user_of s)))
      (Some (user_id s)) None [] (desk_of A))\<lparr>tenants := snd (bump_user_token_version (user_id s) (tenants (desk_of A)))\<rparr>"
  by (simp add: logout_def run_steps hbind_def [of "logged_by _ _ _ _ _ _ _ _"] logged_by_run of_tenants_simps hreturn_def audit_def)

lemma steps_kept:
  assumes "(api_step M)\<^sup>*\<^sup>* A A'" and "desk_ok M (desk_of A)"
  shows "desk_ok M (desk_of A') \<and> users_kept (tenants (desk_of A)) (tenants (desk_of A'))"
  using assms(1)
proof (induction rule: rtranclp_induct)
  case base
  then show ?case using assms(2) by (simp add: users_kept_refl)
next
  case (step A1 A2)
  then show ?case using step_kept [of M A1 A2] users_kept_trans by blast
qed

lemma outdated_refused:
  assumes k: "users_kept T T'" and ok: "users_ok T" "users_ok T'" and u: "map_of (users T) i = Some u"
    and p: "decode_token mac wide c now token = Inr payload" "sub_text payload = Inr email"
      "int_value (dict_get_or payload ''ver'' (VInt (- 1))) = Inr v"
    and e: "user_email u = normal_email email" and v: "v < token_version u"
  shows "\<exists>t. current_user mac wide c later (Some token) cookie T' = Inl (Http 401 t) \<and>
    current_user mac wide c later None token T' = Inl (Http 401 t)"
proof -
  obtain u' where u': "map_of (users T') i = Some u'" "user_email u' = user_email u" "token_version u \<le> token_version u'"
    using k u by (auto simp: users_kept_def)
  have "get_user T' email = Some (i, u')"
    using user_by_email [OF ok(2) u'(1)] u'(2) e by (simp add: get_user_def normal_email_idem)
  then show ?thesis using decoded_again [OF p(1), of later] p(2,3) v u'(3)
    by (cases "token = []") (auto simp: current_user_def crashing_def)
qed

text \<open>
  C9: After a user has logged out, no session accepted before, of this or another device of the
  user, is ever accepted again, as a bearer token or as a cookie, whatever happens to the
  application in between.
\<close>

theorem logout_revokes_sessions:
  assumes "api_reach M A" and "current_user mac wide c now bearer cookie (tenants (desk_of A)) = Inr s"
    and "user_id s' = user_id s" and "(api_step M)\<^sup>*\<^sup>* (snd (logout m s' A)) A'"
  shows "\<exists>t. current_user mac wide c later (Some (used_token s)) other (tenants (desk_of A')) = Inl (Http 401 t) \<and>
    current_user mac wide c later None (used_token s) (tenants (desk_of A')) = Inl (Http 401 t)"
proof -
  have d: "desk_ok M (desk_of A)" by (rule reach_desk_ok [OF assms(1)])
  obtain payload email where p: "decode_token mac wide c now (used_token s) = Inr payload" "sub_text payload = Inr email"
    "get_user (tenants (desk_of A)) email = Some (user_id s, user_of s)"
    "int_value (dict_get_or payload ''ver'' (VInt (- 1))) = Inr (token_version (user_of s))"
    by (rule session_user [OF assms(2)])
  let ?A1 = "snd (logout m s' A)"
  have d1: "desk_ok M (desk_of ?A1)" using handled_good [OF logout_handled [OF d]] by (simp add: good_def)
  have ok: "users_ok (tenants (desk_of A))" "users_ok (tenants (desk_of ?A1))" "users_ok (tenants (desk_of A'))"
    using d d1 steps_kept [OF assms(4) d1] by (auto simp: desk_ok_def intro: reach_users)
  have u: "map_of (users (tenants (desk_of A))) (user_id s) = Some (user_of s)" "user_email (user_of s) = normal_email email"
    by (rule user_found [OF ok(1) p(3)])+
  obtain u1 where u1: "map_of (users (tenants (desk_of ?A1))) (user_id s) = Some u1" "user_email u1 = normal_email email"
    "token_version (user_of s) < token_version u1"
    using bump_higher [OF ok(1) u(1)] u(2) assms(3) by (auto simp: logout_run)
  have k: "users_kept (tenants (desk_of ?A1)) (tenants (desk_of A'))" using steps_kept [OF assms(4) d1] by simp
  show ?thesis
    by (rule outdated_refused [OF k ok(2,3) u1(1) p(1,2,4) u1(2,3)])
qed


section \<open>Events from outside\<close>

lemma create_alert_rows:
  assumes c: "create_alert i now wid mon analysis level payload provider_id key D D = Some (v, D')"
    and k: "distinct (map fst (alerts D))" and o: "other \<noteq> wid"
  shows "workspace_rows other D' = workspace_rows other D"
proof -
  have "in_workspace (\<lambda>r. Some (alert_workspace r)) other (AList.update j row (alerts D)) =
      in_workspace (\<lambda>r. Some (alert_workspace r)) other (alerts D)"
    if "find_event wid p key' (alerts D) = Some (j, q)" "alert_workspace row = alert_workspace q" for j row q p key'
  proof -
    have q: "(j, q) \<in> set (alerts D)" "alert_workspace q = wid"
      using that(1) found_in by (fastforce simp: find_event_def same_event_def)+
    then have "map_of (alerts D) j = Some q" using k by simp
    then show ?thesis using that(2) q(2) o by (intro in_workspace_update) auto
  qed
  then show ?thesis using c o
    by (auto simp: create_alert_def insert_alert_def new_alert_def workspace_rows_def Let_def split: option.splits if_splits)
qed

text \<open>
  C28: A pushed event changes nothing unless it is accepted; an accepted one names a monitor and its
  workspace, carries the secret derived for the two or, outside production, the shared secret, and
  changes no other workspace.
\<close>

theorem pushed_event_guarded:
  assumes "alert_reach M (desk_of A)"
  shows "case accept_event W supplied ev (desk_of A) of
      Inl e \<Rightarrow> hypernative_event W m supplied ev A = (Inl e, A)
    | Inr mode \<Rightarrow> (\<exists>root q. ingress_root W = Inr root \<and>
        map_of (monitors (desk_of A)) (push_monitor ev) = Some q \<and> monitor_workspace q = push_workspace ev \<and>
        (supplied = hypernative_monitor_credential (keyed_hash W) root (push_workspace ev) (push_monitor ev) \<or>
         supplied = root \<and> \<not> in_production (env W) (cfg W)) \<and>
        (\<forall>wid. wid \<noteq> push_workspace ev \<longrightarrow> workspace_rows wid (desk_of (snd (hypernative_event W m supplied ev A))) =
          workspace_rows wid (desk_of A)))"
proof (cases "accept_event W supplied ev (desk_of A)")
  case (Inl e)
  then show ?thesis by (simp add: hypernative_event_def hasking_def hbind_def)
next
  case (Inr mode)
  then obtain root q where q: "ingress_root W = Inr root" "map_of (monitors (desk_of A)) (push_monitor ev) = Some q"
    "monitor_workspace q = push_workspace ev"
    "ingress_authentication W root (hypernative_monitor_credential (keyed_hash W) root (push_workspace ev) (push_monitor ev)) supplied = Inr mode"
    by (auto simp: accept_event_def get_monitor_internal_def split: option.splits if_splits elim!: rbindE)
  have s: "supplied = hypernative_monitor_credential (keyed_hash W) root (push_workspace ev) (push_monitor ev) \<or>
      supplied = root \<and> \<not> in_production (env W) (cfg W)"
    using q(4) by (auto simp: ingress_authentication_def compare_texts_def crashing_def split: if_splits elim!: rbindE)
  have k: "distinct (map fst (alerts (desk_of A)))" using reach_queue [OF assms] by (simp add: queue_ok_def)
  have "workspace_rows wid (desk_of (snd (hypernative_event W m supplied ev A))) = workspace_rows wid (desk_of A)"
    if o: "wid \<noteq> push_workspace ev" for wid
  proof -
    have a: "workspace_rows wid (audit i now c action kind rid actor user (Some (push_workspace ev)) detail D) = workspace_rows wid D"
      for i now c action kind rid actor user detail D
      using o by (simp add: workspace_rows_def audit_def)
    show ?thesis using Inr create_alert_rows [OF _ k o]
      by (auto simp: hypernative_event_def hasking_def hbind_def logged_run hreturn_def a split: option.split)
  qed
  then show ?thesis using Inr q s by auto
qed

section \<open>Password resets\<close>

text \<open>The unique index on the digest of a reset token.\<close>

definition digests_unique :: "auth_table \<Rightarrow> bool" where
  "digests_unique rows = (distinct (map fst rows) \<and>
     (\<forall>(i, r) \<in> set rows. \<forall>(j, q) \<in> set rows. reset_digest r \<noteq> None \<longrightarrow> reset_digest r = reset_digest q \<longrightarrow> i = j))"

lemma update_members: "distinct (map fst xs) \<Longrightarrow> p \<in> set (AList.update i v xs) \<Longrightarrow> p = (i, v) \<or> p \<in> set xs \<and> fst p \<noteq> i"
  by (induction xs) (auto simp: image_iff split: if_splits)

text \<open>
  C27: A reset token works once: it sets the password, revokes the earlier sessions of its user by a
  new token version and confirms the address; afterwards the same token is refused at any time, and
  no other account has changed.
\<close>

theorem reset_token_single_use:
  assumes "consume_password_reset_token mac c now raw hash T rows = (Some (i, u'), T', rows')" and "digests_unique rows"
  shows "\<exists>u. map_of (users T) i = Some u \<and> token_version u' = token_version u + 1 \<and> password_hash u' = hash \<and>
    map_of (users T') i = Some u' \<and> is_email_verified rows' i \<and>
    consume_password_reset_token mac c later raw other T' rows' = (None, T', rows') \<and>
    (\<forall>j. j \<noteq> i \<longrightarrow> map_of (users T') j = map_of (users T) j \<and> map_of rows' j = map_of rows j)"
proof -
  obtain u where u: "map_of (users T) i = Some u" "u' = u\<lparr>password_hash := hash, token_version := token_version u + 1\<rparr>"
    "T' = T\<lparr>users := AList.update i u' (users T)\<rparr>"
    using assms(1) by (rule reset_tenants)
  let ?d = "token_digest mac c raw ''password-reset''"
  obtain j r where f: "find (\<lambda>(i, r). reset_digest r = Some ?d) rows = Some (j, r)"
    using assms(1) by (auto simp: consume_password_reset_token_def pending_row_def split: option.splits prod.splits)
  have "j = i \<and> (\<exists>q. rows' = AList.update j q rows \<and> verified_at q \<noteq> None \<and> reset_digest q = None)"
    using assms(1) by (auto simp: consume_password_reset_token_def pending_row_def f Let_def split: option.split_asm if_split_asm
      simp del: if_split) (rule exI, rule conjI, rule refl, simp)+
  then obtain q where r: "find (\<lambda>(i, r). reset_digest r = Some ?d) rows = Some (i, r)"
    "rows' = AList.update i q rows" "verified_at q \<noteq> None" "reset_digest q = None"
    using f by blast
  have i: "(i, r) \<in> set rows" "reset_digest r = Some ?d" using found_in [OF r(1)] by auto
  have "reset_digest q \<noteq> Some ?d" if "(j, q) \<in> set rows'" for j q
  proof -
    have "distinct (map fst rows)" using assms(2) by (simp add: digests_unique_def)
    from update_members [OF this that [unfolded r(2)]] show ?thesis
      using i r(4) assms(2) by (fastforce simp: digests_unique_def)
  qed
  then have "find (\<lambda>(i, r). reset_digest r = Some ?d) rows' = None"
    by (auto simp: find_None_iff)
  then have "consume_password_reset_token mac c later raw other T' rows' = (None, T', rows')"
    by (simp add: consume_password_reset_token_def pending_row_def)
  moreover have "is_email_verified rows' i"
    using r(3) by (simp add: r(2) is_email_verified_def update_conv')
  ultimately show ?thesis using u(1) by (auto simp: u(2,3) r(2) update_conv')
qed

section \<open>Requests for an e-mail\<close>

text \<open>No \<open>RuntimeError\<close>, the only exception of the flows that the routes do not catch.\<close>

definition mailable :: "'a emailed \<Rightarrow> bool" where
  "mailable x = (\<forall>t. x \<noteq> Inl (EmailRuntime t))"

lemma mailable_bind: "mailable x \<Longrightarrow> (\<And>y. mailable (f y)) \<Longrightarrow> mailable (rbind x f)"
  by (cases x) (simp_all add: mailable_def)

lemma mailable_ends [simp]: "mailable (Inr x)" "mailable (Inl (EmailConfiguration t))" "mailable (Inl (EmailDelivery t))"
  "mailable (Inl (EmailValue t))"
  by (simp_all add: mailable_def)

lemma settings_mailable: "mailable (email_settings_of e)" "mailable (validate_email_configuration st)"
  "mailable (template_id kind st)" "mailable (validate_idempotency_key k)"
proof -
  have "mailable (positive_int_env e n)" for n by (simp add: positive_int_env_def Let_def split: option.split)
  moreover have "mailable (positive_float_env e n d)" for n d by (simp add: positive_float_env_def split: option.split)
  ultimately show "mailable (email_settings_of e)"
    unfolding email_settings_of_def Let_def by (intro mailable_bind) simp_all
qed (simp_all add: validate_email_configuration_def template_id_def validate_idempotency_key_def Let_def)

lemma send_mailable: "mailable (send_template_email e post recipient kind params key)"
  unfolding send_template_email_def
  by (intro mailable_bind settings_mailable) (auto intro!: mailable_bind settings_mailable split: option.split prod.split)

lemma url_mailable: "mailable (public_web_url b e c)"
  by (simp add: public_web_url_def Let_def split: option.split)

lemma issued_mailable:
  assumes "flow_ttl e VERIFICATION_TTL = Inr n" and "flow_ttl e RESET_TTL = Inr k"
  shows "mailable (fst (issue_verification_email mac c e post raw now sent uid email rows))"
    and "mailable (fst (issue_password_reset_email b mac c e post raw now sent uid email rows))"
proof -
  show "mailable (fst (issue_verification_email mac c e post raw now sent uid email rows))"
    using assms(1) send_mailable by (simp add: issue_verification_email_def Let_def)
  have "mailable (rbind (public_web_url b e c) (\<lambda>base. map_sum id (Pair base) (flow_ttl e RESET_TTL)))"
    using assms(2) by (intro mailable_bind url_mailable) simp
  then show "mailable (fst (issue_password_reset_email b mac c e post raw now sent uid email rows))"
    using send_mailable by (auto simp: issue_password_reset_email_def Let_def mailable_def split: sum.splits)
qed

lemma caught_mailable: "mailable x \<Longrightarrow> \<exists>v. caught_email x = Inr v"
  by (cases x rule: caught_email.cases) (auto simp: mailable_def)

text \<open>Handlers that always answer, and those that always give one answer.\<close>

definition succeeds :: "('s, 'a) handler \<Rightarrow> bool" where
  "succeeds h = (\<forall>A. \<exists>x. fst (h A) = Inr x)"

definition answers :: "'a \<Rightarrow> ('s, 'a) handler \<Rightarrow> bool" where
  "answers x h = (\<forall>A. fst (h A) = Inr x)"

lemma answers_bind: "succeeds h \<Longrightarrow> (\<And>y. answers x (g y)) \<Longrightarrow> answers x (hbind h g)"
  unfolding answers_def succeeds_def hbind_eq by (metis sum.case(2))

lemma answers_cases:
  "answers x (hreturn x)" "answers x f \<Longrightarrow> (\<And>y. answers x (g y)) \<Longrightarrow> answers x (case o' of None \<Rightarrow> f | Some y \<Rightarrow> g y)"
  "(\<And>a b. answers x (h a b)) \<Longrightarrow> answers x (case p of (a, b) \<Rightarrow> h a b)"
  by (simp_all add: answers_def hreturn_def split: option.split prod.split)

lemma succeeding: "succeeds (hasking (\<lambda>A. Inr (f A)))" "succeeds (logged m k action kind i actor uid wid detail)"
  by (auto simp: succeeds_def hasking_def logged_run intro: exI [of _ True])

lemma answered_after: "(\<And>y. answers x (g y)) \<Longrightarrow> fst (hbind h g A) = map_sum id (\<lambda>ok. x) (fst (h A))"
  by (cases "h A"; cases "fst (h A)") (auto simp: hbind_def answers_def)

lemma mails_succeed:
  assumes "validate_auth_email_runtime (brackets_ok W) (env W) (cfg W) = Inr posture"
  shows "succeeds (send_reset W m uid u)" and "succeeds (send_verification W m uid u)"
proof -
  obtain n k where ttl: "flow_ttl (env W) VERIFICATION_TTL = Inr n" "flow_ttl (env W) RESET_TTL = Inr k"
    using assms by (auto simp: validate_auth_email_runtime_def Let_def elim!: rbindE)
  show "succeeds (send_reset W m uid u)" "succeeds (send_verification W m uid u)"
    using caught_mailable [OF issued_mailable(2) [OF ttl]] caught_mailable [OF issued_mailable(1) [OF ttl]]
    by (simp_all add: succeeds_def send_reset_def send_verification_def on_auth_def split_beta)
qed

text \<open>
  C40: With settings that pass the start-up check, the answer to a request for a verification or a
  reset e-mail depends on the budget alone: it tells neither whether the address has an account nor
  whether the mail was sent.
\<close>

theorem email_request_uniform:
  assumes "validate_auth_email_runtime (brackets_ok W) (env W) (cfg W) = Inr posture"
  shows "fst (request_password_reset W m email A) =
      map_sum id (\<lambda>ok. ''accepted'') (fst (consume_flow_budget W m ''reset'' email A)) \<and>
    fst (request_email_verification W m email A) =
      map_sum id (\<lambda>ok. ''accepted'') (fst (consume_flow_budget W m ''verify'' email A))"
  unfolding request_password_reset_def request_email_verification_def
  by (intro conjI answered_after answers_bind answers_cases succeeding mails_succeed [OF assms])

section \<open>The CSRF gate\<close>

lemma request_user_run: "request_user bearer_of W m r A =
    (case csrf_gate W r of Some e \<Rightarrow> (Inl e, A)
     | None \<Rightarrow> (current_user (keyed_hash W) (wide_loads W) (cfg W) (reading m 0 div SECOND)
         (bearer_of (authorization r)) (session_cookie r) (tenants (desk_of A)), A))"
  by (simp add: request_user_def hfail_def hasking_def split: option.split)

text \<open>
  C26: A changing request that is served for a session cookie, with no \<open>Authorization\<close> header,
  carries the CSRF token of that very session.
\<close>

theorem cookie_request_carries_csrf:
  assumes "request_user bearer_of W m r A = (Inr s, A')" and "via_cookie s"
    and "py_upper (http_method r) \<in> set UNSAFE_METHODS" and "starts_with ''/api/v1/'' (http_path r)"
    and "http_path r \<notin> set CSRF_EXEMPT" and "py_strip (authorization r) = []"
  shows "csrf_header r = create_csrf_token (keyed_hash W) (cfg W) (used_token s) \<and> used_token s = session_cookie r \<and> A' = A"
proof -
  have g: "csrf_gate W r = None" and c: "current_user (keyed_hash W) (wide_loads W) (cfg W) (reading m 0 div SECOND)
      (bearer_of (authorization r)) (session_cookie r) (tenants (desk_of A)) = Inr s" and A': "A' = A"
    using assms(1) by (auto simp: request_user_run split: option.splits)
  have u: "used_token s = (case bearer_of (authorization r) of Some t \<Rightarrow> t | None \<Rightarrow> session_cookie r)" "used_token s \<noteq> []"
    using session_user [OF c] by metis+
  have "bearer_of (authorization r) = None" using c assms(2)
    by (auto simp: current_user_def Let_def split: if_splits sum.splits option.splits prod.splits elim!: rbindE)
  then have t: "used_token s = session_cookie r" "session_cookie r \<noteq> []" using u by simp_all
  have "verify_csrf_token (keyed_hash W) (cfg W) (session_cookie r) (csrf_header r) = Inr True"
    using g assms(3-6) t(2) by (auto simp: csrf_gate_def split: sum.splits if_splits)
  then show ?thesis using t A' by (auto simp: verify_csrf_token_def compare_texts_def split: if_splits)
qed

text \<open>A header that is not ASCII makes the comparison raise, which no handler catches.\<close>

lemma nonascii_csrf_crashes:
  assumes "py_upper (http_method r) \<in> set UNSAFE_METHODS" and "starts_with ''/api/v1/'' (http_path r)"
    and "http_path r \<notin> set CSRF_EXEMPT" and "py_strip (authorization r) = []" and "session_cookie r \<noteq> []"
    and "\<not> is_ascii (csrf_header r)"
  shows "csrf_gate W r = Some (Crash TypeError)"
  using assms by (auto simp: csrf_gate_def verify_csrf_token_def compare_texts_def is_ascii_def)

text \<open>Any \<open>Authorization\<close> header opens the gate, also one that is no bearer token, for which the cookie is used.\<close>

lemma csrf_skipped_for_any_header:
  assumes "py_strip (authorization r) \<noteq> []" and "bearer_of (authorization r) = None"
    and "current_user (keyed_hash W) (wide_loads W) (cfg W) (reading m 0 div SECOND) None (session_cookie r) (tenants (desk_of A)) = Inr s"
  shows "request_user bearer_of W m r A = (Inr s, A)"
  using assms by (simp add: request_user_run csrf_gate_def)

section \<open>Investigations\<close>

text \<open>A text of blanks passes for a disposition and is stored as none.\<close>

lemma closed_without_disposition:
  assumes "open_report D uid i CASE True False = Some r" and "report_payload r = None"
  shows "\<exists>row D'. update_protocol_investigation clock_text uid i (Some ''closed'') (Some '' '') None D = Inr (Some (i, row), D') \<and>
    report_status row = ''closed'' \<and> dict_get (payload_of row) ''disposition'' = VNone"
proof -
  have s: "py_strip '' '' = []" "''closed'' \<in> set INVESTIGATION_STATUSES" by code_simp+
  have l: "Desk.listed [] ''status_history'' = Inr []" by code_simp
  obtain p where "case_status clock_text uid (Some ''closed'') (Some '' '') (report_status r) (payload_of r) = Inr (''closed'', p)"
    using assms(2) s(2) l by (cases "report_status r = ''closed''") (simp_all add: case_status_def payload_of_def given_def)
  then show ?thesis using assms s(1)
    by (auto simp: update_protocol_investigation_def report_view_def payload_of_def Let_def)
qed

section \<open>An example\<close>

definition sample_world :: "unit world" where
  "sample_world = \<lparr>cfg = sample_settings, env = (\<lambda>n. None), keyed_hash = toy_mac, derive_key = toy_scrypt,
     dummy_hash = [], wide_loads = (\<lambda>t. Inl ValueError), float_repr = (\<lambda>x. []), brackets_ok = (\<lambda>t. True),
     mail_post = (\<lambda>p. None), redis_of = \<lparr>redis_take = (\<lambda>s i t n. (True, s)), redis_delete = (\<lambda>s i. s)\<rparr>,
     limiter_outage = None,
     value_repr = (\<lambda>v. []), live_engines = (\<lambda>e d. Inl RuntimeError), alert_sender = (\<lambda>v. (None, 0)),
     sha_text = id, db_average = (\<lambda>xs. Fin 0), db_sum = (\<lambda>xs. Fin 0)\<rparr>"

definition sample_draws :: draws where
  "sample_draws = \<lparr>reading = (\<lambda>k. 1000 * SECOND), drawn = (\<lambda>k. ''new''),
     context_of = \<lparr>ctx_request = None, ctx_trace = None, ctx_span = None\<rparr>\<rparr>"

text \<open>Two users; the first has a workspace.\<close>

definition other_user :: user_row where
  "other_user = \<lparr>user_email = ''b@c'', password_hash = [], user_role = ''Fund'', token_version = 0\<rparr>"

definition sample_space :: workspace_row where
  "sample_space = \<lparr>owner_user = ''u1'', workspace_org = None, workspace_name = ''mine'', workspace_role = ''Fund'',
     workspace_created = 0\<rparr>"

definition two_tenants :: tenancy where
  "two_tenants = no_tenants\<lparr>users := [(''u1'', toy_user), (''u2'', other_user)], workspaces := [(''w1'', sample_space)]\<rparr>"

definition sample_api :: "unit api" where
  "sample_api = \<lparr>desk_of = empty_desk\<lparr>tenants := two_tenants\<rparr>, auth_rows = [],
     login_windows = \<lparr>account_slots = (\<lambda>i. []), global_slots = [], pg_store = pg_empty, redis_store = ()\<rparr>\<rparr>"

lemma sample_reach: "tenancy_reach two_tenants"
proof -
  let ?T = "no_tenants\<lparr>users := [(''u1'', toy_user), (''u2'', other_user)]\<rparr>"
  have "tenancy_reach ?T"
    by (rule tenancy_reach.signup [OF toy_reach, of "''u2''" "''b@c ''" "[]" "''Fund''" "(''u2'', other_user)"])
     (simp_all add: no_tenants_def create_user_def user_with_email_def normal_email_def py_strip_def py_lower_def
        lower_char_def py_space_def c_space_def code_def Let_def toy_user_def other_user_def)
  then show ?thesis
    by (rule tenancy_reach.workspace [where wid = "''w1''" and now = 0 and uid = "''u1''" and name = "''mine''"
        and role = "''Fund''" and org = None])
      (simp_all add: no_tenants_def create_workspace_def two_tenants_def sample_space_def Let_def in_organization_def)
qed

lemma sample_api_reach: "api_reach M sample_api"
  by (rule api_reach.start [OF sample_reach]) (simp add: sample_api_def)


definition web_token :: string where
  "web_token = create_token toy_mac (\<lambda>x. []) sample_settings 1000 1000 ''b@c'' ''Fund'' 0"

definition sample_user :: signed_in where
  "sample_user = \<lparr>via_cookie = True, used_token = web_token, user_id = ''u2'', user_of = other_user\<rparr>"

lemma sample_session:
  "current_user toy_mac (\<lambda>t. Inl ValueError) sample_settings 1000 None web_token two_tenants = Inr sample_user"
  unfolding sample_user_def
  using issued_session [OF reach_users [OF sample_reach], where uid = "''u2''" and u = other_user and issued = 1000 and now = 1000
      and cfg = sample_settings and later = 1000 and token = web_token and mac = toy_mac and frep = "\<lambda>x. []"
      and role = "''Fund''" and bearer = None and cookie = web_token and wide = "\<lambda>t. Inl ValueError"]
  by (simp add: web_token_def sample_settings_def other_user_def two_tenants_def)

definition web_request :: http_request where
  "web_request = \<lparr>http_method = ''GET'', http_path = ''/api/v1/me'', session_cookie = web_token,
     authorization = [], csrf_header = []\<rparr>"





lemma logout_revokes_sessions_witness:
  "\<exists>t. current_user toy_mac (\<lambda>t. Inl ValueError) sample_settings 1000 None web_token
     (tenants (desk_of (snd (logout sample_draws sample_user sample_api)))) = Inl (Http 401 t)"
proof -
  have s: "current_user toy_mac (\<lambda>t. Inl ValueError) sample_settings 1000 None web_token (tenants (desk_of sample_api)) =
      Inr sample_user"
    using sample_session by (simp add: sample_api_def)
  show ?thesis
    using logout_revokes_sessions [OF sample_api_reach s refl rtranclp.rtrancl_refl, where m = sample_draws and later = 1000]
    by (auto simp: sample_user_def)
qed

lemma csrf_token_nonempty: "create_csrf_token toy_mac sample_settings token \<noteq> []"
proof
  assume "create_csrf_token toy_mac sample_settings token = []"
  then have "unb64 [] = Inr (toy_mac (auth_secret sample_settings) (''csrf:'' @ token))"
    using unb64_b64 [of "toy_mac (auth_secret sample_settings) (''csrf:'' @ token)"] by (simp add: create_csrf_token_def)
  moreover have "unb64 [] = Inr []" by code_simp
  ultimately show False by (simp add: toy_mac_def sample_settings_def)
qed

lemma cookie_request_carries_csrf_witness:
  "session_cookie (web_request\<lparr>http_method := ''POST'', csrf_header := create_csrf_token toy_mac sample_settings web_token\<rparr>) =
   web_token"
proof -
  let ?r = "web_request\<lparr>http_method := ''POST'', csrf_header := create_csrf_token toy_mac sample_settings web_token\<rparr>"
  have m: "py_upper (http_method ?r) \<in> set UNSAFE_METHODS" unfolding web_request_def by simp code_simp
  have p: "starts_with ''/api/v1/'' (http_path ?r)" unfolding web_request_def by simp code_simp
  have x: "http_path ?r \<notin> set CSRF_EXEMPT" unfolding web_request_def by simp code_simp
  have h: "py_strip (authorization ?r) = []" unfolding web_request_def by (simp add: py_strip_def)
  have n: "web_token \<noteq> []" by (simp add: web_token_def created_token_nonempty)
  note n = n csrf_token_nonempty [of web_token]
  have "verify_csrf_token toy_mac sample_settings web_token (create_csrf_token toy_mac sample_settings web_token) = Inr True"
    using n by (simp add: verify_csrf_token_def compare_texts_def) (simp add: create_csrf_token_def b64_ascii)
  then have "csrf_gate sample_world ?r = None"
    by (simp add: csrf_gate_def web_request_def sample_world_def)
  then have "request_user (\<lambda>h. None) sample_world sample_draws ?r sample_api = (Inr sample_user, sample_api)"
    using sample_session by (simp add: request_user_run web_request_def sample_world_def sample_draws_def sample_api_def SECOND_def)
  from cookie_request_carries_csrf [OF this _ m p x h] show ?thesis by (simp add: sample_user_def web_request_def)
qed

definition sample_rows :: auth_table where
  "sample_rows = [(''u1'', (blank_auth 0)\<lparr>reset_digest := Some (token_digest toy_mac sample_settings ''t'' ''password-reset''),
     reset_expires := Some 10\<rparr>)]"

lemma reset_token_single_use_witness:
  "case consume_password_reset_token toy_mac sample_settings 5 ''t'' ''h'' two_tenants sample_rows of
     (found, T', rows') \<Rightarrow> consume_password_reset_token toy_mac sample_settings 6 ''t'' ''k'' T' rows' = (None, T', rows')"
proof -
  have u: "digests_unique sample_rows" by (simp add: digests_unique_def sample_rows_def)
  let ?u = "toy_user\<lparr>password_hash := ''h'', token_version := token_version toy_user + 1\<rparr>"
  let ?r = "snd (hd sample_rows)\<lparr>verified_at := Some 5, reset_digest := None, reset_expires := None, auth_updated := 5\<rparr>"
  have p: "pending_row reset_digest reset_expires (token_digest toy_mac sample_settings ''t'' ''password-reset'') 5 sample_rows =
      Some (''u1'', snd (hd sample_rows))"
    by (simp add: pending_row_def sample_rows_def)
  have m: "map_of (users two_tenants) ''u1'' = Some toy_user" by (simp add: two_tenants_def)
  have v: "verified_at (snd (hd sample_rows)) = None" by (simp add: sample_rows_def blank_auth_def)
  have c: "consume_password_reset_token toy_mac sample_settings 5 ''t'' ''h'' two_tenants sample_rows =
      (Some (''u1'', ?u), two_tenants\<lparr>users := AList.update ''u1'' ?u (users two_tenants)\<rparr>, AList.update ''u1'' ?r sample_rows)"
    by (simp add: consume_password_reset_token_def p m v Let_def)
  show ?thesis using reset_token_single_use [OF c u, of 6 "''k''"] c by auto
qed

text \<open>The settings that a process without any variable starts with.\<close>

lemma eight: "float_of_text ''8.0'' = Some (Fin 8)"
proof -
  have "c_strip (norm_int_text ''8.0'') = ''8.0''" "underscores_ok False ''8.0''" "py_lower ''8.0'' = ''8.0''"
    "split_sign (filter (\<lambda>c. c \<noteq> CHR ''_'') ''8.0'') = (False, ''8.0'')" by code_simp+
  moreover have "takeWhile (is_digit 10) ''8.0'' = ''8''" "dropWhile (is_digit 10) ''8.0'' = ''.0''"
    "takeWhile (is_digit 10) (drop 1 ''.0'') = ''0''" "dropWhile (is_digit 10) (drop 1 ''.0'') = []"
    "starts_with ''.'' ''.0''" "dec_value ''80'' = 80" by code_simp+
  then have "decimal_of ''8.0'' = Some 8" by (simp add: decimal_of_def Let_def scale10_def exponent_of_def)
  moreover have "fl 8 = Fin 8" using fl_small [of 8] rnd_ge_int [of 8 8] rnd_le_int [of 8 8] by simp
  ultimately show ?thesis by (simp add: float_of_text_def Let_def)
qed

lemma unset_runtime: "validate_auth_email_runtime (\<lambda>t. True) (\<lambda>n. None) c =
    Inr \<lparr>posture_required = False, posture_verification_ttl = 1800, posture_reset_ttl = 1800, posture_provider = ''disabled''\<rparr>"
proof -
  have e: "flow_ttl (\<lambda>n. None) VERIFICATION_TTL = Inr 1800" "flow_ttl (\<lambda>n. None) RESET_TTL = Inr 1800"
    "\<not> email_verification_required (\<lambda>n. None)" "py_lower (py_strip ''disabled'') = ''disabled''" "py_strip ''8.0'' = ''8.0''"
    "num_less (Fin 0) (Fin 8)" "num_le (Fin 8) (Fin 30)" by code_simp+
  have "positive_int_env (\<lambda>n. None) n = Inr None" for n by (simp add: positive_int_env_def getenv_def py_strip_def)
  moreover have "positive_float_env (\<lambda>n. None) n ''8.0'' = Inr (Fin 8)" for n
    by (simp add: positive_float_env_def getenv_def e eight)
  ultimately obtain st where "email_settings_of (\<lambda>n. None) = Inr st" "mail_provider st = ''disabled''"
    by (simp add: email_settings_of_def Let_def getenv_def e)
  then show ?thesis using e(1-3) by (simp add: validate_auth_email_runtime_def validate_email_configuration_def Let_def)
qed

lemma email_request_uniform_witness:
  "fst (request_password_reset sample_world sample_draws ''a@b'' sample_api) =
     map_sum id (\<lambda>ok. ''accepted'') (fst (consume_flow_budget sample_world sample_draws ''reset'' ''a@b'' sample_api))"
proof -
  have "\<exists>p. validate_auth_email_runtime (brackets_ok sample_world) (env sample_world) (cfg sample_world) = Inr p"
    by (simp add: sample_world_def unset_runtime)
  then obtain p where "validate_auth_email_runtime (brackets_ok sample_world) (env sample_world) (cfg sample_world) = Inr p" ..
  from email_request_uniform [OF this] show ?thesis by blast
qed

definition watched_api :: "unit api" where
  "watched_api = sample_api\<lparr>desk_of := (desk_of sample_api)\<lparr>monitors := [(''m1'', \<lparr>monitor_workspace = ''w1'',
     monitor_creator = ''u1'', monitor_entity = [], monitor_chain = [], monitor_rules = [], monitor_config = [],
     monitor_status = [], last_snapshot = None, last_analysis = None, last_status = None, monitor_created = 0,
     monitor_updated = 0\<rparr>)]\<rparr>\<rparr>"

definition sample_event :: push_request where
  "sample_event = \<lparr>push_workspace = ''w1'', push_monitor = ''m1'', push_type = ''t'', push_severity = ''high'',
     push_entity = None, push_confidence = None, push_observed = None, push_payload = []\<rparr>"

lemma pushed_event_guarded_witness:
  "snd (hypernative_event (sample_world\<lparr>env := (\<lambda>n. Some ''secret'')\<rparr>) sample_draws [] sample_event watched_api) = watched_api"
proof -
  let ?W = "sample_world\<lparr>env := (\<lambda>n. Some ''secret'')\<rparr>"
  have r: "alert_reach 3 (desk_of watched_api)"
    by (rule alert_reach.start) (simp add: watched_api_def sample_api_def empty_desk_def)
  have "py_strip ''secret'' = ''secret''" "py_lower ''secret'' = ''secret''" by code_simp+
  then have "accept_event ?W [] sample_event (desk_of watched_api) = Inl (Http 401 ''Invalid integration secret'')"
    by (simp add: accept_event_def ingress_root_def in_production_def getenv_def sample_event_def watched_api_def
      get_monitor_internal_def ingress_authentication_def)
  with pushed_event_guarded [OF r, where W = ?W and supplied = "[]" and ev = sample_event and m = sample_draws] show ?thesis by simp
qed

end
