(* ===== verification/Spec2Isabelle.thy ===== *)
theory Spec2Isabelle
  imports AbiDecode PrestateDiff EvmEvents Pipeline ProviderRuntime AuthRateLimit ReleaseTrust ReleaseLineage
    AlertQueue Application
begin

text \<open>
  A verification library for the Rivexis API (\<open>src/apps/api/rivexis_api\<close>, Python). Rivexis
  simulates and explains risks of blockchain transactions and positions: ten specialist engines
  gather evidence from providers, the results are normalised and combined into a decision.

  \<^bold>\<open>Parts of the program and their theories.\<close>

  \<^item> Values of Python (\<open>PyBase\<close>, \<open>PyText\<close>, \<open>PyNumber\<close>, \<open>PyFloat\<close>): dynamically
    typed values as the datatype \<open>pyval\<close>, dictionaries as association lists in insertion order, a
    raised exception as \<open>Inl\<close> of a sum. Texts are lists of code points below 256 with their case
    mapping, \<open>int(text, base)\<close> with signs, underscores and the limit of 4300 digits. Floats are
    rationals with an exact model of rounding to 53 bits, so every arithmetic step of the source
    is rounded as the machine rounds it.
  \<^item> Calldata and ABI (\<open>services/evm_decode.py\<close>): \<open>EvmCalldata\<close> (\<open>decode_common_calldata\<close>,
    \<open>_word\<close>, \<open>_address\<close>, \<open>_uint\<close>), \<open>Keccak\<close> (\<open>_keccak256\<close>, \<open>_function_selector\<close>),
    \<open>AbiTypes\<close> (\<open>_canonical_abi_type\<close> and the decoder of a static word) and \<open>AbiDecode\<close>
    (\<open>decode_verified_abi_calldata\<close> and the dynamic values).
  \<^item> Simulation results (\<open>services/evm_decode.py\<close>, \<open>services/evm_events.py\<close>): \<open>CallTrace\<close>
    (\<open>normalize_call_trace\<close> over a heap of nodes that may be cyclic), \<open>PrestateDiff\<close>
    (\<open>summarize_prestate_diff\<close>) and \<open>EvmEvents\<close> (\<open>normalize_standard_event_logs\<close>).
  \<^item> Engines and decision: \<open>EngineModel\<close> (\<open>models/\<close>), \<open>Chains\<close> (\<open>chains.py\<close>), \<open>B1Effects\<close> and
    \<open>Engines\<close> (\<open>engines.py\<close>: the effects summary, the contracts of the live engines, the
    demonstration engines and the dispatch) and \<open>Decision\<close> (\<open>decision.py\<close>).
  \<^item> Provider runtime: \<open>ControlPlane\<close> (\<open>runtime_backend.py\<close>: budgets and circuits per workspace
    and provider, as an interface and in the process), \<open>PostgresControl\<close> (\<open>postgres_control.py\<close>),
    \<open>Endpoints\<close> and \<open>ProviderRuntime\<close> (\<open>provider_runtime.py\<close>: the logical call with cache,
    circuit, budget, retries and telemetry). The state is the record \<open>runtime\<close>; a call takes it and
    returns it updated, with the clock readings and the outcomes of the attempts as its input.
  \<^item> Login limiter (\<open>services/auth_rate_limit.py\<close>): \<open>AuthRateLimit\<close>, over the same sliding window.
  \<^item> Release evidence: \<open>Certification\<close> (\<open>certification.py\<close>), \<open>ReleaseBase\<close> and \<open>ReleaseTrust\<close>
    (\<open>release_trust.py\<close>) and \<open>ReleaseLineage\<close> (\<open>release_lineage.py\<close>).
  \<^item> The database (\<open>services/store.py\<close>, \<open>services/db.py\<close>): \<open>Tenancy\<close> (users, organizations,
    memberships, workspaces and their access checks), \<open>Desk\<close> (analyses, decisions, portfolios,
    monitors, reports, reviews, investigations, audit entries, provider events) and \<open>AlertQueue\<close>
    (alerts, with \<open>services/alert_delivery.py\<close> and \<open>workers/alerts.py\<close>). A table is an association
    list from primary keys to rows, the whole database the record \<open>desk\<close>; an operation takes the
    fresh identifier and the clock reading it uses and returns the changed database.
  \<^item> Settings (\<open>core/config.py\<close>): \<open>RuntimeConfig\<close>, with the start-up check.
  \<^item> Authentication: \<open>Json\<close> (\<open>json.dumps\<close> and \<open>json.loads\<close> as the tokens use them), \<open>Sessions\<close>
    (\<open>core/security.py\<close>, \<open>api/deps.py\<close>) and \<open>EmailAuth\<close> (\<open>services/transactional_email.py\<close>,
    \<open>services/auth_email.py\<close>).
  \<^item> HTTP application (\<open>main.py\<close>, \<open>api/schemas.py\<close>): \<open>Accounts\<close> (the CSRF gate of the middleware,
    budgets, signing up and in, organizations, workspaces) and \<open>Routes\<close> (analyses, decisions,
    portfolios, saved analyses, monitors, reports, reviews, investigations, alerts, pushed events).
    A handler is a function from the state \<open>api\<close> (the database, the e-mail challenges and the slots of
    the login limiter) to a response or an error and the new state; \<open>world\<close> holds the parameters and
    \<open>draws\<close> the clock readings and random texts of one request.
  \<^item> \<open>Pipeline\<close> and \<open>Application\<close> hold the properties that span components. \<open>Application\<close> makes the
    handlers, pushed events and deliveries one step relation, \<open>api_step\<close>.

  \<^bold>\<open>Interfaces.\<close> Locales state what one component relies on: the words of an encoding in
  \<open>EvmCalldata\<close>, the sliding window (\<open>rate_window\<close>) and the laws of a control plane
  (\<open>lawful_plane\<close>, extended to \<open>isolated_plane\<close> by the runtime). Each is interpreted on the
  model's own definitions in the theory that provides them.

  \<^bold>\<open>What the lemmas show.\<close> For the decoders: round trips with the canonical encoding, soundness
  of what is reported as decoded, and bounds. For the normalisers: invariants of the report on
  every input. For the decision: safety of the decision to proceed, dominance of hard blockers,
  bounds of the scores under rounding. For the runtime: the accounting invariant over all
  reachable states, isolation of workspaces, exactness of the budget window, and that the
  PostgreSQL plane answers as the one in the process. For the releases: soundness of quorum and
  lineage, round trips of sealed records. For the tables: who may change memberships, the owners of
  organizations, the states of an alert and the exact effect of a delivery. For the application:
  \<open>HandlerLogic\<close> gives rules for what a handler may change, \<open>StoreEffects\<close> the effect of every
  operation of the tables, \<open>HandlerEffects\<close> one lemma per state-changing handler and \<open>Refusals\<close> that a refused
  request leaves no record; from these follow the invariant of all tables, the isolation of
  tenants, the end of sessions at logout and the guards of cookies, reset tokens and pushed events.
  Where the code raises an exception that its handler does not expect, a theorem shows the input.

  \<^bold>\<open>Bounds and fuel.\<close> The walk over a call trace is bounded by the code's own depth limit of
  128, so that no fuel is needed. The attempts of a logical call are a recursion over the number
  of retries plus one, as the source's loop; \<open>execute_returns\<close> shows that the end behind the loop
  is never reached. Padding in \<open>Keccak\<close> iterates at most one block. The JSON parser takes fuel
  for one more than twice the length of the text, which every value needs at most, as each call
  in it is preceded by a character read.

  \<^bold>\<open>Parameters.\<close> The JSON parser of a textual ABI, \<open>repr\<close> of values that are not texts, hash
  functions, HMAC and scrypt, the ISO-8601 parser, the clock, random texts, the environment, the live engines, the
  answers of providers and of the mail service, the sending of a webhook, the Redis script and the
  failures of a shared login limiter are arguments of the definitions that use them. Handlers that
  take the result of a protocol adapter have it as an argument.

  \<^bold>\<open>Not modelled.\<close> The live engines with the provider clients and protocol adapters, the
  certification runs and the signing of releases, the governance of the registry, retention and
  the inspection of database roles, telemetry, the rendering of reports, response headers and
  cookies' attributes, the Redis control plane, migrations and scripts. The database is taken to
  run each operation as one transaction, one after the other, without row-level security of its
  own. Concurrent calls are not interleaved: a call of the runtime is one step, as the code's
  flight lock makes it for one cache key, and so are a handler and the processing of the due alerts
  of a workspace, which the code commits alert by alert.
\<close>

end
